(* ===== verification/Json.thy ===== *)
theory Json
  imports Prelude
begin

text \<open>
  JSON values and the canonical encoding of \<open>crates/zeta-substrate/src/objects.rs\<close>.

  The record \<open>env\<close> holds what the crates take from third-party packages: the BLAKE3 functions
  of \<open>blake3\<close>, and of \<open>serde_json\<close> the quoting of strings, the text and the numeric views of
  a \<open>Number\<close>, and the printing and parsing of whole values.  A \<open>Number\<close> is the JSON literal
  that the \<open>arbitrary_precision\<close> feature keeps.  Every definition that reaches such code takes
  an \<open>env\<close>; what a theorem needs of it is a named predicate on \<open>env\<close>.
\<close>

section \<open>Values\<close>

datatype number = Number string

datatype json =
    JNull
  | JBool bool
  | JNumber number
  | JString string
  | JArray "json list"
  | JObject "(string \<times> json) list"

type_synonym json_map = "(string \<times> json) list"

type_synonym u8 = "8 word"

record env =
  blake3_hash :: "bytes \<Rightarrow> u8 list"
  blake3_derive_key :: "string \<Rightarrow> bytes \<Rightarrow> u8 list"
  json_quote :: "string \<Rightarrow> bytes"
  json_text :: "json \<Rightarrow> bytes"
  json_parse :: "bytes \<Rightarrow> json option"
  num_from_int :: "int \<Rightarrow> number"
  num_to_string :: "number \<Rightarrow> string"
  num_is_i64 :: "number \<Rightarrow> bool"
  num_is_u64 :: "number \<Rightarrow> bool"
  num_is_f64 :: "number \<Rightarrow> bool"
  num_as_i64 :: "number \<Rightarrow> int option"
  num_as_u64 :: "number \<Rightarrow> nat option"
  num_as_f64 :: "number \<Rightarrow> rat option"
  num_f64_text :: "number \<Rightarrow> string"

fun as_str :: "json \<Rightarrow> string option" where
  "as_str (JString s) = Some s"
| "as_str _ = None"

fun as_object :: "json \<Rightarrow> json_map option" where
  "as_object (JObject m) = Some m"
| "as_object _ = None"

fun is_object :: "json \<Rightarrow> bool" where
  "is_object (JObject _) = True"
| "is_object _ = False"

fun is_boolean :: "json \<Rightarrow> bool" where
  "is_boolean (JBool _) = True"
| "is_boolean _ = False"

fun as_u64 :: "env \<Rightarrow> json \<Rightarrow> nat option" where
  "as_u64 E (JNumber n) = num_as_u64 E n"
| "as_u64 E _ = None"

text \<open>A value in which no object repeats a key: every value a \<open>Map\<close> can hold.\<close>

primrec wf_json :: "json \<Rightarrow> bool" where
  "wf_json JNull = True"
| "wf_json (JBool b) = True"
| "wf_json (JNumber n) = True"
| "wf_json (JString s) = True"
| "wf_json (JArray vs) = list_all (\<lambda>b. b) (map wf_json vs)"
| "wf_json (JObject kvs) =
     (distinct (map fst kvs) \<and> list_all (\<lambda>(k, b). b) (map (map_prod id wf_json) kvs))"

section \<open>Numbers\<close>

text \<open>
  The failures of \<open>canonical_json\<close>.  \<open>ExpectFailed\<close> is the panic of the \<open>expect\<close> on the
  exponent's parse.
\<close>

datatype canonical_json_error =
    IntegerOutOfRange string
  | FloatOutOfRange string
  | ExpectFailed string

definition fixed_float :: "string \<Rightarrow> string" where
  "fixed_float text =
     (let (sign, magnitude) = (case strip_prefix ''-'' text of
             Some magnitude \<Rightarrow> (''-'', magnitude)
           | None \<Rightarrow> ('''', text))
      in case strip_prefix ''0.0000'' magnitude of
           None \<Rightarrow> text
         | Some digits \<Rightarrow>
             (case chars digits of
                [] \<Rightarrow> text
              | first # _ \<Rightarrow>
                  (let rest = drop (length first) digits in
                   if rest = [] then sign @ first @ ''e-05''
                   else sign @ first @ ''.'' @ rest @ ''e-05'')))"

text \<open>\<open>str::parse::<i32>\<close>: an optional sign, then decimal digits, in range.\<close>

definition parse_i32 :: "string \<Rightarrow> int option" where
  "parse_i32 s =
     (let (neg, digits) = (case s of
             [] \<Rightarrow> (False, [])
           | c # cs \<Rightarrow> if c = CHR ''-'' then (True, cs) else if c = CHR ''+'' then (False, cs) else (False, s))
      in case read_nat digits of
           None \<Rightarrow> None
         | Some n \<Rightarrow>
             (let i = (if neg then - int n else int n) in
              if - (2 ^ 31) \<le> i \<and> i < 2 ^ 31 then Some i else None))"

definition pad2 :: "string \<Rightarrow> string" where
  "pad2 s = (if length s < 2 then ''0'' @ s else s)"

definition python_number :: "env \<Rightarrow> number \<Rightarrow> (canonical_json_error, string) result" where
  "python_number E n =
     (if num_is_i64 E n \<or> num_is_u64 E n then Ok (num_to_string E n)
      else if \<not> num_is_f64 E n then
        (let number = num_to_string E n in
         if \<exists>c \<in> set number. c = CHR ''.'' \<or> c = CHR ''e'' \<or> c = CHR ''E''
         then Err (FloatOutOfRange number)
         else Err (IntegerOutOfRange number))
      else
        (let text = num_f64_text E n in
         case split_once (CHR ''e'') text of
           None \<Rightarrow> Ok (fixed_float text)
         | Some (mantissa, exponent) \<Rightarrow>
             (case parse_i32 exponent of
                None \<Rightarrow> Err (ExpectFailed ''serde_json renders a valid decimal exponent'')
              | Some x \<Rightarrow>
                  Ok (mantissa @ ''e'' @ (if x < 0 then ''-'' else ''+'')
                      @ pad2 (show_nat (nat \<bar>x\<bar>))))))"

section \<open>Canonical encoding\<close>

text \<open>
  \<open>write_value\<close> returns the bytes it appends.  The members of an object are written in the
  byte order of their keys, and the first failing member in that order is the one reported.
\<close>

lemma size_list_sort_key [simp]: "size_list f (sort_key g xs) = size_list f xs"
proof -
  have "sum_list (map f (sort_key g xs)) = sum_list (map f xs)"
    by (metis mset_map mset_sort sum_mset_sum_list)
  then show ?thesis by (simp add: size_list_conv_sum_list)
qed

function (sequential) write_value :: "env \<Rightarrow> json \<Rightarrow> (canonical_json_error, bytes) result"
  and write_elements :: "env \<Rightarrow> bool \<Rightarrow> json list \<Rightarrow> (canonical_json_error, bytes) result"
  and write_members :: "env \<Rightarrow> bool \<Rightarrow> json_map \<Rightarrow> (canonical_json_error, bytes) result"
where
  "write_value E JNull = Ok ''null''"
| "write_value E (JBool b) = Ok (if b then ''true'' else ''false'')"
| "write_value E (JNumber n) = python_number E n"
| "write_value E (JString s) = Ok (json_quote E s)"
| "write_value E (JArray vs) =
     and_then (write_elements E True vs) (\<lambda>out. Ok (''['' @ out @ '']''))"
| "write_value E (JObject kvs) =
     and_then (write_members E True (sort_key fst kvs)) (\<lambda>out. Ok (''{'' @ out @ ''}''))"
| "write_elements E first [] = Ok []"
| "write_elements E first (v # vs) =
     and_then (write_value E v) (\<lambda>out.
     and_then (write_elements E False vs) (\<lambda>rest.
     Ok ((if first then [] else '','') @ out @ rest)))"
| "write_members E first [] = Ok []"
| "write_members E first ((k, v) # kvs) =
     and_then (write_value E v) (\<lambda>out.
     and_then (write_members E False kvs) (\<lambda>rest.
     Ok ((if first then [] else '','') @ json_quote E k @ '':'' @ out @ rest)))"
  by pat_completeness auto
termination
  by (relation "measure (\<lambda>x. case x of
        Inl (E, v) \<Rightarrow> size v
      | Inr (Inl (E, f, vs)) \<Rightarrow> size_list size vs
      | Inr (Inr (E, f, kvs)) \<Rightarrow> size_list (size_prod (\<lambda>_. 0) size) kvs)") auto

definition canonical_json :: "env \<Rightarrow> json \<Rightarrow> (canonical_json_error, bytes) result" where
  "canonical_json E v = write_value E v"

end
