(* ===== verification/Canonical.thy ===== *)
theory Canonical
  imports Json
begin

text \<open>
  What the canonical encoding promises: two values have the same canonical bytes exactly when
  they are the same value up to the order of object members and the spelling of numbers.

  \<open>normal\<close> is that equivalence's normal form; \<open>enc\<close> is a reference printer that neither fails nor
  sorts.  The encoder of the source is the printer applied to the normal form
  (\<open>write_value_Ok_iff\<close>), and the printer is injective because every piece it prints ends where
  the next delimiter starts.
\<close>

section \<open>Normal form and reference printer\<close>

definition number_text :: "env \<Rightarrow> number \<Rightarrow> string" where
  "number_text E n = (case python_number E n of Inl _ \<Rightarrow> [] | Inr t \<Rightarrow> t)"

primrec normal :: "env \<Rightarrow> json \<Rightarrow> json" where
  "normal E JNull = JNull"
| "normal E (JBool b) = JBool b"
| "normal E (JNumber n) = JNumber (Number (number_text E n))"
| "normal E (JString s) = JString s"
| "normal E (JArray vs) = JArray (map (normal E) vs)"
| "normal E (JObject kvs) = JObject (sort_key fst (map (map_prod id (normal E)) kvs))"

primrec encodable :: "env \<Rightarrow> json \<Rightarrow> bool" where
  "encodable E JNull = True"
| "encodable E (JBool b) = True"
| "encodable E (JNumber n) = is_ok (python_number E n)"
| "encodable E (JString s) = True"
| "encodable E (JArray vs) = list_all (\<lambda>b. b) (map (encodable E) vs)"
| "encodable E (JObject kvs) = list_all (\<lambda>(k, b). b) (map (map_prod id (encodable E)) kvs)"

fun commas :: "string list \<Rightarrow> string" where
  "commas [] = []"
| "commas [x] = x"
| "commas (x # y # ys) = x @ '','' @ commas (y # ys)"

primrec enc :: "(string \<Rightarrow> bytes) \<Rightarrow> json \<Rightarrow> bytes" where
  "enc q JNull = ''null''"
| "enc q (JBool b) = (if b then ''true'' else ''false'')"
| "enc q (JNumber n) = (case n of Number t \<Rightarrow> t)"
| "enc q (JString s) = q s"
| "enc q (JArray vs) = ''['' @ commas (map (enc q) vs) @ '']''"
| "enc q (JObject kvs) =
     ''{'' @ commas (map (\<lambda>(k, s). q k @ '':'' @ s) (map (map_prod id (enc q)) kvs)) @ ''}''"

section \<open>The encoder is the printer on the normal form\<close>

lemma list_all_id_map: "list_all (\<lambda>b. b) (map f xs) \<longleftrightarrow> (\<forall>x \<in> set xs. f x)"
  by (auto simp: list_all_iff)

lemma list_all_snd_map:
  "list_all (\<lambda>(k, b). b) (map (map_prod id f) kvs) \<longleftrightarrow> (\<forall>(k, v) \<in> set kvs. f v)"
  by (auto simp: list_all_iff)

lemma encodable_array [simp]: "encodable E (JArray vs) \<longleftrightarrow> (\<forall>v \<in> set vs. encodable E v)"
  by (simp add: list_all_id_map)

lemma encodable_object [simp]:
  "encodable E (JObject kvs) \<longleftrightarrow> (\<forall>(k, v) \<in> set kvs. encodable E v)"
  by (simp only: encodable.simps list_all_snd_map)

lemma wf_json_array [simp]: "wf_json (JArray vs) \<longleftrightarrow> (\<forall>v \<in> set vs. wf_json v)"
  by (simp add: list_all_id_map)

lemma wf_json_object [simp]:
  "wf_json (JObject kvs) \<longleftrightarrow> distinct (map fst kvs) \<and> (\<forall>(k, v) \<in> set kvs. wf_json v)"
  by (simp only: wf_json.simps list_all_snd_map)

declare encodable.simps(5,6) [simp del] wf_json.simps(5,6) [simp del]

lemma insort_key_map_prod:
  "insort_key fst (map_prod id f x) (map (map_prod id f) xs) =
     map (map_prod id f) (insort_key fst x xs)"
  by (induction xs) auto

lemma sort_key_map_prod:
  "sort_key fst (map (map_prod id f) kvs) = map (map_prod id f) (sort_key fst kvs)"
  by (induction kvs) (simp_all add: insort_key_map_prod [unfolded id_def] id_def)

definition lead :: "bool \<Rightarrow> string list \<Rightarrow> string" where
  "lead first xs = (if first \<or> xs = [] then [] else '','')"

lemma commas_Cons: "commas (x # xs) = x @ lead False xs @ commas xs"
  by (cases xs) (simp_all add: lead_def)

text \<open>The outcome of the three mutually recursive writers, on every input.\<close>

lemma write_correct:
  shows "(encodable E v \<longrightarrow> write_value E v = Ok (enc (json_quote E) (normal E v)))
      \<and> (\<not> encodable E v \<longrightarrow> \<not> is_ok (write_value E v))"
  and "((\<forall>v \<in> set vs. encodable E v) \<longrightarrow>
          (\<forall>out. out = map (enc (json_quote E) \<circ> normal E) vs \<longrightarrow>
             write_elements E first vs = Ok (lead first out @ commas out)))
      \<and> ((\<exists>v \<in> set vs. \<not> encodable E v) \<longrightarrow> \<not> is_ok (write_elements E first vs))"
  and "((\<forall>(k, v) \<in> set kvs. encodable E v) \<longrightarrow>
          (\<forall>out. out = map (\<lambda>(k, v). json_quote E k @ '':'' @ enc (json_quote E) (normal E v)) kvs \<longrightarrow>
             write_members E first kvs = Ok (lead first out @ commas out)))
      \<and> ((\<exists>(k, v) \<in> set kvs. \<not> encodable E v) \<longrightarrow> \<not> is_ok (write_members E first kvs))"
proof (induction E v and E first vs and E first kvs
    rule: write_value_write_elements_write_members.induct)
  case (3 E n)
  then show ?case by (cases "python_number E n") (simp_all add: number_text_def)
next
  case (5 E vs)
  then show ?case
    by (cases "\<forall>v \<in> set vs. encodable E v")
      (auto simp: lead_def o_def is_ok_iff and_then_Ok_iff)
next
  case (6 E kvs)
  have "(\<lambda>(k, s). json_quote E k @ CHR '':'' # s) \<circ>
          (map_prod id (enc (json_quote E)) \<circ> map_prod id (normal E))
      = (\<lambda>(k, v). json_quote E k @ CHR '':'' # enc (json_quote E) (normal E v))"
    by auto
  with 6 show ?case
    by (cases "\<forall>(k, v) \<in> set kvs. encodable E v")
      (auto simp: lead_def sort_key_map_prod is_ok_iff and_then_Ok_iff)
next
  case (8 E first v vs)
  then show ?case
    by (cases "encodable E v"; cases "\<forall>v \<in> set vs. encodable E v")
      (auto simp: commas_Cons lead_def is_ok_iff and_then_Ok_iff)
next
  case (10 E first k v kvs)
  then show ?case
    by (cases "encodable E v"; cases "\<forall>(k, v) \<in> set kvs. encodable E v")
      (auto simp: commas_Cons lead_def is_ok_iff and_then_Ok_iff)
qed (auto simp: lead_def)

lemma write_value_Ok_iff:
  "write_value E v = Ok b \<longleftrightarrow> encodable E v \<and> b = enc (json_quote E) (normal E v)"
  using write_correct(1) [where E = E and v = v] by (auto simp: is_ok_iff)


section \<open>Reordering members does not change the encoding\<close>

text \<open>\<open>reordered v w\<close>: \<open>w\<close> is \<open>v\<close> with the members of its objects, at any depth, reordered.\<close>

inductive reordered :: "json \<Rightarrow> json \<Rightarrow> bool" where
  same: "reordered v v"
| elements: "length vs = length ws \<Longrightarrow> (\<And>i. i < length vs \<Longrightarrow> reordered (vs ! i) (ws ! i)) \<Longrightarrow>
    reordered (JArray vs) (JArray ws)"
| members: "map fst kvs = map fst lvs \<Longrightarrow>
    (\<And>i. i < length kvs \<Longrightarrow> reordered (snd (kvs ! i)) (snd (lvs ! i))) \<Longrightarrow>
    mset lvs = mset mvs \<Longrightarrow> reordered (JObject kvs) (JObject mvs)"

lemma write_elements_cong:
  "map (write_value E) vs = map (write_value E) ws \<Longrightarrow> write_elements E first vs = write_elements E first ws"
proof (induction vs arbitrary: ws first)
  case (Cons v vs)
  from Cons.prems obtain w ws' where "ws = w # ws'" "write_value E w = write_value E v"
    "map (write_value E) vs = map (write_value E) ws'" by (auto simp: Cons_eq_map_conv)
  with Cons.IH [of ws'] show ?case by simp
qed simp

lemma write_members_cong:
  "map (map_prod id (write_value E)) kvs = map (map_prod id (write_value E)) lvs \<Longrightarrow>
     write_members E first kvs = write_members E first lvs"
proof (induction kvs arbitrary: lvs first)
  case (Cons kv kvs)
  obtain k v where kv: "kv = (k, v)" by fastforce
  with Cons.prems obtain w lvs' where "lvs = (k, w) # lvs'" "write_value E w = write_value E v"
    "map (map_prod id (write_value E)) kvs = map (map_prod id (write_value E)) lvs'"
    by (auto simp: Cons_eq_map_conv id_def)
  with Cons.IH [of lvs'] kv show ?case by (simp add: id_def)
qed simp

lemma map_prod_pointwise:
  assumes "map fst kvs = map fst lvs" and "\<And>i. i < length kvs \<Longrightarrow> f (snd (kvs ! i)) = f (snd (lvs ! i))"
  shows "map (map_prod id f) kvs = map (map_prod id f) lvs"
proof (rule nth_equalityI)
  have len: "length kvs = length lvs" using assms(1) by (metis length_map)
  then show "length (map (map_prod id f) kvs) = length (map (map_prod id f) lvs)" by simp
  fix i assume "i < length (map (map_prod id f) kvs)"
  moreover from this have "fst (kvs ! i) = fst (lvs ! i)"
    using assms(1) len by (metis length_map nth_map)
  ultimately show "map (map_prod id f) kvs ! i = map (map_prod id f) lvs ! i"
    using assms(2) len by (simp add: map_prod_def split_def)
qed

lemma write_value_reordered: "reordered v w \<Longrightarrow> wf_json v \<Longrightarrow> write_value E v = write_value E w"
proof (induction rule: reordered.induct)
  case (elements vs ws)
  then have "map (write_value E) vs = map (write_value E) ws"
    by (auto intro!: nth_equalityI)
  from write_elements_cong [OF this] show ?case by simp
next
  case (members kvs lvs mvs)
  have pt: "map (map_prod id (write_value E)) kvs = map (map_prod id (write_value E)) lvs"
  proof (rule map_prod_pointwise)
    fix i assume i: "i < length kvs"
    then have "kvs ! i \<in> set kvs" by simp
    with members.prems have "wf_json (snd (kvs ! i))" by (auto simp: split_def)
    with i members.IH show "write_value E (snd (kvs ! i)) = write_value E (snd (lvs ! i))" by simp
  qed fact
  have "distinct (map fst lvs)" using members by simp
  then have "sort_key fst lvs = sort_key fst mvs"
    using members.hyps by (intro sort_key_perm_eq)
  moreover have "map (map_prod id (write_value E)) (sort_key fst kvs)
      = map (map_prod id (write_value E)) (sort_key fst lvs)"
    by (metis pt sort_key_map_prod)
  ultimately have "write_members E True (sort_key fst kvs) = write_members E True (sort_key fst mvs)"
    by (metis write_members_cong)
  then show ?case by simp
qed simp

section \<open>The encoding is injective\<close>

text \<open>
  What the crate relies on in \<open>serde_json\<close>: a quoted string opens with a quotation mark and ends
  where it says it ends, and the text of a number is a non-empty run of the characters of JSON
  number literals.
\<close>

definition quote_law :: "(string \<Rightarrow> bytes) \<Rightarrow> bool" where
  "quote_law q \<longleftrightarrow> (\<forall>s. \<exists>r. q s = CHR 0x22 # r) \<and> (\<forall>s t x y. q s @ x = q t @ y \<longrightarrow> s = t \<and> x = y)"

definition literal_chars :: "char set" where
  "literal_chars = set ''+-.0123456789eE''"

definition number_literal :: "string \<Rightarrow> bool" where
  "number_literal t \<longleftrightarrow> t \<noteq> [] \<and> set t \<subseteq> literal_chars"

definition json_printing :: "env \<Rightarrow> bool" where
  "json_printing E \<longleftrightarrow> quote_law (json_quote E) \<and> (\<forall>n. number_literal (num_to_string E n))
     \<and> (\<forall>n. number_literal (num_f64_text E n))"

primrec literals_ok :: "json \<Rightarrow> bool" where
  "literals_ok JNull = True"
| "literals_ok (JBool b) = True"
| "literals_ok (JNumber n) = (case n of Number t \<Rightarrow> number_literal t)"
| "literals_ok (JString s) = True"
| "literals_ok (JArray vs) = list_all (\<lambda>b. b) (map literals_ok vs)"
| "literals_ok (JObject kvs) = list_all (\<lambda>(k, b). b) (map (map_prod id literals_ok) kvs)"

definition delimited :: "string \<Rightarrow> bool" where
  "delimited x \<longleftrightarrow> x = [] \<or> hd x \<in> {CHR '','', CHR '']'', CHR ''}''}"

lemma literals_ok_array [simp]: "literals_ok (JArray vs) \<longleftrightarrow> (\<forall>v \<in> set vs. literals_ok v)"
  by (simp add: list_all_id_map)

lemma literals_ok_object [simp]: "literals_ok (JObject kvs) \<longleftrightarrow> (\<forall>(k, v) \<in> set kvs. literals_ok v)"
  by (simp only: literals_ok.simps list_all_snd_map)

declare literals_ok.simps(5,6) [simp del]

lemma run_unique:
  assumes "set s \<subseteq> A" "set t \<subseteq> A" "x = [] \<or> hd x \<notin> A" "y = [] \<or> hd y \<notin> A" "s @ x = t @ y"
  shows "s = t \<and> x = y"
proof -
  have span: "takeWhile (\<lambda>c. c \<in> A) (r @ z) = r" if "set r \<subseteq> A" "z = [] \<or> hd z \<notin> A" for r z
    using that by (induction r) (auto simp: takeWhile_eq_Nil_iff)
  from span [OF assms(1,3)] span [OF assms(2,4)] assms(5) have "s = t" by metis
  with assms(5) show ?thesis by simp
qed

lemma commas_inject:
  assumes step: "\<And>v w x y. v \<in> set vs \<Longrightarrow> w \<in> set ws \<Longrightarrow> delimited x \<Longrightarrow> delimited y \<Longrightarrow>
      f v @ x = f w @ y \<Longrightarrow> v = w \<and> x = y"
    and start: "\<And>v. v \<in> set vs \<union> set ws \<Longrightarrow> f v \<noteq> [] \<and> hd (f v) \<noteq> c"
    and c: "c \<in> {CHR '']'', CHR ''}''}"
    and eq: "commas (map f vs) @ c # x = commas (map f ws) @ c # y"
  shows "vs = ws \<and> x = y"
  using step start eq
proof (induction vs arbitrary: ws)
  case Nil
  show ?case
  proof (cases ws)
    case (Cons w ws')
    with Nil.prems(2) [of w] have "hd (f w @ z) \<noteq> c" for z by simp
    with Nil.prems(3) Cons show ?thesis by (metis append_Nil append_assoc commas.simps(1) commas_Cons list.map list.sel(1))
  qed (use Nil in simp)
next
  case (Cons v vs)
  have rest: "delimited (lead False (map f us) @ commas (map f us) @ c # z)" for us z
    using c by (auto simp: delimited_def lead_def)
  show ?case
  proof (cases ws)
    case Nil
    with Cons.prems(2) [of v] have "hd (f v @ z) \<noteq> c" for z by simp
    with Cons.prems(3) Nil show ?thesis by (metis append_Nil append_assoc commas.simps(1) commas_Cons list.map list.sel(1))
  next
    case (Cons w ws')
    with Cons.prems(3) have "f v @ (lead False (map f vs) @ commas (map f vs) @ c # x)
        = f w @ (lead False (map f ws') @ commas (map f ws') @ c # y)"
      by (simp add: commas_Cons)
    from Cons.prems(1) [OF _ _ rest rest this] Cons have vw: "v = w"
      and tail: "lead False (map f vs) @ commas (map f vs) @ c # x
        = lead False (map f ws') @ commas (map f ws') @ c # y" by auto
    from tail c have "commas (map f vs) @ c # x = commas (map f ws') @ c # y"
      by (cases vs; cases ws') (auto simp: lead_def)
    with Cons.IH [of ws'] Cons.prems(1,2) Cons have "vs = ws' \<and> x = y" by auto
    with vw Cons show ?thesis by simp
  qed
qed

lemma quote_law_start: "quote_law q \<Longrightarrow> q s \<noteq> [] \<and> hd (q s) = CHR 0x22"
  by (metis list.distinct(1) list.sel(1) quote_law_def)

lemma number_literal_start: "number_literal t \<Longrightarrow> t \<noteq> [] \<and> hd t \<in> literal_chars"
  by (auto simp: number_literal_def)

lemma literal_chars_disjoint [simp]:
  "CHR '','' \<notin> literal_chars" "CHR '']'' \<notin> literal_chars" "CHR ''}'' \<notin> literal_chars"
  "CHR ''n'' \<notin> literal_chars" "CHR ''t'' \<notin> literal_chars" "CHR ''f'' \<notin> literal_chars"
  "CHR 0x22 \<notin> literal_chars" "CHR ''['' \<notin> literal_chars" "CHR ''{'' \<notin> literal_chars"
  by (simp_all add: literal_chars_def)

lemma enc_head:
  assumes "quote_law q" "literals_ok v"
  shows "enc q v \<noteq> [] \<and> (case v of
      JNull \<Rightarrow> hd (enc q v) = CHR ''n''
    | JBool b \<Rightarrow> hd (enc q v) = (if b then CHR ''t'' else CHR ''f'')
    | JNumber n \<Rightarrow> hd (enc q v) \<in> literal_chars
    | JString s \<Rightarrow> hd (enc q v) = CHR 0x22
    | JArray vs \<Rightarrow> hd (enc q v) = CHR ''[''
    | JObject kvs \<Rightarrow> hd (enc q v) = CHR ''{'')"
  using assms quote_law_start [OF assms(1)]
  by (cases v) (auto dest: number_literal_start split: number.splits)

lemma enc_start:
  assumes "quote_law q" "literals_ok v"
  shows "enc q v \<noteq> [] \<and> hd (enc q v) \<notin> {CHR '','', CHR '']'', CHR ''}''}"
  using enc_head [OF assms] by (cases v) (auto split: if_splits number.splits)

text \<open>The first byte of an encoding tells which constructor made it.\<close>

lemma enc_same_kind:
  assumes q: "quote_law q" and v: "literals_ok v" and w: "literals_ok w"
    and hd: "hd (enc q w) = hd (enc q v)"
  shows "case v of
      JNull \<Rightarrow> w = JNull
    | JBool b \<Rightarrow> w = JBool b
    | JNumber n \<Rightarrow> \<exists>m. w = JNumber m
    | JString s \<Rightarrow> \<exists>t. w = JString t
    | JArray vs \<Rightarrow> \<exists>ws. w = JArray ws
    | JObject kvs \<Rightarrow> \<exists>lvs. w = JObject lvs"
proof -
  have neq: "CHR ''n'' \<noteq> c \<and> CHR ''t'' \<noteq> c \<and> CHR ''f'' \<noteq> c \<and> CHR 0x22 \<noteq> c \<and> CHR ''['' \<noteq> c \<and> CHR ''{'' \<noteq> c"
    if "c \<in> literal_chars" for c
    using that literal_chars_disjoint by blast
  show ?thesis
    using enc_head [OF q v] enc_head [OF q w] hd
    by (cases v; cases w) (auto dest: neq split: if_splits number.splits)
qed

lemma enc_same_head:
  assumes "quote_law q" "literals_ok v" "literals_ok w" "enc q v @ x = enc q w @ y"
  shows "hd (enc q w) = hd (enc q v)"
  using enc_start [OF assms(1,2)] enc_start [OF assms(1,3)] assms(4) by (metis hd_append2)


lemma number_prefix:
  assumes "number_literal t" "number_literal u" "delimited x" "delimited y" "t @ x = u @ y"
  shows "t = u \<and> x = y"
  using assms by (intro run_unique [of _ literal_chars])
    (auto simp: number_literal_def delimited_def)

lemma member_prefix:
  assumes "quote_law q" "q k @ '':'' @ enc q v @ x = q l @ '':'' @ enc q u @ y"
    and "enc q v @ x = enc q u @ y \<Longrightarrow> v = u \<and> x = y"
  shows "(k, v) = (l, u) \<and> x = y"
proof -
  have "k = l \<and> '':'' @ enc q v @ x = '':'' @ enc q u @ y"
    using assms(1,2) unfolding quote_law_def by blast
  with assms(3) show ?thesis by simp
qed

lemma enc_prefix:
  assumes q: "quote_law q"
  shows "literals_ok v \<Longrightarrow> literals_ok w \<Longrightarrow> delimited x \<Longrightarrow> delimited y \<Longrightarrow>
    enc q v @ x = enc q w @ y \<Longrightarrow> v = w \<and> x = y"
proof (induction v arbitrary: w x y)
  case JNull
  from enc_same_kind [OF q JNull.prems(1,2) enc_same_head [OF q JNull.prems(1,2,5)]] JNull.prems show ?case by simp
next
  case (JBool b)
  from enc_same_kind [OF q JBool.prems(1,2) enc_same_head [OF q JBool.prems(1,2,5)]] JBool.prems show ?case by simp
next
  case (JNumber n)
  obtain m where w: "w = JNumber m"
    using enc_same_kind [OF q JNumber.prems(1,2) enc_same_head [OF q JNumber.prems(1,2,5)]] by auto
  obtain t u where "n = Number t" "m = Number u" by (metis number.exhaust)
  with w JNumber.prems number_prefix [of t u x y] show ?case by simp
next
  case (JString s)
  obtain t where w: "w = JString t"
    using enc_same_kind [OF q JString.prems(1,2) enc_same_head [OF q JString.prems(1,2,5)]] by auto
  with JString.prems(5) have "q s @ x = q t @ y" by simp
  with q w show ?case unfolding quote_law_def by blast
next
  case (JArray vs)
  obtain ws where w: "w = JArray ws"
    using enc_same_kind [OF q JArray.prems(1,2) enc_same_head [OF q JArray.prems(1,2,5)]] by auto
  have "vs = ws \<and> x = y"
  proof (rule commas_inject [where f = "enc q" and c = "CHR '']''"])
    show "commas (map (enc q) vs) @ CHR '']'' # x = commas (map (enc q) ws) @ CHR '']'' # y"
      using JArray.prems w by simp
    show "enc q v \<noteq> [] \<and> hd (enc q v) \<noteq> CHR '']''" if "v \<in> set vs \<union> set ws" for v
      using enc_start [OF q, of v] that JArray.prems w by auto
    show "v = u \<and> a = b" if "v \<in> set vs" "u \<in> set ws" "delimited a" "delimited b"
      "enc q v @ a = enc q u @ b" for v u a b
      using that JArray.prems w by (intro JArray.IH [OF that(1) _ _ that(3-5)]) auto
  qed simp
  with w show ?case by simp
next
  case (JObject kvs)
  obtain lvs where w: "w = JObject lvs"
    using enc_same_kind [OF q JObject.prems(1,2) enc_same_head [OF q JObject.prems(1,2,5)]] by auto
  let ?f = "\<lambda>kv. q (fst kv) @ '':'' @ enc q (snd kv)"
  have f: "(\<lambda>(k, s). q k @ CHR '':'' # s) \<circ> map_prod id (enc q) = ?f" by auto
  have "kvs = lvs \<and> x = y"
  proof (rule commas_inject [where f = ?f and c = "CHR ''}''"])
    show "commas (map ?f kvs) @ CHR ''}'' # x = commas (map ?f lvs) @ CHR ''}'' # y"
      using JObject.prems(5) w by (simp add: f)
    show "?f kv \<noteq> [] \<and> hd (?f kv) \<noteq> CHR ''}''" for kv
      using quote_law_start [OF q, of "fst kv"] by simp
    show "kv = lu \<and> a = b" if m: "kv \<in> set kvs" "lu \<in> set lvs" "delimited a" "delimited b"
      "?f kv @ a = ?f lu @ b" for kv lu a b
    proof -
      have lits: "literals_ok (snd kv)" "literals_ok (snd lu)"
        using m(1,2) JObject.prems w by auto
      have "snd kv \<in> Basic_BNFs.snds kv" by (simp add: prod_set_simps snds.simps split_def)
      note IH = JObject.IH [OF m(1) this lits m(3,4)]
      have "(fst kv, snd kv) = (fst lu, snd lu) \<and> a = b"
        by (rule member_prefix [OF q _ IH]) (use m(5) in simp_all)
      then show ?thesis by (simp add: prod_eq_iff)
    qed
  qed simp
  with w show ?case by simp
qed


section \<open>Number texts\<close>

lemma number_literal_append [simp]:
  "set s \<subseteq> literal_chars \<Longrightarrow> number_literal t \<Longrightarrow> number_literal (s @ t)"
  "number_literal s \<Longrightarrow> set t \<subseteq> literal_chars \<Longrightarrow> number_literal (s @ t)"
  by (auto simp: number_literal_def)

lemma digit_char_literal [simp]: "d < 10 \<Longrightarrow> digit_char d \<in> literal_chars"
proof -
  have "list_all (\<lambda>d. digit_char d \<in> literal_chars) [0..<10]" by code_simp
  then show "d < 10 \<Longrightarrow> digit_char d \<in> literal_chars" by (simp add: list_all_iff)
qed

lemma number_literal_show_nat [simp]: "number_literal (show_nat n)"
  by (auto simp: number_literal_def dest!: set_show_nat)

lemma number_literal_show_int [simp]: "number_literal (show_int i)"
proof -
  have "set ''-'' \<subseteq> literal_chars" by (simp add: literal_chars_def)
  then have "number_literal (''-'' @ show_nat n)" for n
    by (rule number_literal_append(1)) simp
  then show ?thesis by (simp add: show_int_def)
qed

lemma fixed_float_shape:
  "fixed_float t = t \<or> (\<exists>a b. fixed_float t = a @ b @ ''e-05'' \<and> set a \<subseteq> set t \<and> set b \<subseteq> insert (CHR ''.'') (set t))"
proof -
  obtain sign m where sm: "(case strip_prefix ''-'' t of Some m \<Rightarrow> (''-'', m) | None \<Rightarrow> ('''', t)) = (sign, m)"
    by (rule prod.exhaust)
  then have t: "t = sign @ m"
    by (auto split: option.splits)
  note ff = fixed_float_def [of t, unfolded sm Let_def prod.case]
  show ?thesis
  proof (cases "strip_prefix ''0.0000'' m")
    case None
    then show ?thesis by (simp add: ff)
  next
    case (Some digits)
    note ff' = ff [unfolded Some option.case]
    from Some have m: "m = ''0.0000'' @ digits" by (simp only: strip_prefix_Some_iff)
    show ?thesis
    proof (cases "chars digits")
      case Nil
      then show ?thesis by (simp add: ff')
    next
      case (Cons first more)
      then have d: "digits = first @ concat more" by (metis concat.simps(2) concat_chars)
      then have sub: "set sign \<union> set first \<union> set (concat more) \<subseteq> set t" using t m by auto
      have "fixed_float t = (sign @ first) @ (if concat more = [] then [] else ''.'' @ concat more) @ ''e-05''"
        using Cons d by (simp add: ff')
      moreover have "set (if concat more = [] then [] else ''.'' @ concat more) \<subseteq> insert (CHR ''.'') (set t)"
        "set (sign @ first) \<subseteq> set t"
        using sub by auto
      ultimately show ?thesis by blast
    qed
  qed
qed

lemma number_literal_fixed_float: "number_literal t \<Longrightarrow> number_literal (fixed_float t)"
proof -
  assume t: "number_literal t"
  have e: "number_literal ''e-05''" by (simp add: number_literal_def literal_chars_def)
  have dot: "CHR ''.'' \<in> literal_chars" by (simp add: literal_chars_def)
  from fixed_float_shape [of t] show ?thesis
  proof
    assume "\<exists>a b. fixed_float t = a @ b @ ''e-05'' \<and> set a \<subseteq> set t \<and> set b \<subseteq> insert (CHR ''.'') (set t)"
    then obtain a b where ab: "fixed_float t = a @ b @ ''e-05''" "set a \<subseteq> set t" "set b \<subseteq> insert (CHR ''.'') (set t)"
      by blast
    have "set a \<subseteq> literal_chars" "set b \<subseteq> literal_chars"
      using ab(2,3) t dot unfolding number_literal_def by blast+
    then have "number_literal (a @ b @ ''e-05'')" by (intro number_literal_append(1) e)
    then show ?thesis by (simp only: ab(1))
  qed (use t in simp)
qed

lemma number_literal_pad2: "number_literal s \<Longrightarrow> number_literal (pad2 s)"
proof -
  have "set ''0'' \<subseteq> literal_chars" by (simp add: literal_chars_def)
  then show "number_literal s \<Longrightarrow> number_literal (pad2 s)"
    unfolding pad2_def by (metis number_literal_append(1))
qed

lemma number_literal_exponent:
  assumes "number_literal (num_f64_text E n)" "split_once (CHR ''e'') (num_f64_text E n) = Some (mant, expo)"
  shows "number_literal (mant @ ''e'' @ (if (x :: int) < 0 then ''-'' else ''+'') @ pad2 (show_nat k))"
proof -
  have "set ''e'' \<subseteq> literal_chars" "set (if x < 0 then ''-'' else ''+'') \<subseteq> literal_chars"
    by (simp_all add: literal_chars_def)
  moreover from split_once_SomeD [OF assms(2)] assms(1) have "set mant \<subseteq> literal_chars"
    by (auto simp: number_literal_def)
  ultimately show ?thesis
    by (intro number_literal_append(1) number_literal_pad2 number_literal_show_nat)
qed

lemma number_literal_python_number:
  assumes E: "json_printing E" and t: "python_number E n = Ok t"
  shows "number_literal t"
proof -
  have lit: "number_literal (num_to_string E n)" "number_literal (num_f64_text E n)"
    using E by (simp_all add: json_printing_def)
  consider "num_is_i64 E n \<or> num_is_u64 E n" | "\<not> (num_is_i64 E n \<or> num_is_u64 E n)" "num_is_f64 E n"
    using t by (auto simp: python_number_def Let_def split: if_splits)
  then show ?thesis
  proof cases
    case 2
    show ?thesis
    proof (cases "split_once (CHR ''e'') (num_f64_text E n)")
      case None
      then show ?thesis using t 2 number_literal_fixed_float [OF lit(2)] by (simp add: python_number_def Let_def)
    next
      case (Some p)
      obtain mant expo where p: "p = (mant, expo)" by (rule prod.exhaust)
      obtain x where "parse_i32 expo = Some x"
        using t 2 Some p by (auto simp: python_number_def Let_def split: option.splits)
      then have "t = mant @ ''e'' @ (if x < 0 then ''-'' else ''+'') @ pad2 (show_nat (nat \<bar>x\<bar>))"
        using t 2 Some p by (simp add: python_number_def Let_def)
      with number_literal_exponent [OF lit(2)] Some p show ?thesis by metis
    qed
  qed (use t lit in \<open>simp add: python_number_def\<close>)
qed

lemma literals_ok_normal:
  assumes "json_printing E"
  shows "encodable E v \<Longrightarrow> literals_ok (normal E v)"
  by (induction v)
    (auto simp: number_text_def dest: number_literal_python_number [OF assms] split: sum.splits)

lemma write_value_inject:
  assumes "json_printing E" "write_value E v = Ok b" "write_value E w = Ok b"
  shows "normal E v = normal E w"
proof -
  from assms have "encodable E v" "encodable E w" "enc (json_quote E) (normal E v) @ [] = enc (json_quote E) (normal E w) @ []"
    by (auto simp: write_value_Ok_iff)
  moreover have "quote_law (json_quote E)" using assms(1) by (simp add: json_printing_def)
  ultimately show ?thesis
    using enc_prefix [of "json_quote E" "normal E v" "normal E w" "[]" "[]"] literals_ok_normal [OF assms(1)]
    by (simp add: delimited_def)
qed

section \<open>A concrete environment\<close>

text \<open>
  Stand-ins for the third-party functions on which the hypotheses of the theorems can be
  evaluated: quoting escapes the quote and the backslash, a number literal is read as a
  decimal integer, and the digests are the byte sum and the length, padded to 32 bytes.
\<close>

definition escape_char :: "char \<Rightarrow> string" where
  "escape_char c = (if c = CHR 0x22 \<or> c = CHR 0x5C then [CHR 0x5C, c] else [c])"

definition sample_quote :: "string \<Rightarrow> bytes" where
  "sample_quote s = CHR 0x22 # concat (map escape_char s) @ [CHR 0x22]"

definition sample_digest :: "bytes \<Rightarrow> u8 list" where
  "sample_digest b = replicate 30 0 @ [foldr (\<lambda>c n. of_char c + n) b 0, of_nat (length b)]"

definition sample_literal :: "number \<Rightarrow> string" where
  "sample_literal n = (case n of Number t \<Rightarrow> if t \<noteq> [] \<and> list_all (\<lambda>c. c \<in> literal_chars) t then t else ''0'')"

definition sample_i64 :: "number \<Rightarrow> int option" where
  "sample_i64 n = (case sample_literal n of
     [] \<Rightarrow> None
   | c # cs \<Rightarrow> if c = CHR ''-'' then map_option (\<lambda>k. - int k) (read_nat cs)
       else map_option int (read_nat (c # cs)))"

definition sample_env :: env where
  "sample_env = \<lparr>
     blake3_hash = sample_digest,
     blake3_derive_key = (\<lambda>context b. sample_digest (context @ b)),
     json_quote = sample_quote,
     json_text = enc sample_quote,
     json_parse = (\<lambda>_. None),
     num_from_int = (\<lambda>i. Number (show_int i)),
     num_to_string = sample_literal,
     num_is_i64 = (\<lambda>n. sample_i64 n \<noteq> None),
     num_is_u64 = (\<lambda>n. sample_i64 n \<noteq> None \<and> the (sample_i64 n) \<ge> 0),
     num_is_f64 = (\<lambda>_. False),
     num_as_i64 = sample_i64,
     num_as_u64 = (\<lambda>n. Option.bind (sample_i64 n) (\<lambda>i. if 0 \<le> i then Some (nat i) else None)),
     num_as_f64 = (\<lambda>n. map_option of_int (sample_i64 n)),
     num_f64_text = sample_literal \<rparr>"

lemma escape_char_cases:
  obtains "c = CHR 0x22 \<or> c = CHR 0x5C" "escape_char c = [CHR 0x5C, c]"
  | "c \<noteq> CHR 0x22" "c \<noteq> CHR 0x5C" "escape_char c = [c]"
  by (auto simp: escape_char_def)

lemma sample_body_inject:
  "concat (map escape_char s) @ CHR 0x22 # x = concat (map escape_char t) @ CHR 0x22 # y \<Longrightarrow> s = t \<and> x = y"
proof (induction s arbitrary: t)
  case Nil
  then show ?case
    by (cases t) (auto simp: escape_char_def split: if_splits)
next
  case (Cons c s)
  then obtain d t' where t: "t = d # t'"
    by (cases t) (auto simp: escape_char_def split: if_splits)
  have "c = d \<and> concat (map escape_char s) @ CHR 0x22 # x = concat (map escape_char t') @ CHR 0x22 # y"
    using Cons.prems unfolding t
    by (cases c rule: escape_char_cases; cases d rule: escape_char_cases) auto
  with Cons.IH t show ?case by blast
qed

lemma sample_quote_law: "quote_law sample_quote"
  by (auto simp: quote_law_def sample_quote_def dest: sample_body_inject)

lemma number_literal_sample: "number_literal (sample_literal n)"
proof -
  have z: "number_literal ''0''" by (simp add: number_literal_def literal_chars_def)
  obtain t where n: "n = Number t" by (cases n)
  show ?thesis
  proof (cases "t \<noteq> [] \<and> list_all (\<lambda>c. c \<in> literal_chars) t")
    case True
    then show ?thesis by (simp add: n sample_literal_def number_literal_def subset_iff list_all_iff)
  next
    case False
    then have "sample_literal n = ''0''" by (simp only: n sample_literal_def number.case if_False)
    then show ?thesis by (simp only: z)
  qed
qed

lemma sample_json_printing [simp]: "json_printing sample_env"
  unfolding json_printing_def sample_env_def env.simps
  by (intro conjI allI number_literal_sample sample_quote_law)

section \<open>Integers\<close>

definition u64_max :: nat where
  "u64_max = 2 ^ 64 - 1"

definition is_i64 :: "int \<Rightarrow> bool" where
  "is_i64 i \<longleftrightarrow> - (2 ^ 63) \<le> i \<and> i < 2 ^ 63"

text \<open>
  What \<open>serde_json\<close> documents of integers: an \<open>i64\<close> prints as its decimal numeral, and a \<open>Number\<close>
  made from an integer is read back as that integer by the view that can hold it.
\<close>

definition integer_printing :: "env \<Rightarrow> bool" where
  "integer_printing E \<longleftrightarrow> (\<forall>i. is_i64 i \<longrightarrow> python_number E (num_from_int E i) = Ok (show_int i))"

definition integer_views :: "env \<Rightarrow> bool" where
  "integer_views E \<longleftrightarrow>
     (\<forall>n \<le> u64_max. num_as_u64 E (num_from_int E (int n)) = Some n)
     \<and> (\<forall>i. is_i64 i \<longrightarrow> num_as_i64 E (num_from_int E i) = Some i)
     \<and> (\<forall>i < 0. num_as_u64 E (num_from_int E i) = None)"

lemma sample_literal_int [simp]: "sample_literal (Number (show_int i)) = show_int i"
  using number_literal_show_int [of i]
  by (simp add: sample_literal_def number_literal_def list_all_iff subset_iff)

lemma sample_i64_int [simp]: "sample_i64 (Number (show_int i)) = Some i"
proof (cases "i < 0")
  case True
  then show ?thesis by (simp add: sample_i64_def) (simp add: show_int_def read_nat_show_nat)
next
  case False
  obtain c cs where s: "show_nat (nat i) = c # cs" "c \<noteq> CHR ''-''"
    using show_nat_no_minus [of "nat i"] number_literal_show_nat [of "nat i"]
    by (cases "show_nat (nat i)") (auto simp: number_literal_def)
  then show ?thesis
    using False read_nat_show_nat [of "nat i"] by (simp add: sample_i64_def) (simp add: show_int_def)
qed

lemma sample_integer_views [simp]: "integer_views sample_env"
  by (simp add: integer_views_def sample_env_def)

lemma sample_integer_printing [simp]: "integer_printing sample_env"
  by (simp add: integer_printing_def python_number_def sample_env_def)

section \<open>Properties\<close>

text \<open>Reordering the members of the objects inside a value, at any depth, does not change what
  the canonical encoder returns, bytes or error.\<close>

theorem canonical_json_order_irrelevant:
  assumes "wf_json v" "reordered v w"
  shows "canonical_json E v = canonical_json E w"
  unfolding canonical_json_def by (rule write_value_reordered [OF assms(2,1)])

theorem canonical_json_order_irrelevant_witness:
  "wf_json (JObject [(''b'', JNull), (''a'', JBool True)])
   \<and> canonical_json sample_env (JObject [(''b'', JNull), (''a'', JBool True)])
     = canonical_json sample_env (JObject [(''a'', JBool True), (''b'', JNull)])"
proof (rule conjI)
  show wf: "wf_json (JObject [(''b'', JNull), (''a'', JBool True)])" by simp
  have "reordered (JObject [(''b'', JNull), (''a'', JBool True)]) (JObject [(''a'', JBool True), (''b'', JNull)])"
    by (rule members [of _ "[(''b'', JNull), (''a'', JBool True)]"]) (simp_all add: same)
  then show "canonical_json sample_env (JObject [(''b'', JNull), (''a'', JBool True)])
     = canonical_json sample_env (JObject [(''a'', JBool True), (''b'', JNull)])"
    by (rule canonical_json_order_irrelevant [OF wf])
qed

text \<open>C28: the canonical encoding identifies a value: two values with the same canonical bytes have
  the same normal form, that is, they agree up to the order of object members and the spelling of
  numbers, whenever string quoting is self-delimiting and numbers print as JSON literals.\<close>

theorem canonical_json_injective:
  assumes "json_printing E" "canonical_json E v = Ok b" "canonical_json E w = Ok b"
  shows "normal E v = normal E w"
  by (rule write_value_inject [OF assms [unfolded canonical_json_def]])

theorem canonical_json_injective_witness:
  "canonical_json sample_env (JObject [(''b'', JNull), (''a'', JBool True)]) =
     Ok (''{'' @ [CHR 0x22] @ ''a'' @ [CHR 0x22] @ '':true,'' @ [CHR 0x22] @ ''b'' @ [CHR 0x22] @ '':null}'')
   \<and> normal sample_env (JObject [(''b'', JNull), (''a'', JBool True)]) =
     normal sample_env (JObject [(''a'', JBool True), (''b'', JNull)])"
  (is "canonical_json _ ?v = Ok ?b \<and> _ = normal _ ?w")
proof -
  have "canonical_json sample_env ?v = Ok ?b" "canonical_json sample_env ?w = Ok ?b" by code_simp+
  then have "normal sample_env ?v = normal sample_env ?w"
    by (rule canonical_json_injective [OF sample_json_printing])
  with \<open>canonical_json sample_env ?v = Ok ?b\<close> show ?thesis by (rule conjI)
qed

end
