(* ===== verification/Hashing.thy ===== *)
theory Hashing
  imports Canonical
begin

text \<open>
  \<open>crates/zeta-substrate/src/hash.rs\<close> and \<open>domain.rs\<close>: the 32-byte hash, its \<open>b3:\<close> text and
  strict parser, and the domains of derived identifiers.  A Rust \<open>char\<close> is the string of its
  UTF-8 bytes.  The locale \<open>spelling\<close> is the contract of a text form that is unique: it is
  interpreted here on hashes and later on the status names of the dispatcher.
\<close>

section \<open>Unique spellings\<close>

locale spelling =
  fixes display :: "'a \<Rightarrow> string"
    and from_text :: "string \<Rightarrow> ('e, 'a) result"
    and valid :: "'a \<Rightarrow> bool"
  assumes parse_display: "valid x \<Longrightarrow> from_text (display x) = Ok x"
    and display_parse: "from_text s = Ok x \<Longrightarrow> valid x \<and> display x = s"

sublocale spelling \<subseteq> round_trip display from_text valid
  by unfold_locales (rule parse_display)

context spelling
begin

lemma display_inject: "valid x \<Longrightarrow> valid y \<Longrightarrow> display x = display y \<longleftrightarrow> x = y"
  by (rule encode_inject)

lemma parse_Ok_iff: "from_text s = Ok x \<longleftrightarrow> valid x \<and> s = display x"
  using parse_display display_parse by blast

lemma one_spelling: "from_text s = Ok x \<Longrightarrow> from_text t = Ok x \<Longrightarrow> s = t"
  by (simp add: parse_Ok_iff)

lemma rejected_iff: "(\<exists>e. from_text s = Err e) \<longleftrightarrow> s \<notin> display ` {x. valid x}"
  by (cases "from_text s") (auto simp: parse_Ok_iff parse_display)

end

section \<open>Hashes\<close>

datatype hash = Hash (hash_as_bytes: "u8 list")

definition hash_from_bytes :: "u8 list \<Rightarrow> hash" where
  "hash_from_bytes bytes = Hash bytes"

text \<open>The array length of \<open>[u8; 32]\<close>.\<close>

definition wf_hash :: "hash \<Rightarrow> bool" where
  "wf_hash h \<longleftrightarrow> length (hash_as_bytes h) = 32"

definition PREFIX :: string where
  "PREFIX = ''b3:''"

definition HEX_DIGITS :: string where
  "HEX_DIGITS = ''0123456789abcdef''"

definition byte_hex :: "u8 \<Rightarrow> string" where
  "byte_hex byte = [HEX_DIGITS ! unat (drop_bit 4 byte), HEX_DIGITS ! unat (and byte 0x0f)]"

definition to_hex :: "hash \<Rightarrow> string" where
  "to_hex h = concat (map byte_hex (hash_as_bytes h))"

definition hash_display :: "hash \<Rightarrow> string" where
  "hash_display h = PREFIX @ to_hex h"

datatype hash_parse_error = MissingPrefix | BadLength nat | BadDigit string

definition hex_value :: "string \<Rightarrow> (hash_parse_error, u8) result" where
  "hex_value character =
     (case character of
        [b] \<Rightarrow> if CHR ''0'' \<le> b \<and> b \<le> CHR ''9'' then Ok (of_char b - of_char (CHR ''0''))
               else if CHR ''a'' \<le> b \<and> b \<le> CHR ''f'' then Ok (of_char b - of_char (CHR ''a'') + 10)
               else Err (BadDigit character)
      | _ \<Rightarrow> Err (BadDigit character))"

text \<open>\<open>characters.next().unwrap_or('\0')\<close>.\<close>

definition next_char :: "string list \<Rightarrow> string \<times> string list" where
  "next_char cs = (case cs of [] \<Rightarrow> ([CHR 0x00], []) | c # cs \<Rightarrow> (c, cs))"

text \<open>The loop over the bytes still to fill.\<close>

primrec fill_bytes :: "nat \<Rightarrow> string list \<Rightarrow> (hash_parse_error, u8 list) result" where
  "fill_bytes 0 characters = Ok []"
| "fill_bytes (Suc n) characters =
     (let (a, characters) = next_char characters in
      and_then (hex_value a) (\<lambda>high.
        let (b, characters) = next_char characters in
        and_then (hex_value b) (\<lambda>low.
          and_then (fill_bytes n characters) (\<lambda>bytes.
            Ok (or (push_bit 4 high) low # bytes)))))"

definition hash_from_str :: "string \<Rightarrow> (hash_parse_error, hash) result" where
  "hash_from_str text =
     (case strip_prefix PREFIX text of
        None \<Rightarrow> Err MissingPrefix
      | Some digest \<Rightarrow>
          if length digest \<noteq> 64 then Err (BadLength (length digest))
          else and_then (fill_bytes 32 (chars digest)) (\<lambda>bytes. Ok (Hash bytes)))"

definition hash_bytes :: "env \<Rightarrow> bytes \<Rightarrow> hash" where
  "hash_bytes E bytes = Hash (blake3_hash E bytes)"

section \<open>Domains\<close>

datatype domain = DomainObject | DomainDerivation | DomainChain

fun domain_context :: "domain \<Rightarrow> string" where
  "domain_context DomainObject = ''zeta-os 2026-08 cas object''"
| "domain_context DomainDerivation = ''zeta-os 2026-08 cas derivation''"
| "domain_context DomainChain = ''zeta-os 2026-08 cas chain''"

definition derive :: "env \<Rightarrow> domain \<Rightarrow> bytes \<Rightarrow> hash" where
  "derive E domain input = Hash (blake3_derive_key E (domain_context domain) input)"

text \<open>BLAKE3 digests have 32 bytes.\<close>

definition digest_law :: "env \<Rightarrow> bool" where
  "digest_law E \<longleftrightarrow> (\<forall>b. length (blake3_hash E b) = 32) \<and> (\<forall>c b. length (blake3_derive_key E c b) = 32)"

lemma wf_hash_bytes [simp]: "digest_law E \<Longrightarrow> wf_hash (hash_bytes E b)"
  by (simp add: digest_law_def wf_hash_def hash_bytes_def)

lemma wf_derive [simp]: "digest_law E \<Longrightarrow> wf_hash (derive E d b)"
  by (simp add: digest_law_def wf_hash_def derive_def)

lemma sample_digest_law [simp]: "digest_law sample_env"
  by (simp add: digest_law_def sample_env_def sample_digest_def)

lemma domain_context_inject [simp]: "domain_context d = domain_context e \<longleftrightarrow> d = e"
  by (cases d; cases e) simp_all

section \<open>Hex digits\<close>

lemma char_from_code: "of_char b = (n :: nat) \<Longrightarrow> b = char_of n"
  by auto

lemma hex_value_range: "hex_value [b] = Ok v \<Longrightarrow> b \<in> set HEX_DIGITS"
proof -
  assume "hex_value [b] = Ok v"
  then have "of_char b \<in> {48..57 :: nat} \<or> of_char b \<in> {97..102 :: nat}"
    by (auto simp: hex_value_def less_eq_char_def split: if_splits)
  then have "of_char b \<in> set [48, 49, 50, 51, 52, 53, 54, 55, 56, 57, 97, 98, 99, 100, 101, 102 :: nat]"
    unfolding list.set insert_iff empty_iff atLeastAtMost_iff by presburger
  then have "(of_char b :: nat) \<in> of_char ` set HEX_DIGITS" by (simp add: HEX_DIGITS_def)
  then show ?thesis by (auto dest: char_from_code)
qed

lemma HEX_DIGITS_nth: "k < 16 \<Longrightarrow> hex_value [HEX_DIGITS ! k] = Ok (of_nat k)"
proof -
  assume "k < 16"
  then have "k \<in> set [0, 1, 2, 3, 4, 5, 6, 7, 8, 9, 10, 11, 12, 13, 14, 15]"
    unfolding list.set insert_iff empty_iff by presburger
  then show ?thesis
    by (simp only: list.set insert_iff empty_iff HEX_DIGITS_def)
      (elim disjE; simp add: hex_value_def less_eq_char_def)
qed

lemma hex_value_OkD:
  assumes "hex_value c = Ok v"
  shows "unat v < 16 \<and> c = [HEX_DIGITS ! unat v]"
proof -
  obtain b where c: "c = [b]"
    using assms by (auto simp: hex_value_def split: list.splits)
  with hex_value_range assms have "b \<in> set HEX_DIGITS" by blast
  moreover have "length HEX_DIGITS = 16" by (simp add: HEX_DIGITS_def)
  ultimately obtain k where k: "k < 16" "b = HEX_DIGITS ! k"
    by (metis in_set_conv_nth)
  with HEX_DIGITS_nth assms c have "v = of_nat k" by simp
  with k c show ?thesis by (simp add: unat_of_nat)
qed

lemma high_nibble: "unat (drop_bit 4 (b :: u8)) < 16"
proof -
  have "unat (drop_bit 4 b) = unat b div 16"
    unfolding unsigned_drop_bit_eq using unsigned_less [of b, where 'a = nat]
    by (simp add: drop_bit_eq_div take_bit_nat_eq_self)
  then show ?thesis using unsigned_less [of b, where 'a = nat] by simp
qed

lemma low_mask: "and b 0x0f = take_bit 4 (b :: u8)"
  by (simp add: take_bit_eq_mask mask_eq_exp_minus_1)

lemma low_nibble: "unat (and (b :: u8) 0x0f) < 16"
proof -
  have "unat (take_bit 4 b) = unat b mod 16"
    unfolding unsigned_take_bit_eq by (simp add: take_bit_eq_mod)
  then show ?thesis by (simp add: low_mask)
qed

lemma nibbles_join: "or (push_bit 4 (drop_bit 4 b)) (and b 0x0f) = (b :: u8)"
  unfolding low_mask by (rule bit_eqI) (auto simp: bit_simps)

lemma nibbles_split:
  fixes hi lo :: u8
  assumes "unat hi < 16" "unat lo < 16"
  shows "drop_bit 4 (or (push_bit 4 hi) lo) = hi \<and> and (or (push_bit 4 hi) lo) 0x0f = lo"
proof -
  have small: "take_bit 4 w = w" if "unat w < 16" for w :: u8
    by (rule unsigned_word_eqI [where 'a = nat])
      (use that in \<open>simp add: unsigned_take_bit_eq take_bit_nat_eq_self\<close>)
  have bits: "n < 4" if "unat w < 16" "bit w n" for w :: u8 and n
    using small [OF that(1)] that(2) by (metis bit_take_bit_iff)
  have "drop_bit 4 (or (push_bit 4 hi) lo) = hi"
    by (rule bit_eqI) (auto simp: bit_simps dest: bits [OF assms(1)] bits [OF assms(2)])
  moreover have "take_bit 4 (or (push_bit 4 hi) lo) = lo"
    by (rule bit_eqI) (auto simp: bit_simps dest: bits [OF assms(1)] bits [OF assms(2)])
  ultimately show ?thesis by (simp add: low_mask)
qed

section \<open>The text form\<close>

lemma length_to_hex: "length (to_hex h) = 2 * length (hash_as_bytes h)"
  by (simp add: to_hex_def length_concat byte_hex_def comp_def sum_list_triv)

lemma hex_value_nibbles [simp]:
  "hex_value [HEX_DIGITS ! unat (drop_bit 4 (b :: u8))] = Ok (drop_bit 4 b)"
  "hex_value [HEX_DIGITS ! unat (and (b :: u8) 0x0f)] = Ok (and b 0x0f)"
  using HEX_DIGITS_nth [OF high_nibble] HEX_DIGITS_nth [OF low_nibble] by simp_all

lemma fill_bytes_hex:
  "fill_bytes (length bs) (map (\<lambda>c. [c]) (concat (map byte_hex bs))) = Ok bs"
proof (induction bs)
  case (Cons b bs)
  then show ?case
    by (simp add: byte_hex_def next_char_def nibbles_join result_simps)
qed simp

lemma next_char_digit:
  assumes "hex_value (fst (next_char cs)) = Ok v"
  obtains cs' where "cs = [HEX_DIGITS ! unat v] # cs'" "snd (next_char cs) = cs'" "unat v < 16"
proof (cases cs)
  case Nil
  then have "hex_value [CHR 0x00] = Ok v" using assms by (simp add: next_char_def)
  then show ?thesis by (simp add: hex_value_def less_eq_char_def)
next
  case (Cons c cs')
  then show ?thesis
    using hex_value_OkD [of c v] assms that by (simp add: next_char_def)
qed

lemma fill_bytes_OkD:
  "fill_bytes n cs = Ok bs \<Longrightarrow>
     length bs = n \<and> (\<exists>rest. cs = map (\<lambda>c. [c]) (concat (map byte_hex bs)) @ rest)"
proof (induction n arbitrary: cs bs)
  case (Suc n)
  let ?cs1 = "snd (next_char cs)"
  from Suc.prems obtain hi lo bs' where
    hi: "hex_value (fst (next_char cs)) = Ok hi" and lo: "hex_value (fst (next_char ?cs1)) = Ok lo"
    and rest: "fill_bytes n (snd (next_char ?cs1)) = Ok bs'" and bs: "bs = or (push_bit 4 hi) lo # bs'"
    by (auto simp: Let_def case_prod_unfold and_then_def split: sum.splits)
  from hi obtain cs1 where 1: "cs = [HEX_DIGITS ! unat hi] # cs1" "?cs1 = cs1" "unat hi < 16"
    by (rule next_char_digit)
  from lo [unfolded 1(2)] obtain cs2 where
    2: "cs1 = [HEX_DIGITS ! unat lo] # cs2" "snd (next_char cs1) = cs2" "unat lo < 16"
    by (rule next_char_digit)
  from Suc.IH [OF rest [unfolded 1(2) 2(2)]] show ?case
    unfolding bs 1(1) 2(1) using nibbles_split [OF 1(3) 2(3)] by (auto simp: byte_hex_def)
qed simp

lemma hex_ascii: "c \<in> set (to_hex h) \<Longrightarrow> (of_char c :: nat) < 128"
proof -
  assume "c \<in> set (to_hex h)"
  moreover have "HEX_DIGITS ! k \<in> set HEX_DIGITS" if "k < 16" for k
    using that by (intro nth_mem) (simp add: HEX_DIGITS_def)
  ultimately have "c \<in> set HEX_DIGITS"
    using high_nibble low_nibble by (auto simp: to_hex_def byte_hex_def)
  then show ?thesis by (auto simp: HEX_DIGITS_def)
qed

lemma hash_from_str_display: "wf_hash h \<Longrightarrow> hash_from_str (hash_display h) = Ok h"
proof -
  assume h: "wf_hash h"
  have "chars (to_hex h) = map (\<lambda>c. [c]) (to_hex h)"
    by (rule chars_ascii) (simp add: hex_ascii)
  with h fill_bytes_hex [of "hash_as_bytes h"] have "fill_bytes 32 (chars (to_hex h)) = Ok (hash_as_bytes h)"
    by (simp add: wf_hash_def to_hex_def)
  moreover have "strip_prefix PREFIX (hash_display h) = Some (to_hex h)"
    by (simp add: hash_display_def)
  ultimately show ?thesis
    using h by (simp add: hash_from_str_def length_to_hex wf_hash_def)
qed

lemma hash_from_str_OkD:
  assumes "hash_from_str s = Ok h"
  shows "wf_hash h \<and> hash_display h = s"
proof -
  from assms obtain digest bs where s: "s = PREFIX @ digest" and len: "length digest = 64"
    and fill: "fill_bytes 32 (chars digest) = Ok bs" and h: "h = Hash bs"
    by (auto simp: hash_from_str_def result_simps split: option.splits if_splits)
  from fill_bytes_OkD [OF fill] obtain rest where bs: "length bs = 32"
    and cs: "chars digest = map (\<lambda>c. [c]) (to_hex h) @ rest"
    by (auto simp: to_hex_def h)
  have "digest = concat (chars digest)" by simp
  also have "\<dots> = to_hex h @ concat rest" by (simp add: cs)
  finally have "digest = to_hex h @ concat rest" .
  moreover from this len bs h have "concat rest = []"
    by (metis append_eq_append_conv append_Nil2 hash.sel length_0_conv length_append length_to_hex
        add_cancel_right_right num_double numeral_times_numeral)
  ultimately show ?thesis using s bs h by (simp add: hash_display_def wf_hash_def)
qed

interpretation hash_text: spelling hash_display hash_from_str wf_hash
  by unfold_locales (simp_all add: hash_from_str_display hash_from_str_OkD)

text \<open>The text form of a hash is its only spelling: the strict parser accepts a text, and returns
  the hash, exactly when the text is the \<open>b3:\<close> form that the hash displays as.\<close>

theorem hash_from_str_iff: "hash_from_str s = Ok h \<longleftrightarrow> wf_hash h \<and> s = hash_display h"
  by (rule hash_text.parse_Ok_iff)

end
