(* ===== verification/Objects.thy ===== *)
theory Objects
  imports Hashing
begin

text \<open>
  \<open>crates/zeta-substrate/src/objects.rs\<close>: objects, derivations and refs, and the content address
  of a structured value.  \<open>to_value\<close> is what the derived \<open>Serialize\<close> produces.  The locale
  \<open>content_addressed\<close> holds what follows for every value whose address is the derived hash of its
  canonical JSON; it is interpreted on objects and on derivations.
\<close>

section \<open>Values\<close>

type_synonym object_id = string
type_synonym ref_name = string

record object =
  obj_kind :: string
  obj_schema :: string
  obj_data :: json_map
  obj_links :: "object_id list"

record derivation =
  der_producer :: string
  der_output_id :: object_id
  der_input_ids :: "object_id list"
  der_params :: json_map

record ref =
  ref_name :: ref_name
  ref_object_id :: object_id

record ref_update =
  upd_name :: ref_name
  upd_old_object_id :: "object_id option"
  upd_new_object_id :: object_id
  upd_updated :: bool

definition object_to_value :: "object \<Rightarrow> json" where
  "object_to_value ob = JObject
     [(''kind'', JString (obj_kind ob)), (''schema'', JString (obj_schema ob)),
      (''data'', JObject (obj_data ob)), (''links'', JArray (map JString (obj_links ob)))]"

definition object_canonical_bytes :: "env \<Rightarrow> object \<Rightarrow> (canonical_json_error, bytes) result" where
  "object_canonical_bytes E ob = canonical_json E (object_to_value ob)"

definition object_content_address :: "env \<Rightarrow> object \<Rightarrow> (canonical_json_error, hash) result" where
  "object_content_address E ob =
     and_then (object_canonical_bytes E ob) (\<lambda>bytes. Ok (derive E DomainObject bytes))"

definition derivation_to_value :: "derivation \<Rightarrow> json" where
  "derivation_to_value d = JObject
     [(''producer'', JString (der_producer d)), (''output_id'', JString (der_output_id d)),
      (''input_ids'', JArray (map JString (der_input_ids d))), (''params'', JObject (der_params d))]"

definition derivation_canonical_bytes :: "env \<Rightarrow> derivation \<Rightarrow> (canonical_json_error, bytes) result" where
  "derivation_canonical_bytes E d = canonical_json E (derivation_to_value d)"

definition derivation_content_address :: "env \<Rightarrow> derivation \<Rightarrow> (canonical_json_error, hash) result" where
  "derivation_content_address E d =
     and_then (derivation_canonical_bytes E d) (\<lambda>bytes. Ok (derive E DomainDerivation bytes))"

section \<open>Content addresses\<close>

text \<open>The bytes whose digests are compared when the addresses of \<open>x\<close> and \<open>y\<close> are.\<close>

definition encodings :: "('a \<Rightarrow> ('e, bytes) result) \<Rightarrow> 'a list \<Rightarrow> bytes set" where
  "encodings f xs = {b. \<exists>x \<in> set xs. f x = Ok b}"

locale content_addressed =
  fixes E :: env
    and to_value :: "'a \<Rightarrow> json"
    and domain :: domain
    and canonical_bytes :: "'a \<Rightarrow> (canonical_json_error, bytes) result"
    and content_address :: "'a \<Rightarrow> (canonical_json_error, hash) result"
  assumes bytes_eq: "canonical_bytes x = canonical_json E (to_value x)"
    and address_eq: "content_address x = and_then (canonical_bytes x) (\<lambda>b. Ok (derive E domain b))"
begin

lemma address_reordered:
  "wf_json (to_value x) \<Longrightarrow> reordered (to_value x) (to_value y) \<Longrightarrow> content_address x = content_address y"
  using write_value_reordered [of "to_value x" "to_value y" E]
  by (simp add: address_eq bytes_eq canonical_json_def)

lemma address_identifies:
  assumes "json_printing E" "inj_on (derive E domain) (encodings canonical_bytes [x, y])"
    and x: "content_address x = Ok h" and y: "content_address y = Ok h"
  shows "normal E (to_value x) = normal E (to_value y)"
proof -
  from x y obtain b c where b: "canonical_bytes x = Ok b" and c: "canonical_bytes y = Ok c"
    and eq: "derive E domain b = derive E domain c"
    by (auto simp: address_eq result_simps)
  have "b \<in> encodings canonical_bytes [x, y]" "c \<in> encodings canonical_bytes [x, y]"
    using b c by (auto simp: encodings_def)
  with assms(2) eq have "b = c" by (meson inj_onD)
  with b c show ?thesis
    using write_value_inject [OF assms(1), of "to_value x" b "to_value y"]
    by (simp add: bytes_eq canonical_json_def)
qed

end

interpretation object_address:
  content_addressed E object_to_value DomainObject "object_canonical_bytes E" "object_content_address E"
  for E
  by unfold_locales (simp_all add: object_canonical_bytes_def object_content_address_def)

interpretation derivation_address:
  content_addressed E derivation_to_value DomainDerivation "derivation_canonical_bytes E"
    "derivation_content_address E"
  for E
  by unfold_locales (simp_all add: derivation_canonical_bytes_def derivation_content_address_def)

lemma map_JString_inject:
  "map (normal E) (map JString xs) = map (normal E) (map JString ys) \<longleftrightarrow> xs = ys"
  unfolding map_map by (rule inj_map_eq_map) (simp add: inj_def)

lemma object_normal_eq:
  "normal E (object_to_value x) = normal E (object_to_value y) \<longleftrightarrow>
     obj_kind x = obj_kind y \<and> obj_schema x = obj_schema y \<and> obj_links x = obj_links y
     \<and> normal E (JObject (obj_data x)) = normal E (JObject (obj_data y))"
  by (auto simp: object_to_value_def map_JString_inject simp del: map_map)

text \<open>C38: an object's content address determines the object.  When two objects have the same
  address, and the derived BLAKE3 hash does not collide on their two encodings, they have the same
  kind, schema and links, and the same data up to member order and number spelling.\<close>

theorem object_content_address_identifies:
  assumes "json_printing E"
    and "inj_on (derive E DomainObject) (encodings (object_canonical_bytes E) [x, y])"
    and "object_content_address E x = Ok h" "object_content_address E y = Ok h"
  shows "obj_kind x = obj_kind y \<and> obj_schema x = obj_schema y \<and> obj_links x = obj_links y
    \<and> normal E (JObject (obj_data x)) = normal E (JObject (obj_data y))"
  using object_address.address_identifies [OF assms] by (simp only: object_normal_eq)

theorem object_content_address_identifies_witness:
  "object_content_address sample_env
     \<lparr>obj_kind = ''note'', obj_schema = ''v0'', obj_data = [(''b'', JNull), (''a'', JNull)], obj_links = []\<rparr>
   = object_content_address sample_env
     \<lparr>obj_kind = ''note'', obj_schema = ''v0'', obj_data = [(''a'', JNull), (''b'', JNull)], obj_links = []\<rparr>
   \<and> normal sample_env (JObject [(''b'', JNull), (''a'', JNull)])
     = normal sample_env (JObject [(''a'', JNull), (''b'', JNull)])"
  (is "object_content_address _ ?x = object_content_address _ ?y \<and> ?normal")
proof -
  obtain b where bytes: "object_canonical_bytes sample_env ?x = Ok b" "object_canonical_bytes sample_env ?y = Ok b"
    by (simp add: object_canonical_bytes_def object_to_value_def canonical_json_def sample_env_def
        sample_quote_def escape_char_def)
  then have "encodings (object_canonical_bytes sample_env) [?x, ?y] = {b}"
    by (auto simp: encodings_def)
  then have inj: "inj_on (derive sample_env DomainObject) (encodings (object_canonical_bytes sample_env) [?x, ?y])"
    by simp
  from bytes have "object_content_address sample_env ?x = Ok (derive sample_env DomainObject b)"
    "object_content_address sample_env ?y = Ok (derive sample_env DomainObject b)"
    by (simp_all add: object_content_address_def)
  with object_content_address_identifies [OF sample_json_printing inj this] show ?thesis
    by (simp only: object.simps simp_thms)
qed

end
