(* ===== verification/Store.thy ===== *)
theory Store
  imports Hashing
begin

text \<open>
  \<open>crates/zeta-substrate/src/store.rs\<close>: the content-addressed blob store over a directory.

  The file system is the map of its regular files; a path is the list of its components.  What
  the operating system and \<open>tempfile\<close> answer during one \<open>put\<close> is a \<open>fate\<close>: the failure of each
  call, the name of the temporary file, the lengths of the file that other processes may see
  while it is written, and the files that other writers have stored by the time \<open>persist\<close> fails.
  \<open>put_run\<close> returns every file system state in the order it becomes visible, so a crash leaves
  one of them.
\<close>

section \<open>The file system\<close>

type_synonym path = "string list"
type_synonym files = "path \<Rightarrow> bytes option"

datatype io_error = InvalidInput string | InvalidData string | NotFound | OsError string

record blob_store =
  store_root :: path

definition blob_store_new :: "path \<Rightarrow> blob_store" where
  "blob_store_new dir = \<lparr>store_root = dir\<rparr>"

definition path_of :: "blob_store \<Rightarrow> hash \<Rightarrow> path" where
  "path_of s h =
     (let hex = to_hex h; fanout = take 2 hex; rest = drop 2 hex
      in store_root s @ [''blobs''] @ [fanout] @ [rest])"

definition path_parent :: "path \<Rightarrow> path option" where
  "path_parent p = (if p = [] then None else Some (butlast p))"

definition is_file :: "files \<Rightarrow> path \<Rightarrow> bool" where
  "is_file fs p \<longleftrightarrow> fs p \<noteq> None"

record fate =
  create_dir_error :: "io_error option"
  temp_name :: "(io_error, string) result"
  written :: "nat list"
  write_error :: "io_error option"
  persist_error :: "io_error option"
  rivals :: "path \<rightharpoonup> bytes"

section \<open>Operations\<close>

definition put_run :: "env \<Rightarrow> blob_store \<Rightarrow> fate \<Rightarrow> files \<Rightarrow> bytes \<Rightarrow> files list \<times> (io_error, hash) result" where
  "put_run E s f fs bytes =
     (let hash = hash_bytes E bytes; path = path_of s hash in
      if is_file fs path then ([fs], Ok hash)
      else case path_parent path of
        None \<Rightarrow> ([fs], Err (InvalidInput ''blob path has no parent directory''))
      | Some parent \<Rightarrow>
          (case create_dir_error f of
             Some e \<Rightarrow> ([fs], Err e)
           | None \<Rightarrow>
               (case temp_name f of
                  Inl e \<Rightarrow> ([fs], Err e)
                | Inr name \<Rightarrow>
                    (let temporary = parent @ [name];
                         writing = fs # map (\<lambda>n. fs(temporary \<mapsto> take n bytes)) (0 # written f)
                     in case write_error f of
                          Some e \<Rightarrow> (writing @ [fs(temporary := None)], Err e)
                        | None \<Rightarrow>
                            (case persist_error f of
                               None \<Rightarrow>
                                 (writing @ [fs(temporary \<mapsto> bytes), fs(temporary := None, path \<mapsto> bytes)], Ok hash)
                             | Some e \<Rightarrow>
                                 (let fs' = fs ++ rivals f in
                                  (writing @ [fs(temporary \<mapsto> bytes), fs'(temporary := None)],
                                   if is_file fs' path then Ok hash else Err e)))))))"

definition put :: "env \<Rightarrow> blob_store \<Rightarrow> fate \<Rightarrow> files \<Rightarrow> bytes \<Rightarrow> files \<times> (io_error, hash) result" where
  "put E s f fs bytes = (case put_run E s f fs bytes of (states, r) \<Rightarrow> (last states, r))"

definition get :: "blob_store \<Rightarrow> files \<Rightarrow> hash \<Rightarrow> (io_error, bytes) result" where
  "get s fs h = (case fs (path_of s h) of None \<Rightarrow> Err NotFound | Some bytes \<Rightarrow> Ok bytes)"

definition read_verified :: "env \<Rightarrow> blob_store \<Rightarrow> files \<Rightarrow> hash \<Rightarrow> (io_error, bytes) result" where
  "read_verified E s fs h =
     and_then (get s fs h) (\<lambda>bytes.
       let actual = hash_bytes E bytes in
       if actual \<noteq> h then
         Err (InvalidData (''blob '' @ hash_display h @ '' is corrupt: stored bytes hash to '' @ hash_display actual))
       else Ok bytes)"

section \<open>Paths\<close>

lemma path_of_inject:
  assumes "wf_hash g" "wf_hash h"
  shows "path_of s g = path_of s h \<longleftrightarrow> g = h"
proof
  assume "path_of s g = path_of s h"
  then have "take 2 (to_hex g) = take 2 (to_hex h)" "drop 2 (to_hex g) = drop 2 (to_hex h)"
    by (simp_all add: path_of_def Let_def)
  then have "hash_display g = hash_display h"
    by (metis append_take_drop_id hash_display_def)
  with hash_text.display_inject assms show "g = h" by blast
qed simp

text \<open>Every file that stands at a blob path holds the bytes its name is the hash of.\<close>

definition intact :: "env \<Rightarrow> blob_store \<Rightarrow> files \<Rightarrow> bool" where
  "intact E s fs \<longleftrightarrow> (\<forall>h b. wf_hash h \<longrightarrow> fs (path_of s h) = Some b \<longrightarrow> hash_bytes E b = h)"

text \<open>
  What \<open>put\<close> relies on: \<open>tempfile\<close> picks a name that no file has and no blob uses, and the other
  writers of the store are intact too.
\<close>

definition fate_ok :: "env \<Rightarrow> blob_store \<Rightarrow> fate \<Rightarrow> files \<Rightarrow> bytes \<Rightarrow> bool" where
  "fate_ok E s f fs bytes \<longleftrightarrow>
     (\<forall>name. temp_name f = Ok name \<longrightarrow>
        (let t = butlast (path_of s (hash_bytes E bytes)) @ [name] in
         fs t = None \<and> rivals f t = None \<and> (\<forall>h. wf_hash h \<longrightarrow> path_of s h \<noteq> t)))
     \<and> intact E s (rivals f)"

lemma intact_other: "intact E s fs \<Longrightarrow> \<forall>h. wf_hash h \<longrightarrow> path_of s h \<noteq> t \<Longrightarrow> intact E s (fs(t := x))"
  by (simp add: intact_def)

lemma intact_store:
  "digest_law E \<Longrightarrow> intact E s fs \<Longrightarrow> intact E s (fs(path_of s (hash_bytes E b) \<mapsto> b))"
  by (auto simp: intact_def path_of_inject split: if_splits)

lemma intact_map_add: "intact E s fs \<Longrightarrow> intact E s gs \<Longrightarrow> intact E s (fs ++ gs)"
  by (auto simp: intact_def map_add_Some_iff)

lemma put_run_cases:
  assumes "put_run E s f fs bytes = (states, r)"
  obtains
    (known) "fs (path_of s (hash_bytes E bytes)) \<noteq> None" "states = [fs]" "r = Ok (hash_bytes E bytes)"
  | (refused) e where "states = [fs]" "r = Err e"
  | (failed) name e where "temp_name f = Ok name"
      "states = fs # map (\<lambda>n. fs(butlast (path_of s (hash_bytes E bytes)) @ [name] \<mapsto> take n bytes)) (0 # written f)
         @ [fs(butlast (path_of s (hash_bytes E bytes)) @ [name] := None)]" "r = Err e"
  | (stored) name where "temp_name f = Ok name"
      "states = fs # map (\<lambda>n. fs(butlast (path_of s (hash_bytes E bytes)) @ [name] \<mapsto> take n bytes)) (0 # written f)
         @ [fs(butlast (path_of s (hash_bytes E bytes)) @ [name] \<mapsto> bytes),
            fs(butlast (path_of s (hash_bytes E bytes)) @ [name] := None, path_of s (hash_bytes E bytes) \<mapsto> bytes)]"
      "r = Ok (hash_bytes E bytes)"
  | (beaten) name e where "temp_name f = Ok name"
      "states = fs # map (\<lambda>n. fs(butlast (path_of s (hash_bytes E bytes)) @ [name] \<mapsto> take n bytes)) (0 # written f)
         @ [fs(butlast (path_of s (hash_bytes E bytes)) @ [name] \<mapsto> bytes),
            (fs ++ rivals f)(butlast (path_of s (hash_bytes E bytes)) @ [name] := None)]"
      "r = (if is_file (fs ++ rivals f) (path_of s (hash_bytes E bytes)) then Ok (hash_bytes E bytes) else Err e)"
  using assms
  by (auto simp: put_run_def Let_def is_file_def path_parent_def simp del: fun_upd_apply map_add_Some_iff
      split: if_splits option.splits sum.splits)

lemma put_states_intact:
  assumes "digest_law E" "intact E s fs" "fate_ok E s f fs bytes" "put_run E s f fs bytes = (states, r)"
  shows "\<forall>st \<in> set states. intact E s st"
  using assms(4)
proof (cases rule: put_run_cases)
  case (failed name e)
  with assms(3) have "\<forall>h. wf_hash h \<longrightarrow> path_of s h \<noteq> butlast (path_of s (hash_bytes E bytes)) @ [name]"
    by (simp add: fate_ok_def Let_def)
  with failed assms(2) show ?thesis by (auto intro!: intact_other)
next
  case (stored name)
  with assms(3) have "\<forall>h. wf_hash h \<longrightarrow> path_of s h \<noteq> butlast (path_of s (hash_bytes E bytes)) @ [name]"
    by (simp add: fate_ok_def Let_def)
  with stored assms(1,2) show ?thesis by (auto intro!: intact_other intact_store)
next
  case (beaten name e)
  with assms(3) have "\<forall>h. wf_hash h \<longrightarrow> path_of s h \<noteq> butlast (path_of s (hash_bytes E bytes)) @ [name]"
    by (simp add: fate_ok_def Let_def)
  moreover have "intact E s (rivals f)" using assms(3) by (simp add: fate_ok_def)
  ultimately show ?thesis using beaten assms(2) by (auto intro!: intact_other intact_map_add)
qed (use assms(2) in simp_all)

lemma put_Ok_stored:
  assumes "put E s f fs bytes = (fs', Ok h)" "fate_ok E s f fs bytes" "digest_law E"
  shows "h = hash_bytes E bytes \<and> fs' (path_of s h) \<noteq> None"
proof -
  obtain states where run: "put_run E s f fs bytes = (states, Ok h)" and fs': "fs' = last states"
    using assms(1) by (auto simp: put_def split: prod.splits)
  have wf: "wf_hash (hash_bytes E bytes)" using assms(3) by simp
  from run show ?thesis
  proof (cases rule: put_run_cases)
    case (beaten name e)
    with assms(2) wf have "path_of s (hash_bytes E bytes) \<noteq> butlast (path_of s (hash_bytes E bytes)) @ [name]"
      by (simp add: fate_ok_def Let_def)
    with beaten fs' show ?thesis
      by (simp add: is_file_def split: if_splits del: not_None_eq map_add_None)
  qed (use fs' in simp_all)
qed

section \<open>Properties\<close>

text \<open>C39: a write is crash safe.  Every file system state that becomes visible during \<open>put\<close>, on
  every branch of its failures, keeps each blob path holding only bytes that hash to its name, if
  the initial state does and temporary names avoid the blob names.\<close>

theorem put_crash_safe:
  assumes "digest_law E" "intact E s fs" "fate_ok E s f fs bytes"
  shows "list_all (intact E s) (fst (put_run E s f fs bytes))"
  using put_states_intact [OF assms prod.collapse [symmetric]] by (simp add: list_all_iff)

definition sample_fate :: fate where
  "sample_fate = \<lparr>create_dir_error = None, temp_name = Ok ''.tmp'', written = [1],
     write_error = None, persist_error = None, rivals = Map.empty\<rparr>"

lemma tmp_not_blob: "wf_hash h \<Longrightarrow> path_of s h \<noteq> p @ [''.tmp'']"
proof
  assume h: "wf_hash h" and "path_of s h = p @ [''.tmp'']"
  then have "drop 2 (to_hex h) = ''.tmp''" by (simp add: path_of_def Let_def)
  then have "length (drop 2 (to_hex h)) = 4" by simp
  with h show False by (simp add: length_to_hex wf_hash_def)
qed

lemma intact_empty: "intact E s Map.empty"
  by (simp add: intact_def)

lemma sample_fate_ok: "fate_ok E s sample_fate Map.empty bytes"
  by (simp add: fate_ok_def sample_fate_def tmp_not_blob intact_empty)

theorem put_crash_safe_witness:
  "list_all (intact sample_env (blob_store_new [''store'']))
     (fst (put_run sample_env (blob_store_new [''store'']) sample_fate Map.empty ''hi''))"
  by (rule put_crash_safe [OF sample_digest_law intact_empty sample_fate_ok])

text \<open>A successful \<open>put\<close> can be read back.  The hash it returns is the hash of the bytes, the
  verified read of that hash succeeds on the final state, and what it returns is the bytes that
  were put whenever BLAKE3 does not collide on the two.\<close>

theorem put_then_read_verified:
  assumes "digest_law E" "intact E s fs" "fate_ok E s f fs bytes" "put E s f fs bytes = (fs', Ok h)"
  shows "h = hash_bytes E bytes
    \<and> (\<exists>b. read_verified E s fs' h = Ok b \<and> (inj_on (hash_bytes E) {b, bytes} \<longrightarrow> b = bytes))"
proof -
  from put_Ok_stored [OF assms(4,3,1)] obtain b where h: "h = hash_bytes E bytes"
    and b: "fs' (path_of s h) = Some b" by blast
  obtain states where run: "put_run E s f fs bytes = (states, Ok h)" and fs': "fs' = last states"
    using assms(4) by (auto simp: put_def split: prod.splits)
  from run have "states \<noteq> []" by (cases rule: put_run_cases) simp_all
  with fs' put_states_intact [OF assms(1-3) run] have "intact E s fs'" by simp
  with b h assms(1) have "hash_bytes E b = h" by (simp add: intact_def)
  with b h show ?thesis
    by (auto simp: read_verified_def get_def dest: inj_onD)
qed

theorem put_then_read_verified_witness:
  "\<exists>fs' b. put sample_env (blob_store_new [''store'']) sample_fate Map.empty ''hi''
       = (fs', Ok (hash_bytes sample_env ''hi''))
     \<and> read_verified sample_env (blob_store_new [''store'']) fs' (hash_bytes sample_env ''hi'') = Ok b"
proof -
  obtain fs' where put: "put sample_env (blob_store_new [''store'']) sample_fate Map.empty ''hi''
       = (fs', Ok (hash_bytes sample_env ''hi''))"
    by (simp add: put_def put_run_def sample_fate_def Let_def is_file_def path_parent_def path_of_def)
  from put_then_read_verified [OF sample_digest_law intact_empty sample_fate_ok put] put
  show ?thesis by blast
qed

text \<open>A verified read never serves corrupt content: it returns bytes exactly when the store holds
  them under the hash and they hash to it.\<close>

theorem read_verified_iff:
  "read_verified E s fs h = Ok b \<longleftrightarrow> fs (path_of s h) = Some b \<and> hash_bytes E b = h"
  by (auto simp: read_verified_def get_def result_simps Let_def split: option.splits if_splits)

end
