(* ===== verification/Float64.thy ===== *)
theory Float64
  imports Prelude "HOL-Library.Log_Nat"
begin

text \<open>
  The \<open>f64\<close> values the sources compute with: a finite value is the rational it stands for, and the
  operations round the exact result to the nearest binary64 value, ties to even, as the language
  prescribes.  The two zeros are one value; no source tells them apart.
\<close>

datatype f64 = Finite rat | Infinite bool | NaN

text \<open>\<open>Infinite True\<close> is the negative infinity.\<close>

fun is_finite :: "f64 \<Rightarrow> bool" where
  "is_finite (Finite _) = True"
| "is_finite _ = False"

fun f64_le :: "f64 \<Rightarrow> f64 \<Rightarrow> bool" where
  "f64_le (Finite p) (Finite q) = (p \<le> q)"
| "f64_le (Infinite n) (Infinite m) = (n \<or> \<not> m)"
| "f64_le (Infinite n) (Finite _) = n"
| "f64_le (Finite _) (Infinite m) = (\<not> m)"
| "f64_le _ _ = False"

definition f64_less :: "f64 \<Rightarrow> f64 \<Rightarrow> bool" where
  "f64_less x y \<longleftrightarrow> f64_le x y \<and> \<not> f64_le y x"

text \<open>\<open>f64::min\<close> returns the other operand when one is not a number.\<close>

definition f64_min :: "f64 \<Rightarrow> f64 \<Rightarrow> f64" where
  "f64_min x y = (if x = NaN then y else if y = NaN then x else if f64_le x y then x else y)"

section \<open>Rounding\<close>

definition pow2 :: "int \<Rightarrow> rat" where
  "pow2 e = (if 0 \<le> e then 2 ^ nat e else 1 / 2 ^ nat (- e))"

text \<open>The largest power of two that is not above a positive rational.\<close>

definition binary_exponent :: "rat \<Rightarrow> int" where
  "binary_exponent q =
     (let (a, b) = quotient_of q; e = int (floorlog 2 (nat a)) - int (floorlog 2 (nat b))
      in if pow2 e \<le> q then e else e - 1)"

definition round_half_even :: "rat \<Rightarrow> int" where
  "round_half_even q =
     (let f = \<lfloor>q\<rfloor>; r = q - of_int f in
      if r < 1 / 2 then f else if 1 / 2 < r then f + 1 else if even f then f else f + 1)"

definition unit_in_last_place :: "rat \<Rightarrow> int" where
  "unit_in_last_place q = max (- 1074) (binary_exponent q - 52)"

definition round_positive :: "rat \<Rightarrow> rat" where
  "round_positive q = (let e = unit_in_last_place q in of_int (round_half_even (q / pow2 e)) * pow2 e)"

definition f64_round :: "rat \<Rightarrow> f64" where
  "f64_round q =
     (if q = 0 then Finite 0
      else let r = round_positive \<bar>q\<bar> in
        if pow2 1024 \<le> r then Infinite (q < 0) else Finite (if q < 0 then - r else r))"

section \<open>Arithmetic\<close>

definition f64_sign :: "f64 \<Rightarrow> int" where
  "f64_sign x = (case x of Finite q \<Rightarrow> (if q < 0 then - 1 else if q = 0 then 0 else 1)
     | Infinite n \<Rightarrow> (if n then - 1 else 1) | NaN \<Rightarrow> 0)"

fun f64_mul :: "f64 \<Rightarrow> f64 \<Rightarrow> f64" where
  "f64_mul (Finite p) (Finite q) = f64_round (p * q)"
| "f64_mul x y =
     (if x = NaN \<or> y = NaN \<or> f64_sign x * f64_sign y = 0 then NaN
      else Infinite (f64_sign x * f64_sign y < 0))"

text \<open>The \<open>as\<close> casts to integers truncate towards zero and saturate; not a number becomes zero.\<close>

definition truncate_rat :: "rat \<Rightarrow> int" where
  "truncate_rat q = (if 0 \<le> q then \<lfloor>q\<rfloor> else \<lceil>q\<rceil>)"

definition clamp :: "int \<Rightarrow> int \<Rightarrow> int \<Rightarrow> int" where
  "clamp lo hi i = max lo (min hi i)"

definition f64_as_int :: "int \<Rightarrow> int \<Rightarrow> f64 \<Rightarrow> int" where
  "f64_as_int lo hi x = (case x of
     Finite q \<Rightarrow> clamp lo hi (truncate_rat q) | Infinite n \<Rightarrow> (if n then lo else hi) | NaN \<Rightarrow> 0)"

definition f64_as_u64 :: "f64 \<Rightarrow> nat" where
  "f64_as_u64 x = nat (f64_as_int 0 (2 ^ 64 - 1) x)"

section \<open>Rounding keeps the order\<close>

lemma pow2_pos [simp]: "0 < pow2 e" "0 \<le> pow2 e" "pow2 e \<noteq> 0"
  by (simp_all add: pow2_def)

lemma pow2_power_int: "pow2 e = power_int 2 e"
proof (cases "0 \<le> e")
  case True
  then show ?thesis unfolding pow2_def power_int_def by simp
next
  case False
  then show ?thesis unfolding pow2_def power_int_def by (simp only: if_False inverse_eq_divide power_one_over)
qed

lemma pow2_add: "pow2 (a + b) = pow2 a * pow2 b"
  unfolding pow2_power_int by (rule power_int_add) simp

lemma pow2_mono: "a \<le> b \<Longrightarrow> pow2 a \<le> pow2 b"
proof -
  assume "a \<le> b"
  then have "pow2 b = pow2 a * 2 ^ nat (b - a)"
    using pow2_add [of a "b - a"] by (simp add: pow2_def [of "b - a"])
  then show ?thesis by simp
qed

lemma pow2_nonneg_int: "0 \<le> e \<Longrightarrow> pow2 e = of_int (2 ^ nat e)"
  by (simp add: pow2_def)

lemma round_half_even_of_int [simp]: "round_half_even (of_int i) = i"
  by (simp add: round_half_even_def Let_def)

lemma round_half_even_floor: "\<lfloor>q\<rfloor> \<le> round_half_even q" "round_half_even q \<le> \<lfloor>q\<rfloor> + 1"
  by (auto simp: round_half_even_def Let_def)

lemma round_half_even_mono:
  assumes "p \<le> q"
  shows "round_half_even p \<le> round_half_even q"
proof (cases "\<lfloor>p\<rfloor> = \<lfloor>q\<rfloor>")
  case True
  then show ?thesis using assms by (auto simp: round_half_even_def Let_def)
next
  case False
  then have "\<lfloor>p\<rfloor> + 1 \<le> \<lfloor>q\<rfloor>" using floor_mono [OF assms] by linarith
  then show ?thesis using round_half_even_floor [of p] round_half_even_floor [of q] by linarith
qed

lemma pow2_of_nat: "pow2 (int n) = 2 ^ n"
  by (simp add: pow2_def)

lemma floorlog_rat:
  assumes "0 < i"
  shows "pow2 (int (floorlog 2 (nat i)) - 1) \<le> of_int i" "of_int i < pow2 (int (floorlog 2 (nat i)))"
proof -
  let ?n = "floorlog 2 (nat i)"
  have b: "2 ^ (?n - 1) \<le> nat i" "nat i < 2 ^ ?n"
    using floorlog_bounds [of "nat i" 2] assms by simp_all
  then have pos: "0 < ?n" using assms by (cases ?n) simp_all
  have i: "of_int i = (of_nat (nat i) :: rat)" using assms by simp
  show "pow2 (int ?n - 1) \<le> of_int i"
    using b(1) pos unfolding i
    by (metis of_nat_le_iff of_nat_numeral of_nat_power of_nat_diff One_nat_def Suc_leI of_nat_1 pow2_of_nat)
  show "of_int i < pow2 (int ?n)"
    using b(2) unfolding i pow2_of_nat by (metis of_nat_less_iff of_nat_numeral of_nat_power)
qed

lemma binary_exponent_bounds:
  assumes "0 < q"
  shows "pow2 (binary_exponent q) \<le> q \<and> q < pow2 (binary_exponent q + 1)"
proof -
  obtain a b where ab: "quotient_of q = (a, b)" by (rule prod.exhaust)
  then have b: "0 < b" and q: "q = of_int a / of_int b"
    using quotient_of_denom_pos quotient_of_div by blast+
  with assms have a: "0 < a" by (simp add: zero_less_divide_iff)
  let ?la = "int (floorlog 2 (nat a))" and ?lb = "int (floorlog 2 (nat b))"
  note bounds = floorlog_rat [OF a] floorlog_rat [OF b]
  have qb: "q * of_int b = of_int a" using b q by simp
  have "pow2 (?la - 1) = pow2 (?la - ?lb - 1) * pow2 ?lb" by (simp flip: pow2_add)
  then have "pow2 (?la - ?lb - 1) * of_int b \<le> pow2 (?la - 1)" using bounds(4) by simp
  then have "pow2 (?la - ?lb - 1) * of_int b \<le> q * of_int b" using bounds(1) qb by simp
  then have low: "pow2 (?la - ?lb - 1) \<le> q" using b by simp
  have "pow2 ?la = pow2 (?la - ?lb + 1) * pow2 (?lb - 1)" by (simp flip: pow2_add)
  then have "pow2 ?la \<le> pow2 (?la - ?lb + 1) * of_int b" using bounds(3) by simp
  then have "q * of_int b < pow2 (?la - ?lb + 1) * of_int b" using bounds(2) qb by simp
  then have high: "q < pow2 (?la - ?lb + 1)" using b by simp
  show ?thesis using low high by (auto simp: binary_exponent_def ab Let_def)
qed

lemma binary_exponent_mono:
  assumes "0 < p" "p \<le> q"
  shows "binary_exponent p \<le> binary_exponent q"
proof (rule ccontr)
  assume "\<not> ?thesis"
  then have "pow2 (binary_exponent q + 1) \<le> pow2 (binary_exponent p)" by (intro pow2_mono) simp
  with binary_exponent_bounds [of p] binary_exponent_bounds [of q] assms show False by linarith
qed

lemma round_positive_le_pow2:
  assumes "0 < q" "q \<le> pow2 e" "unit_in_last_place q \<le> e"
  shows "round_positive q \<le> pow2 e"
proof -
  let ?u = "unit_in_last_place q"
  have e: "pow2 e = of_int (2 ^ nat (e - ?u)) * pow2 ?u"
    using assms(3) pow2_add [of "e - ?u" ?u] by (simp add: pow2_nonneg_int)
  then have "q / pow2 ?u \<le> of_int (2 ^ nat (e - ?u))" using assms(2) by (simp add: divide_le_eq)
  then have "round_half_even (q / pow2 ?u) \<le> 2 ^ nat (e - ?u)"
    using round_half_even_mono round_half_even_of_int by metis
  then have "of_int (round_half_even (q / pow2 ?u)) \<le> (of_int (2 ^ nat (e - ?u)) :: rat)"
    by (simp only: of_int_le_iff)
  then show ?thesis unfolding e round_positive_def Let_def by (intro mult_right_mono) simp_all
qed

lemma pow2_le_round_positive:
  assumes "pow2 e \<le> q" "unit_in_last_place q \<le> e"
  shows "pow2 e \<le> round_positive q"
proof -
  let ?u = "unit_in_last_place q"
  have e: "pow2 e = of_int (2 ^ nat (e - ?u)) * pow2 ?u"
    using assms(2) pow2_add [of "e - ?u" ?u] by (simp add: pow2_nonneg_int)
  then have "of_int (2 ^ nat (e - ?u)) \<le> q / pow2 ?u" using assms(1) by (simp add: le_divide_eq)
  then have "2 ^ nat (e - ?u) \<le> round_half_even (q / pow2 ?u)"
    using round_half_even_mono round_half_even_of_int by metis
  then have "of_int (2 ^ nat (e - ?u)) \<le> (of_int (round_half_even (q / pow2 ?u)) :: rat)"
    by (simp only: of_int_le_iff)
  then show ?thesis unfolding e round_positive_def Let_def by (intro mult_right_mono) simp_all
qed

lemma round_positive_mono:
  assumes "0 < p" "p \<le> q"
  shows "round_positive p \<le> round_positive q"
proof (cases "unit_in_last_place p = unit_in_last_place q")
  case True
  have "p / pow2 (unit_in_last_place q) \<le> q / pow2 (unit_in_last_place q)"
    using assms(2) by (intro divide_right_mono) simp_all
  from round_half_even_mono [OF this] show ?thesis
    unfolding round_positive_def Let_def True by (intro mult_right_mono) simp_all
next
  case False
  then have "binary_exponent p < binary_exponent q" "unit_in_last_place q = binary_exponent q - 52"
    using binary_exponent_mono [OF assms] by (auto simp: unit_in_last_place_def)
  then have u: "unit_in_last_place p \<le> binary_exponent q" "unit_in_last_place q \<le> binary_exponent q"
    "pow2 (binary_exponent p + 1) \<le> pow2 (binary_exponent q)"
    by (auto simp: unit_in_last_place_def intro: pow2_mono)
  have "p \<le> pow2 (binary_exponent q)" "pow2 (binary_exponent q) \<le> q"
    using binary_exponent_bounds [of p] binary_exponent_bounds [of q] assms u(3) by linarith+
  then show ?thesis
    using round_positive_le_pow2 [OF assms(1) _ u(1)] pow2_le_round_positive [OF _ u(2)] by force
qed

lemma round_positive_nonneg: "0 < q \<Longrightarrow> 0 \<le> round_positive q"
  using round_half_even_mono [of "of_int 0" "q / pow2 (unit_in_last_place q)"]
  unfolding round_half_even_of_int by (simp add: round_positive_def Let_def)

lemma f64_round_nonneg_mono:
  assumes "0 \<le> p" "p \<le> q"
  shows "f64_le (f64_round p) (f64_round q)"
proof (cases "p = 0")
  case True
  then show ?thesis
    using assms round_positive_nonneg [of q] by (auto simp: f64_round_def Let_def)
next
  case False
  then show ?thesis
    using assms round_positive_mono [of p q] by (auto simp: f64_round_def Let_def)
qed

text \<open>The integers below 2 to the 53 are binary64 values.\<close>

lemma f64_round_of_nat:
  assumes "n < 2 ^ 53"
  shows "f64_round (of_nat n) = Finite (of_nat n)"
proof (cases "n = 0")
  case False
  let ?q = "of_nat n :: rat" and ?u = "unit_in_last_place (of_nat n)"
  have "?q < of_nat (2 ^ 53)" using assms by (simp only: of_nat_less_iff)
  then have lt: "?q < pow2 53" using pow2_of_nat [of 53] by simp
  have "pow2 (binary_exponent ?q) < pow2 53"
    using binary_exponent_bounds [of ?q] False lt by auto
  then have "binary_exponent ?q < 53" using pow2_mono [of 53 "binary_exponent ?q"] by linarith
  then have "?u \<le> 0" by (simp add: unit_in_last_place_def)
  then have inv: "1 / pow2 ?u = of_int (2 ^ nat (- ?u))" by (cases "?u = 0") (simp_all add: pow2_def)
  have "?q / pow2 ?u = ?q * (1 / pow2 ?u)" by simp
  also have "\<dots> = of_int (int n * 2 ^ nat (- ?u))" unfolding inv by simp
  finally have "round_positive ?q = of_int (int n * 2 ^ nat (- ?u)) * pow2 ?u"
    by (simp only: round_positive_def Let_def round_half_even_of_int)
  also have "\<dots> = ?q * (1 / pow2 ?u * pow2 ?u)" unfolding inv by (simp only: of_int_mult of_int_of_nat_eq mult.assoc)
  also have "\<dots> = ?q" by simp
  finally have r: "round_positive ?q = ?q" .
  have "\<not> pow2 1024 \<le> ?q" using lt pow2_mono [of 53 1024] by linarith
  then show ?thesis using False r by (simp add: f64_round_def)
qed (simp add: f64_round_def)

lemma f64_round_numeral: "numeral k < (2 :: nat) ^ 53 \<Longrightarrow> f64_round (numeral k) = Finite (numeral k)"
  using f64_round_of_nat [of "numeral k"] by simp

lemma f64_round_1: "f64_round 1 = Finite 1"
  using f64_round_of_nat [of 1] by simp

lemma f64_le_trans: "f64_le x y \<Longrightarrow> f64_le y z \<Longrightarrow> f64_le x z"
  by (cases x; cases y; cases z) auto

lemma f64_le_refl: "x \<noteq> NaN \<Longrightarrow> f64_le x x"
  by (cases x) auto

lemma truncate_mono: "p \<le> q \<Longrightarrow> truncate_rat p \<le> truncate_rat q"
proof -
  assume le: "p \<le> q"
  consider "0 \<le> p" | "p < 0" "0 \<le> q" | "q < 0" by linarith
  then show ?thesis
  proof cases
    case 2
    then have "\<lceil>p\<rceil> \<le> 0" "0 \<le> \<lfloor>q\<rfloor>" by simp_all
    then have "\<lceil>p\<rceil> \<le> \<lfloor>q\<rfloor>" by (rule order_trans)
    with 2 show ?thesis by (simp add: truncate_rat_def)
  qed (use le floor_mono [OF le] ceiling_mono [OF le] in \<open>simp_all add: truncate_rat_def\<close>)
qed

lemma clamp_mono: "i \<le> j \<Longrightarrow> clamp lo hi i \<le> clamp lo hi j"
  by (simp add: clamp_def max_def min_def)

lemma clamp_bounds: "lo \<le> hi \<Longrightarrow> lo \<le> clamp lo hi i \<and> clamp lo hi i \<le> hi"
  by (simp add: clamp_def max_def min_def)

lemma f64_as_int_mono:
  assumes "f64_le x y" "lo \<le> hi"
  shows "f64_as_int lo hi x \<le> f64_as_int lo hi y"
  using assms(1) clamp_mono [OF truncate_mono] clamp_bounds [OF assms(2)] assms(2)
  by (cases x; cases y) (auto simp: f64_as_int_def)

lemma f64_as_u64_mono: "f64_le x y \<Longrightarrow> f64_as_u64 x \<le> f64_as_u64 y"
  using f64_as_int_mono [of x y 0 "2 ^ 64 - 1"] by (simp add: f64_as_u64_def nat_mono)

end
