(* ===== verification/Ipc_Message.thy ===== *)
theory Ipc_Message
  imports Canonical Float64
begin

text \<open>
  \<open>crates/zeta-ipc/src/message.rs\<close> and \<open>error.rs\<close>: JSON-RPC messages, their parser and printer,
  and the values exchanged at initialization.

  The derived \<open>Serialize\<close> and \<open>Deserialize\<close> implementations of the initialization values and of
  error objects are generated by \<open>serde\<close>; they are the fields of the record \<open>ipc_serde\<close>, passed
  to the definitions that use them.  A failed derived read returns the text of its error.
\<close>

section \<open>Errors\<close>

definition PARSE_ERROR :: int where "PARSE_ERROR = -32700"
definition INVALID_REQUEST :: int where "INVALID_REQUEST = -32600"
definition METHOD_NOT_FOUND :: int where "METHOD_NOT_FOUND = -32601"
definition INVALID_PARAMS :: int where "INVALID_PARAMS = -32602"
definition INTERNAL_ERROR :: int where "INTERNAL_ERROR = -32603"
definition SERVER_ERROR :: int where "SERVER_ERROR = -32000"

lemmas error_codes = PARSE_ERROR_def INVALID_REQUEST_def METHOD_NOT_FOUND_def INVALID_PARAMS_def
  INTERNAL_ERROR_def SERVER_ERROR_def

datatype retryability = Retryable | Final

record ipc_error =
  err_code :: int
  err_message :: string

definition ipc_error_new :: "int \<Rightarrow> string \<Rightarrow> ipc_error" where
  "ipc_error_new code message = \<lparr>err_code = code, err_message = message\<rparr>"

record error_object =
  eo_code :: int
  eo_message :: string
  eo_data :: "json option"

definition error_object_new :: "int \<Rightarrow> string \<Rightarrow> json option \<Rightarrow> error_object" where
  "error_object_new code message data = \<lparr>eo_code = code, eo_message = message, eo_data = data\<rparr>"

definition error_object_application :: "int \<Rightarrow> string \<Rightarrow> string \<Rightarrow> retryability \<Rightarrow> error_object" where
  "error_object_application code stable_code message r =
     (let retryable = (case r of Retryable \<Rightarrow> True | Final \<Rightarrow> False)
      in error_object_new code message
           (Some (JObject (map_insert ''retryable'' (JBool retryable)
              (map_insert ''code'' (JString stable_code) [])))))"

definition error_object_protocol :: "int \<Rightarrow> string \<Rightarrow> string \<Rightarrow> error_object" where
  "error_object_protocol code stable_code message =
     error_object_new code message (Some (JObject (map_insert ''code'' (JString stable_code) [])))"

definition error_object_from :: "ipc_error \<Rightarrow> error_object" where
  "error_object_from e = error_object_new (err_code e) (err_message e) None"

section \<open>Request ids\<close>

definition JSONRPC_VERSION :: string where "JSONRPC_VERSION = ''2.0''"
definition PROTOCOL_VERSION :: nat where "PROTOCOL_VERSION = 0"
definition MAX_INLINE_PAYLOAD_BYTES :: nat where "MAX_INLINE_PAYLOAD_BYTES = 64 * 1024"

datatype request_id = IdString string | Signed int | Unsigned nat

definition request_id_parse :: "env \<Rightarrow> json \<Rightarrow> (ipc_error, request_id) result" where
  "request_id_parse E v =
     (case v of
        JString text \<Rightarrow> Ok (IdString text)
      | JNumber n \<Rightarrow>
          (case num_as_u64 E n of
             Some n \<Rightarrow> Ok (Unsigned n)
           | None \<Rightarrow>
               (case num_as_i64 E n of
                  None \<Rightarrow> Err (ipc_error_new INVALID_REQUEST ''a request id must be a string or integral number'')
                | Some i \<Rightarrow> Ok (Signed i)))
      | _ \<Rightarrow> Err (ipc_error_new INVALID_REQUEST
               ''a request id must be a non-null string or integral number''))"

fun request_id_to_value :: "env \<Rightarrow> request_id \<Rightarrow> json" where
  "request_id_to_value E (IdString text) = JString text"
| "request_id_to_value E (Signed i) = JNumber (num_from_int E i)"
| "request_id_to_value E (Unsigned n) = JNumber (num_from_int E (int n))"

definition request_id_from_i64 :: "int \<Rightarrow> request_id" where
  "request_id_from_i64 i = (if i < 0 then Signed i else Unsigned (nat i))"

definition request_id_from_u64 :: "nat \<Rightarrow> request_id" where
  "request_id_from_u64 n = Unsigned n"

fun request_id_debug :: "request_id \<Rightarrow> string" where
  "request_id_debug (IdString s) = ''String('' @ debug_str s @ '')''"
| "request_id_debug (Signed i) = ''Signed('' @ show_int i @ '')''"
| "request_id_debug (Unsigned n) = ''Unsigned('' @ show_nat n @ '')''"

text \<open>The documented use of the variants: \<open>Signed\<close> holds negative integers only.\<close>

fun wf_request_id :: "request_id \<Rightarrow> bool" where
  "wf_request_id (IdString s) = True"
| "wf_request_id (Signed i) = (i < 0 \<and> is_i64 i)"
| "wf_request_id (Unsigned n) = (n \<le> u64_max)"

section \<open>Initialization values\<close>

datatype role = Source | Client | Provider

fun role_debug :: "role \<Rightarrow> string" where
  "role_debug Source = ''Source''"
| "role_debug Client = ''Client''"
| "role_debug Provider = ''Provider''"

record peer_identity =
  pi_name :: string
  pi_version :: string

record event_type_decl =
  et_type :: string
  et_schema :: string

record method_decl =
  md_name :: string

record initialize_params =
  ip_protocol_versions :: "nat list"
  ip_peer :: peer_identity
  ip_roles :: "role list"
  ip_event_types :: "event_type_decl list option"
  ip_methods :: "method_decl list option"
  ip_heartbeat_seconds :: "f64 option"
  ip_max_in_flight :: "nat option"

record initialize_result =
  ir_protocol_version :: nat
  ir_runtime :: peer_identity
  ir_roles :: "role list"
  ir_config :: json_map
  ir_heartbeat_seconds :: f64
  ir_max_in_flight :: nat

record ipc_serde =
  params_to_map :: "initialize_params \<Rightarrow> json_map"
  params_from_map :: "json_map \<Rightarrow> (string, initialize_params) result"
  result_to_value :: "initialize_result \<Rightarrow> json"
  result_from_value :: "json \<Rightarrow> (string, initialize_result) result"
  error_from_value :: "json \<Rightarrow> (string, error_object) result"

definition initialize_params_from_map :: "ipc_serde \<Rightarrow> json_map \<Rightarrow> (ipc_error, initialize_params) result" where
  "initialize_params_from_map S params =
     map_err (\<lambda>error. ipc_error_new INVALID_PARAMS (''invalid initialize parameters: '' @ error))
       (params_from_map S params)"

definition initialize_result_from_value :: "ipc_serde \<Rightarrow> json \<Rightarrow> (ipc_error, initialize_result) result" where
  "initialize_result_from_value S v =
     map_err (\<lambda>error. ipc_error_new INVALID_REQUEST (''invalid initialize result: '' @ error))
       (result_from_value S v)"

section \<open>Messages\<close>

record request =
  rq_id :: request_id
  rq_method :: string
  rq_params :: json_map

record notification =
  nt_method :: string
  nt_params :: json_map

record success_response =
  sr_id :: request_id
  sr_result :: json

record error_response =
  er_id :: "request_id option"
  er_error :: error_object

datatype message =
    MRequest request
  | MNotification notification
  | MSuccess success_response
  | MError error_response

definition parse_params :: "json option \<Rightarrow> (ipc_error, json_map) result" where
  "parse_params v =
     (case v of
        None \<Rightarrow> Ok []
      | Some (JObject params) \<Rightarrow> Ok params
      | Some _ \<Rightarrow> Err (ipc_error_new INVALID_REQUEST ''`params` must be an object''))"

definition parse_call :: "env \<Rightarrow> json_map \<Rightarrow> (ipc_error, message) result" where
  "parse_call E members =
     (case Option.bind (map_get members ''method'') as_str of
        None \<Rightarrow> Err (ipc_error_new INVALID_REQUEST ''`method` must be a string'')
      | Some meth \<Rightarrow>
          if meth = [] then Err (ipc_error_new INVALID_REQUEST ''`method` must be non-empty'')
          else and_then (parse_params (map_get members ''params'')) (\<lambda>params.
            case map_get members ''id'' of
              None \<Rightarrow> Ok (MNotification \<lparr>nt_method = meth, nt_params = params\<rparr>)
            | Some i \<Rightarrow> and_then (request_id_parse E i) (\<lambda>i.
                Ok (MRequest \<lparr>rq_id = i, rq_method = meth, rq_params = params\<rparr>))))"

text \<open>The \<open>expect\<close> after the classifier saw the field; it cannot fail there.\<close>

definition parse_success :: "env \<Rightarrow> json_map \<Rightarrow> (ipc_error, message) result" where
  "parse_success E members =
     (case map_get members ''id'' of
        None \<Rightarrow> Err (ipc_error_new INVALID_REQUEST ''a successful response must carry `id`'')
      | Some i \<Rightarrow> and_then (request_id_parse E i) (\<lambda>i.
          Ok (MSuccess \<lparr>sr_id = i, sr_result = the (map_get members ''result'')\<rparr>)))"

definition parse_error :: "env \<Rightarrow> ipc_serde \<Rightarrow> json_map \<Rightarrow> (ipc_error, message) result" where
  "parse_error E S members =
     (case map_get members ''id'' of
        None \<Rightarrow> Err (ipc_error_new INVALID_REQUEST ''an error response must carry `id`'')
      | Some i \<Rightarrow>
          and_then (case i of JNull \<Rightarrow> Ok None | _ \<Rightarrow> and_then (request_id_parse E i) (\<lambda>i. Ok (Some i))) (\<lambda>i.
            and_then (map_err (\<lambda>error. ipc_error_new INVALID_REQUEST
                  (''`error` must be a JSON-RPC error object: '' @ error))
                (error_from_value S (the (map_get members ''error'')))) (\<lambda>error.
              Ok (MError \<lparr>er_id = i, er_error = error\<rparr>))))"

definition parse_value :: "env \<Rightarrow> ipc_serde \<Rightarrow> json \<Rightarrow> (ipc_error, message) result" where
  "parse_value E S v =
     (case v of
        JObject members \<Rightarrow>
          if Option.bind (map_get members ''jsonrpc'') as_str \<noteq> Some JSONRPC_VERSION
          then Err (ipc_error_new INVALID_REQUEST ''a JSON-RPC message must carry `jsonrpc` equal to `2.0`'')
          else
            (case (contains_key members ''method'', contains_key members ''result'', contains_key members ''error'') of
               (True, False, False) \<Rightarrow> parse_call E members
             | (False, True, False) \<Rightarrow> parse_success E members
             | (False, False, True) \<Rightarrow> parse_error E S members
             | _ \<Rightarrow> Err (ipc_error_new INVALID_REQUEST
                 ''a JSON-RPC message must be exactly one request, notification, success, or error''))
      | _ \<Rightarrow> Err (ipc_error_new INVALID_REQUEST ''a JSON-RPC message must be an object''))"

definition parse_str :: "env \<Rightarrow> ipc_serde \<Rightarrow> string \<Rightarrow> (ipc_error, message) result" where
  "parse_str E S text =
     (case json_parse E text of
        None \<Rightarrow> Err (ipc_error_new PARSE_ERROR ''the line is not valid JSON'')
      | Some v \<Rightarrow> parse_value E S v)"

definition error_object_fields :: "env \<Rightarrow> error_object \<Rightarrow> json_map" where
  "error_object_fields E e =
     (let members = map_insert ''message'' (JString (eo_message e))
            (map_insert ''code'' (JNumber (num_from_int E (eo_code e))) [])
      in case eo_data e of Some d \<Rightarrow> map_insert ''data'' d members | None \<Rightarrow> members)"

definition message_to_value :: "env \<Rightarrow> message \<Rightarrow> json" where
  "message_to_value E m =
     (let members = map_insert ''jsonrpc'' (JString JSONRPC_VERSION) []
      in JObject (case m of
        MRequest r \<Rightarrow>
          map_insert ''params'' (JObject (rq_params r)) (map_insert ''method'' (JString (rq_method r))
            (map_insert ''id'' (request_id_to_value E (rq_id r)) members))
      | MNotification n \<Rightarrow>
          map_insert ''params'' (JObject (nt_params n)) (map_insert ''method'' (JString (nt_method n)) members)
      | MSuccess s \<Rightarrow>
          map_insert ''result'' (sr_result s) (map_insert ''id'' (request_id_to_value E (sr_id s)) members)
      | MError e \<Rightarrow>
          map_insert ''error'' (JObject (error_object_fields E (er_error e)))
            (map_insert ''id'' (case er_id e of Some i \<Rightarrow> request_id_to_value E i | None \<Rightarrow> JNull) members)))"

definition message_to_json :: "env \<Rightarrow> message \<Rightarrow> string" where
  "message_to_json E m = json_text E (message_to_value E m)"

section \<open>Round trip\<close>

text \<open>
  The values that survive the wire: ids in their documented form, methods that are not empty, and
  no error datum that is an explicit \<open>null\<close>, which reads back as absent.
\<close>

fun wf_message :: "message \<Rightarrow> bool" where
  "wf_message (MRequest r) = (wf_request_id (rq_id r) \<and> rq_method r \<noteq> [])"
| "wf_message (MNotification n) = (nt_method n \<noteq> [])"
| "wf_message (MSuccess s) = wf_request_id (sr_id s)"
| "wf_message (MError e) =
     ((case er_id e of None \<Rightarrow> True | Some i \<Rightarrow> wf_request_id i)
      \<and> is_i64 (eo_code (er_error e)) \<and> eo_data (er_error e) \<noteq> Some JNull)"

text \<open>What \<open>serde\<close> documents of the derived reader of \<open>ErrorObject\<close>: it reads the object it is
  written as.\<close>

definition error_object_law :: "env \<Rightarrow> ipc_serde \<Rightarrow> bool" where
  "error_object_law E S \<longleftrightarrow>
     (\<forall>e. is_i64 (eo_code e) \<and> eo_data e \<noteq> Some JNull \<longrightarrow>
        error_from_value S (JObject (error_object_fields E e)) = Ok e)"

lemma request_id_round_trip:
  "integer_views E \<Longrightarrow> wf_request_id i \<Longrightarrow> request_id_parse E (request_id_to_value E i) = Ok i"
  by (cases i) (auto simp: request_id_parse_def integer_views_def)

lemma request_id_value_not_null [simp]: "request_id_to_value E i \<noteq> JNull"
  by (cases i) auto

lemma parse_id_not_null:
  "v \<noteq> JNull \<Longrightarrow> (case v of JNull \<Rightarrow> Ok None | _ \<Rightarrow> and_then (request_id_parse E v) (\<lambda>i. Ok (Some i)))
     = and_then (request_id_parse E v) (\<lambda>i. Ok (Some i))"
  by (cases v) auto

lemmas message_defs = parse_value_def message_to_value_def Let_def contains_key_def parse_call_def
  parse_success_def parse_error_def parse_params_def

lemma message_round_trip:
  assumes "integer_views E" "error_object_law E S" "wf_message m"
  shows "parse_value E S (message_to_value E m) = Ok m"
proof (cases m)
  case (MRequest r)
  then show ?thesis using assms request_id_round_trip by (simp add: message_defs)
next
  case (MNotification n)
  then show ?thesis using assms by (simp add: message_defs)
next
  case (MSuccess s)
  then show ?thesis using assms request_id_round_trip by (simp add: message_defs)
next
  case (MError e)
  have "error_from_value S (JObject (error_object_fields E (er_error e))) = Ok (er_error e)"
    using assms MError by (simp add: error_object_law_def)
  then show ?thesis
    using assms MError request_id_round_trip
    by (cases "er_id e") (simp_all add: message_defs parse_id_not_null)
qed

interpretation message_wire: round_trip "message_to_value E" "parse_value E S"
    "\<lambda>m. integer_views E \<and> error_object_law E S \<and> wf_message m" for E S
  by unfold_locales (simp add: message_round_trip)

text \<open>A concrete \<open>ipc_serde\<close>, which reads error objects field by field and knows one set of
  initialization values.\<close>

definition sample_error_from_value :: "json \<Rightarrow> (string, error_object) result" where
  "sample_error_from_value v =
     (case v of
        JObject m \<Rightarrow>
          (case (map_get m ''code'', map_get m ''message'') of
             (Some (JNumber n), Some (JString s)) \<Rightarrow>
               (case sample_i64 n of
                  Some c \<Rightarrow> Ok (error_object_new c s
                    (case map_get m ''data'' of Some JNull \<Rightarrow> None | d \<Rightarrow> d))
                | None \<Rightarrow> Err ''invalid code'')
           | _ \<Rightarrow> Err ''missing field'')
      | _ \<Rightarrow> Err ''invalid type'')"

definition sample_serde :: "initialize_params \<Rightarrow> initialize_result \<Rightarrow> ipc_serde" where
  "sample_serde p r =
     \<lparr>params_to_map = (\<lambda>_. []), params_from_map = (\<lambda>_. Ok p),
      result_to_value = (\<lambda>_. JObject []), result_from_value = (\<lambda>_. Ok r),
      error_from_value = sample_error_from_value\<rparr>"

lemma sample_error_object_law: "error_object_law sample_env (sample_serde p r)"
proof -
  have "sample_error_from_value (JObject (error_object_fields sample_env e)) = Ok e"
    if "eo_data e \<noteq> Some JNull" for e
    using that
    by (cases "eo_data e")
      (auto simp: sample_error_from_value_def error_object_fields_def sample_env_def error_object_new_def
        Let_def split: json.splits)
  then show ?thesis by (simp add: error_object_law_def sample_serde_def)
qed

section \<open>Properties\<close>



text \<open>A non-negative id in the variant for negative integers does not survive the wire: it comes
  back in the other variant, so a response to it matches no pending request.\<close>

theorem signed_nonnegative_id_changes:
  assumes "integer_views E" "0 \<le> i" "is_i64 i"
  shows "request_id_parse E (request_id_to_value E (Signed i)) = Ok (Unsigned (nat i))"
proof -
  have "nat i \<le> u64_max" using assms(2,3) by (simp add: is_i64_def u64_max_def)
  with assms(1,2) show ?thesis by (auto simp: request_id_parse_def integer_views_def dest!: spec [of _ "nat i"])
qed

theorem signed_nonnegative_id_changes_witness:
  "request_id_parse sample_env (request_id_to_value sample_env (Signed 5)) = Ok (Unsigned 5)"
  using signed_nonnegative_id_changes [OF sample_integer_views, of 5] by (simp add: is_i64_def)

end
