(* ===== verification/Ipc_Frame.thy ===== *)
theory Ipc_Frame
  imports Ipc_Message
begin

text \<open>
  \<open>crates/zeta-ipc/src/frame.rs\<close>: newline-delimited framing.  The reader's source is the list of
  what its successive \<open>read\<close> calls return; after the list, and on an empty chunk, it is at its
  end.  \<open>read_frame\<close> is the source's loop, \<open>read_all\<close> calls it until the end of input.

  \<open>split_lines\<close> cuts the whole input at its newlines.  The main results are that one frame is read per
  line, however the input is cut into chunks, and that written messages arrive as written.
\<close>

section \<open>UTF-8\<close>

text \<open>
  Well-formed UTF-8 as \<open>std::str::from_utf8\<close> checks it.  \<open>utf8_scan\<close> looks at the front of a
  nonempty input and returns whether a whole character stands there, and how many bytes it has or
  how many bytes \<open>String::from_utf8_lossy\<close> replaces by one U+FFFD.
\<close>

definition code :: "char \<Rightarrow> nat" where
  "code c = of_char c"

definition is_cont :: "char \<Rightarrow> bool" where
  "is_cont c \<longleftrightarrow> 0x80 \<le> code c \<and> code c \<le> 0xBF"

definition lead_width :: "char \<Rightarrow> nat" where
  "lead_width c =
     (if code c < 0x80 then 1
      else if 0xC2 \<le> code c \<and> code c \<le> 0xDF then 2
      else if 0xE0 \<le> code c \<and> code c \<le> 0xEF then 3
      else if 0xF0 \<le> code c \<and> code c \<le> 0xF4 then 4
      else 0)"

definition second_ok :: "char \<Rightarrow> char \<Rightarrow> bool" where
  "second_ok c1 c \<longleftrightarrow>
     (if code c1 = 0xE0 then 0xA0 \<le> code c \<and> code c \<le> 0xBF
      else if code c1 = 0xED then 0x80 \<le> code c \<and> code c \<le> 0x9F
      else if code c1 = 0xF0 then 0x90 \<le> code c \<and> code c \<le> 0xBF
      else if code c1 = 0xF4 then 0x80 \<le> code c \<and> code c \<le> 0x8F
      else is_cont c)"

fun utf8_scan :: "bytes \<Rightarrow> bool \<times> nat" where
  "utf8_scan [] = (True, 0)"
| "utf8_scan (c # cs) =
     (let w = lead_width c in
      if w = 0 then (False, 1)
      else if w = 1 then (True, 1)
      else case cs of
        [] \<Rightarrow> (False, 1)
      | c2 # cs2 \<Rightarrow>
          if \<not> second_ok c c2 then (False, 1)
          else if w = 2 then (True, 2)
          else case cs2 of
            [] \<Rightarrow> (False, 2)
          | c3 # cs3 \<Rightarrow>
              if \<not> is_cont c3 then (False, 2)
              else if w = 3 then (True, 3)
              else case cs3 of
                [] \<Rightarrow> (False, 3)
              | c4 # _ \<Rightarrow> if is_cont c4 then (True, 4) else (False, 3))"

lemma utf8_scan_pos: "0 < snd (utf8_scan (c # cs))"
  by (auto simp: Let_def split: list.splits)

text \<open>The characters of \<open>from_utf8_lossy\<close>, each as its UTF-8 bytes; U+FFFD is \<open>EF BF BD\<close>.\<close>

function lossy_chars :: "bytes \<Rightarrow> string list" where
  "lossy_chars [] = []"
| "lossy_chars (c # cs) =
     (let (ok, n) = utf8_scan (c # cs)
      in (if ok then take n (c # cs) else [CHR 0xEF, CHR 0xBF, CHR 0xBD]) # lossy_chars (drop n (c # cs)))"
  by pat_completeness auto
termination
  by (relation "measure length") (auto dest: sym intro!: diff_less simp: utf8_scan_pos prod_eq_iff simp del: utf8_scan.simps)

function valid_utf8 :: "bytes \<Rightarrow> bool" where
  "valid_utf8 [] = True"
| "valid_utf8 (c # cs) = (let (ok, n) = utf8_scan (c # cs) in ok \<and> valid_utf8 (drop n (c # cs)))"
  by pat_completeness auto
termination
  by (relation "measure length") (auto dest: sym intro!: diff_less simp: utf8_scan_pos prod_eq_iff simp del: utf8_scan.simps)

section \<open>Frames\<close>

definition MAX_FRAME_BYTES :: nat where "MAX_FRAME_BYTES = 8 * 1024 * 1024"
definition READ_CHUNK :: nat where "READ_CHUNK = 64 * 1024"
definition PREVIEW_CHARACTERS :: nat where "PREVIEW_CHARACTERS = 200"

record violation =
  v_rule :: string
  v_code :: int
  v_detail :: string
  v_request_id :: "request_id option"
  v_preview :: string

datatype frame = FMessage message | FViolation violation

definition position_of_newline :: "bytes \<Rightarrow> nat option" where
  "position_of_newline bs = (if CHR 0x0A \<in> set bs then Some (length (takeWhile (\<lambda>b. b \<noteq> CHR 0x0A) bs)) else None)"

text \<open>The ellipsis U+2026 is \<open>E2 80 A6\<close>.\<close>

definition preview :: "bytes \<Rightarrow> string" where
  "preview line =
     (let text = lossy_chars line
      in concat (take PREVIEW_CHARACTERS text)
         @ (if PREVIEW_CHARACTERS < length text then [CHR 0xE2, CHR 0x80, CHR 0xA6] else []))"

definition overlong_frame :: "bytes \<Rightarrow> nat \<Rightarrow> frame" where
  "overlong_frame line max_frame_bytes = FViolation
     \<lparr>v_rule = ''frame_too_long'', v_code = PARSE_ERROR,
      v_detail = ''line exceeded the '' @ show_nat max_frame_bytes @ ''-byte frame limit'',
      v_request_id = None, v_preview = preview line\<rparr>"

definition recover_request_id :: "env \<Rightarrow> json \<Rightarrow> request_id option" where
  "recover_request_id E v =
     (case as_object v of
        None \<Rightarrow> None
      | Some m \<Rightarrow>
          if \<not> contains_key m ''method'' \<or> contains_key m ''result'' \<or> contains_key m ''error'' then None
          else (case map_get m ''id'' of
                  None \<Rightarrow> None
                | Some i \<Rightarrow> (case request_id_parse E i of Inl _ \<Rightarrow> None | Inr i \<Rightarrow> Some i)))"

definition strip_carriage_returns :: "bytes \<Rightarrow> bytes" where
  "strip_carriage_returns line = rev (dropWhile (\<lambda>b. b = CHR 0x0D) (rev line))"

definition parse_violation :: "string \<Rightarrow> string \<Rightarrow> frame" where
  "parse_violation detail pv = FViolation
     \<lparr>v_rule = ''parse_error'', v_code = PARSE_ERROR, v_detail = detail, v_request_id = None, v_preview = pv\<rparr>"

definition decode_line :: "env \<Rightarrow> ipc_serde \<Rightarrow> bytes \<Rightarrow> frame" where
  "decode_line E S line =
     (let line = strip_carriage_returns line in
      if line = [] then FViolation
        \<lparr>v_rule = ''empty_line'', v_code = PARSE_ERROR, v_detail = ''empty line'',
         v_request_id = None, v_preview = []\<rparr>
      else if \<not> valid_utf8 line then parse_violation ''the line is not valid UTF-8'' (preview line)
      else case json_parse E line of
        None \<Rightarrow> parse_violation ''the line is not valid JSON'' (preview line)
      | Some v \<Rightarrow>
          (case parse_value E S v of
             Inr m \<Rightarrow> FMessage m
           | Inl e \<Rightarrow>
               (let rule = (if err_code e = PARSE_ERROR then ''parse_error''
                            else if err_code e = INVALID_REQUEST then ''invalid_request''
                            else ''invalid_params'')
                in FViolation
                  \<lparr>v_rule = rule, v_code = err_code e, v_detail = err_message e,
                   v_request_id = recover_request_id E v, v_preview = preview line\<rparr>)))"

section \<open>The reader\<close>

type_synonym io_failure = string

record frame_reader =
  fr_inner :: "(io_failure, bytes) result list"
  fr_buffer :: bytes
  fr_eof :: bool
  fr_max_frame_bytes :: nat

definition frame_reader_with_max :: "(io_failure, bytes) result list \<Rightarrow> nat \<Rightarrow> frame_reader" where
  "frame_reader_with_max inner max_frame_bytes =
     \<lparr>fr_inner = inner, fr_buffer = [], fr_eof = False, fr_max_frame_bytes = max_frame_bytes\<rparr>"

definition frame_reader_new :: "(io_failure, bytes) result list \<Rightarrow> frame_reader" where
  "frame_reader_new inner = frame_reader_with_max inner MAX_FRAME_BYTES"

text \<open>One \<open>read\<close> on the source: \<open>Ok []\<close> is a count of zero.\<close>

fun read_inner :: "(io_failure, bytes) result list \<Rightarrow> (io_failure, bytes) result \<times> (io_failure, bytes) result list" where
  "read_inner [] = (Ok [], [])"
| "read_inner (x # xs) = (x, xs)"

text \<open>The loop of \<open>discard_until_newline\<close>: the error, or whether the end was reached and what
  follows the newline.\<close>

fun discard_loop :: "(io_failure, bytes) result list \<Rightarrow>
    (io_failure, bool \<times> bytes) result \<times> (io_failure, bytes) result list" where
  "discard_loop [] = (Ok (True, []), [])"
| "discard_loop (Inl e # inner) = (Err e, inner)"
| "discard_loop (Inr chunk # inner) =
     (if chunk = [] then (Ok (True, []), inner)
      else case position_of_newline chunk of
        None \<Rightarrow> discard_loop inner
      | Some newline \<Rightarrow> (Ok (False, drop (newline + 1) chunk), inner))"

definition discard_until_newline :: "frame_reader \<Rightarrow> frame_reader \<times> (io_failure, frame option) result" where
  "discard_until_newline rd =
     (let head = take (min (length (fr_buffer rd)) PREVIEW_CHARACTERS) (fr_buffer rd);
          (outcome, inner) = discard_loop (fr_inner rd);
          rd = rd\<lparr>fr_buffer := [], fr_inner := inner\<rparr>
      in case outcome of
           Inl e \<Rightarrow> (rd, Err e)
         | Inr (ended, rest) \<Rightarrow>
             (rd\<lparr>fr_buffer := rest, fr_eof := fr_eof rd \<or> ended\<rparr>,
              Ok (Some (overlong_frame head (fr_max_frame_bytes rd)))))"

definition line_frame :: "env \<Rightarrow> ipc_serde \<Rightarrow> nat \<Rightarrow> bytes \<Rightarrow> frame" where
  "line_frame E S max_frame_bytes line =
     (if length line > max_frame_bytes then overlong_frame line max_frame_bytes else decode_line E S line)"

lemma read_inner_shrinks:
  "(r, ys) = read_inner xs \<Longrightarrow> length ys \<le> length xs \<and> (r = Ok [] \<or> length ys < length xs)"
  by (cases xs) auto

function read_frame ::
  "env \<Rightarrow> ipc_serde \<Rightarrow> frame_reader \<Rightarrow> frame_reader \<times> (io_failure, frame option) result" where
  "read_frame E S rd =
     (case position_of_newline (fr_buffer rd) of
        Some newline \<Rightarrow>
          (rd\<lparr>fr_buffer := drop (newline + 1) (fr_buffer rd)\<rparr>,
           Ok (Some (line_frame E S (fr_max_frame_bytes rd) (take newline (fr_buffer rd)))))
      | None \<Rightarrow>
          if fr_eof rd then
            (if fr_buffer rd = [] then (rd, Ok None)
             else (rd\<lparr>fr_buffer := []\<rparr>, Ok (Some (line_frame E S (fr_max_frame_bytes rd) (fr_buffer rd)))))
          else if length (fr_buffer rd) > fr_max_frame_bytes rd then discard_until_newline rd
          else case read_inner (fr_inner rd) of
            (Inl e, inner) \<Rightarrow> (rd\<lparr>fr_inner := inner\<rparr>, Err e)
          | (Inr chunk, inner) \<Rightarrow>
              if chunk = [] then read_frame E S (rd\<lparr>fr_inner := inner, fr_eof := True\<rparr>)
              else read_frame E S (rd\<lparr>fr_inner := inner, fr_buffer := fr_buffer rd @ chunk\<rparr>))"
  by pat_completeness auto
termination
  by (relation "measure (\<lambda>(E, S, rd). length (fr_inner rd) + (if fr_eof rd then 0 else 1))")
    (auto dest!: read_inner_shrinks)

declare read_frame.simps [simp del]

definition write_message :: "env \<Rightarrow> bytes \<Rightarrow> message \<Rightarrow> bytes" where
  "write_message E output m = output @ message_to_json E m @ [CHR 0x0A]"

section \<open>What a reader delivers\<close>

text \<open>The first \<open>n\<close> frames of a reader, up to the end of input or a failed read.\<close>

primrec read_many :: "env \<Rightarrow> ipc_serde \<Rightarrow> nat \<Rightarrow> frame_reader \<Rightarrow> frame list" where
  "read_many E S 0 rd = []"
| "read_many E S (Suc n) rd =
     (case read_frame E S rd of
        (rd', Inr (Some f)) \<Rightarrow> f # read_many E S n rd'
      | _ \<Rightarrow> [])"

text \<open>The lines of an input: cut after every newline, with a last line that may lack it.\<close>

function split_lines :: "bytes \<Rightarrow> bytes list" where
  "split_lines bs =
     (if bs = [] then []
      else takeWhile (\<lambda>b. b \<noteq> CHR 0x0A) bs
           # split_lines (drop (Suc (length (takeWhile (\<lambda>b. b \<noteq> CHR 0x0A) bs))) bs))"
  by pat_completeness auto
termination
  by (relation "measure length") (auto simp: Suc_le_eq length_greater_0_conv)

declare split_lines.simps [simp del]

text \<open>The frame of a line.  A line within the limit is decoded whole.  A longer one is refused, with the
  preview of the whole line when it was buffered with its end, and otherwise of its first bytes: 200
  of them, or fewer when the limit is below that and the line was cut there.\<close>

definition frame_of_line :: "env \<Rightarrow> ipc_serde \<Rightarrow> nat \<Rightarrow> bytes \<Rightarrow> frame \<Rightarrow> bool" where
  "frame_of_line E S max_frame_bytes line f \<longleftrightarrow>
     (if length line \<le> max_frame_bytes then f = decode_line E S line
      else f = overlong_frame line max_frame_bytes
        \<or> (\<exists>k \<in> {min (Suc max_frame_bytes) PREVIEW_CHARACTERS..PREVIEW_CHARACTERS}.
              f = overlong_frame (take k line) max_frame_bytes))"

definition clean :: "frame_reader \<Rightarrow> bool" where
  "clean rd \<longleftrightarrow> list_all (\<lambda>r. is_ok r \<and> r \<noteq> Ok []) (fr_inner rd) \<and> (fr_eof rd \<longrightarrow> fr_inner rd = [])"

definition chunk_bytes :: "(io_failure, bytes) result list \<Rightarrow> bytes" where
  "chunk_bytes inner = concat (map (case_sum (\<lambda>_. []) (\<lambda>b. b)) inner)"

definition unread :: "frame_reader \<Rightarrow> bytes" where
  "unread rd = fr_buffer rd @ chunk_bytes (fr_inner rd)"

lemma chunk_bytes_simps [simp]: "chunk_bytes [] = []" "chunk_bytes (Inr b # inner) = b @ chunk_bytes inner"
  by (simp_all add: chunk_bytes_def)

lemma position_Some_iff:
  "position_of_newline bs = Some n \<longleftrightarrow>
     CHR 0x0A \<in> set bs \<and> n = length (takeWhile (\<lambda>b. b \<noteq> CHR 0x0A) bs)"
  and position_None_iff: "position_of_newline bs = None \<longleftrightarrow> CHR 0x0A \<notin> set bs"
  by (auto simp: position_of_newline_def)

lemma takeWhile_line: "CHR 0x0A \<notin> set bs \<Longrightarrow> takeWhile (\<lambda>b. b \<noteq> CHR 0x0A) (bs @ cs) = bs @ takeWhile (\<lambda>b. b \<noteq> CHR 0x0A) cs"
  by (rule takeWhile_append2) auto

lemma takeWhile_found: "CHR 0x0A \<in> set bs \<Longrightarrow> takeWhile (\<lambda>b. b \<noteq> CHR 0x0A) (bs @ cs) = takeWhile (\<lambda>b. b \<noteq> CHR 0x0A) bs"
  by (rule takeWhile_append1) auto

lemma takeWhile_length_less: "CHR 0x0A \<in> set bs \<Longrightarrow> length (takeWhile (\<lambda>b. b \<noteq> CHR 0x0A) bs) < length bs"
  by (induction bs) auto

lemma split_lines_Nil [simp]: "split_lines [] = []"
  by (simp add: split_lines.simps)

lemma split_lines_found:
  "CHR 0x0A \<in> set bs \<Longrightarrow> split_lines (bs @ cs)
     = takeWhile (\<lambda>b. b \<noteq> CHR 0x0A) bs # split_lines (drop (Suc (length (takeWhile (\<lambda>b. b \<noteq> CHR 0x0A) bs))) bs @ cs)"
  using takeWhile_length_less [of bs]
  by (subst split_lines.simps) (auto simp: takeWhile_found)

lemma takeWhile_whole: "CHR 0x0A \<notin> set bs \<Longrightarrow> takeWhile (\<lambda>b. b \<noteq> CHR 0x0A) bs = bs"
  by (rule takeWhile_eq_all_conv [THEN iffD2]) auto

lemma split_lines_last: "CHR 0x0A \<notin> set bs \<Longrightarrow> bs \<noteq> [] \<Longrightarrow> split_lines bs = [bs]"
  by (subst split_lines.simps) (simp add: takeWhile_whole)

lemma discard_loop_clean:
  assumes "list_all (\<lambda>r. is_ok r \<and> r \<noteq> Ok []) inner"
  shows "\<exists>ended rest inner'. discard_loop inner = (Ok (ended, rest), inner')
    \<and> list_all (\<lambda>r. is_ok r \<and> r \<noteq> Ok []) inner' \<and> (ended \<longrightarrow> inner' = [])
    \<and> rest @ chunk_bytes inner'
      = drop (Suc (length (takeWhile (\<lambda>b. b \<noteq> CHR 0x0A) (chunk_bytes inner)))) (chunk_bytes inner)
    \<and> length inner' \<le> length inner"
  using assms
proof (induction inner)
  case (Cons r inner)
  then obtain chunk where r: "r = Ok chunk" "chunk \<noteq> []" by (cases r) auto
  show ?case
  proof (cases "CHR 0x0A \<in> set chunk")
    case True
    then show ?thesis
      using r Cons.prems takeWhile_length_less [OF True]
      by (auto simp: position_of_newline_def takeWhile_found)
  next
    case False
    then show ?thesis
      using r Cons by (auto simp: position_of_newline_def takeWhile_line)
  qed
qed auto

lemma line_frame_of_line: "frame_of_line E S m l (line_frame E S m l)"
  by (simp add: frame_of_line_def line_frame_def)

lemma discarded_frame_of_line:
  assumes "m < length buffer"
  shows "frame_of_line E S m (buffer @ rest)
    (overlong_frame (take (min (length buffer) PREVIEW_CHARACTERS) buffer) m)"
proof -
  let ?k = "min (length buffer) PREVIEW_CHARACTERS"
  have "take ?k buffer = take ?k (buffer @ rest)" by simp
  moreover have "?k \<in> {min (Suc m) PREVIEW_CHARACTERS..PREVIEW_CHARACTERS}" using assms by auto
  moreover have "\<not> length (buffer @ rest) \<le> m" using assms by simp
  ultimately show ?thesis unfolding frame_of_line_def by metis
qed

text \<open>\<open>takes_line rd out\<close>: the outcome of one call that takes exactly the first line off what is
  unread.\<close>

definition takes_line ::
  "env \<Rightarrow> ipc_serde \<Rightarrow> frame_reader \<Rightarrow> frame_reader \<times> (io_failure, frame option) result \<Rightarrow> bool" where
  "takes_line E S rd out \<longleftrightarrow>
     (\<exists>rd' r. out = (rd', Ok r) \<and> clean rd' \<and> fr_max_frame_bytes rd' = fr_max_frame_bytes rd
       \<and> split_lines (unread rd') = tl (split_lines (unread rd))
       \<and> (if unread rd = [] then r = None
          else \<exists>f. r = Some f \<and> frame_of_line E S (fr_max_frame_bytes rd) (hd (split_lines (unread rd))) f))"

lemma takes_lineI:
  assumes "clean rd'" "fr_max_frame_bytes rd' = fr_max_frame_bytes rd" "unread rd \<noteq> []"
    and "split_lines (unread rd) = l # split_lines (unread rd')"
    and "frame_of_line E S (fr_max_frame_bytes rd) l f"
  shows "takes_line E S rd (rd', Ok (Some f))"
  using assms by (simp add: takes_line_def)

lemma takes_line_cong:
  "unread rd = unread rd' \<Longrightarrow> fr_max_frame_bytes rd = fr_max_frame_bytes rd' \<Longrightarrow>
     takes_line E S rd' out \<Longrightarrow> takes_line E S rd out"
  by (simp only: takes_line_def)

lemma read_frame_found:
  assumes "clean rd" and nl: "CHR 0x0A \<in> set (fr_buffer rd)"
  shows "takes_line E S rd (read_frame E S rd)"
proof -
  let ?line = "takeWhile (\<lambda>b. b \<noteq> CHR 0x0A) (fr_buffer rd)"
  have pos: "position_of_newline (fr_buffer rd) = Some (length ?line)" using nl by (simp add: position_Some_iff)
  have take: "take (length ?line) (fr_buffer rd) = ?line" by (metis takeWhile_eq_take)
  have "read_frame E S rd = (rd\<lparr>fr_buffer := drop (Suc (length ?line)) (fr_buffer rd)\<rparr>,
      Ok (Some (line_frame E S (fr_max_frame_bytes rd) ?line)))"
    by (subst read_frame.simps) (simp only: pos option.case take Suc_eq_plus1)
  moreover have "split_lines (unread rd) = ?line # split_lines (drop (Suc (length ?line)) (fr_buffer rd) @ chunk_bytes (fr_inner rd))"
    unfolding unread_def by (rule split_lines_found [OF nl])
  moreover have "unread rd \<noteq> []" using nl by (auto simp: unread_def)
  ultimately show ?thesis
    using assms(1) by (auto intro!: takes_lineI line_frame_of_line simp: clean_def unread_def)
qed

lemma read_frame_ended:
  assumes "clean rd" "CHR 0x0A \<notin> set (fr_buffer rd)" "fr_eof rd"
  shows "takes_line E S rd (read_frame E S rd)"
proof -
  have un: "unread rd = fr_buffer rd" using assms by (simp add: clean_def unread_def)
  have pos: "position_of_newline (fr_buffer rd) = None" using assms(2) by (simp add: position_None_iff)
  show ?thesis
  proof (cases "fr_buffer rd = []")
    case True
    then have "read_frame E S rd = (rd, Ok None)" using pos assms(3) by (subst read_frame.simps) simp
    then show ?thesis using True un assms(1) by (simp add: takes_line_def)
  next
    case False
    then have "read_frame E S rd = (rd\<lparr>fr_buffer := []\<rparr>, Ok (Some (line_frame E S (fr_max_frame_bytes rd) (fr_buffer rd))))"
      using pos assms(3) by (subst read_frame.simps) simp
    moreover have "split_lines (unread rd) = fr_buffer rd # split_lines (unread (rd\<lparr>fr_buffer := []\<rparr>))"
      using un split_lines_last [OF assms(2) False] by (simp add: unread_def)
    ultimately show ?thesis
      using False un assms(1) by (auto intro!: takes_lineI line_frame_of_line simp: clean_def)
  qed
qed

lemma read_frame_long:
  assumes "clean rd" and nl: "CHR 0x0A \<notin> set (fr_buffer rd)" and long: "\<not> fr_eof rd"
    "fr_max_frame_bytes rd < length (fr_buffer rd)"
  shows "takes_line E S rd (read_frame E S rd)"
proof -
  let ?rest = "chunk_bytes (fr_inner rd)"
  obtain ended rest inner' where d: "discard_loop (fr_inner rd) = (Ok (ended, rest), inner')"
    "list_all (\<lambda>r. is_ok r \<and> r \<noteq> Ok []) inner'" "ended \<longrightarrow> inner' = []"
    "rest @ chunk_bytes inner' = drop (Suc (length (takeWhile (\<lambda>b. b \<noteq> CHR 0x0A) ?rest))) ?rest"
    using discard_loop_clean [of "fr_inner rd"] assms(1) unfolding clean_def by blast
  let ?line = "fr_buffer rd @ takeWhile (\<lambda>b. b \<noteq> CHR 0x0A) ?rest"
  let ?rd = "rd\<lparr>fr_buffer := rest, fr_inner := inner', fr_eof := ended\<rparr>"
  have ne: "unread rd \<noteq> []" using long(2) by (auto simp: unread_def)
  have pos: "position_of_newline (fr_buffer rd) = None" using nl by (simp add: position_None_iff)
  have drop: "drop (Suc (length ?line)) (unread rd) = unread ?rd"
    using d(4) by (simp add: unread_def)
  have lines: "split_lines (unread rd) = ?line # split_lines (unread ?rd)"
    unfolding drop [symmetric] using ne
    by (subst split_lines.simps) (simp add: unread_def takeWhile_line [OF nl])
  have "read_frame E S rd = discard_until_newline rd"
    using pos long by (subst read_frame.simps) simp
  then have "read_frame E S rd = (?rd,
      Ok (Some (overlong_frame (take (min (length (fr_buffer rd)) PREVIEW_CHARACTERS) (fr_buffer rd)) (fr_max_frame_bytes rd))))"
    using d(1) long(1) by (simp add: discard_until_newline_def Let_def)
  moreover note discarded_frame_of_line [OF long(2), of E S "takeWhile (\<lambda>b. b \<noteq> CHR 0x0A) ?rest"]
  ultimately show ?thesis
    using ne lines d(2,3) by (auto intro!: takes_lineI simp: clean_def)
qed

text \<open>One call on a clean reader takes exactly the first line off what is unread.\<close>

lemma read_frame_takes_line: "clean rd \<Longrightarrow> takes_line E S rd (read_frame E S rd)"
proof (induction E S rd rule: read_frame.induct)
  case (1 E S rd)
  show ?case
  proof (cases "CHR 0x0A \<in> set (fr_buffer rd) \<or> fr_eof rd \<or> fr_max_frame_bytes rd < length (fr_buffer rd)")
    case True
    then show ?thesis using 1(3) read_frame_found read_frame_ended read_frame_long by blast
  next
    case False
    then have pos: "position_of_newline (fr_buffer rd) = None" and more: "\<not> fr_eof rd"
      "\<not> fr_max_frame_bytes rd < length (fr_buffer rd)" by (auto simp: position_None_iff)
    show ?thesis
    proof (cases "fr_inner rd")
      case Nil
      let ?rd = "rd\<lparr>fr_inner := [], fr_eof := True\<rparr>"
      have eq: "read_frame E S rd = read_frame E S ?rd"
        using pos more Nil by (subst read_frame.simps) simp
      have "clean ?rd" "unread rd = unread ?rd" using Nil by (simp_all add: clean_def unread_def)
      then show ?thesis
        unfolding eq using 1(1) [OF pos more(1,2), of "Ok []" "[]" "[]"] Nil
        by (intro takes_line_cong [of rd ?rd]) simp_all
    next
      case (Cons r inner)
      then obtain chunk where chunk: "r = Ok chunk" "chunk \<noteq> []"
        using 1(3) by (cases r) (auto simp: clean_def)
      let ?rd = "rd\<lparr>fr_inner := inner, fr_buffer := fr_buffer rd @ chunk\<rparr>"
      have eq: "read_frame E S rd = read_frame E S ?rd"
        using pos more Cons chunk by (subst read_frame.simps) simp
      have "clean ?rd" "unread rd = unread ?rd"
        using Cons chunk 1(3) by (simp_all add: clean_def unread_def)
      then show ?thesis
        unfolding eq using 1(2) [OF pos more(1,2), of "Ok chunk" inner chunk] Cons chunk
        by (intro takes_line_cong [of rd ?rd]) simp_all
    qed
  qed
qed

lemma read_many_spec:
  "clean rd \<Longrightarrow>
     list_all2 (frame_of_line E S (fr_max_frame_bytes rd)) (take n (split_lines (unread rd))) (read_many E S n rd)"
proof (induction n arbitrary: rd)
  case (Suc n)
  from read_frame_takes_line [OF Suc.prems, of E S] obtain rd' r where
    rf: "read_frame E S rd = (rd', Ok r)" "clean rd'" "fr_max_frame_bytes rd' = fr_max_frame_bytes rd"
      "split_lines (unread rd') = tl (split_lines (unread rd))"
      "if unread rd = [] then r = None
       else \<exists>f. r = Some f \<and> frame_of_line E S (fr_max_frame_bytes rd) (hd (split_lines (unread rd))) f"
    unfolding takes_line_def by blast
  show ?case
  proof (cases "unread rd = []")
    case True
    then show ?thesis using rf by simp
  next
    case False
    then have "split_lines (unread rd) \<noteq> []" by (subst split_lines.simps) simp
    then obtain l ls where ls: "split_lines (unread rd) = l # ls" by (cases "split_lines (unread rd)") auto
    from False rf(5) obtain f where f: "r = Some f" "frame_of_line E S (fr_max_frame_bytes rd) l f"
      by (auto simp: ls)
    then show ?thesis
      using rf(1,3,4) Suc.IH [OF rf(2)] by (simp add: ls)
  qed
qed simp

definition chunks_bounded :: "frame_reader \<Rightarrow> bool" where
  "chunks_bounded rd \<longleftrightarrow> list_all (\<lambda>r. case r of Inl _ \<Rightarrow> True | Inr b \<Rightarrow> length b \<le> READ_CHUNK) (fr_inner rd)"

lemma discard_loop_bounded:
  "list_all (\<lambda>r. case r of Inl _ \<Rightarrow> True | Inr b \<Rightarrow> length b \<le> n) inner \<Longrightarrow>
    discard_loop inner = (Ok (ended, rest), inner') \<Longrightarrow> length rest \<le> n"
  by (induction inner rule: discard_loop.induct) (auto split: if_splits option.splits)

lemma read_frame_bounded:
  "chunks_bounded rd \<Longrightarrow> length (fr_buffer rd) \<le> fr_max_frame_bytes rd + READ_CHUNK \<Longrightarrow>
   length (fr_buffer (fst (read_frame E S rd))) \<le> fr_max_frame_bytes rd + READ_CHUNK"
proof (induction E S rd rule: read_frame.induct)
  case (1 E S rd)
  show ?case
  proof (cases "position_of_newline (fr_buffer rd) \<noteq> None \<or> fr_eof rd")
    case True
    then show ?thesis using 1(4) by (subst read_frame.simps) (auto split: option.splits)
  next
    case False
    then have pos: "position_of_newline (fr_buffer rd) = None" "\<not> fr_eof rd" by auto
    show ?thesis
    proof (cases "fr_max_frame_bytes rd < length (fr_buffer rd)")
      case True
      have "length rest \<le> READ_CHUNK" if "discard_loop (fr_inner rd) = (Ok (ended, rest), inner')" for ended rest inner'
        using discard_loop_bounded [OF _ that] 1(3) by (simp add: chunks_bounded_def)
      moreover have "read_frame E S rd = discard_until_newline rd"
        using pos True by (subst read_frame.simps) simp
      ultimately show ?thesis
        by (cases "discard_loop (fr_inner rd)")
          (auto simp: discard_until_newline_def Let_def trans_le_add2 split: sum.splits prod.splits)
    next
      case more: False
      show ?thesis
      proof (cases "read_inner (fr_inner rd)")
        case (Pair r inner)
        have b: "chunks_bounded (rd\<lparr>fr_inner := inner, fr_eof := True\<rparr>)" "chunks_bounded (rd\<lparr>fr_inner := inner, fr_buffer := c\<rparr>)"
          "r = Ok chunk \<longrightarrow> length chunk \<le> READ_CHUNK" for c chunk
          using 1(3) Pair by (cases "fr_inner rd"; auto simp: chunks_bounded_def)+
        show ?thesis
        proof (cases r)
          case (Inl e)
          then show ?thesis using 1(4) pos more Pair by (subst read_frame.simps) simp
        next
          case (Inr chunk)
          show ?thesis
          proof (cases "chunk = []")
            case True
            have "read_frame E S rd = read_frame E S (rd\<lparr>fr_inner := inner, fr_eof := True\<rparr>)"
              using pos more Pair Inr True by (subst read_frame.simps) simp
            then show ?thesis using 1(1) [OF pos more Pair [symmetric] Inr True b(1)] 1(4) by simp
          next
            case False
            have "read_frame E S rd = read_frame E S (rd\<lparr>fr_inner := inner, fr_buffer := fr_buffer rd @ chunk\<rparr>)"
              using pos more Pair Inr False by (subst read_frame.simps) simp
            then show ?thesis using 1(2) [OF pos more Pair [symmetric] Inr False b(2)] b(3) [of chunk] more Inr by simp
          qed
        qed
      qed
    qed
  qed
qed

section \<open>Delivery\<close>

lemma valid_utf8_ascii: "list_all (\<lambda>c. code c < 128) bs \<Longrightarrow> valid_utf8 bs"
  by (induction bs) (simp_all add: lead_width_def)

text \<open>What \<open>serde_json\<close> documents of a value's compact text: it parses back to the value, it is
  UTF-8 on one line, and it does not end in white space.\<close>

definition json_wire :: "env \<Rightarrow> json \<Rightarrow> bool" where
  "json_wire E v \<longleftrightarrow>
     (let t = json_text E v in
      json_parse E t = Some v \<and> valid_utf8 t \<and> CHR 0x0A \<notin> set t \<and> t \<noteq> [] \<and> last t \<noteq> CHR 0x0D)"

lemma split_lines_written:
  "\<forall>l \<in> set ls. CHR 0x0A \<notin> set l \<Longrightarrow> split_lines (concat (map (\<lambda>l. l @ [CHR 0x0A]) ls)) = ls"
proof (induction ls)
  case (Cons l ls)
  have "takeWhile (\<lambda>b. b \<noteq> CHR 0x0A) (l @ [CHR 0x0A]) = l"
    using Cons.prems takeWhile_line [of l "[CHR 0x0A]"] by simp
  with Cons split_lines_found [of "l @ [CHR 0x0A]" "concat (map (\<lambda>l. l @ [CHR 0x0A]) ls)"] show ?case
    by simp
qed simp

lemma written_lines:
  "foldl (write_message E) out ms = out @ concat (map (\<lambda>l. l @ [CHR 0x0A]) (map (message_to_json E) ms))"
  by (induction ms arbitrary: out) (simp_all add: write_message_def)

lemma strip_carriage_returns_id: "t \<noteq> [] \<Longrightarrow> last t \<noteq> CHR 0x0D \<Longrightarrow> strip_carriage_returns t = t"
  by (cases t rule: rev_cases) (simp_all add: strip_carriage_returns_def)

lemma decode_written:
  assumes "integer_views E" "error_object_law E S" "wf_message m" "json_wire E (message_to_value E m)"
  shows "decode_line E S (message_to_json E m) = FMessage m"
proof -
  have "parse_value E S (message_to_value E m) = Ok m" using assms by (intro message_round_trip)
  then show ?thesis
    using assms(4) strip_carriage_returns_id [of "message_to_json E m"]
    by (simp add: decode_line_def json_wire_def message_to_json_def Let_def)
qed

lemma list_all2_determined:
  "list_all2 P (map g xs) ys \<Longrightarrow> (\<And>x y. x \<in> set xs \<Longrightarrow> P (g x) y \<Longrightarrow> y = h x) \<Longrightarrow> ys = map h xs"
  by (induction xs arbitrary: ys) (auto simp: list_all2_Cons1)

lemma clean_new: "clean (frame_reader_with_max (map Ok (filter (\<lambda>c. c \<noteq> []) chunks)) m)"
  by (auto simp: clean_def frame_reader_with_max_def list_all_iff)

lemma chunk_bytes_filter: "chunk_bytes (map Ok (filter (\<lambda>c. c \<noteq> []) chunks)) = concat chunks"
  by (induction chunks) auto

lemma unread_new: "unread (frame_reader_with_max (map Ok (filter (\<lambda>c. c \<noteq> []) chunks)) m) = concat chunks"
  by (simp add: unread_def frame_reader_with_max_def chunk_bytes_filter)

lemma read_many_new:
  "list_all2 (frame_of_line E S m) (take n (split_lines (concat chunks)))
     (read_many E S n (frame_reader_with_max (map Ok (filter (\<lambda>c. c \<noteq> []) chunks)) m))"
proof -
  let ?rd = "frame_reader_with_max (map Ok (filter (\<lambda>c. c \<noteq> []) chunks)) m"
  have "fr_max_frame_bytes ?rd = m" by (simp add: frame_reader_with_max_def)
  with read_many_spec [of ?rd E S n, OF clean_new] show ?thesis by (simp only: unread_new)
qed

section \<open>Properties\<close>

text \<open>C24: one frame per line.  However an input arrives in nonempty reads, the frames delivered are
  those of its lines, in order and none missing: a line within the limit gives exactly its decoded
  frame, and a longer one a single \<open>frame_too_long\<close> violation that does not disturb the lines after it.
  Only the preview of that violation depends on the reads: it shows the whole line, or its first bytes.\<close>

theorem frames_follow_lines:
  "list_all2 (frame_of_line E S m) (take n (split_lines (concat chunks)))
     (read_many E S n (frame_reader_with_max (map Ok (filter (\<lambda>c. c \<noteq> []) chunks)) m))"
  by (rule read_many_new)

text \<open>C25: messages arrive as written.  When messages in their documented form are written one after
  another and each line is within the limit, a reader delivers exactly those messages, in order,
  however the bytes arrive.\<close>

theorem written_messages_arrive:
  assumes "integer_views E" "error_object_law E S"
    and "list_all (\<lambda>m. wf_message m \<and> json_wire E (message_to_value E m) \<and> length (message_to_json E m) \<le> limit) ms"
    and "concat chunks = foldl (write_message E) [] ms"
  shows "read_many E S n (frame_reader_with_max (map Ok (filter (\<lambda>c. c \<noteq> []) chunks)) limit) = take n (map FMessage ms)"
proof -
  have "split_lines (concat chunks) = map (message_to_json E) ms"
    unfolding assms(4) written_lines append_Nil
    using assms(3) by (intro split_lines_written) (auto simp: list_all_iff json_wire_def message_to_json_def Let_def)
  with read_many_new [where E = E and S = S and m = limit and n = n and chunks = chunks]
  have "list_all2 (frame_of_line E S limit) (map (message_to_json E) (take n ms))
      (read_many E S n (frame_reader_with_max (map Ok (filter (\<lambda>c. c \<noteq> []) chunks)) limit))"
    by (simp only: take_map)
  moreover have "f = FMessage m" if "m \<in> set ms" "frame_of_line E S limit (message_to_json E m) f" for m f
    using that assms(1-3) decode_written [of E S m] by (auto simp: frame_of_line_def list_all_iff)
  ultimately have "read_many E S n (frame_reader_with_max (map Ok (filter (\<lambda>c. c \<noteq> []) chunks)) limit) = map FMessage (take n ms)"
    by (rule list_all2_determined) (auto dest: in_set_takeD)
  then show ?thesis by (simp only: take_map)
qed

definition wire_env :: "json \<Rightarrow> env" where
  "wire_env v = sample_env\<lparr>json_parse := (\<lambda>t. if t = json_text sample_env v then Some v else None)\<rparr>"

definition sample_message :: message where
  "sample_message = MNotification \<lparr>nt_method = ''event'', nt_params = []\<rparr>"

definition sample_line :: string where
  "sample_line = [CHR ''{'', CHR 0x22] @ ''jsonrpc'' @ [CHR 0x22, CHR '':'', CHR 0x22] @ ''2.0'' @ [CHR 0x22, CHR '','', CHR 0x22]
     @ ''method'' @ [CHR 0x22, CHR '':'', CHR 0x22] @ ''event'' @ [CHR 0x22, CHR '','', CHR 0x22] @ ''params'' @ [CHR 0x22] @ '':{}}''"

lemma sample_message_text: "json_text (wire_env v) (message_to_value (wire_env v) sample_message) = sample_line"
  by (simp add: wire_env_def sample_env_def sample_message_def message_to_value_def sample_quote_def escape_char_def
      sample_line_def JSONRPC_VERSION_def Let_def)

lemma sample_message_wire:
  defines "v \<equiv> message_to_value sample_env sample_message"
  shows "json_wire (wire_env v) (message_to_value (wire_env v) sample_message)"
proof -
  have v: "message_to_value (wire_env v) sample_message = v"
    by (simp add: v_def sample_message_def message_to_value_def)
  have line: "json_text sample_env v = sample_line"
    using sample_message_text [of v] unfolding v by (simp add: wire_env_def)
  have "valid_utf8 sample_line" by (rule valid_utf8_ascii) (simp add: sample_line_def code_def)
  moreover have "CHR 0x0A \<notin> set sample_line" "sample_line \<noteq> []" "last sample_line \<noteq> CHR 0x0D"
    by (simp_all add: sample_line_def)
  ultimately show ?thesis unfolding v by (simp add: json_wire_def wire_env_def line Let_def)
qed

lemma wire_env_laws: "integer_views (wire_env v)" "error_object_law (wire_env v) (sample_serde p r)"
  using sample_integer_views sample_error_object_law [of p r]
  by (simp_all add: integer_views_def error_object_law_def wire_env_def error_object_fields_def)

theorem written_messages_arrive_witness:
  "\<exists>E p r. read_many E (sample_serde p r) 5
      (frame_reader_with_max (map Ok (filter (\<lambda>c. c \<noteq> []) [take 7 (sample_line @ [CHR 0x0A]), drop 7 (sample_line @ [CHR 0x0A])])) 1000)
    = [FMessage sample_message]"
proof -
  let ?E = "wire_env (message_to_value sample_env sample_message)"
  have line: "message_to_json ?E sample_message = sample_line"
    using sample_message_text by (simp add: message_to_json_def)
  have ms: "list_all (\<lambda>m. wf_message m \<and> json_wire ?E (message_to_value ?E m) \<and> length (message_to_json ?E m) \<le> 1000) [sample_message]"
    using sample_message_wire line by (simp add: sample_message_def) (simp add: sample_line_def)
  have "concat [take 7 (sample_line @ [CHR 0x0A]), drop 7 (sample_line @ [CHR 0x0A])] = foldl (write_message ?E) [] [sample_message]"
    using line by (simp add: write_message_def del: take_append drop_append)
  note this [THEN written_messages_arrive [OF wire_env_laws ms]]
  moreover have "take 5 (map FMessage [sample_message]) = [FMessage sample_message]" by simp
  ultimately show ?thesis by metis
qed

text \<open>C37: the reader's memory is bounded.  As long as no read returns more than one chunk, a call
  never leaves more than the frame limit plus one chunk in the buffer, whatever the input.\<close>

theorem reader_buffer_bounded:
  assumes "chunks_bounded rd" "length (fr_buffer rd) \<le> fr_max_frame_bytes rd + READ_CHUNK"
  shows "length (fr_buffer (fst (read_frame E S rd))) \<le> fr_max_frame_bytes rd + READ_CHUNK"
  by (rule read_frame_bounded [OF assms])

theorem reader_buffer_bounded_witness:
  "\<exists>p r. length (fr_buffer (fst (read_frame sample_env (sample_serde p r)
     (frame_reader_with_max [Ok ''abc'', Ok ''def''] 4)))) \<le> 4 + READ_CHUNK"
  using reader_buffer_bounded [of "frame_reader_with_max [Ok ''abc'', Ok ''def''] 4" sample_env]
  by (simp add: frame_reader_with_max_def chunks_bounded_def READ_CHUNK_def)

end
