(* ===== verification/Ipc_Validate.thy ===== *)
theory Ipc_Validate
  imports Ipc_Message
begin

text \<open>
  \<open>crates/zeta-ipc/src/validate.rs\<close>: the checks on initialization values and on the parameters of
  the fixed methods.  A \<open>for\<close> loop that returns early is \<open>check_each\<close>; the loops that insert into
  a \<open>BTreeSet\<close> are written with the set of what they have seen.
\<close>

section \<open>Basic checks\<close>

definition invalid_params :: "string \<Rightarrow> (ipc_error, 'a) result" where
  "invalid_params message = Err (ipc_error_new INVALID_PARAMS message)"

definition validate_non_empty :: "string \<Rightarrow> string \<Rightarrow> (ipc_error, unit) result" where
  "validate_non_empty field value =
     (if value = [] then invalid_params (''`'' @ field @ ''` must be non-empty'') else Ok ())"

definition validate_non_empty_request :: "string \<Rightarrow> string \<Rightarrow> (ipc_error, unit) result" where
  "validate_non_empty_request field value =
     (if value = [] then Err (ipc_error_new INVALID_REQUEST (''`'' @ field @ ''` must be non-empty'')) else Ok ())"

definition required_string :: "json_map \<Rightarrow> string \<Rightarrow> (ipc_error, unit) result" where
  "required_string params field =
     (case Option.bind (map_get params field) as_str of
        None \<Rightarrow> invalid_params (''`'' @ field @ ''` must be a non-empty string'')
      | Some value \<Rightarrow> validate_non_empty field value)"

definition null_or_string :: "string \<Rightarrow> json \<Rightarrow> (ipc_error, unit) result" where
  "null_or_string field value =
     (if value = JNull then Ok ()
      else case as_str value of
        None \<Rightarrow> invalid_params (''`'' @ field @ ''` must be null or a non-empty string'')
      | Some value \<Rightarrow> validate_non_empty field value)"

definition optional_string :: "json_map \<Rightarrow> string \<Rightarrow> (ipc_error, unit) result" where
  "optional_string params field =
     (case map_get params field of None \<Rightarrow> Ok () | Some value \<Rightarrow> null_or_string field value)"

definition nullable_string :: "json_map \<Rightarrow> string \<Rightarrow> (ipc_error, unit) result" where
  "nullable_string params field =
     (case map_get params field of
        None \<Rightarrow> invalid_params (''missing parameter '' @ debug_str field)
      | Some value \<Rightarrow> null_or_string field value)"

definition validate_keys :: "json_map \<Rightarrow> string list \<Rightarrow> string list \<Rightarrow> (ipc_error, unit) result" where
  "validate_keys params allowed required =
     and_then (check_each (\<lambda>key. if key \<notin> set allowed
         then invalid_params (''unsupported parameter '' @ debug_str key) else Ok ()) (map fst params)) (\<lambda>_.
       check_each (\<lambda>key. if \<not> contains_key params key
         then invalid_params (''missing parameter '' @ debug_str key) else Ok ()) required)"

definition contains_role :: "role list \<Rightarrow> role \<Rightarrow> bool" where
  "contains_role roles expected \<longleftrightarrow> expected \<in> set roles"

section \<open>Initialization\<close>

definition validate_unique_versions :: "nat list \<Rightarrow> (ipc_error, unit) result" where
  "validate_unique_versions versions =
     (if all_fresh [] versions then Ok ()
      else invalid_params ''`protocol_versions` must not contain duplicates'')"

definition validate_unique_roles :: "role list \<Rightarrow> (ipc_error, unit) result" where
  "validate_unique_roles roles =
     (if all_fresh [] roles then Ok () else invalid_params ''`roles` must not contain duplicates'')"

definition validate_unique_roles_for_result :: "role list \<Rightarrow> (ipc_error, unit) result" where
  "validate_unique_roles_for_result roles =
     (if all_fresh [] roles then Ok ()
      else Err (ipc_error_new INVALID_REQUEST ''the runtime returned duplicate roles''))"

fun validate_event_types :: "string set \<Rightarrow> event_type_decl list \<Rightarrow> (ipc_error, unit) result" where
  "validate_event_types seen [] = Ok ()"
| "validate_event_types seen (d # ds) =
     and_then (validate_non_empty ''event type'' (et_type d)) (\<lambda>_.
       and_then (validate_non_empty ''event schema'' (et_schema d)) (\<lambda>_.
         if et_type d \<in> seen then invalid_params ''`event_types` must not contain duplicate types''
         else validate_event_types (insert (et_type d) seen) ds))"

definition method_is_reserved :: "string \<Rightarrow> bool" where
  "method_is_reserved m \<longleftrightarrow>
     m = ''initialize'' \<or> m = ''event'' \<or> m = ''ping'' \<or> m = ''shutdown'' \<or> m = ''agents.list''
     \<or> m = ''project.reload'' \<or> m = ''runtime.status''
     \<or> prefix ''events.'' m \<or> prefix ''session.'' m \<or> prefix ''rpc.'' m"

fun validate_methods :: "string set \<Rightarrow> method_decl list \<Rightarrow> (ipc_error, unit) result" where
  "validate_methods seen [] = Ok ()"
| "validate_methods seen (d # ds) =
     and_then (validate_non_empty ''method name'' (md_name d)) (\<lambda>_.
       if method_is_reserved (md_name d)
       then invalid_params (''method '' @ debug_str (md_name d) @ '' uses a reserved name'')
       else if md_name d \<in> seen then invalid_params ''`methods` must not contain duplicate names''
       else validate_methods (insert (md_name d) seen) ds)"

text \<open>\<open>seconds.is_finite() && (1.0..=300.0).contains(&seconds)\<close>.\<close>

fun heartbeat_in_range :: "f64 \<Rightarrow> bool" where
  "heartbeat_in_range (Finite q) = (1 \<le> q \<and> q \<le> 300)"
| "heartbeat_in_range _ = False"

definition validate_initialize_params :: "initialize_params \<Rightarrow> (ipc_error, unit) result" where
  "validate_initialize_params params =
     (if ip_protocol_versions params = [] then invalid_params ''`protocol_versions` must be non-empty''
      else
        and_then (validate_unique_versions (ip_protocol_versions params)) (\<lambda>_.
        and_then (validate_non_empty ''peer.name'' (pi_name (ip_peer params))) (\<lambda>_.
        and_then (validate_non_empty ''peer.version'' (pi_version (ip_peer params))) (\<lambda>_.
        if ip_roles params = [] then invalid_params ''`roles` must be non-empty''
        else
        and_then (validate_unique_roles (ip_roles params)) (\<lambda>_.
        and_then (case (ip_event_types params, contains_role (ip_roles params) Source) of
            (Some event_types, True) \<Rightarrow> validate_event_types {} event_types
          | (None, True) \<Rightarrow> invalid_params ''the source role requires `event_types`''
          | (Some _, False) \<Rightarrow> invalid_params ''`event_types` requires the source role''
          | (None, False) \<Rightarrow> Ok ()) (\<lambda>_.
        and_then (case (ip_methods params, contains_role (ip_roles params) Provider) of
            (Some methods, True) \<Rightarrow> validate_methods {} methods
          | (None, True) \<Rightarrow> invalid_params ''the provider role requires `methods`''
          | (Some _, False) \<Rightarrow> invalid_params ''`methods` requires the provider role''
          | (None, False) \<Rightarrow> Ok ()) (\<lambda>_.
        and_then (case ip_heartbeat_seconds params of
            Some seconds \<Rightarrow>
              if \<not> heartbeat_in_range seconds
              then invalid_params ''`heartbeat_seconds` must be a number in [1, 300]'' else Ok ()
          | None \<Rightarrow> Ok ()) (\<lambda>_.
        case ip_max_in_flight params of
            Some limit \<Rightarrow>
              if \<not> (1 \<le> limit \<and> limit \<le> 1024)
              then invalid_params ''`max_in_flight` must be an integer in [1, 1024]'' else Ok ()
          | None \<Rightarrow> Ok ()))))))))"

definition parse_initialize_params :: "ipc_serde \<Rightarrow> json_map \<Rightarrow> (ipc_error, initialize_params) result" where
  "parse_initialize_params S params =
     and_then (initialize_params_from_map S params) (\<lambda>params.
       and_then (validate_initialize_params params) (\<lambda>_. Ok params))"

definition validate_initialize_result :: "initialize_result \<Rightarrow> role list \<Rightarrow> (ipc_error, unit) result" where
  "validate_initialize_result result expected_roles =
     (if ir_protocol_version result \<noteq> PROTOCOL_VERSION
      then Err (ipc_error_new INVALID_REQUEST
        (''the runtime selected unsupported protocol version '' @ show_nat (ir_protocol_version result)))
      else
        and_then (validate_non_empty_request ''runtime.name'' (pi_name (ir_runtime result))) (\<lambda>_.
        and_then (validate_non_empty_request ''runtime.version'' (pi_version (ir_runtime result))) (\<lambda>_.
        and_then (validate_unique_roles_for_result (ir_roles result)) (\<lambda>_.
        if length (ir_roles result) \<noteq> length expected_roles
        then Err (ipc_error_new INVALID_REQUEST ''the runtime did not accept the requested roles exactly'')
        else
        and_then (check_each (\<lambda>expected. if \<not> contains_role (ir_roles result) expected
            then Err (ipc_error_new INVALID_REQUEST ''the runtime did not accept the requested roles exactly'')
            else Ok ()) expected_roles) (\<lambda>_.
        if \<not> heartbeat_in_range (ir_heartbeat_seconds result)
        then Err (ipc_error_new INVALID_REQUEST ''the runtime returned an invalid heartbeat interval'')
        else if \<not> (1 \<le> ir_max_in_flight result \<and> ir_max_in_flight result \<le> 1024)
        then Err (ipc_error_new INVALID_REQUEST ''the runtime returned an invalid in-flight limit'')
        else Ok ())))))"

section \<open>Method parameters\<close>

definition validate_empty :: "json_map \<Rightarrow> (ipc_error, unit) result" where
  "validate_empty params = validate_keys params [] []"

definition validate_publish :: "env \<Rightarrow> json_map \<Rightarrow> (ipc_error, unit) result" where
  "validate_publish E params =
     and_then (validate_keys params
        [''type'', ''payload'', ''idempotency_key'', ''caused_by'', ''session_id'', ''run_id'', ''turn_id'']
        [''type'', ''payload'']) (\<lambda>_.
     and_then (required_string params ''type'') (\<lambda>_.
       let payload = the (map_get params ''payload'') in
       if \<not> is_object payload then invalid_params ''`payload` must be an object''
       else if length (json_text E payload) > MAX_INLINE_PAYLOAD_BYTES
       then invalid_params ''`payload` exceeds the 64 KiB inline limit''
       else check_each (optional_string params)
         [''idempotency_key'', ''caused_by'', ''session_id'', ''run_id'', ''turn_id'']))"

definition validate_events_list :: "env \<Rightarrow> json_map \<Rightarrow> (ipc_error, unit) result" where
  "validate_events_list E params =
     and_then (validate_keys params
        [''event_type'', ''event_type_prefix'', ''session_id'', ''run_id'', ''turn_id'', ''caused_by'',
         ''after_cursor'', ''limit'', ''newest_first''] []) (\<lambda>_.
     and_then (check_each (optional_string params)
        [''event_type'', ''event_type_prefix'', ''session_id'', ''run_id'', ''turn_id'', ''caused_by'']) (\<lambda>_.
     and_then (check_each (\<lambda>field.
         case map_get params field of
           Some value \<Rightarrow>
             if as_u64 E value = None
             then invalid_params (''`'' @ field @ ''` must be a non-negative integer'') else Ok ()
         | None \<Rightarrow> Ok ()) [''after_cursor'', ''limit'']) (\<lambda>_.
       case map_get params ''newest_first'' of
         Some value \<Rightarrow> if \<not> is_boolean value then invalid_params ''`newest_first` must be a boolean'' else Ok ()
       | None \<Rightarrow> Ok ())))"

definition validate_session_start :: "json_map \<Rightarrow> (ipc_error, unit) result" where
  "validate_session_start params =
     and_then (validate_keys params [''message'', ''idempotency_key''] [''message'']) (\<lambda>_.
     and_then (required_string params ''message'') (\<lambda>_. optional_string params ''idempotency_key''))"

definition validate_session_send :: "json_map \<Rightarrow> (ipc_error, unit) result" where
  "validate_session_send params =
     and_then (validate_keys params [''session_id'', ''message'', ''idempotency_key''] [''session_id'', ''message'']) (\<lambda>_.
     and_then (required_string params ''session_id'') (\<lambda>_.
     and_then (required_string params ''message'') (\<lambda>_. optional_string params ''idempotency_key'')))"

definition validate_session_status :: "json_map \<Rightarrow> (ipc_error, unit) result" where
  "validate_session_status params =
     and_then (validate_keys params [''session_id''] [''session_id'']) (\<lambda>_. required_string params ''session_id'')"

definition validate_session_cancel :: "json_map \<Rightarrow> (ipc_error, unit) result" where
  "validate_session_cancel params =
     and_then (validate_keys params [''run_id'', ''session_id'', ''reason''] [''run_id'']) (\<lambda>_.
     and_then (required_string params ''run_id'') (\<lambda>_.
     and_then (optional_string params ''session_id'') (\<lambda>_. optional_string params ''reason'')))"

definition validate_shutdown :: "json_map \<Rightarrow> (ipc_error, unit) result" where
  "validate_shutdown params =
     and_then (validate_keys params [''reason''] []) (\<lambda>_. optional_string params ''reason'')"

definition validate_fixed_request :: "env \<Rightarrow> string \<Rightarrow> json_map \<Rightarrow> (ipc_error, unit) result" where
  "validate_fixed_request E m params =
     (if m = ''events.publish'' then validate_publish E params
      else if m = ''events.list'' then validate_events_list E params
      else if m = ''agents.list'' \<or> m = ''project.reload'' \<or> m = ''runtime.status'' then validate_empty params
      else if m = ''session.start'' then validate_session_start params
      else if m = ''session.send'' then validate_session_send params
      else if m = ''session.status'' then validate_session_status params
      else if m = ''session.list'' then validate_empty params
      else if m = ''session.cancel'' then validate_session_cancel params
      else if m = ''ping'' then validate_empty params
      else if m = ''shutdown'' then validate_shutdown params
      else if m = ''initialize'' \<or> m = ''event''
      then invalid_params (debug_str m @ '' is not valid through the ordinary request path'')
      else Ok ())"

definition validate_direct_request :: "json_map \<Rightarrow> (ipc_error, unit) result" where
  "validate_direct_request params =
     and_then (validate_keys params [''input'', ''base_dir'', ''effect_key''] [''input'']) (\<lambda>_.
       if \<not> is_object (the (map_get params ''input'')) then invalid_params ''`input` must be an object''
       else and_then (optional_string params ''base_dir'') (\<lambda>_. optional_string params ''effect_key''))"

definition validate_durable_event :: "env \<Rightarrow> json \<Rightarrow> (ipc_error, unit) result" where
  "validate_durable_event E value =
     (case value of
        JObject ev \<Rightarrow>
          and_then (check_each (\<lambda>field. if \<not> contains_key ev field
              then invalid_params (''missing event field '' @ debug_str field) else Ok ())
            [''id'', ''type'', ''source'', ''payload'', ''idempotency_key'', ''caused_by'', ''session_id'',
             ''run_id'', ''turn_id'', ''timestamp_ms'', ''cursor'']) (\<lambda>_.
          and_then (check_each (required_string ev) [''id'', ''type'', ''source'']) (\<lambda>_.
          if \<not> is_object (the (map_get ev ''payload'')) then invalid_params ''`event.payload` must be an object''
          else
          and_then (check_each (nullable_string ev)
            [''idempotency_key'', ''caused_by'', ''session_id'', ''run_id'', ''turn_id'']) (\<lambda>_.
          check_each (\<lambda>field. if as_u64 E (the (map_get ev field)) = None
              then invalid_params (''`event.'' @ field @ ''` must be a non-negative integer'') else Ok ())
            [''timestamp_ms'', ''cursor''])))
      | _ \<Rightarrow> invalid_params ''`event` must be an object'')"

definition validate_event_notification :: "env \<Rightarrow> json_map \<Rightarrow> (ipc_error, unit) result" where
  "validate_event_notification E params =
     and_then (validate_keys params [''event''] [''event'']) (\<lambda>_.
       validate_durable_event E (the (map_get params ''event'')))"

definition validate_result :: "string \<Rightarrow> json \<Rightarrow> (ipc_error, unit) result" where
  "validate_result m result =
     (if \<not> is_object result
      then Err (ipc_error_new INVALID_REQUEST (''the result of '' @ debug_str m @ '' must be an object''))
      else Ok ())"

definition fixed_request :: "string \<Rightarrow> bool" where
  "fixed_request m \<longleftrightarrow>
     m = ''events.publish'' \<or> m = ''events.list'' \<or> m = ''runtime.status'' \<or> m = ''session.start''
     \<or> m = ''session.send'' \<or> m = ''session.status'' \<or> m = ''session.list'' \<or> m = ''session.cancel''
     \<or> m = ''ping'' \<or> m = ''shutdown''"

fun validate_message :: "env \<Rightarrow> ipc_serde \<Rightarrow> message \<Rightarrow> (ipc_error, unit) result" where
  "validate_message E S (MRequest r) =
     (if rq_method r = ''initialize'' then and_then (parse_initialize_params S (rq_params r)) (\<lambda>_. Ok ())
      else if fixed_request (rq_method r) then validate_fixed_request E (rq_method r) (rq_params r)
      else validate_direct_request (rq_params r))"
| "validate_message E S (MNotification n) =
     (if nt_method n = ''event'' then validate_event_notification E (nt_params n) else Ok ())"
| "validate_message E S (MSuccess s) = Ok ()"
| "validate_message E S (MError e) = Ok ()"

section \<open>What initialization accepts\<close>

lemma validate_non_empty_Ok [simp]: "validate_non_empty field v = Ok u \<longleftrightarrow> v \<noteq> []"
  and validate_non_empty_request_Ok [simp]: "validate_non_empty_request field v = Ok u \<longleftrightarrow> v \<noteq> []"
  and invalid_params_not_Ok [simp]: "invalid_params s \<noteq> Ok x"
  by (simp_all add: validate_non_empty_def validate_non_empty_request_def invalid_params_def)

lemma validate_unique_Ok [simp]:
  "validate_unique_versions vs = Ok u \<longleftrightarrow> distinct vs"
  "validate_unique_roles rs = Ok u \<longleftrightarrow> distinct rs"
  "validate_unique_roles_for_result rs = Ok u \<longleftrightarrow> distinct rs"
  by (simp_all add: validate_unique_versions_def validate_unique_roles_def validate_unique_roles_for_result_def)

lemma validate_event_types_Ok:
  "validate_event_types seen ds = Ok u \<longleftrightarrow>
     list_all (\<lambda>d. et_type d \<noteq> [] \<and> et_schema d \<noteq> []) ds
     \<and> distinct (map et_type ds) \<and> seen \<inter> set (map et_type ds) = {}"
  by (induction seen ds rule: validate_event_types.induct) (auto simp: and_then_Ok_iff)

lemma validate_methods_Ok:
  "validate_methods seen ds = Ok u \<longleftrightarrow>
     list_all (\<lambda>d. md_name d \<noteq> [] \<and> \<not> method_is_reserved (md_name d)) ds
     \<and> distinct (map md_name ds) \<and> seen \<inter> set (map md_name ds) = {}"
  by (induction seen ds rule: validate_methods.induct) (auto simp: and_then_Ok_iff)

text \<open>The profile a peer may present.\<close>

definition profile_ok :: "initialize_params \<Rightarrow> bool" where
  "profile_ok p \<longleftrightarrow>
     ip_protocol_versions p \<noteq> [] \<and> distinct (ip_protocol_versions p)
     \<and> pi_name (ip_peer p) \<noteq> [] \<and> pi_version (ip_peer p) \<noteq> []
     \<and> ip_roles p \<noteq> [] \<and> distinct (ip_roles p)
     \<and> (case ip_event_types p of
          None \<Rightarrow> Source \<notin> set (ip_roles p)
        | Some ds \<Rightarrow> Source \<in> set (ip_roles p) \<and> distinct (map et_type ds)
            \<and> list_all (\<lambda>d. et_type d \<noteq> [] \<and> et_schema d \<noteq> []) ds)
     \<and> (case ip_methods p of
          None \<Rightarrow> Provider \<notin> set (ip_roles p)
        | Some ds \<Rightarrow> Provider \<in> set (ip_roles p) \<and> distinct (map md_name ds)
            \<and> list_all (\<lambda>d. md_name d \<noteq> [] \<and> \<not> method_is_reserved (md_name d)) ds)
     \<and> (case ip_heartbeat_seconds p of None \<Rightarrow> True | Some h \<Rightarrow> heartbeat_in_range h)
     \<and> (case ip_max_in_flight p of None \<Rightarrow> True | Some n \<Rightarrow> 1 \<le> n \<and> n \<le> 1024)"

lemma validate_initialize_params_Ok: "validate_initialize_params p = Ok u \<longleftrightarrow> profile_ok p"
  unfolding validate_initialize_params_def profile_ok_def
  by (auto simp: and_then_Ok_iff contains_role_def validate_event_types_Ok validate_methods_Ok
      split: if_split_asm option.splits bool.splits)

lemma parse_initialize_params_Ok:
  "parse_initialize_params S m = Ok p \<longleftrightarrow> params_from_map S m = Ok p \<and> profile_ok p"
  by (auto simp: parse_initialize_params_def initialize_params_from_map_def and_then_Ok_iff map_err_Ok_iff
      validate_initialize_params_Ok)

lemma validate_initialize_result_Ok:
  "validate_initialize_result r expected = Ok u \<longleftrightarrow>
     ir_protocol_version r = PROTOCOL_VERSION
     \<and> pi_name (ir_runtime r) \<noteq> [] \<and> pi_version (ir_runtime r) \<noteq> []
     \<and> distinct (ir_roles r) \<and> length (ir_roles r) = length expected \<and> set expected \<subseteq> set (ir_roles r)
     \<and> heartbeat_in_range (ir_heartbeat_seconds r) \<and> 1 \<le> ir_max_in_flight r \<and> ir_max_in_flight r \<le> 1024"
  by (auto simp: validate_initialize_result_def and_then_Ok_iff check_each_Ok_iff contains_role_def subset_iff
      split: if_splits)

section \<open>Properties\<close>

text \<open>The profile check of initialization accepts exactly the well-formed profiles: protocol
  versions and roles present and without repetition, names not empty, event types exactly for
  sources and methods exactly for providers, without repeated or reserved names, the heartbeat in
  \<open>[1, 300]\<close> and the request limit in \<open>[1, 1024]\<close>.\<close>

theorem validate_initialize_params_iff: "validate_initialize_params p = Ok () \<longleftrightarrow> profile_ok p"
  by (rule validate_initialize_params_Ok)

text \<open>The message check and the session's check disagree on \<open>agents.list\<close> and
  \<open>project.reload\<close>: without parameters the fixed-method check accepts them, while
  \<open>validate_message\<close> treats them as direct calls and demands \<open>input\<close>.\<close>

theorem validate_message_rejects_agents_list:
  "m \<in> {''agents.list'', ''project.reload''} \<Longrightarrow>
     validate_fixed_request E m [] = Ok ()
     \<and> validate_message E S (MRequest \<lparr>rq_id = i, rq_method = m, rq_params = []\<rparr>)
       = Err (ipc_error_new INVALID_PARAMS (''missing parameter '' @ debug_str ''input''))"
  by (auto simp: validate_fixed_request_def validate_empty_def validate_keys_def fixed_request_def
      validate_direct_request_def contains_key_def invalid_params_def)

theorem validate_message_rejects_agents_list_witness:
  "\<exists>p r. is_ok (validate_fixed_request sample_env ''agents.list'' [])
     \<and> \<not> is_ok (validate_message sample_env (sample_serde p r)
         (MRequest \<lparr>rq_id = Unsigned 1, rq_method = ''agents.list'', rq_params = []\<rparr>))"
  using validate_message_rejects_agents_list [of "''agents.list''" sample_env] by simp

end
