(* ===== verification/Ipc_Session.thy ===== *)
theory Ipc_Session
  imports Ipc_Validate
begin

text \<open>
  \<open>crates/zeta-ipc/src/session.rs\<close>: the sans-IO state of one connection.  Every method of
  \<open>Session\<close> is a function from the session to the next session and the actions, or the error, it
  returns.  The two \<open>HashMap\<close>s of pending requests are association lists without repeated keys.
\<close>

section \<open>State\<close>

datatype shutdown_direction = LocalSupervisesRemote | RemoteSupervisesLocal | Disabled

record runtime_config =
  rc_runtime :: peer_identity
  rc_config :: json_map
  rc_supported_roles :: "role list"
  rc_heartbeat_seconds :: f64
  rc_max_in_flight :: nat

definition runtime_config_new :: "peer_identity \<Rightarrow> runtime_config" where
  "runtime_config_new runtime =
     \<lparr>rc_runtime = runtime, rc_config = [], rc_supported_roles = [Source, Client, Provider],
      rc_heartbeat_seconds = Finite 10, rc_max_in_flight = 64\<rparr>"

record resolved_request =
  rr_id :: request_id
  rr_method :: string
  rr_outcome :: "(error_object, json) result"

datatype action =
    Send message
  | HandleRequest request
  | HandleNotification notification
  | RequestResolved resolved_request
  | Violation ipc_error
  | Close "string option"

datatype side = Peer | Runtime

datatype state = PeerIdle | PeerAwaitingInitialization | RuntimeAwaitingInitialization | Initialized | Closed

record session =
  ss_side :: side
  ss_state :: state
  ss_peer_params :: "initialize_params option"
  ss_runtime_config :: "runtime_config option"
  ss_initialize_result :: "initialize_result option"
  ss_shutdown_direction :: shutdown_direction
  ss_incoming :: "(request_id \<times> string) list"
  ss_outgoing :: "(request_id \<times> string) list"
  ss_max_in_flight :: nat
  ss_activity_since_tick :: bool
  ss_missed_intervals :: nat

definition session_peer :: "initialize_params \<Rightarrow> shutdown_direction \<Rightarrow> session" where
  "session_peer params direction =
     \<lparr>ss_side = Peer, ss_state = PeerIdle, ss_peer_params = Some params, ss_runtime_config = None,
      ss_initialize_result = None, ss_shutdown_direction = direction, ss_incoming = [], ss_outgoing = [],
      ss_max_in_flight = (case ip_max_in_flight params of Some n \<Rightarrow> n | None \<Rightarrow> 64),
      ss_activity_since_tick = False, ss_missed_intervals = 0\<rparr>"

definition session_runtime :: "runtime_config \<Rightarrow> shutdown_direction \<Rightarrow> session" where
  "session_runtime config direction =
     \<lparr>ss_side = Runtime, ss_state = RuntimeAwaitingInitialization, ss_peer_params = None,
      ss_runtime_config = Some config, ss_initialize_result = None, ss_shutdown_direction = direction,
      ss_incoming = [], ss_outgoing = [], ss_max_in_flight = rc_max_in_flight config,
      ss_activity_since_tick = False, ss_missed_intervals = 0\<rparr>"

definition is_initialized :: "session \<Rightarrow> bool" where
  "is_initialized s \<longleftrightarrow> ss_state s = Initialized"

definition peer_parameters :: "session \<Rightarrow> initialize_params option" where
  "peer_parameters s = (if is_initialized s then ss_peer_params s else None)"

definition initialization_result :: "session \<Rightarrow> initialize_result option" where
  "initialization_result s = (if is_initialized s then ss_initialize_result s else None)"

definition incoming_request_count :: "session \<Rightarrow> nat" where
  "incoming_request_count s = length (ss_incoming s)"

definition outgoing_request_count :: "session \<Rightarrow> nat" where
  "outgoing_request_count s = length (ss_outgoing s)"

section \<open>Roles and methods\<close>

definition has_peer_role :: "session \<Rightarrow> role \<Rightarrow> bool" where
  "has_peer_role s expected =
     (case ss_peer_params s of None \<Rightarrow> False | Some params \<Rightarrow> expected \<in> set (ip_roles params))"

definition peer_declares_method :: "session \<Rightarrow> string \<Rightarrow> bool" where
  "peer_declares_method s m =
     (case ss_peer_params s of
        None \<Rightarrow> False
      | Some params \<Rightarrow>
          (case ip_methods params of
             None \<Rightarrow> False
           | Some methods \<Rightarrow> m \<in> md_name ` set methods))"

definition is_client_method :: "string \<Rightarrow> bool" where
  "is_client_method m \<longleftrightarrow>
     m = ''events.list'' \<or> m = ''events.publish'' \<or> m = ''agents.list'' \<or> m = ''project.reload''
     \<or> m = ''runtime.status'' \<or> m = ''session.start'' \<or> m = ''session.send'' \<or> m = ''session.status''
     \<or> m = ''session.list'' \<or> m = ''session.cancel''"

definition method_not_found :: "string \<Rightarrow> (ipc_error, 'a) result" where
  "method_not_found m = Err (ipc_error_new METHOD_NOT_FOUND
     (''method '' @ debug_str m @ '' is not available for this role and direction''))"

definition with_close :: "action list \<Rightarrow> string \<Rightarrow> action list" where
  "with_close actions reason = actions @ [Close (Some reason)]"

definition reject_request :: "request \<Rightarrow> ipc_error \<Rightarrow> action list" where
  "reject_request r e =
     [Send (MError \<lparr>er_id = Some (rq_id r), er_error = error_object_from e\<rparr>), Violation e]"

definition reject_request_with_code :: "request \<Rightarrow> ipc_error \<Rightarrow> string \<Rightarrow> action list" where
  "reject_request_with_code r e stable_code =
     [Send (MError \<lparr>er_id = Some (rq_id r),
        er_error = error_object_protocol (err_code e) stable_code (err_message e)\<rparr>), Violation e]"

definition validate_published_type :: "session \<Rightarrow> json_map \<Rightarrow> (ipc_error, unit) result" where
  "validate_published_type s params =
     (case Option.bind (map_get params ''type'') as_str of
        None \<Rightarrow> Err (ipc_error_new INVALID_PARAMS ''`type` must be a non-empty string'')
      | Some event_type \<Rightarrow>
          (case ss_peer_params s of
             None \<Rightarrow> Err (ipc_error_new INTERNAL_ERROR ''the peer profile is unavailable'')
           | Some peer_params \<Rightarrow>
               (case ip_event_types peer_params of
                  None \<Rightarrow> Err (ipc_error_new METHOD_NOT_FOUND ''the peer did not declare event types'')
                | Some event_types \<Rightarrow>
                    if event_type \<in> et_type ` set event_types then Ok ()
                    else Err (ipc_error_new METHOD_NOT_FOUND
                      (''event type '' @ debug_str event_type @ '' was not declared'')))))"

definition validate_peer_outgoing :: "env \<Rightarrow> session \<Rightarrow> string \<Rightarrow> json_map \<Rightarrow> (ipc_error, unit) result" where
  "validate_peer_outgoing E s m params =
     (if m = ''events.publish'' then
        if has_peer_role s Source
        then and_then (validate_fixed_request E m params) (\<lambda>_. validate_published_type s params)
        else if \<not> has_peer_role s Client then method_not_found m
        else validate_fixed_request E m params
      else if is_client_method m then
        if \<not> has_peer_role s Client then method_not_found m
        else validate_fixed_request E m params
      else method_not_found m)"

definition validate_runtime_outgoing :: "session \<Rightarrow> string \<Rightarrow> json_map \<Rightarrow> (ipc_error, unit) result" where
  "validate_runtime_outgoing s m params =
     (if method_is_reserved m \<or> \<not> peer_declares_method s m then method_not_found m
      else validate_direct_request params)"

definition validate_outgoing_request :: "env \<Rightarrow> session \<Rightarrow> string \<Rightarrow> json_map \<Rightarrow> (ipc_error, unit) result" where
  "validate_outgoing_request E s m params =
     (if m = ''ping'' then validate_fixed_request E m params
      else if m = ''shutdown'' then
        if ss_shutdown_direction s \<noteq> LocalSupervisesRemote
        then Err (ipc_error_new METHOD_NOT_FOUND ''shutdown is not authorized'')
        else validate_fixed_request E m params
      else case ss_side s of
        Peer \<Rightarrow> validate_peer_outgoing E s m params
      | Runtime \<Rightarrow> validate_runtime_outgoing s m params)"

definition validate_runtime_incoming :: "env \<Rightarrow> session \<Rightarrow> string \<Rightarrow> json_map \<Rightarrow> (ipc_error, unit) result" where
  "validate_runtime_incoming E s m params =
     (if m = ''events.publish'' then
        if has_peer_role s Source
        then and_then (validate_fixed_request E m params) (\<lambda>_. validate_published_type s params)
        else if \<not> has_peer_role s Client then method_not_found m
        else validate_fixed_request E m params
      else if is_client_method m then
        if \<not> has_peer_role s Client then method_not_found m
        else validate_fixed_request E m params
      else method_not_found m)"

definition validate_peer_incoming :: "session \<Rightarrow> string \<Rightarrow> json_map \<Rightarrow> (ipc_error, unit) result" where
  "validate_peer_incoming s m params =
     (if \<not> has_peer_role s Provider \<or> \<not> peer_declares_method s m then method_not_found m
      else validate_direct_request params)"

definition validate_incoming_request :: "env \<Rightarrow> session \<Rightarrow> string \<Rightarrow> json_map \<Rightarrow> (ipc_error, unit) result" where
  "validate_incoming_request E s m params =
     (case ss_side s of
        Runtime \<Rightarrow> validate_runtime_incoming E s m params
      | Peer \<Rightarrow> validate_peer_incoming s m params)"

section \<open>Operations of the local side\<close>

definition initialize :: "ipc_serde \<Rightarrow> session \<Rightarrow> request_id \<Rightarrow> session \<times> (ipc_error, action list) result" where
  "initialize S s i =
     (if ss_side s \<noteq> Peer \<or> ss_state s \<noteq> PeerIdle
      then (s, Err (ipc_error_new INVALID_REQUEST ''the session cannot initialize in its current state''))
      else case ss_peer_params s of
        None \<Rightarrow> (s, Err (ipc_error_new INTERNAL_ERROR ''the peer session has no initialization parameters''))
      | Some params \<Rightarrow>
          (case validate_initialize_params params of
             Inl e \<Rightarrow> (s, Err e)
           | Inr _ \<Rightarrow>
               if map_of (ss_outgoing s) i \<noteq> None
               then (s, Err (ipc_error_new INVALID_REQUEST
                 (''request id '' @ request_id_debug i @ '' is already pending'')))
               else
                 (s\<lparr>ss_outgoing := AList.update i ''initialize'' (ss_outgoing s),
                    ss_state := PeerAwaitingInitialization\<rparr>,
                  Ok [Send (MRequest \<lparr>rq_id = i, rq_method = ''initialize'', rq_params = params_to_map S params\<rparr>)])))"

definition send_request ::
  "env \<Rightarrow> session \<Rightarrow> request_id \<Rightarrow> string \<Rightarrow> json_map \<Rightarrow> session \<times> (ipc_error, action list) result" where
  "send_request E s i m params =
     (if ss_state s \<noteq> Initialized
      then (s, Err (ipc_error_new INVALID_REQUEST ''requests require an initialized session''))
      else case validate_outgoing_request E s m params of
        Inl e \<Rightarrow> (s, Err e)
      | Inr _ \<Rightarrow>
          if map_of (ss_outgoing s) i \<noteq> None
          then (s, Err (ipc_error_new INVALID_REQUEST
            (''request id '' @ request_id_debug i @ '' is already pending'')))
          else if ss_max_in_flight s \<le> length (ss_outgoing s)
          then (s, Err (ipc_error_new SERVER_ERROR
            (''the in-flight request limit of '' @ show_nat (ss_max_in_flight s) @ '' is full'')))
          else
            (s\<lparr>ss_outgoing := AList.update i m (ss_outgoing s)\<rparr>,
             Ok [Send (MRequest \<lparr>rq_id = i, rq_method = m, rq_params = params\<rparr>)]))"

definition send_notification ::
  "env \<Rightarrow> session \<Rightarrow> string \<Rightarrow> json_map \<Rightarrow> (ipc_error, action list) result" where
  "send_notification E s m params =
     (if ss_state s \<noteq> Initialized
      then Err (ipc_error_new INVALID_REQUEST ''notifications require an initialized session'')
      else if ss_side s \<noteq> Runtime \<or> m \<noteq> ''event'' \<or> \<not> has_peer_role s Client
      then Err (ipc_error_new METHOD_NOT_FOUND
        (''notification method '' @ debug_str m @ '' is not available''))
      else and_then (validate_event_notification E params) (\<lambda>_.
        Ok [Send (MNotification \<lparr>nt_method = m, nt_params = params\<rparr>)]))"

definition complete_request ::
  "session \<Rightarrow> request_id \<Rightarrow> json \<Rightarrow> session \<times> (ipc_error, action list) result" where
  "complete_request s i result =
     (case map_of (ss_incoming s) i of
        None \<Rightarrow> (s, Err (ipc_error_new INVALID_REQUEST
          (''request id '' @ request_id_debug i @ '' is not pending'')))
      | Some m \<Rightarrow>
          (case validate_result m result of
             Inl e \<Rightarrow> (s, Err e)
           | Inr _ \<Rightarrow>
               (s\<lparr>ss_incoming := AList.delete i (ss_incoming s)\<rparr>,
                Ok [Send (MSuccess \<lparr>sr_id = i, sr_result = result\<rparr>)])))"

definition fail_request ::
  "session \<Rightarrow> request_id \<Rightarrow> error_object \<Rightarrow> session \<times> (ipc_error, action list) result" where
  "fail_request s i error =
     (if map_of (ss_incoming s) i = None
      then (s, Err (ipc_error_new INVALID_REQUEST
        (''request id '' @ request_id_debug i @ '' is not pending'')))
      else
        (s\<lparr>ss_incoming := AList.delete i (ss_incoming s)\<rparr>,
         Ok [Send (MError \<lparr>er_id = Some i, er_error = error\<rparr>)]))"

definition on_tick :: "env \<Rightarrow> session \<Rightarrow> request_id \<Rightarrow> session \<times> action list" where
  "on_tick E s ping_id =
     (if ss_state s \<noteq> Initialized \<or> ss_shutdown_direction s \<noteq> LocalSupervisesRemote then (s, [])
      else if ss_activity_since_tick s
      then (s\<lparr>ss_activity_since_tick := False, ss_missed_intervals := 0\<rparr>, [])
      else
        let s = s\<lparr>ss_missed_intervals := min 255 (ss_missed_intervals s + 1)\<rparr> in
        if 3 \<le> ss_missed_intervals s
        then (s\<lparr>ss_state := Closed\<rparr>, [Close (Some ''the peer missed three heartbeat intervals'')])
        else case send_request E s ping_id ''ping'' [] of
          (s, Inr actions) \<Rightarrow> (s, actions)
        | (s, Inl e) \<Rightarrow> (s, [Violation e]))"

section \<open>Receiving\<close>

definition receive_initialize :: "ipc_serde \<Rightarrow> session \<Rightarrow> request \<Rightarrow> session \<times> action list" where
  "receive_initialize S s r =
     (case parse_initialize_params S (rq_params r) of
        Inl e \<Rightarrow> (s\<lparr>ss_state := Closed\<rparr>, with_close (reject_request r e) ''initialization failed'')
      | Inr params \<Rightarrow>
          if PROTOCOL_VERSION \<notin> set (ip_protocol_versions params)
          then (s\<lparr>ss_state := Closed\<rparr>,
            [Send (MError \<lparr>er_id = Some (rq_id r), er_error = error_object_application SERVER_ERROR
               ''unsupported_version'' ''No supported IPC protocol version'' Final\<rparr>),
             Close (Some ''initialization failed'')])
          else case ss_runtime_config s of
            None \<Rightarrow> (s\<lparr>ss_state := Closed\<rparr>,
              reject_request r (ipc_error_new INTERNAL_ERROR ''the runtime configuration is unavailable''))
          | Some config \<Rightarrow>
              (case find (\<lambda>role. role \<notin> set (rc_supported_roles config)) (ip_roles params) of
                 Some role \<Rightarrow> (s\<lparr>ss_state := Closed\<rparr>,
                   with_close (reject_request r (ipc_error_new INVALID_PARAMS
                     (''role '' @ role_debug role @ '' is not supported by this runtime''))) ''initialization failed'')
               | None \<Rightarrow>
                   let heartbeat_seconds = (case ip_heartbeat_seconds params of
                         Some h \<Rightarrow> h | None \<Rightarrow> rc_heartbeat_seconds config);
                       requested_limit = (case ip_max_in_flight params of
                         Some n \<Rightarrow> n | None \<Rightarrow> rc_max_in_flight config);
                       max_in_flight = min requested_limit (rc_max_in_flight config);
                       result = \<lparr>ir_protocol_version = PROTOCOL_VERSION, ir_runtime = rc_runtime config,
                         ir_roles = ip_roles params, ir_config = rc_config config,
                         ir_heartbeat_seconds = heartbeat_seconds, ir_max_in_flight = max_in_flight\<rparr>
                   in (s\<lparr>ss_peer_params := Some params, ss_initialize_result := Some result,
                         ss_max_in_flight := max_in_flight, ss_state := Initialized,
                         ss_activity_since_tick := False\<rparr>,
                       [Send (MSuccess \<lparr>sr_id = rq_id r, sr_result = result_to_value S result\<rparr>)])))"

definition receive_shutdown :: "env \<Rightarrow> session \<Rightarrow> request \<Rightarrow> session \<times> action list" where
  "receive_shutdown E s r =
     (if ss_shutdown_direction s \<noteq> RemoteSupervisesLocal
      then (s, reject_request r (ipc_error_new METHOD_NOT_FOUND ''shutdown is not authorized''))
      else case validate_fixed_request E (rq_method r) (rq_params r) of
        Inl e \<Rightarrow> (s, reject_request r e)
      | Inr _ \<Rightarrow>
          (s\<lparr>ss_state := Closed\<rparr>,
           [Send (MSuccess \<lparr>sr_id = rq_id r, sr_result = JObject []\<rparr>),
            Close (Option.bind (map_get (rq_params r) ''reason'') as_str)]))"

definition receive_request :: "env \<Rightarrow> ipc_serde \<Rightarrow> session \<Rightarrow> request \<Rightarrow> session \<times> action list" where
  "receive_request E S s r =
     (if rq_method r = ''initialize'' then
        if ss_side s = Runtime \<and> ss_state s = RuntimeAwaitingInitialization then receive_initialize S s r
        else (s, reject_request_with_code r
          (ipc_error_new INVALID_REQUEST ''a connection may initialize only once'') ''already_initialized'')
      else if ss_state s \<noteq> Initialized
      then (s\<lparr>ss_state := Closed\<rparr>,
        with_close (reject_request_with_code r
          (ipc_error_new INVALID_REQUEST ''initialize must be the first request'') ''not_initialized'')
          ''traffic before initialization'')
      else if map_of (ss_incoming s) (rq_id r) \<noteq> None
      then (s, reject_request r (ipc_error_new INVALID_REQUEST ''the request id is already pending''))
      else if rq_method r = ''ping'' then
        (case validate_fixed_request E (rq_method r) (rq_params r) of
           Inl e \<Rightarrow> (s, reject_request r e)
         | Inr _ \<Rightarrow> (s, [Send (MSuccess \<lparr>sr_id = rq_id r, sr_result = JObject []\<rparr>)]))
      else if rq_method r = ''shutdown'' then receive_shutdown E s r
      else case validate_incoming_request E s (rq_method r) (rq_params r) of
        Inl e \<Rightarrow> (s, reject_request r e)
      | Inr _ \<Rightarrow>
          if ss_max_in_flight s \<le> length (ss_incoming s)
          then (s, reject_request r (ipc_error_new SERVER_ERROR
            (''the in-flight request limit of '' @ show_nat (ss_max_in_flight s) @ '' is full'')))
          else (s\<lparr>ss_incoming := AList.update (rq_id r) (rq_method r) (ss_incoming s)\<rparr>, [HandleRequest r]))"

definition receive_notification :: "env \<Rightarrow> session \<Rightarrow> notification \<Rightarrow> session \<times> action list" where
  "receive_notification E s n =
     (if ss_state s \<noteq> Initialized
      then (s\<lparr>ss_state := Closed\<rparr>,
        [Violation (ipc_error_new INVALID_REQUEST ''initialize must complete before notifications''),
         Close (Some ''traffic before initialization'')])
      else if ss_side s = Peer \<and> has_peer_role s Client \<and> nt_method n = ''event''
      then (s, case validate_event_notification E (nt_params n) of
           Inr _ \<Rightarrow> [HandleNotification n]
         | Inl e \<Rightarrow> [Violation e])
      else if ss_side s = Runtime \<and> has_peer_role s Provider \<and> nt_method n = ''model.observation''
      then (s, [HandleNotification n])
      else (s, [Violation (ipc_error_new METHOD_NOT_FOUND
        (''notification method '' @ debug_str (nt_method n) @ '' is not available''))]))"

definition initialization_failed :: "session \<Rightarrow> ipc_error \<Rightarrow> session \<times> action list" where
  "initialization_failed s e = (s\<lparr>ss_state := Closed\<rparr>, [Violation e, Close (Some ''initialization failed'')])"

definition receive_initialize_success ::
  "ipc_serde \<Rightarrow> session \<Rightarrow> success_response \<Rightarrow> string \<Rightarrow> session \<times> action list" where
  "receive_initialize_success S s response m =
     (if ss_side s \<noteq> Peer \<or> ss_state s \<noteq> PeerAwaitingInitialization
      then initialization_failed s (ipc_error_new INVALID_REQUEST ''an initialization response arrived in the wrong state'')
      else case initialize_result_from_value S (sr_result response) of
        Inl e \<Rightarrow> initialization_failed s e
      | Inr result \<Rightarrow>
          (case ss_peer_params s of
             None \<Rightarrow> initialization_failed s
               (ipc_error_new INTERNAL_ERROR ''the peer initialization parameters are unavailable'')
           | Some params \<Rightarrow>
               (case validate_initialize_result result (ip_roles params) of
                  Inl e \<Rightarrow> initialization_failed s e
                | Inr _ \<Rightarrow>
                    (s\<lparr>ss_max_in_flight := ir_max_in_flight result, ss_initialize_result := Some result,
                       ss_state := Initialized, ss_activity_since_tick := False\<rparr>,
                     [RequestResolved \<lparr>rr_id = sr_id response, rr_method = m, rr_outcome = Ok (sr_result response)\<rparr>]))))"

definition receive_success :: "ipc_serde \<Rightarrow> session \<Rightarrow> success_response \<Rightarrow> session \<times> action list" where
  "receive_success S s response =
     (case map_of (ss_outgoing s) (sr_id response) of
        None \<Rightarrow> (s, [Violation (ipc_error_new INVALID_REQUEST
          (''response id '' @ request_id_debug (sr_id response) @ '' is not pending''))])
      | Some m \<Rightarrow>
          let s = s\<lparr>ss_outgoing := AList.delete (sr_id response) (ss_outgoing s)\<rparr> in
          if m = ''initialize'' then receive_initialize_success S s response m
          else (s, case validate_result m (sr_result response) of
             Inl e \<Rightarrow> [Violation e]
           | Inr _ \<Rightarrow> [RequestResolved
               \<lparr>rr_id = sr_id response, rr_method = m, rr_outcome = Ok (sr_result response)\<rparr>]))"

definition receive_error :: "session \<Rightarrow> error_response \<Rightarrow> session \<times> action list" where
  "receive_error s response =
     (case er_id response of
        None \<Rightarrow> (s, [Violation (ipc_error_new INVALID_REQUEST
          ''an error response with null id cannot resolve a request'')])
      | Some i \<Rightarrow>
          (case map_of (ss_outgoing s) i of
             None \<Rightarrow> (s, [Violation (ipc_error_new INVALID_REQUEST
               (''response id '' @ request_id_debug i @ '' is not pending''))])
           | Some m \<Rightarrow>
               let s = s\<lparr>ss_outgoing := AList.delete i (ss_outgoing s)\<rparr>;
                   actions = [RequestResolved \<lparr>rr_id = i, rr_method = m, rr_outcome = Err (er_error response)\<rparr>]
               in if m = ''initialize''
                  then (s\<lparr>ss_state := Closed\<rparr>, actions @ [Close (Some ''initialization failed'')])
                  else (s, actions)))"

definition receive :: "env \<Rightarrow> ipc_serde \<Rightarrow> session \<Rightarrow> message \<Rightarrow> session \<times> action list" where
  "receive E S s m =
     (if ss_state s = Closed then (s, [])
      else let s = s\<lparr>ss_activity_since_tick := True, ss_missed_intervals := 0\<rparr> in
        case m of
          MRequest r \<Rightarrow> receive_request E S s r
        | MNotification n \<Rightarrow> receive_notification E s n
        | MSuccess r \<Rightarrow> receive_success S s r
        | MError r \<Rightarrow> receive_error s r)"

section \<open>Steps and the invariant\<close>

inductive session_step :: "env \<Rightarrow> ipc_serde \<Rightarrow> session \<Rightarrow> session \<Rightarrow> bool" for E S where
  "session_step E S s (fst (initialize S s i))"
| "session_step E S s (fst (send_request E s i m params))"
| "session_step E S s (fst (receive E S s msg))"
| "session_step E S s (fst (complete_request s i result))"
| "session_step E S s (fst (fail_request s i error))"
| "session_step E S s (fst (on_tick E s i))"

inductive session_reachable :: "env \<Rightarrow> ipc_serde \<Rightarrow> session \<Rightarrow> bool" for E S where
  "session_reachable E S (session_peer params direction)"
| "session_reachable E S (session_runtime config direction)"
| "session_reachable E S s \<Longrightarrow> session_step E S s s' \<Longrightarrow> session_reachable E S s'"

definition pending_ok :: "session \<Rightarrow> bool" where
  "pending_ok s \<longleftrightarrow>
     distinct (map fst (ss_incoming s)) \<and> distinct (map fst (ss_outgoing s))
     \<and> length (ss_incoming s) \<le> ss_max_in_flight s \<and> length (ss_outgoing s) \<le> ss_max_in_flight s"

definition phase_ok :: "session \<Rightarrow> bool" where
  "phase_ok s =
     (case ss_state s of
        PeerIdle \<Rightarrow>
          ss_side s = Peer \<and> ss_incoming s = [] \<and> ss_outgoing s = []
          \<and> (\<exists>p. ss_peer_params s = Some p
              \<and> ss_max_in_flight s = (case ip_max_in_flight p of Some n \<Rightarrow> n | None \<Rightarrow> 64))
      | PeerAwaitingInitialization \<Rightarrow>
          ss_side s = Peer \<and> ss_incoming s = [] \<and> map snd (ss_outgoing s) = [''initialize'']
          \<and> (\<exists>p. ss_peer_params s = Some p \<and> profile_ok p)
      | RuntimeAwaitingInitialization \<Rightarrow>
          ss_side s = Runtime \<and> ss_runtime_config s \<noteq> None \<and> ss_incoming s = [] \<and> ss_outgoing s = []
      | Initialized \<Rightarrow>
          ''initialize'' \<notin> snd ` set (ss_outgoing s)
          \<and> (\<exists>p r. ss_peer_params s = Some p \<and> profile_ok p \<and> ss_initialize_result s = Some r
              \<and> ir_max_in_flight r = ss_max_in_flight s \<and> set (ir_roles r) = set (ip_roles p))
      | Closed \<Rightarrow> True)"

definition session_inv :: "session \<Rightarrow> bool" where
  "session_inv s \<longleftrightarrow>
     pending_ok s \<and> phase_ok s \<and> (ss_state s \<noteq> Closed \<longrightarrow> ss_missed_intervals s \<le> 2)"

lemma session_inv_closed [simp]:
  "session_inv (s\<lparr>ss_state := Closed\<rparr>) \<longleftrightarrow> pending_ok (s\<lparr>ss_state := Closed\<rparr>)"
  by (simp add: session_inv_def phase_ok_def)

lemma pending_ok_unrelated [simp]:
  "pending_ok (s\<lparr>ss_state := st\<rparr>) = pending_ok s"
  "pending_ok (s\<lparr>ss_activity_since_tick := b\<rparr>) = pending_ok s"
  "pending_ok (s\<lparr>ss_missed_intervals := n\<rparr>) = pending_ok s"
  by (simp_all add: pending_ok_def)

lemma pending_ok_delete:
  "pending_ok s \<Longrightarrow> pending_ok (s\<lparr>ss_incoming := AList.delete i (ss_incoming s)\<rparr>)"
  "pending_ok s \<Longrightarrow> pending_ok (s\<lparr>ss_outgoing := AList.delete i (ss_outgoing s)\<rparr>)"
  using length_delete_le [of i "ss_incoming s"] length_delete_le [of i "ss_outgoing s"]
  by (auto simp: pending_ok_def intro: distinct_delete)

lemma length_update_new: "map_of m i = None \<Longrightarrow> length (AList.update i v m) = Suc (length m)"
  by (induction m) auto

lemma set_update_new: "map_of m i = None \<Longrightarrow> set (AList.update i v m) = insert (i, v) (set m)"
  by (induction m) auto

lemma peer_start_inv: "session_inv (session_peer params direction)"
  by (simp add: session_inv_def pending_ok_def phase_ok_def session_peer_def)

lemma runtime_start_inv: "session_inv (session_runtime config direction)"
  by (simp add: session_inv_def pending_ok_def phase_ok_def session_runtime_def)

lemma initialize_inv:
  assumes "session_inv s"
  shows "session_inv (fst (initialize S s i))"
proof (cases "ss_side s = Peer \<and> ss_state s = PeerIdle")
  case True
  then obtain p where p: "ss_peer_params s = Some p"
      "ss_max_in_flight s = (case ip_max_in_flight p of Some n \<Rightarrow> n | None \<Rightarrow> 64)"
    and e: "ss_incoming s = []" "ss_outgoing s = []" and m: "ss_missed_intervals s \<le> 2"
    using assms by (auto simp: session_inv_def phase_ok_def)
  show ?thesis
  proof (cases "validate_initialize_params p")
    case (Inl e)
    then show ?thesis using True p assms by (simp add: initialize_def)
  next
    case (Inr u)
    then have ok: "profile_ok p" by (simp add: validate_initialize_params_Ok [of p u, symmetric])
    then have "1 \<le> ss_max_in_flight s" using p(2) by (auto simp: profile_ok_def split: option.splits)
    with ok show ?thesis
      using Inr True p e m by (simp add: initialize_def session_inv_def pending_ok_def phase_ok_def)
  qed
qed (use assms in \<open>auto simp: initialize_def\<close>)

lemma outgoing_not_initialize: "validate_outgoing_request E s ''initialize'' params \<noteq> Ok u"
  by (simp add: validate_outgoing_request_def validate_peer_outgoing_def validate_runtime_outgoing_def
      is_client_method_def method_is_reserved_def method_not_found_def split: side.split)

lemma send_request_inv:
  assumes inv: "session_inv s"
  shows "session_inv (fst (send_request E s i m params))"
proof (cases "snd (send_request E s i m params)")
  case (Inl e)
  then have "fst (send_request E s i m params) = s"
    by (auto simp: send_request_def split: if_splits sum.splits)
  then show ?thesis using inv by simp
next
  case (Inr acts)
  then obtain u where st: "ss_state s = Initialized" "validate_outgoing_request E s m params = Ok u"
    "map_of (ss_outgoing s) i = None" "length (ss_outgoing s) < ss_max_in_flight s"
    by (auto simp: send_request_def split: if_splits sum.splits)
  then have run: "fst (send_request E s i m params) = s\<lparr>ss_outgoing := AList.update i m (ss_outgoing s)\<rparr>"
    by (simp add: send_request_def)
  have "m \<noteq> ''initialize''" using st(2) outgoing_not_initialize by blast
  with inv st show ?thesis
    unfolding run session_inv_def pending_ok_def phase_ok_def
    by (auto simp: length_update_new set_update_new distinct_update)
qed

lemma complete_request_inv: "session_inv s \<Longrightarrow> session_inv (fst (complete_request s i result))"
  using pending_ok_delete(1) [of s i]
  by (auto simp: complete_request_def session_inv_def phase_ok_def split: option.splits sum.splits state.splits)

lemma fail_request_inv: "session_inv s \<Longrightarrow> session_inv (fst (fail_request s i error))"
  using pending_ok_delete(1) [of s i]
  by (auto simp: fail_request_def session_inv_def phase_ok_def split: state.splits)

lemma session_inv_missed:
  "session_inv s \<Longrightarrow> n \<le> 2 \<Longrightarrow> session_inv (s\<lparr>ss_missed_intervals := n\<rparr>)"
  "session_inv s \<Longrightarrow> session_inv (s\<lparr>ss_activity_since_tick := b\<rparr>)"
  by (auto simp: session_inv_def phase_ok_def split: state.splits)

lemma on_tick_inv:
  assumes inv: "session_inv s"
  shows "session_inv (fst (on_tick E s i))"
proof (cases "ss_state s \<noteq> Initialized \<or> ss_shutdown_direction s \<noteq> LocalSupervisesRemote \<or> ss_activity_since_tick s")
  case True
  then show ?thesis
    using inv session_inv_missed(1) [OF session_inv_missed(2) [OF inv, of False], of 0]
    by (auto simp: on_tick_def)
next
  case False
  let ?s = "s\<lparr>ss_missed_intervals := min 255 (ss_missed_intervals s + 1)\<rparr>"
  show ?thesis
  proof (cases "3 \<le> ss_missed_intervals ?s")
    case True
    then show ?thesis using False inv by (simp add: on_tick_def Let_def session_inv_def phase_ok_def)
  next
    case more: False
    then have "session_inv ?s" using inv by (intro session_inv_missed) auto
    then have "session_inv (fst (send_request E ?s i ''ping'' []))" by (rule send_request_inv)
    moreover have "fst (on_tick E s i) = fst (send_request E ?s i ''ping'' [])"
      using False more by (auto simp: on_tick_def Let_def split: prod.splits sum.splits)
    ultimately show ?thesis by simp
  qed
qed

lemma receive_initialize_inv:
  assumes inv: "session_inv s" and st: "ss_state s = RuntimeAwaitingInitialization"
  shows "session_inv (fst (receive_initialize S s r))"
proof (cases "parse_initialize_params S (rq_params r)")
  case (Inl e)
  then show ?thesis using inv by (simp add: receive_initialize_def session_inv_def [of s])
next
  case (Inr p)
  then have p: "profile_ok p" by (simp add: parse_initialize_params_Ok)
  obtain config where c: "ss_runtime_config s = Some config" "ss_incoming s = []" "ss_outgoing s = []"
    and m: "ss_missed_intervals s \<le> 2"
    using inv st by (auto simp: session_inv_def phase_ok_def)
  show ?thesis
  proof (cases "PROTOCOL_VERSION \<in> set (ip_protocol_versions p)
      \<and> find (\<lambda>role. role \<notin> set (rc_supported_roles config)) (ip_roles p) = None")
    case True
    with Inr c m p show ?thesis
      by (simp add: receive_initialize_def Let_def session_inv_def pending_ok_def phase_ok_def)
  next
    case False
    then show ?thesis
      using Inr c inv by (auto simp: receive_initialize_def session_inv_def [of s] split: option.split)
  qed
qed

lemma receive_shutdown_inv: "session_inv s \<Longrightarrow> session_inv (fst (receive_shutdown E s r))"
  by (auto simp: receive_shutdown_def session_inv_def [of s] split: sum.split)

lemma receive_request_inv:
  assumes inv: "session_inv s"
  shows "session_inv (fst (receive_request E S s r))"
proof (cases "rq_method r = ''initialize'' \<or> ss_state s \<noteq> Initialized \<or> map_of (ss_incoming s) (rq_id r) \<noteq> None
    \<or> rq_method r = ''ping'' \<or> rq_method r = ''shutdown''
    \<or> (\<exists>e. validate_incoming_request E s (rq_method r) (rq_params r) = Err e)
    \<or> ss_max_in_flight s \<le> length (ss_incoming s)")
  case True
  then show ?thesis
    using inv receive_initialize_inv [OF inv] receive_shutdown_inv [OF inv]
    by (auto simp: receive_request_def session_inv_def [of s] split: sum.split)
next
  case False
  then have "fst (receive_request E S s r) = s\<lparr>ss_incoming := AList.update (rq_id r) (rq_method r) (ss_incoming s)\<rparr>"
    by (auto simp: receive_request_def split: sum.split)
  moreover have "ss_state s = Initialized" "map_of (ss_incoming s) (rq_id r) = None"
    "length (ss_incoming s) < ss_max_in_flight s" using False by auto
  ultimately show ?thesis
    using inv by (simp add: session_inv_def pending_ok_def phase_ok_def length_update_new distinct_update)
qed

lemma receive_notification_inv: "session_inv s \<Longrightarrow> session_inv (fst (receive_notification E s n))"
  by (auto simp: receive_notification_def session_inv_def [of s])

lemma initialization_failed_inv: "pending_ok s \<Longrightarrow> session_inv (fst (initialization_failed s e))"
  by (simp add: initialization_failed_def)

lemma receive_initialize_success_inv:
  assumes p: "pending_ok s" "ss_missed_intervals s \<le> 2" "ss_outgoing s = []" "ss_incoming s = []"
    and params: "ss_peer_params s = Some q" "profile_ok q"
  shows "session_inv (fst (receive_initialize_success S s response m))"
proof (cases "ss_side s \<noteq> Peer \<or> ss_state s \<noteq> PeerAwaitingInitialization
    \<or> (\<exists>e. initialize_result_from_value S (sr_result response) = Err e)")
  case True
  then show ?thesis
    using p(1) by (auto simp: receive_initialize_success_def initialization_failed_inv)
next
  case False
  then obtain result where r: "initialize_result_from_value S (sr_result response) = Ok result"
    by (cases "initialize_result_from_value S (sr_result response)") auto
  show ?thesis
  proof (cases "validate_initialize_result result (ip_roles q)")
    case (Inl e)
    then show ?thesis
      using False r params p(1) by (simp add: receive_initialize_success_def initialization_failed_inv)
  next
    case (Inr u)
    then have v: "distinct (ir_roles result)" "length (ir_roles result) = length (ip_roles q)"
      "set (ip_roles q) \<subseteq> set (ir_roles result)"
      using validate_initialize_result_Ok [of result "ip_roles q" u] by simp_all
    have "set (ip_roles q) = set (ir_roles result)"
      using v params(2) by (intro card_subset_eq) (auto simp: profile_ok_def distinct_card)
    then show ?thesis
      using False r params Inr p
      by (simp add: receive_initialize_success_def session_inv_def pending_ok_def phase_ok_def)
  qed
qed

lemma delete_values: "v \<notin> snd ` set m \<Longrightarrow> v \<notin> snd ` set (AList.delete i m)"
  by (auto simp: AList.delete_eq)

lemma receive_success_inv:
  assumes inv: "session_inv s" and alive: "ss_state s \<noteq> Closed"
  shows "session_inv (fst (receive_success S s response))"
proof (cases "map_of (ss_outgoing s) (sr_id response)")
  case None
  then show ?thesis using inv by (simp add: receive_success_def)
next
  case (Some m)
  let ?s = "s\<lparr>ss_outgoing := AList.delete (sr_id response) (ss_outgoing s)\<rparr>"
  have mem: "(sr_id response, m) \<in> set (ss_outgoing s)" using Some by (rule map_of_SomeD)
  have pend: "pending_ok ?s" using inv by (intro pending_ok_delete) (simp add: session_inv_def)
  show ?thesis
  proof (cases "m = ''initialize''")
    case True
    then have st: "ss_state s = PeerAwaitingInitialization"
      using inv alive mem by (auto simp: session_inv_def phase_ok_def image_iff split: state.splits)
    then obtain q where q: "ss_peer_params s = Some q" "profile_ok q" "ss_incoming s = []" "ss_missed_intervals s \<le> 2"
      and out: "map snd (ss_outgoing s) = [''initialize'']"
      using inv by (auto simp: session_inv_def phase_ok_def)
    then have "ss_outgoing s = [(sr_id response, ''initialize'')]" using mem True by auto
    then have "session_inv (fst (receive_initialize_success S ?s response m))"
      using pend q by (intro receive_initialize_success_inv) auto
    then show ?thesis using Some True by (simp add: receive_success_def)
  next
    case False
    then have "ss_state s = Initialized"
      using inv alive mem by (auto simp: session_inv_def phase_ok_def split: state.splits)
    then show ?thesis
      using inv pend Some False
      by (auto simp: receive_success_def session_inv_def phase_ok_def Let_def delete_values)
  qed
qed

lemma receive_error_inv:
  assumes inv: "session_inv s"
  shows "session_inv (fst (receive_error s response))"
proof (cases "Option.bind (er_id response) (map_of (ss_outgoing s))")
  case None
  then show ?thesis using inv by (auto simp: receive_error_def bind_eq_None_conv split: option.splits)
next
  case (Some m)
  then obtain i where i: "er_id response = Some i" "map_of (ss_outgoing s) i = Some m"
    by (auto simp: bind_eq_Some_conv)
  let ?s = "s\<lparr>ss_outgoing := AList.delete i (ss_outgoing s)\<rparr>"
  have pend: "pending_ok ?s" using inv by (intro pending_ok_delete) (simp add: session_inv_def)
  have mem: "(i, m) \<in> set (ss_outgoing s)" using i(2) by (rule map_of_SomeD)
  show ?thesis
  proof (cases "m = ''initialize''")
    case True
    then show ?thesis using i pend by (simp add: receive_error_def Let_def)
  next
    case False
    then have "ss_state s = Initialized \<or> ss_state s = Closed"
      using inv mem by (auto simp: session_inv_def phase_ok_def split: state.splits)
    then show ?thesis
      using inv pend i False
      by (elim disjE) (simp_all add: receive_error_def session_inv_def phase_ok_def Let_def delete_values)
  qed
qed

lemma receive_inv:
  assumes "session_inv s"
  shows "session_inv (fst (receive E S s msg))"
proof (cases "ss_state s = Closed")
  case True
  then show ?thesis using assms by (simp add: receive_def)
next
  case False
  let ?s = "s\<lparr>ss_activity_since_tick := True, ss_missed_intervals := 0\<rparr>"
  have "session_inv ?s" using assms session_inv_missed by (metis zero_le)
  then show ?thesis
    using False receive_request_inv receive_notification_inv receive_success_inv receive_error_inv
    by (cases msg) (simp_all add: receive_def Let_def)
qed

lemma session_step_inv: "session_step E S s s' \<Longrightarrow> session_inv s \<Longrightarrow> session_inv s'"
  by (induction rule: session_step.induct)
    (simp_all add: initialize_inv send_request_inv receive_inv complete_request_inv fail_request_inv on_tick_inv)

lemma session_reachable_inv: "session_reachable E S s \<Longrightarrow> session_inv s"
  by (induction rule: session_reachable.induct)
    (simp_all add: peer_start_inv runtime_start_inv session_step_inv)

section \<open>Handshake and heartbeat\<close>

text \<open>What the two sides settle on, and a configuration a runtime can serve.\<close>

definition negotiated :: "runtime_config \<Rightarrow> initialize_params \<Rightarrow> initialize_result" where
  "negotiated config p =
     \<lparr>ir_protocol_version = PROTOCOL_VERSION, ir_runtime = rc_runtime config, ir_roles = ip_roles p,
      ir_config = rc_config config,
      ir_heartbeat_seconds = (case ip_heartbeat_seconds p of Some h \<Rightarrow> h | None \<Rightarrow> rc_heartbeat_seconds config),
      ir_max_in_flight =
        min (case ip_max_in_flight p of Some n \<Rightarrow> n | None \<Rightarrow> rc_max_in_flight config) (rc_max_in_flight config)\<rparr>"

definition config_ok :: "runtime_config \<Rightarrow> bool" where
  "config_ok config \<longleftrightarrow>
     pi_name (rc_runtime config) \<noteq> [] \<and> pi_version (rc_runtime config) \<noteq> []
     \<and> heartbeat_in_range (rc_heartbeat_seconds config)
     \<and> 1 \<le> rc_max_in_flight config \<and> rc_max_in_flight config \<le> 1024"

lemma runtime_accepts:
  assumes "profile_ok p" "PROTOCOL_VERSION \<in> set (ip_protocol_versions p)"
    and "set (ip_roles p) \<subseteq> set (rc_supported_roles config)"
    and "params_from_map S (params_to_map S p) = Ok p"
  shows "\<exists>runtime. receive E S (session_runtime config d)
       (MRequest \<lparr>rq_id = i, rq_method = ''initialize'', rq_params = params_to_map S p\<rparr>)
       = (runtime, [Send (MSuccess \<lparr>sr_id = i, sr_result = result_to_value S (negotiated config p)\<rparr>)])
     \<and> initialization_result runtime = Some (negotiated config p) \<and> peer_parameters runtime = Some p
     \<and> ss_max_in_flight runtime = ir_max_in_flight (negotiated config p)"
proof -
  have parse: "parse_initialize_params S (params_to_map S p) = Ok p"
    using assms by (simp add: parse_initialize_params_Ok)
  have "find (\<lambda>role. role \<notin> set (rc_supported_roles config)) (ip_roles p) = None"
    using assms(3) by (auto simp: find_None_iff)
  then show ?thesis
    using parse assms(2)
    by (simp add: receive_def receive_request_def receive_initialize_def session_runtime_def Let_def
        negotiated_def initialization_result_def peer_parameters_def is_initialized_def)
qed

lemma negotiated_valid:
  assumes "profile_ok p" "config_ok config"
  shows "validate_initialize_result (negotiated config p) (ip_roles p) = Ok ()"
  using assms
  by (auto simp: validate_initialize_result_Ok negotiated_def profile_ok_def config_ok_def split: option.splits)

lemma peer_accepts:
  assumes "profile_ok p" "config_ok config"
    and "result_from_value S (result_to_value S (negotiated config p)) = Ok (negotiated config p)"
  shows "\<exists>peer' resolved. receive E S
       ((session_peer p d)\<lparr>ss_outgoing := [(i, ''initialize'')], ss_state := PeerAwaitingInitialization\<rparr>)
       (MSuccess \<lparr>sr_id = i, sr_result = result_to_value S (negotiated config p)\<rparr>)
       = (peer', [RequestResolved resolved])
     \<and> initialization_result peer' = Some (negotiated config p) \<and> peer_parameters peer' = Some p
     \<and> ss_max_in_flight peer' = ir_max_in_flight (negotiated config p) \<and> outgoing_request_count peer' = 0"
  using assms(3) negotiated_valid [OF assms(1,2)]
  by (simp add: receive_def receive_success_def receive_initialize_success_def session_peer_def Let_def
      initialize_result_from_value_def initialization_result_def peer_parameters_def is_initialized_def
      outgoing_request_count_def)

text \<open>A run of ticks with nothing received in between.\<close>

definition ticks :: "env \<Rightarrow> session \<Rightarrow> request_id list \<Rightarrow> session" where
  "ticks E s ids = foldl (\<lambda>s i. fst (on_tick E s i)) s ids"

lemma ticks_simps [simp]:
  "ticks E s [] = s" "ticks E s (i # rest) = ticks E (fst (on_tick E s i)) rest"
  by (simp_all add: ticks_def)

lemma ticks_closed: "ss_state s = Closed \<Longrightarrow> ss_state (ticks E s ids) = Closed"
  by (induction ids arbitrary: s) (simp_all add: on_tick_def)

lemma send_request_keeps:
  "ss_state (fst (send_request E s i m params)) = ss_state s"
  "ss_shutdown_direction (fst (send_request E s i m params)) = ss_shutdown_direction s"
  "ss_missed_intervals (fst (send_request E s i m params)) = ss_missed_intervals s"
  "ss_activity_since_tick (fst (send_request E s i m params)) = ss_activity_since_tick s"
  by (auto simp: send_request_def split: sum.splits)

lemma silent_tick:
  assumes "ss_state s = Initialized" "ss_shutdown_direction s = LocalSupervisesRemote"
    and "\<not> ss_activity_since_tick s" "ss_missed_intervals s < 2"
  shows "ss_state (fst (on_tick E s i)) = Initialized"
    "ss_shutdown_direction (fst (on_tick E s i)) = LocalSupervisesRemote"
    "\<not> ss_activity_since_tick (fst (on_tick E s i))"
    "ss_missed_intervals (fst (on_tick E s i)) = Suc (ss_missed_intervals s)"
proof -
  have "fst (on_tick E s i) = fst (send_request E (s\<lparr>ss_missed_intervals := Suc (ss_missed_intervals s)\<rparr>) i ''ping'' [])"
    using assms by (auto simp: on_tick_def Let_def min_def split: prod.splits sum.splits)
  with assms show "ss_state (fst (on_tick E s i)) = Initialized"
    "ss_shutdown_direction (fst (on_tick E s i)) = LocalSupervisesRemote"
    "\<not> ss_activity_since_tick (fst (on_tick E s i))"
    "ss_missed_intervals (fst (on_tick E s i)) = Suc (ss_missed_intervals s)"
    by (simp_all add: send_request_keeps)
qed

lemma silent_ticks:
  assumes "ss_state s = Initialized" "ss_shutdown_direction s = LocalSupervisesRemote"
    and "\<not> ss_activity_since_tick s" "ss_missed_intervals s \<le> 2"
  shows "ss_state (ticks E s ids) = Closed \<longleftrightarrow> 3 - ss_missed_intervals s \<le> length ids"
  using assms
proof (induction ids arbitrary: s)
  case Nil
  then show ?case by simp
next
  case (Cons i ids)
  show ?case
  proof (cases "ss_missed_intervals s < 2")
    case True
    note step = silent_tick [OF Cons.prems(1-3) True, of E i]
    have "ss_state (ticks E (fst (on_tick E s i)) ids) = Closed \<longleftrightarrow> 3 - Suc (ss_missed_intervals s) \<le> length ids"
      using Cons.IH [OF step(1-3)] step(4) True by simp
    then show ?thesis using True by simp arith
  next
    case False
    then have "ss_missed_intervals s = 2" using Cons.prems by simp
    then have "ss_state (fst (on_tick E s i)) = Closed"
      using Cons.prems by (simp add: on_tick_def Let_def)
    then show ?thesis using \<open>ss_missed_intervals s = 2\<close> ticks_closed by simp
  qed
qed

section \<open>Properties\<close>

definition sample_params :: initialize_params where
  "sample_params = \<lparr>ip_protocol_versions = [0], ip_peer = \<lparr>pi_name = ''p'', pi_version = ''1''\<rparr>,
     ip_roles = [Client], ip_event_types = None, ip_methods = None, ip_heartbeat_seconds = None,
     ip_max_in_flight = Some 2\<rparr>"

definition sample_config :: runtime_config where
  "sample_config = runtime_config_new \<lparr>pi_name = ''zeta'', pi_version = ''1''\<rparr>"

definition sample_result :: initialize_result where
  "sample_result = \<lparr>ir_protocol_version = 0, ir_runtime = \<lparr>pi_name = ''zeta'', pi_version = ''1''\<rparr>,
     ir_roles = [Client], ir_config = [], ir_heartbeat_seconds = Finite 10, ir_max_in_flight = 2\<rparr>"

definition sample_ipc :: ipc_serde where
  "sample_ipc = sample_serde sample_params sample_result"

lemma sample_profile_ok: "profile_ok sample_params"
  by (simp add: profile_ok_def sample_params_def)

lemma sample_initialize:
  "initialize sample_ipc (session_peer sample_params Disabled) (Unsigned 1) =
     ((session_peer sample_params Disabled)\<lparr>ss_outgoing := [(Unsigned 1, ''initialize'')],
        ss_state := PeerAwaitingInitialization\<rparr>,
      Ok [Send (MRequest \<lparr>rq_id = Unsigned 1, rq_method = ''initialize'',
        rq_params = params_to_map sample_ipc sample_params\<rparr>)])"
  using sample_profile_ok validate_initialize_params_Ok [of sample_params "()"]
  by (simp add: initialize_def session_peer_def)

text \<open>C12: flow limits hold.  In every session that any sequence of operations and received messages
  can reach, no more requests are pending in either direction than the agreed limit, and no
  request id is pending twice.\<close>

theorem in_flight_bounded:
  assumes "session_reachable E S s"
  shows "incoming_request_count s \<le> ss_max_in_flight s \<and> outgoing_request_count s \<le> ss_max_in_flight s
    \<and> distinct (map fst (ss_incoming s)) \<and> distinct (map fst (ss_outgoing s))"
  using session_reachable_inv [OF assms]
  by (simp add: session_inv_def pending_ok_def incoming_request_count_def outgoing_request_count_def)

theorem in_flight_bounded_witness:
  "outgoing_request_count (fst (initialize sample_ipc
      (session_peer sample_params Disabled) (Unsigned 1))) = 1
   \<and> outgoing_request_count (fst (initialize sample_ipc
      (session_peer sample_params Disabled) (Unsigned 1))) \<le> 2"
proof -
  let ?s = "fst (initialize sample_ipc (session_peer sample_params Disabled) (Unsigned 1))"
  have "session_reachable sample_env sample_ipc ?s"
    by (intro session_reachable.intros(3) [OF session_reachable.intros(1) session_step.intros(1)])
  from in_flight_bounded [OF this]
  have "outgoing_request_count ?s \<le> ss_max_in_flight ?s" by simp
  then show ?thesis
    unfolding sample_initialize by (simp add: outgoing_request_count_def session_peer_def sample_params_def)
qed

text \<open>A closed session stays closed, and is silent: it takes no message, sends no request and
  reacts to no tick.\<close>

theorem closed_is_final:
  assumes "session_step E S s s'" "ss_state s = Closed"
  shows "ss_state s' = Closed \<and> snd (receive E S s msg) = [] \<and> snd (on_tick E s i) = []
    \<and> (\<exists>e. snd (send_request E s i m params) = Err e) \<and> (\<exists>e. snd (initialize S s i) = Err e)
    \<and> (\<exists>e. send_notification E s m params = Err e)"
proof -
  have "ss_state s' = Closed"
    using assms
    by (induction rule: session_step.induct)
      (auto simp: initialize_def send_request_def receive_def complete_request_def fail_request_def on_tick_def
        split: option.splits sum.splits)
  then show ?thesis
    using assms(2) by (simp add: receive_def on_tick_def send_request_def initialize_def send_notification_def)
qed

theorem closed_is_final_witness:
  "ss_state (fst (receive sample_env sample_ipc
      ((session_peer sample_params Disabled)\<lparr>ss_state := Closed\<rparr>)
      (MNotification \<lparr>nt_method = ''event'', nt_params = []\<rparr>))) = Closed"
  using closed_is_final [OF session_step.intros(3) [of sample_env sample_ipc
        "(session_peer sample_params Disabled)\<lparr>ss_state := Closed\<rparr>"
        "MNotification \<lparr>nt_method = ''event'', nt_params = []\<rparr>"]]
  by simp

text \<open>C21: the handshake agrees.  When a peer with a valid profile connects to a validly configured runtime
  that supports its roles and protocol version, one request and one response later both sides are
  initialized with the same negotiated result, the same profile and the same flow limit.\<close>

theorem handshake_agrees:
  assumes "profile_ok p" "PROTOCOL_VERSION \<in> set (ip_protocol_versions p)"
    and "set (ip_roles p) \<subseteq> set (rc_supported_roles config)" "config_ok config"
    and "params_from_map S (params_to_map S p) = Ok p"
    and "result_from_value S (result_to_value S (negotiated config p)) = Ok (negotiated config p)"
  shows "\<exists>peer request runtime response peer' resolved.
     initialize S (session_peer p d) i = (peer, Ok [Send request])
     \<and> receive E S (session_runtime config d') request = (runtime, [Send response])
     \<and> receive E S peer response = (peer', [RequestResolved resolved])
     \<and> initialization_result runtime = Some (negotiated config p)
     \<and> initialization_result peer' = Some (negotiated config p)
     \<and> peer_parameters runtime = Some p \<and> peer_parameters peer' = Some p
     \<and> ss_max_in_flight runtime = ss_max_in_flight peer'
     \<and> outgoing_request_count peer' = 0"
proof -
  let ?req = "\<lparr>rq_id = i, rq_method = ''initialize'', rq_params = params_to_map S p\<rparr>"
  let ?resp = "\<lparr>sr_id = i, sr_result = result_to_value S (negotiated config p)\<rparr>"
  let ?peer = "(session_peer p d)\<lparr>ss_outgoing := [(i, ''initialize'')], ss_state := PeerAwaitingInitialization\<rparr>"
  have 1: "initialize S (session_peer p d) i = (?peer, Ok [Send (MRequest ?req)])"
    using assms(1) validate_initialize_params_Ok [of p "()"]
    by (simp add: initialize_def session_peer_def)
  obtain runtime where 2: "receive E S (session_runtime config d') (MRequest ?req) = (runtime, [Send (MSuccess ?resp)])"
    "initialization_result runtime = Some (negotiated config p)" "peer_parameters runtime = Some p"
    "ss_max_in_flight runtime = ir_max_in_flight (negotiated config p)"
    using runtime_accepts [OF assms(1-3,5)] by blast
  obtain peer' resolved where 3: "receive E S ?peer (MSuccess ?resp) = (peer', [RequestResolved resolved])"
    "initialization_result peer' = Some (negotiated config p)" "peer_parameters peer' = Some p"
    "ss_max_in_flight peer' = ir_max_in_flight (negotiated config p)" "outgoing_request_count peer' = 0"
    using peer_accepts [OF assms(1,4,6)] by blast
  show ?thesis using 1 2 3 by metis
qed

theorem handshake_agrees_witness:
  "\<exists>runtime response.
     receive sample_env sample_ipc (session_runtime sample_config Disabled)
       (MRequest \<lparr>rq_id = Unsigned 1, rq_method = ''initialize'', rq_params = params_to_map sample_ipc sample_params\<rparr>)
       = (runtime, [Send response])
     \<and> initialization_result runtime = Some sample_result"
proof -
  have "negotiated sample_config sample_params = sample_result"
    by (simp add: negotiated_def sample_config_def runtime_config_new_def sample_params_def sample_result_def
        PROTOCOL_VERSION_def)
  then show ?thesis
    using handshake_agrees [of sample_params sample_config sample_ipc Disabled "Unsigned 1" sample_env Disabled]
      sample_profile_ok sample_initialize
    by (auto simp: sample_ipc_def sample_serde_def sample_config_def runtime_config_new_def config_ok_def
        sample_params_def PROTOCOL_VERSION_def)
qed

text \<open>C31: a silent peer is disconnected.  A supervising session that hears nothing closes after the third
  tick without traffic, no sooner and no later, whether or not its pings can be sent.\<close>

theorem heartbeat_closes:
  assumes "ss_state s = Initialized" "ss_shutdown_direction s = LocalSupervisesRemote" "ss_missed_intervals s \<le> 2"
  shows "ss_state (ticks E s ids) = Closed \<longleftrightarrow>
     (if ss_activity_since_tick s then 4 else 3 - ss_missed_intervals s) \<le> length ids"
proof (cases "ss_activity_since_tick s")
  case False
  then show ?thesis using silent_ticks [OF assms(1,2) False assms(3)] by simp
next
  case True
  show ?thesis
  proof (cases ids)
    case Nil
    then show ?thesis using assms True by (simp add: ticks_def)
  next
    case (Cons i rest)
    let ?s = "s\<lparr>ss_activity_since_tick := False, ss_missed_intervals := 0\<rparr>"
    have "ticks E s ids = ticks E ?s rest" using True assms Cons by (simp add: ticks_def on_tick_def)
    then show ?thesis using silent_ticks [of ?s E rest] assms True Cons by simp
  qed
qed

theorem heartbeat_closes_witness:
  "ss_state (ticks sample_env ((session_peer sample_params LocalSupervisesRemote)\<lparr>ss_state := Initialized\<rparr>)
     [Unsigned 1, Unsigned 2, Unsigned 3]) = Closed"
  using heartbeat_closes [of "(session_peer sample_params LocalSupervisesRemote)\<lparr>ss_state := Initialized\<rparr>" sample_env
      "[Unsigned 1, Unsigned 2, Unsigned 3]"]
  by (simp add: session_peer_def)

end
