(* ===== verification/Ipc_Link.thy ===== *)
theory Ipc_Link
  imports Ipc_Session "HOL-Library.Multiset"
begin

text \<open>
  Sessions in use.  \<open>call\<close> is one call of the session's owner, whichever method of \<open>session.rs\<close> it
  is, and \<open>run_calls\<close> a sequence of calls with the log of the actions they returned.  A \<open>link\<close>
  connects the session of a peer with that of a runtime by two ordered channels: what one side sends
  arrives at the other in order, interleaved in any way with the calls of both owners.

  The log shows that an application answers a request exactly once.  The link shows that two sides
  that both use this state machine never reject each other's messages.
\<close>

section \<open>Calls\<close>

datatype session_call =
    Initialize request_id
  | SendRequest request_id string json_map
  | SendNotification string json_map
  | Receive message
  | CompleteRequest request_id json
  | FailRequest request_id error_object
  | OnTick request_id

text \<open>A call that returns an error returns no action.\<close>

definition on_ok :: "session \<times> (ipc_error, action list) result \<Rightarrow> session \<times> action list" where
  "on_ok out = (fst out, case snd out of Inl _ \<Rightarrow> [] | Inr acts \<Rightarrow> acts)"

fun call :: "env \<Rightarrow> ipc_serde \<Rightarrow> session \<Rightarrow> session_call \<Rightarrow> session \<times> action list" where
  "call E S s (Initialize i) = on_ok (initialize S s i)"
| "call E S s (SendRequest i m params) = on_ok (send_request E s i m params)"
| "call E S s (SendNotification m params) = on_ok (s, send_notification E s m params)"
| "call E S s (Receive msg) = receive E S s msg"
| "call E S s (CompleteRequest i result) = on_ok (complete_request s i result)"
| "call E S s (FailRequest i error) = on_ok (fail_request s i error)"
| "call E S s (OnTick i) = on_tick E s i"

primrec run_calls ::
  "env \<Rightarrow> ipc_serde \<Rightarrow> session \<Rightarrow> session_call list \<Rightarrow> session \<times> (session_call \<times> action list) list" where
  "run_calls E S s [] = (s, [])"
| "run_calls E S s (c # cs) =
     (let (s', acts) = call E S s c; (s'', trail) = run_calls E S s' cs in (s'', (c, acts) # trail))"

lemma on_ok_simps [simp]: "on_ok (s, Inl e) = (s, [])" "on_ok (s, Inr acts) = (s, acts)"
  by (simp_all add: on_ok_def)

section \<open>One answer per request\<close>

text \<open>How often an action hands the request \<open>i\<close> to the application, and how often the application
  answers it: the responses under \<open>i\<close> that its own two calls send.\<close>

fun hands_over :: "request_id \<Rightarrow> action \<Rightarrow> bool" where
  "hands_over i (HandleRequest r) \<longleftrightarrow> rq_id r = i"
| "hands_over i _ \<longleftrightarrow> False"

fun responds :: "request_id \<Rightarrow> action \<Rightarrow> bool" where
  "responds i (Send (MSuccess r)) \<longleftrightarrow> sr_id r = i"
| "responds i (Send (MError r)) \<longleftrightarrow> er_id r = Some i"
| "responds i _ \<longleftrightarrow> False"

fun is_answer :: "session_call \<Rightarrow> bool" where
  "is_answer (CompleteRequest i result) \<longleftrightarrow> True"
| "is_answer (FailRequest i error) \<longleftrightarrow> True"
| "is_answer _ \<longleftrightarrow> False"

definition requests_handed_over :: "request_id \<Rightarrow> (session_call \<times> action list) list \<Rightarrow> nat" where
  "requests_handed_over i trail = (\<Sum>(c, acts) \<leftarrow> trail. length (filter (hands_over i) acts))"

definition answers_given :: "request_id \<Rightarrow> (session_call \<times> action list) list \<Rightarrow> nat" where
  "answers_given i trail = (\<Sum>(c, acts) \<leftarrow> trail. if is_answer c then length (filter (responds i) acts) else 0)"

definition open_requests :: "session \<Rightarrow> request_id \<Rightarrow> nat" where
  "open_requests s i = (if map_of (ss_incoming s) i = None then 0 else 1)"

lemma log_simps [simp]:
  "requests_handed_over i [] = 0" "answers_given i [] = 0"
  "requests_handed_over i ((c, acts) # trail) = length (filter (hands_over i) acts) + requests_handed_over i trail"
  "answers_given i ((c, acts) # trail) = (if is_answer c then length (filter (responds i) acts) else 0) + answers_given i trail"
  by (simp_all add: requests_handed_over_def answers_given_def)

text \<open>Nothing but the arrival of a request, its completion and its failure touches the requests that
  wait for an answer.\<close>

lemma local_calls_keep_incoming:
  "ss_incoming (fst (initialize S s i)) = ss_incoming s"
  "ss_incoming (fst (send_request E s i m params)) = ss_incoming s"
  by (auto simp: initialize_def send_request_def split: option.split sum.split)

lemma tick_keeps_incoming: "ss_incoming (fst (on_tick E s i)) = ss_incoming s"
  using local_calls_keep_incoming(2) [of E "s\<lparr>ss_missed_intervals := min 255 (ss_missed_intervals s + 1)\<rparr>" i "''ping''" "[]"]
  by (auto simp: on_tick_def Let_def split: prod.split sum.split)

lemma responses_keep_incoming:
  "ss_incoming (fst (receive_initialize_success S s response m)) = ss_incoming s"
  "ss_incoming (fst (receive_error s response')) = ss_incoming s"
  by (simp_all add: receive_initialize_success_def initialization_failed_def receive_error_def Let_def
      split: option.split sum.split)

lemma received_keeps_incoming:
  "ss_incoming (fst (receive_initialize S s r)) = ss_incoming s"
  "ss_incoming (fst (receive_shutdown E s r)) = ss_incoming s"
  "ss_incoming (fst (receive_notification E s n)) = ss_incoming s"
  "ss_incoming (fst (receive_success S s response)) = ss_incoming s"
  by (simp_all add: receive_initialize_def receive_shutdown_def receive_notification_def receive_success_def
      responses_keep_incoming Let_def split: option.split sum.split)

lemmas incoming_kept = local_calls_keep_incoming tick_keeps_incoming responses_keep_incoming received_keeps_incoming

lemma local_calls_hand_nothing_over:
  "filter (hands_over j) (snd (on_ok (initialize S s i))) = []"
  "filter (hands_over j) (snd (on_ok (send_request E s i m params))) = []"
  "filter (hands_over j) (snd (on_ok (s, send_notification E s m params))) = []"
  by (simp_all add: initialize_def send_request_def send_notification_def and_then_def split: option.split sum.split)

lemma tick_hands_nothing_over: "filter (hands_over j) (snd (on_tick E s i)) = []"
  using local_calls_hand_nothing_over(2) [of j E "s\<lparr>ss_missed_intervals := min 255 (ss_missed_intervals s + 1)\<rparr>" i "''ping''" "[]"]
  by (auto simp: on_tick_def Let_def split: prod.split sum.split)

lemma rejections_hand_nothing_over:
  "filter (hands_over j) (reject_request r e) = []"
  "filter (hands_over j) (reject_request_with_code r e c) = []"
  "filter (hands_over j) (with_close acts reason) = filter (hands_over j) acts"
  by (simp_all add: reject_request_def reject_request_with_code_def with_close_def)

lemma responses_hand_nothing_over:
  "filter (hands_over j) (snd (receive_initialize_success S s response m)) = []"
  "filter (hands_over j) (snd (receive_error s response')) = []"
  by (simp_all add: receive_initialize_success_def initialization_failed_def receive_error_def Let_def
      split: option.split sum.split)

lemma received_hands_nothing_over:
  "filter (hands_over j) (snd (receive_initialize S s r)) = []"
  "filter (hands_over j) (snd (receive_shutdown E s r)) = []"
  "filter (hands_over j) (snd (receive_notification E s n)) = []"
  "filter (hands_over j) (snd (receive_success S s response)) = []"
  by (simp_all add: receive_initialize_def receive_shutdown_def receive_notification_def receive_success_def
      responses_hand_nothing_over rejections_hand_nothing_over Let_def split: option.split sum.split)

lemmas hands_nothing_over = local_calls_hand_nothing_over tick_hands_nothing_over rejections_hand_nothing_over
  responses_hand_nothing_over received_hands_nothing_over

definition takes_request :: "env \<Rightarrow> session \<Rightarrow> request \<Rightarrow> bool" where
  "takes_request E s r \<longleftrightarrow>
     ss_state s = Initialized \<and> map_of (ss_incoming s) (rq_id r) = None
     \<and> rq_method r \<noteq> ''initialize'' \<and> rq_method r \<noteq> ''ping'' \<and> rq_method r \<noteq> ''shutdown''
     \<and> is_ok (validate_incoming_request E s (rq_method r) (rq_params r))
     \<and> length (ss_incoming s) < ss_max_in_flight s"

lemma receive_request_taken:
  "takes_request E s r \<Longrightarrow> receive_request E S s r =
    (s\<lparr>ss_incoming := AList.update (rq_id r) (rq_method r) (ss_incoming s)\<rparr>, [HandleRequest r])"
  by (cases "validate_incoming_request E s (rq_method r) (rq_params r)")
    (simp_all add: takes_request_def receive_request_def)

lemma receive_request_kept:
  assumes "\<not> takes_request E s r"
  shows "ss_incoming (fst (receive_request E S s r)) = ss_incoming s
    \<and> filter (hands_over i) (snd (receive_request E S s r)) = []"
proof (cases "rq_method r = ''initialize'' \<or> ss_state s \<noteq> Initialized \<or> map_of (ss_incoming s) (rq_id r) \<noteq> None
    \<or> rq_method r = ''ping'' \<or> rq_method r = ''shutdown''")
  case True
  then show ?thesis
    by (elim disjE) (simp_all add: receive_request_def hands_nothing_over incoming_kept split: sum.split)
next
  case False
  with assms show ?thesis
    by (cases "validate_incoming_request E s (rq_method r) (rq_params r)")
      (simp_all add: takes_request_def receive_request_def hands_nothing_over)
qed

lemma receive_request_balance:
  "length (filter (hands_over i) (snd (receive_request E S s r))) + open_requests s i
   = open_requests (fst (receive_request E S s r)) i"
proof (cases "takes_request E s r")
  case True
  then have "map_of (ss_incoming s) (rq_id r) = None" by (simp add: takes_request_def)
  then show ?thesis
    unfolding receive_request_taken [OF True] by (simp add: open_requests_def update_conv')
next
  case False
  then show ?thesis using receive_request_kept [OF False, of S i] by (simp only: open_requests_def) simp
qed

lemma receive_balance:
  "length (filter (hands_over i) (snd (receive E S s msg))) + open_requests s i
   = open_requests (fst (receive E S s msg)) i"
proof (cases "ss_state s = Closed")
  case False
  have same: "open_requests (s\<lparr>ss_activity_since_tick := True, ss_missed_intervals := 0\<rparr>) i = open_requests s i"
    by (simp add: open_requests_def)
  show ?thesis
  proof (cases msg)
    case (MRequest r)
    then show ?thesis
      using False receive_request_balance [of i E S "s\<lparr>ss_activity_since_tick := True, ss_missed_intervals := 0\<rparr>" r] same
      by (simp add: receive_def Let_def)
  qed (use False in \<open>simp_all add: receive_def Let_def hands_nothing_over incoming_kept open_requests_def\<close>)
qed (simp add: receive_def)

lemma complete_balance:
  "open_requests s j = length (filter (responds j) (snd (on_ok (complete_request s i result))))
     + open_requests (fst (on_ok (complete_request s i result))) j"
  by (auto simp: complete_request_def open_requests_def delete_conv' split: option.split sum.split)

lemma fail_balance:
  "open_requests s j = length (filter (responds j) (snd (on_ok (fail_request s i error))))
     + open_requests (fst (on_ok (fail_request s i error))) j"
  by (auto simp: fail_request_def open_requests_def delete_conv')

lemma fst_on_ok [simp]: "fst (on_ok out) = fst out"
  by (simp add: on_ok_def)

lemma answers_hand_nothing_over:
  "filter (hands_over j) (snd (on_ok (complete_request s i result))) = []"
  "filter (hands_over j) (snd (on_ok (fail_request s i error))) = []"
  by (auto simp: complete_request_def fail_request_def split: option.splits sum.splits)

lemma call_balance:
  "length (filter (hands_over i) (snd (call E S s c))) + open_requests s i
    = (if is_answer c then length (filter (responds i) (snd (call E S s c))) else 0)
      + open_requests (fst (call E S s c)) i"
proof (cases c)
  case (Receive msg)
  then show ?thesis by (simp add: receive_balance)
next
  case (CompleteRequest j result)
  then show ?thesis using complete_balance [of s i j result] by (simp add: answers_hand_nothing_over)
next
  case (FailRequest j error)
  then show ?thesis using fail_balance [of s i j error] by (simp add: answers_hand_nothing_over)
qed (simp_all add: hands_nothing_over incoming_kept open_requests_def)

lemma run_balance:
  "requests_handed_over i (snd (run_calls E S s cs)) + open_requests s i
   = answers_given i (snd (run_calls E S s cs)) + open_requests (fst (run_calls E S s cs)) i"
proof (induction cs arbitrary: s)
  case (Cons c cs)
  obtain s1 acts where c: "call E S s c = (s1, acts)" by fastforce
  obtain s' trail where r: "run_calls E S s1 cs = (s', trail)" by fastforce
  from call_balance [of i E S s c, unfolded c fst_conv snd_conv] Cons.IH [of s1] show ?case
    by (simp add: c r)
qed simp

section \<open>Two sides and two channels\<close>

fun sent :: "action list \<Rightarrow> message list" where
  "sent [] = []"
| "sent (Send m # acts) = m # sent acts"
| "sent (a # acts) = sent acts"

record link =
  lk_peer :: session
  lk_runtime :: session
  lk_to_runtime :: "message list"
  lk_to_peer :: "message list"

definition link_new :: "initialize_params \<Rightarrow> shutdown_direction \<Rightarrow> runtime_config \<Rightarrow> shutdown_direction \<Rightarrow> link" where
  "link_new p d config d' =
     \<lparr>lk_peer = session_peer p d, lk_runtime = session_runtime config d', lk_to_runtime = [], lk_to_peer = []\<rparr>"

fun local :: "session_call \<Rightarrow> bool" where
  "local (Receive m) \<longleftrightarrow> False"
| "local c \<longleftrightarrow> True"

inductive link_step :: "env \<Rightarrow> ipc_serde \<Rightarrow> link \<Rightarrow> link \<Rightarrow> bool" for E S where
  peer_calls: "local c \<Longrightarrow> call E S (lk_peer l) c = (s, acts) \<Longrightarrow>
     link_step E S l (l\<lparr>lk_peer := s, lk_to_runtime := lk_to_runtime l @ sent acts\<rparr>)"
| runtime_calls: "local c \<Longrightarrow> call E S (lk_runtime l) c = (s, acts) \<Longrightarrow>
     link_step E S l (l\<lparr>lk_runtime := s, lk_to_peer := lk_to_peer l @ sent acts\<rparr>)"
| runtime_receives: "lk_to_runtime l = m # ms \<Longrightarrow> receive E S (lk_runtime l) m = (s, acts) \<Longrightarrow>
     link_step E S l (l\<lparr>lk_runtime := s, lk_to_runtime := ms, lk_to_peer := lk_to_peer l @ sent acts\<rparr>)"
| peer_receives: "lk_to_peer l = m # ms \<Longrightarrow> receive E S (lk_peer l) m = (s, acts) \<Longrightarrow>
     link_step E S l (l\<lparr>lk_peer := s, lk_to_peer := ms, lk_to_runtime := lk_to_runtime l @ sent acts\<rparr>)"

inductive link_reachable :: "env \<Rightarrow> ipc_serde \<Rightarrow> link \<Rightarrow> link \<Rightarrow> bool" for E S l0 where
  "link_reachable E S l0 l0"
| "link_reachable E S l0 l \<Longrightarrow> link_step E S l l' \<Longrightarrow> link_reachable E S l0 l'"

text \<open>What the receiver of a message returns when it accepts it.\<close>

fun accepted :: "session \<Rightarrow> message \<Rightarrow> action list \<Rightarrow> bool" where
  "accepted s (MRequest r) acts =
     (if rq_method r = ''initialize'' then \<exists>v. acts = [Send (MSuccess \<lparr>sr_id = rq_id r, sr_result = v\<rparr>)]
      else if rq_method r = ''ping'' then acts = [Send (MSuccess \<lparr>sr_id = rq_id r, sr_result = JObject []\<rparr>)]
      else if rq_method r = ''shutdown''
      then \<exists>reason. acts = [Send (MSuccess \<lparr>sr_id = rq_id r, sr_result = JObject []\<rparr>), Close reason]
      else acts = [HandleRequest r])"
| "accepted s (MNotification n) acts = (acts = [HandleNotification n])"
| "accepted s (MSuccess r) acts =
     (\<exists>m. map_of (ss_outgoing s) (sr_id r) = Some m
       \<and> acts = [RequestResolved \<lparr>rr_id = sr_id r, rr_method = m, rr_outcome = Ok (sr_result r)\<rparr>])"
| "accepted s (MError r) acts =
     (\<exists>i m. er_id r = Some i \<and> map_of (ss_outgoing s) i = Some m
       \<and> acts = [RequestResolved \<lparr>rr_id = i, rr_method = m, rr_outcome = Err (er_error r)\<rparr>])"

subsection \<open>Both sides apply the same rules\<close>

definition supervision_agrees :: "shutdown_direction \<Rightarrow> shutdown_direction \<Rightarrow> bool" where
  "supervision_agrees d d' \<longleftrightarrow> (d = LocalSupervisesRemote \<longleftrightarrow> d' = RemoteSupervisesLocal)
     \<and> (d = RemoteSupervisesLocal \<longleftrightarrow> d' = LocalSupervisesRemote)"

text \<open>The parts of a session that a call leaves alone, and what two ends must have in common.\<close>

definition terms :: "session \<Rightarrow> side \<times> initialize_params option \<times> shutdown_direction" where
  "terms s = (ss_side s, ss_peer_params s, ss_shutdown_direction s)"

definition matches :: "session \<Rightarrow> session \<Rightarrow> bool" where
  "matches a b \<longleftrightarrow>
     ss_side a \<noteq> ss_side b \<and> ss_peer_params a = ss_peer_params b
     \<and> (\<exists>p. ss_peer_params a = Some p \<and> profile_ok p)
     \<and> supervision_agrees (ss_shutdown_direction a) (ss_shutdown_direction b)"

definition request_ok :: "env \<Rightarrow> session \<Rightarrow> request \<Rightarrow> bool" where
  "request_ok E s r \<longleftrightarrow>
     (if rq_method r = ''initialize'' then False
      else if rq_method r = ''ping'' then is_ok (validate_fixed_request E (rq_method r) (rq_params r))
      else if rq_method r = ''shutdown''
      then ss_shutdown_direction s = RemoteSupervisesLocal \<and> is_ok (validate_fixed_request E (rq_method r) (rq_params r))
      else is_ok (validate_incoming_request E s (rq_method r) (rq_params r)))"

fun message_ok :: "env \<Rightarrow> session \<Rightarrow> message \<Rightarrow> bool" where
  "message_ok E s (MRequest r) \<longleftrightarrow> request_ok E s r"
| "message_ok E s (MNotification n) \<longleftrightarrow>
     ss_side s = Peer \<and> has_peer_role s Client \<and> nt_method n = ''event''
     \<and> is_ok (validate_event_notification E (nt_params n))"
| "message_ok E s (MSuccess r) \<longleftrightarrow> is_object (sr_result r)"
| "message_ok E s (MError r) \<longleftrightarrow> er_id r \<noteq> None"

lemma terms_roles:
  assumes "ss_peer_params s = ss_peer_params s'"
  shows "has_peer_role s = has_peer_role s'" "peer_declares_method s = peer_declares_method s'"
    "validate_published_type s = validate_published_type s'"
  by (intro ext, simp only: has_peer_role_def peer_declares_method_def validate_published_type_def assms)+

lemma terms_incoming:
  assumes "terms s = terms s'"
  shows "validate_incoming_request E s = validate_incoming_request E s'"
proof -
  have same: "ss_side s = ss_side s'" "ss_peer_params s = ss_peer_params s'" using assms by (simp_all add: terms_def)
  then show ?thesis
    by (intro ext) (simp only: validate_incoming_request_def validate_runtime_incoming_def validate_peer_incoming_def
        terms_roles [OF same(2)])
qed

lemma message_ok_terms: "terms s = terms s' \<Longrightarrow> message_ok E s = message_ok E s'"
  using terms_incoming [of s s' E] terms_roles [of s s']
  by (intro ext, case_tac x) (simp_all add: request_ok_def terms_def)

lemma matches_terms: "terms a = terms a' \<Longrightarrow> terms b = terms b' \<Longrightarrow> matches a b = matches a' b'"
  by (simp add: matches_def terms_def)

lemma declared_method:
  assumes "matches a b" "peer_declares_method a m"
  shows "has_peer_role b Provider" "peer_declares_method b m" "\<not> method_is_reserved m"
proof -
  obtain p ds where p: "ss_peer_params a = Some p" "ss_peer_params b = Some p" "profile_ok p"
    "ip_methods p = Some ds" "m \<in> md_name ` set ds"
    using assms by (auto simp: matches_def peer_declares_method_def split: option.splits)
  then show "has_peer_role b Provider" "peer_declares_method b m" "\<not> method_is_reserved m"
    by (auto simp: has_peer_role_def peer_declares_method_def profile_ok_def list_all_iff)
qed

text \<open>A request that one side lets out is one that the other side lets in.\<close>

lemma outgoing_request_ok:
  assumes m: "matches a b" and ok: "is_ok (validate_outgoing_request E a m params)"
  shows "request_ok E b \<lparr>rq_id = i, rq_method = m, rq_params = params\<rparr>"
proof (cases "m = ''ping'' \<or> m = ''shutdown''")
  case True
  then show ?thesis
    using m ok
    by (elim disjE)
      (simp_all add: request_ok_def validate_outgoing_request_def matches_def supervision_agrees_def split: if_splits)
next
  case False
  note roles = terms_roles [of a b]
  have same: "ss_peer_params a = ss_peer_params b" using m by (simp add: matches_def)
  have ini: "m \<noteq> ''initialize''" using ok outgoing_not_initialize [of E a params] by (auto simp: is_ok_iff)
  show ?thesis
  proof (cases "ss_side a")
    case Peer
    then have "ss_side b = Runtime" using m by (cases "ss_side b") (simp_all add: matches_def)
    moreover have "validate_outgoing_request E a m params = validate_runtime_incoming E b m params"
      using False Peer roles [OF same]
      by (simp add: validate_outgoing_request_def validate_peer_outgoing_def validate_runtime_incoming_def)
    ultimately show ?thesis
      using ok ini False by (simp add: request_ok_def validate_incoming_request_def)
  next
    case Runtime
    then have side: "ss_side b = Peer" using m by (cases "ss_side b") (simp_all add: matches_def)
    have out: "validate_outgoing_request E a m params = validate_runtime_outgoing a m params"
      using False Runtime by (simp add: validate_outgoing_request_def)
    then have d: "peer_declares_method a m"
      using ok by (auto simp: validate_runtime_outgoing_def method_not_found_def split: if_splits)
    have "validate_incoming_request E b m params = validate_outgoing_request E a m params"
      using out side d declared_method [OF m d]
      by (simp add: validate_incoming_request_def validate_peer_incoming_def validate_runtime_outgoing_def)
    then show ?thesis using ok ini False by (simp add: request_ok_def)
  qed
qed

subsection \<open>Ids on their way\<close>

fun request_id_of :: "message \<Rightarrow> request_id multiset" where
  "request_id_of (MRequest r) = {#rq_id r#}"
| "request_id_of m = {#}"

fun response_id_of :: "message \<Rightarrow> request_id multiset" where
  "response_id_of (MSuccess r) = {#sr_id r#}"
| "response_id_of (MError r) = (case er_id r of None \<Rightarrow> {#} | Some i \<Rightarrow> {#i#})"
| "response_id_of m = {#}"

definition request_ids :: "message list \<Rightarrow> request_id multiset" where
  "request_ids ms = (\<Sum>m \<leftarrow> ms. request_id_of m)"

definition response_ids :: "message list \<Rightarrow> request_id multiset" where
  "response_ids ms = (\<Sum>m \<leftarrow> ms. response_id_of m)"

definition in_ids :: "session \<Rightarrow> request_id multiset" where
  "in_ids s = mset (map fst (ss_incoming s))"

definition out_ids :: "session \<Rightarrow> request_id multiset" where
  "out_ids s = mset (map fst (ss_outgoing s))"

lemma ids_simps [simp]:
  "request_ids [] = {#}" "request_ids (m # ms) = request_id_of m + request_ids ms"
  "request_ids (ms @ ms') = request_ids ms + request_ids ms'"
  "response_ids [] = {#}" "response_ids (m # ms) = response_id_of m + response_ids ms"
  "response_ids (ms @ ms') = response_ids ms + response_ids ms'"
  by (simp_all add: request_ids_def response_ids_def)

lemma keys_update: "map_of xs i = None \<Longrightarrow> image_mset fst (mset (AList.update i v xs)) = add_mset i (image_mset fst (mset xs))"
  by (induction xs) auto

lemma keys_delete:
  "distinct (map fst xs) \<Longrightarrow> map_of xs i \<noteq> None \<Longrightarrow>
     image_mset fst (mset xs) = add_mset i (image_mset fst (mset (AList.delete i xs)))"
proof (induction xs)
  case (Cons x xs)
  show ?case
  proof (cases "fst x = i")
    case True
    then have "map_of xs i = None" using Cons.prems(1) by (auto simp: map_of_eq_None_iff)
    then have "AList.delete i xs = xs" by (simp add: delete_id map_of_eq_None_iff)
    then show ?thesis using True by (cases x) simp
  next
    case False
    then show ?thesis using Cons by (cases x) (simp add: add_mset_commute)
  qed
qed simp

text \<open>A call of one end: its pending requests grow by what it asks and shrink by what it answers.\<close>

definition step_ok :: "env \<Rightarrow> session \<Rightarrow> message list \<Rightarrow> session \<Rightarrow> session \<Rightarrow> action list \<Rightarrow> bool" where
  "step_ok E b got a a' acts \<longleftrightarrow>
     terms a' = terms a \<and> ss_max_in_flight a' = ss_max_in_flight a
     \<and> ss_state a' \<in> {Initialized, Closed}
     \<and> out_ids a' + response_ids got = out_ids a + request_ids (sent acts)
     \<and> in_ids a' + response_ids (sent acts) = in_ids a + request_ids got
     \<and> list_all (message_ok E b) (sent acts)"

lemma step_ok_idle: "ss_state a \<in> {Initialized, Closed} \<Longrightarrow> sent acts = [] \<Longrightarrow> step_ok E b [] a a acts"
  by (simp add: step_ok_def)

lemma step_ok_cong:
  assumes "step_ok E b got a a' acts" "terms a = terms a0" "ss_max_in_flight a = ss_max_in_flight a0"
    "ss_outgoing a = ss_outgoing a0" "ss_incoming a = ss_incoming a0"
  shows "step_ok E b got a0 a' acts"
  using assms by (simp add: step_ok_def out_ids_def in_ids_def)

lemma send_request_step:
  assumes "matches a b" "ss_state a \<in> {Initialized, Closed}"
  shows "step_ok E b [] a (fst (send_request E a i m params)) (snd (on_ok (send_request E a i m params)))"
proof (cases "snd (send_request E a i m params)")
  case (Inl e)
  then have "fst (send_request E a i m params) = a"
    by (auto simp: send_request_def split: if_splits sum.splits)
  then show ?thesis using Inl assms(2) by (simp add: on_ok_def step_ok_idle)
next
  case (Inr acts)
  then obtain u where ok: "ss_state a = Initialized" "validate_outgoing_request E a m params = Ok u"
    "map_of (ss_outgoing a) i = None" "\<not> ss_max_in_flight a \<le> length (ss_outgoing a)"
    by (auto simp: send_request_def split: if_splits sum.splits)
  then have run: "send_request E a i m params =
      (a\<lparr>ss_outgoing := AList.update i m (ss_outgoing a)\<rparr>,
       Ok [Send (MRequest \<lparr>rq_id = i, rq_method = m, rq_params = params\<rparr>)])"
    by (simp add: send_request_def)
  have "is_ok (validate_outgoing_request E a m params)" using ok(2) by simp
  from outgoing_request_ok [OF assms(1) this, of i] show ?thesis
    unfolding run using ok(1,3)
    by (simp add: step_ok_def terms_def out_ids_def in_ids_def keys_update)
qed

lemma send_notification_step:
  assumes "matches a b" "ss_state a \<in> {Initialized, Closed}"
  shows "step_ok E b [] a a (snd (on_ok (a, send_notification E a m params)))"
proof (cases "send_notification E a m params")
  case (Inl e)
  then show ?thesis using assms(2) by (simp add: step_ok_idle)
next
  case (Inr acts)
  then have n: "acts = [Send (MNotification \<lparr>nt_method = m, nt_params = params\<rparr>)]" "ss_side a = Runtime" "m = ''event''"
    "has_peer_role a Client" "is_ok (validate_event_notification E params)"
    by (auto simp: send_notification_def and_then_Ok_iff is_ok_iff split: if_splits)
  have "ss_side b = Peer" using assms(1) n(2) by (cases "ss_side b") (simp_all add: matches_def)
  moreover have "has_peer_role b Client"
    using n(4) terms_roles(1) [of a b] assms(1) by (simp add: matches_def)
  ultimately show ?thesis using Inr n assms(2) by (simp add: step_ok_def)
qed

lemma complete_request_step:
  assumes "distinct (map fst (ss_incoming a))" "ss_state a \<in> {Initialized, Closed}"
  shows "step_ok E b [] a (fst (complete_request a i result)) (snd (on_ok (complete_request a i result)))"
proof (cases "snd (complete_request a i result)")
  case (Inl e)
  then have "fst (complete_request a i result) = a"
    by (auto simp: complete_request_def split: option.splits sum.splits)
  then show ?thesis using Inl assms(2) by (simp add: on_ok_def step_ok_idle)
next
  case (Inr acts)
  then obtain m where m: "map_of (ss_incoming a) i = Some m" "is_object result"
    by (auto simp: complete_request_def validate_result_def split: option.splits sum.splits if_splits)
  then have "complete_request a i result =
      (a\<lparr>ss_incoming := AList.delete i (ss_incoming a)\<rparr>, Ok [Send (MSuccess \<lparr>sr_id = i, sr_result = result\<rparr>)])"
    by (simp add: complete_request_def validate_result_def)
  then show ?thesis
    using m assms keys_delete [OF assms(1), of i] by (simp add: step_ok_def terms_def out_ids_def in_ids_def)
qed

lemma fail_request_step:
  assumes "distinct (map fst (ss_incoming a))" "ss_state a \<in> {Initialized, Closed}"
  shows "step_ok E b [] a (fst (fail_request a i error)) (snd (on_ok (fail_request a i error)))"
  using assms keys_delete [OF assms(1), of i]
  by (auto simp: fail_request_def step_ok_def terms_def out_ids_def in_ids_def)

lemma on_tick_step:
  assumes "matches a b" "ss_state a \<in> {Initialized, Closed}"
  shows "step_ok E b [] a (fst (on_tick E a i)) (snd (on_tick E a i))"
proof (cases "ss_state a \<noteq> Initialized \<or> ss_shutdown_direction a \<noteq> LocalSupervisesRemote \<or> ss_activity_since_tick a")
  case True
  then show ?thesis
    using assms(2) by (auto simp: on_tick_def step_ok_def terms_def out_ids_def in_ids_def)
next
  case False
  let ?a = "a\<lparr>ss_missed_intervals := min 255 (ss_missed_intervals a + 1)\<rparr>"
  show ?thesis
  proof (cases "3 \<le> ss_missed_intervals ?a")
    case True
    with False show ?thesis by (simp add: on_tick_def Let_def step_ok_def terms_def out_ids_def in_ids_def)
  next
    case more: False
    have "fst (on_tick E a i) = fst (send_request E ?a i ''ping'' [])
        \<and> sent (snd (on_tick E a i)) = sent (snd (on_ok (send_request E ?a i ''ping'' [])))"
      using False more by (auto simp: on_tick_def Let_def on_ok_def split: prod.split sum.split)
    moreover have "step_ok E b [] ?a (fst (send_request E ?a i ''ping'' [])) (snd (on_ok (send_request E ?a i ''ping'' [])))"
      using assms matches_terms [of ?a a b b] by (intro send_request_step) (simp_all add: terms_def)
    ultimately show ?thesis by (simp add: step_ok_def terms_def out_ids_def in_ids_def)
  qed
qed

lemma local_call_step:
  assumes m: "matches a b" and st: "ss_state a \<in> {Initialized, Closed}" and inv: "session_inv a" and c: "local c"
  shows "step_ok E b [] a (fst (call E S a c)) (snd (call E S a c))"
proof -
  have dist: "distinct (map fst (ss_incoming a))" using inv by (simp add: session_inv_def pending_ok_def)
  have "initialize S a i = (a, Err (ipc_error_new INVALID_REQUEST ''the session cannot initialize in its current state''))" for i
    using st by (auto simp: initialize_def)
  then show ?thesis
    using c send_request_step [OF m st] send_notification_step [OF m st] complete_request_step [OF dist st]
      fail_request_step [OF dist st] on_tick_step [OF m st]
    by (cases c) (simp_all add: step_ok_idle [OF st])
qed

text \<open>A message that arrives in order: it is accepted, and its id moves from the channel to the
  receiver, or leaves the receiver's pending requests.\<close>

definition arrives :: "env \<Rightarrow> session \<Rightarrow> message \<Rightarrow> bool" where
  "arrives E b m \<longleftrightarrow>
     message_ok E b m \<and> ss_state b = Initialized \<and> session_inv b
     \<and> request_id_of m \<inter># in_ids b = {#} \<and> size (request_id_of m + in_ids b) \<le> ss_max_in_flight b
     \<and> response_id_of m \<subseteq># out_ids b"

definition woken :: "session \<Rightarrow> session" where
  "woken s = s\<lparr>ss_activity_since_tick := True, ss_missed_intervals := 0\<rparr>"

lemma woken_simps [simp]:
  "ss_side (woken s) = ss_side s" "ss_state (woken s) = ss_state s" "ss_peer_params (woken s) = ss_peer_params s"
  "ss_shutdown_direction (woken s) = ss_shutdown_direction s" "ss_incoming (woken s) = ss_incoming s"
  "ss_outgoing (woken s) = ss_outgoing s" "ss_max_in_flight (woken s) = ss_max_in_flight s"
  "terms (woken s) = terms s" "has_peer_role (woken s) = has_peer_role s"
  by (simp_all add: woken_def terms_def fun_eq_iff has_peer_role_def)

lemma receive_woken: "ss_state s = Initialized \<Longrightarrow> receive E S s m =
    (case m of MRequest r \<Rightarrow> receive_request E S (woken s) r | MNotification n \<Rightarrow> receive_notification E (woken s) n
     | MSuccess r \<Rightarrow> receive_success S (woken s) r | MError r \<Rightarrow> receive_error (woken s) r)"
  by (cases m) (simp_all add: receive_def woken_def Let_def)

lemma request_arrives:
  assumes ar: "arrives E b (MRequest r)"
  shows "accepted b (MRequest r) (snd (receive E S b (MRequest r)))
    \<and> step_ok E a [MRequest r] b (fst (receive E S b (MRequest r))) (snd (receive E S b (MRequest r)))"
proof -
  have st: "ss_state b = Initialized" and ok: "request_ok E b r" and free: "rq_id r \<notin># in_ids b"
    and slot: "Suc (size (in_ids b)) \<le> ss_max_in_flight b"
    using ar by (auto simp: arrives_def)
  have free': "map_of (ss_incoming b) (rq_id r) = None"
    using free by (simp add: in_ids_def map_of_eq_None_iff)
  have rec: "receive E S b (MRequest r) = receive_request E S (woken b) r" using st by (simp add: receive_woken)
  show ?thesis
  proof (cases "rq_method r = ''ping'' \<or> rq_method r = ''shutdown''")
    case True
    then show ?thesis
      unfolding rec using ok st free'
      by (elim disjE)
        (auto simp: receive_request_def receive_shutdown_def request_ok_def is_ok_iff step_ok_def terms_def
          out_ids_def in_ids_def)
  next
    case False
    have takes: "takes_request E (woken b) r"
      using ok st free' slot False terms_incoming [of "woken b" b E]
      by (simp add: takes_request_def request_ok_def in_ids_def split: if_splits)
    then have "rq_method r \<noteq> ''initialize''" by (simp add: takes_request_def)
    with takes show ?thesis
      unfolding rec using False st free'
      by (simp add: receive_request_taken step_ok_def terms_def out_ids_def in_ids_def keys_update)
  qed
qed

lemma notification_arrives:
  assumes ar: "arrives E b (MNotification n)"
  shows "accepted b (MNotification n) (snd (receive E S b (MNotification n)))
    \<and> step_ok E a [MNotification n] b (fst (receive E S b (MNotification n))) (snd (receive E S b (MNotification n)))"
  using ar
  by (auto simp: arrives_def receive_woken receive_notification_def is_ok_iff step_ok_def out_ids_def in_ids_def)

lemma pending_method:
  assumes "session_inv b" "ss_state b = Initialized" "i \<in># out_ids b"
  obtains m where "map_of (ss_outgoing b) i = Some m" "m \<noteq> ''initialize''"
proof -
  have "i \<in> fst ` set (ss_outgoing b)" using assms(3) by (simp add: out_ids_def)
  then obtain m where m: "map_of (ss_outgoing b) i = Some m" by (metis map_of_eq_None_iff not_None_eq)
  then have "m \<in> snd ` set (ss_outgoing b)" using map_of_SomeD by force
  moreover have "''initialize'' \<notin> snd ` set (ss_outgoing b)" using assms(1,2) by (simp add: session_inv_def phase_ok_def)
  ultimately have "m \<noteq> ''initialize''" by metis
  with m show ?thesis by (rule that)
qed

lemma success_arrives:
  assumes ar: "arrives E b (MSuccess r)"
  shows "accepted b (MSuccess r) (snd (receive E S b (MSuccess r)))
    \<and> step_ok E a [MSuccess r] b (fst (receive E S b (MSuccess r))) (snd (receive E S b (MSuccess r)))"
proof -
  have st: "ss_state b = Initialized" and inv: "session_inv b" and res: "is_object (sr_result r)"
    and out: "sr_id r \<in># out_ids b"
    using ar by (auto simp: arrives_def)
  obtain m where m: "map_of (ss_outgoing b) (sr_id r) = Some m" "m \<noteq> ''initialize''"
    using inv st out by (rule pending_method)
  have "distinct (map fst (ss_outgoing b))" using inv by (simp add: session_inv_def pending_ok_def)
  from keys_delete [OF this, of "sr_id r"] m st res show ?thesis
    by (simp add: receive_woken receive_success_def validate_result_def step_ok_def terms_def out_ids_def in_ids_def)
qed

lemma error_arrives:
  assumes ar: "arrives E b (MError r)"
  shows "accepted b (MError r) (snd (receive E S b (MError r)))
    \<and> step_ok E a [MError r] b (fst (receive E S b (MError r))) (snd (receive E S b (MError r)))"
proof -
  obtain i where i: "er_id r = Some i" and st: "ss_state b = Initialized" and inv: "session_inv b"
    and out: "i \<in># out_ids b"
    using ar by (auto simp: arrives_def)
  obtain m where m: "map_of (ss_outgoing b) i = Some m" "m \<noteq> ''initialize''"
    using inv st out by (rule pending_method)
  have "distinct (map fst (ss_outgoing b))" using inv by (simp add: session_inv_def pending_ok_def)
  from keys_delete [OF this, of i] m st i show ?thesis
    by (simp add: receive_woken receive_error_def step_ok_def terms_def out_ids_def in_ids_def)
qed

lemma message_arrives:
  assumes "arrives E b m"
  shows "accepted b m (snd (receive E S b m))" "step_ok E a [m] b (fst (receive E S b m)) (snd (receive E S b m))"
  using assms request_arrives notification_arrives success_arrives error_arrives by (cases m; blast)+

subsection \<open>The invariant of a link\<close>

text \<open>\<open>flow E a b ab ba\<close>: of the requests that \<open>a\<close> has pending, those on their way to \<open>b\<close>, those \<open>b\<close>
  works on, and those whose responses are on their way back are different ones; and \<open>b\<close> accepts the
  messages on their way to it.\<close>

definition flow :: "env \<Rightarrow> session \<Rightarrow> session \<Rightarrow> message list \<Rightarrow> message list \<Rightarrow> bool" where
  "flow E a b ab ba \<longleftrightarrow>
     request_ids ab + in_ids b + response_ids ba \<subseteq># out_ids a \<and> list_all (message_ok E b) ab"

definition joined :: "env \<Rightarrow> session \<Rightarrow> session \<Rightarrow> message list \<Rightarrow> message list \<Rightarrow> bool" where
  "joined E a b ab ba \<longleftrightarrow>
     matches a b \<and> ss_state a \<in> {Initialized, Closed} \<and> ss_state b \<in> {Initialized, Closed}
     \<and> session_inv a \<and> session_inv b \<and> ss_max_in_flight a = ss_max_in_flight b
     \<and> flow E a b ab ba \<and> flow E b a ba ab"

lemma matches_sym: "matches a b \<longleftrightarrow> matches b a"
  unfolding matches_def supervision_agrees_def by metis

lemma joined_sym: "joined E a b ab ba \<longleftrightarrow> joined E b a ba ab"
  using matches_sym by (auto simp: joined_def)

lemma joined_step:
  assumes j: "joined E a b (got @ ab) ba" and s: "step_ok E a got b b' acts" and inv: "session_inv b'"
  shows "joined E a b' ab (ba @ sent acts)"
proof -
  have t: "terms b' = terms b" "ss_max_in_flight b' = ss_max_in_flight b" "ss_state b' \<in> {Initialized, Closed}"
    and out: "out_ids b' + response_ids got = out_ids b + request_ids (sent acts)"
    and inn: "in_ids b' + response_ids (sent acts) = in_ids b + request_ids got"
    and ok: "list_all (message_ok E a) (sent acts)"
    using s by (simp_all add: step_ok_def)
  have f: "request_ids got + request_ids ab + in_ids b + response_ids ba \<subseteq># out_ids a"
    and g: "request_ids ba + in_ids a + (response_ids got + response_ids ab) \<subseteq># out_ids b"
    and oks: "list_all (message_ok E b) ab" "list_all (message_ok E a) ba"
    using j by (simp_all add: joined_def flow_def)
  have eq: "request_ids ab + in_ids b' + response_ids (ba @ sent acts) = request_ids got + request_ids ab + in_ids b + response_ids ba"
    using inn by (simp add: ac_simps)
  have "request_ids ab + in_ids b' + response_ids (ba @ sent acts) \<subseteq># out_ids a" using f by (simp only: eq)
  moreover have "request_ids (ba @ sent acts) + in_ids a + response_ids ab \<subseteq># out_ids b'"
  proof -
    have "(request_ids (ba @ sent acts) + in_ids a + response_ids ab) + response_ids got
        = request_ids (sent acts) + (request_ids ba + in_ids a + (response_ids got + response_ids ab))"
      by (simp add: ac_simps)
    also have "\<dots> \<subseteq># request_ids (sent acts) + out_ids b" using g by simp
    also have "\<dots> = out_ids b' + response_ids got" using out by (simp add: ac_simps)
    finally show ?thesis by simp
  qed
  moreover have "list_all (message_ok E b') ab" using oks(1) message_ok_terms [OF t(1), of E] by simp
  ultimately show ?thesis
    using j t inv oks(2) ok matches_terms [OF refl t(1), of a] by (simp add: joined_def flow_def)
qed

lemma joined_arrives:
  assumes j: "joined E a b (m # ab) ba" and st: "ss_state b \<noteq> Closed"
  shows "arrives E b m"
proof -
  have f: "request_id_of m + request_ids ab + in_ids b + response_ids ba \<subseteq># out_ids a"
    and g: "request_ids ba + in_ids a + (response_id_of m + response_ids ab) \<subseteq># out_ids b"
    and ok: "message_ok E b m" "session_inv b" "session_inv a" "ss_max_in_flight a = ss_max_in_flight b"
    "ss_state b = Initialized"
    using j st by (simp_all add: joined_def flow_def)
  have sub: "request_id_of m + in_ids b \<subseteq># out_ids a"
    using f by (metis (no_types, lifting) add.assoc add.commute mset_subset_eq_add_right subset_mset.trans)
  have "size (out_ids a) \<le> ss_max_in_flight a" and dist: "distinct (map fst (ss_outgoing a))"
    using ok(3) by (simp_all add: session_inv_def pending_ok_def out_ids_def)
  then have size: "size (request_id_of m + in_ids b) \<le> ss_max_in_flight b"
    using size_mset_mono [OF sub] ok(4) by simp
  have "count (out_ids a) i \<le> 1" for i using dist by (simp add: out_ids_def distinct_count_atmost_1)
  then have once: "count (request_id_of m) i + count (in_ids b) i \<le> 1" for i
    using mset_subset_eq_count [OF sub, of i] by (metis count_union le_trans)
  have "request_id_of m \<inter># in_ids b = {#}"
  proof (rule multiset_eqI)
    fix i show "count (request_id_of m \<inter># in_ids b) i = count {#} i" using once [of i] by simp
  qed
  moreover have "response_id_of m \<subseteq># out_ids b"
    using g by (metis (no_types, lifting) add.assoc add.commute mset_subset_eq_add_right subset_mset.trans)
  ultimately show ?thesis using ok size by (simp add: arrives_def)
qed

lemma call_inv: "session_inv s \<Longrightarrow> session_inv (fst (call E S s c))"
  by (cases c) (simp_all add: initialize_inv send_request_inv receive_inv complete_request_inv fail_request_inv on_tick_inv)

lemma joined_call:
  assumes j: "joined E a b ab ba" and c: "local c"
  shows "joined E a (fst (call E S b c)) ab (ba @ sent (snd (call E S b c)))"
proof -
  have m: "matches b a" "ss_state b \<in> {Initialized, Closed}" "session_inv b"
    using j matches_sym by (auto simp: joined_def)
  show ?thesis
    using j by (intro joined_step [OF _ local_call_step [OF m c] call_inv [OF m(3)]]) simp
qed

lemma joined_receive:
  assumes j: "joined E a b (m # ab) ba"
  shows "joined E a (fst (receive E S b m)) ab (ba @ sent (snd (receive E S b m)))"
proof (cases "ss_state b = Closed")
  case True
  then have "receive E S b m = (b, [])" by (simp add: receive_def)
  moreover have "request_ids ab + in_ids b + response_ids ba \<subseteq># out_ids a"
    using j unfolding joined_def flow_def ids_simps
    by (metis (no_types, lifting) add.assoc mset_subset_eq_add_right subset_mset.trans)
  moreover have "request_ids ba + in_ids a + response_ids ab \<subseteq># out_ids b"
    using j unfolding joined_def flow_def ids_simps
    by (metis (no_types, lifting) add.assoc add.commute mset_subset_eq_add_right subset_mset.trans)
  ultimately show ?thesis using j by (simp add: joined_def flow_def)
next
  case False
  have inv: "session_inv b" using j by (simp add: joined_def)
  show ?thesis
    using j by (intro joined_step [OF _ message_arrives(2) [OF joined_arrives [OF j False]] receive_inv [OF inv]]) simp
qed

text \<open>The head of a channel is dropped by a closed receiver and accepted by any other.\<close>

definition accepts_next :: "env \<Rightarrow> ipc_serde \<Rightarrow> session \<Rightarrow> message list \<Rightarrow> bool" where
  "accepts_next E S s ms =
     (case ms of
        [] \<Rightarrow> True
      | m # _ \<Rightarrow> ss_state s = Closed \<or> accepted s m (snd (receive E S s m)))"

lemma joined_accepts:
  assumes "joined E a b ab ba"
  shows "accepts_next E S b ab"
proof (cases ab)
  case (Cons m rest)
  have "ss_state b \<noteq> Closed \<Longrightarrow> accepted b m (snd (receive E S b m))"
    using message_arrives(1) [OF joined_arrives [of E a b m rest ba]] assms Cons by simp
  then show ?thesis using Cons by (auto simp: accepts_next_def)
qed (simp add: accepts_next_def)

subsection \<open>From the first message on\<close>

definition asking :: "initialize_params \<Rightarrow> shutdown_direction \<Rightarrow> request_id \<Rightarrow> session" where
  "asking p d i =
     (session_peer p d)\<lparr>ss_outgoing := [(i, ''initialize'')], ss_state := PeerAwaitingInitialization\<rparr>"

definition greeting :: "ipc_serde \<Rightarrow> initialize_params \<Rightarrow> request_id \<Rightarrow> message" where
  "greeting S p i = MRequest \<lparr>rq_id = i, rq_method = ''initialize'', rq_params = params_to_map S p\<rparr>"

definition acceptance :: "ipc_serde \<Rightarrow> runtime_config \<Rightarrow> initialize_params \<Rightarrow> request_id \<Rightarrow> message" where
  "acceptance S config p i = MSuccess \<lparr>sr_id = i, sr_result = result_to_value S (negotiated config p)\<rparr>"

definition runtime_open :: "runtime_config \<Rightarrow> shutdown_direction \<Rightarrow> initialize_params \<Rightarrow> session" where
  "runtime_open config d p =
     (session_runtime config d)\<lparr>ss_peer_params := Some p, ss_initialize_result := Some (negotiated config p),
        ss_max_in_flight := ir_max_in_flight (negotiated config p), ss_state := Initialized\<rparr>"

definition peer_open :: "runtime_config \<Rightarrow> shutdown_direction \<Rightarrow> initialize_params \<Rightarrow> session" where
  "peer_open config d p =
     (session_peer p d)\<lparr>ss_initialize_result := Some (negotiated config p),
        ss_max_in_flight := ir_max_in_flight (negotiated config p), ss_state := Initialized\<rparr>"

text \<open>The runtime may already send after its response while the peer still waits for it.\<close>

definition welcomed :: "env \<Rightarrow> runtime_config \<Rightarrow> initialize_params \<Rightarrow> session \<Rightarrow> session \<Rightarrow> message list \<Rightarrow> bool" where
  "welcomed E config p a b rest \<longleftrightarrow>
     matches a b \<and> ss_state b \<in> {Initialized, Closed} \<and> session_inv b
     \<and> ss_max_in_flight b = ir_max_in_flight (negotiated config p)
     \<and> in_ids b = {#} \<and> response_ids rest = {#} \<and> request_ids rest \<subseteq># out_ids b
     \<and> list_all (message_ok E a) rest"

inductive link_inv ::
  "env \<Rightarrow> ipc_serde \<Rightarrow> initialize_params \<Rightarrow> shutdown_direction \<Rightarrow> runtime_config \<Rightarrow> shutdown_direction \<Rightarrow> link \<Rightarrow> bool"
  for E S p d config d' where
  fresh: "link_inv E S p d config d' (link_new p d config d')"
| asked: "link_inv E S p d config d'
    \<lparr>lk_peer = asking p d i, lk_runtime = session_runtime config d', lk_to_runtime = [greeting S p i], lk_to_peer = []\<rparr>"
| answered: "welcomed E config p (asking p d i) b rest \<Longrightarrow> link_inv E S p d config d'
    \<lparr>lk_peer = asking p d i, lk_runtime = b, lk_to_runtime = [], lk_to_peer = acceptance S config p i # rest\<rparr>"
| talking: "joined E (lk_peer l) (lk_runtime l) (lk_to_runtime l) (lk_to_peer l) \<Longrightarrow> link_inv E S p d config d' l"

lemma idle_calls:
  assumes "local c"
  shows "call E S (asking p d i) c = (asking p d i, [])" "call E S (session_runtime config d) c = (session_runtime config d, [])"
  using assms
  by (cases c; simp add: asking_def session_peer_def session_runtime_def initialize_def send_request_def send_notification_def
      complete_request_def fail_request_def on_tick_def)+

lemma first_calls:
  assumes "local c"
  shows "call E S (session_peer p d) c = (session_peer p d, [])
    \<or> (\<exists>i. call E S (session_peer p d) c = (asking p d i, [Send (greeting S p i)]))"
  using assms
  by (cases c)
    (auto simp: asking_def greeting_def session_peer_def initialize_def send_request_def send_notification_def
      complete_request_def fail_request_def on_tick_def split: sum.split)

lemma greeting_received:
  assumes "profile_ok p" "PROTOCOL_VERSION \<in> set (ip_protocol_versions p)"
    and "set (ip_roles p) \<subseteq> set (rc_supported_roles config)" "params_from_map S (params_to_map S p) = Ok p"
  shows "receive E S (session_runtime config d) (greeting S p i) = (runtime_open config d p, [Send (acceptance S config p i)])"
proof -
  have "parse_initialize_params S (params_to_map S p) = Ok p" using assms by (simp add: parse_initialize_params_Ok)
  moreover have "find (\<lambda>role. role \<notin> set (rc_supported_roles config)) (ip_roles p) = None"
    using assms(3) by (auto simp: find_None_iff)
  ultimately show ?thesis
    using assms(2)
    by (simp add: greeting_def acceptance_def runtime_open_def receive_def receive_request_def receive_initialize_def
        session_runtime_def Let_def negotiated_def)
qed

lemma acceptance_received:
  assumes "profile_ok p" "config_ok config"
    and "result_from_value S (result_to_value S (negotiated config p)) = Ok (negotiated config p)"
  shows "receive E S (asking p d i) (acceptance S config p i) =
    (peer_open config d p, [RequestResolved \<lparr>rr_id = i, rr_method = ''initialize'',
       rr_outcome = Ok (result_to_value S (negotiated config p))\<rparr>])"
  using assms(3) negotiated_valid [OF assms(1,2)]
  by (simp add: asking_def acceptance_def peer_open_def receive_def receive_success_def receive_initialize_success_def
      session_peer_def Let_def initialize_result_from_value_def)

text \<open>What the environment of a link provides: a valid profile and configuration that fit each other, and
  an encoding of both that the other side reads back.\<close>

definition compatible ::
  "ipc_serde \<Rightarrow> initialize_params \<Rightarrow> shutdown_direction \<Rightarrow> runtime_config \<Rightarrow> shutdown_direction \<Rightarrow> bool" where
  "compatible S p d config d' \<longleftrightarrow>
     profile_ok p \<and> PROTOCOL_VERSION \<in> set (ip_protocol_versions p)
     \<and> set (ip_roles p) \<subseteq> set (rc_supported_roles config) \<and> config_ok config \<and> supervision_agrees d d'
     \<and> params_from_map S (params_to_map S p) = Ok p
     \<and> result_from_value S (result_to_value S (negotiated config p)) = Ok (negotiated config p)"

lemma runtime_open_inv:
  assumes "profile_ok p"
  shows "session_inv (runtime_open config d p)"
  using assms
  by (simp add: runtime_open_def session_runtime_def session_inv_def pending_ok_def phase_ok_def negotiated_def)

lemma peer_open_inv:
  assumes "profile_ok p"
  shows "session_inv (peer_open config d p)"
  using assms
  by (simp add: peer_open_def session_peer_def session_inv_def pending_ok_def phase_ok_def negotiated_def)

lemma welcomed_start:
  assumes "profile_ok p" "supervision_agrees d d'"
  shows "welcomed E config p (asking p d i) (runtime_open config d' p) []"
  using assms runtime_open_inv [OF assms(1), of config d']
  by (simp add: welcomed_def matches_def asking_def session_peer_def runtime_open_def session_runtime_def in_ids_def)

lemma welcomed_call:
  assumes w: "welcomed E config p a b rest" and c: "local c"
  shows "welcomed E config p a (fst (call E S b c)) (rest @ sent (snd (call E S b c)))"
proof -
  have m: "matches b a" "ss_state b \<in> {Initialized, Closed}" "session_inv b"
    using w matches_sym by (auto simp: welcomed_def)
  have "step_ok E a [] b (fst (call E S b c)) (snd (call E S b c))" by (rule local_call_step [OF m c])
  then show ?thesis
    using w call_inv [OF m(3), of E S c] matches_terms [OF refl, of "fst (call E S b c)" b a]
    by (simp add: step_ok_def welcomed_def)
qed

lemma welcomed_joined:
  assumes w: "welcomed E config p (asking p d i) b rest" and p: "profile_ok p"
  shows "joined E b (peer_open config d p) rest []"
proof -
  have t: "terms (peer_open config d p) = terms (asking p d i)"
    by (simp add: terms_def peer_open_def asking_def session_peer_def)
  have "in_ids (peer_open config d p) = {#}" "out_ids (peer_open config d p) = {#}"
    "ss_state (peer_open config d p) = Initialized"
    "ss_max_in_flight (peer_open config d p) = ir_max_in_flight (negotiated config p)"
    by (simp_all add: peer_open_def session_peer_def in_ids_def out_ids_def)
  moreover have "matches b (peer_open config d p)"
    using w matches_sym matches_terms [OF refl t, of b] by (auto simp: welcomed_def)
  ultimately show ?thesis
    using w peer_open_inv [OF p, of config d] message_ok_terms [OF t, of E]
    by (simp add: joined_def flow_def welcomed_def)
qed

lemma link_inv_step:
  assumes ok: "compatible S p d config d'"
  shows "link_inv E S p d config d' l \<Longrightarrow> link_step E S l l' \<Longrightarrow> link_inv E S p d config d' l'"
proof (induction rule: link_inv.induct)
  case fresh
  then show ?case
  proof (cases rule: link_step.cases)
    case (peer_calls c s acts)
    then show ?thesis
      using first_calls [OF peer_calls(2), of E S p d] link_inv.fresh [of E S p d config d'] link_inv.asked [of E S p d config d']
      by (auto simp: link_new_def)
  next
    case (runtime_calls c s acts)
    then show ?thesis
      using idle_calls(2) [OF runtime_calls(2), of E S config d'] link_inv.fresh [of E S p d config d']
      by (simp add: link_new_def)
  qed (simp_all add: link_new_def)
next
  case (asked i)
  then show ?case
  proof (cases rule: link_step.cases)
    case (peer_calls c s acts)
    then show ?thesis
      using idle_calls(1) [OF peer_calls(2), of E S p d i] link_inv.asked [of E S p d config d' i] by simp
  next
    case (runtime_calls c s acts)
    then show ?thesis
      using idle_calls(2) [OF runtime_calls(2), of E S config d'] link_inv.asked [of E S p d config d' i] by simp
  next
    case (runtime_receives m ms s acts)
    have "s = runtime_open config d' p" "acts = [Send (acceptance S config p i)]" "ms = []"
      using runtime_receives ok greeting_received [of p config S E d' i] by (auto simp: compatible_def)
    then show ?thesis
      using runtime_receives(1) link_inv.answered [OF welcomed_start [of p d d' E config i], of S] ok
      by (simp add: compatible_def)
  qed simp
next
  case (answered i b rest)
  from answered(2) show ?case
  proof (cases rule: link_step.cases)
    case (peer_calls c s acts)
    then show ?thesis
      using idle_calls(1) [OF peer_calls(2), of E S p d i] link_inv.answered [OF answered(1), of S d'] by simp
  next
    case (runtime_calls c s acts)
    then show ?thesis
      using link_inv.answered [OF welcomed_call [OF answered(1) runtime_calls(2), of S], of S d'] by simp
  next
    case (peer_receives m ms s acts)
    have "s = peer_open config d p" "sent acts = []" "ms = rest"
      using peer_receives ok acceptance_received [of p config S E d i] by (auto simp: compatible_def)
    then show ?thesis
      using peer_receives(1) welcomed_joined [OF answered(1)] ok joined_sym
      by (intro talking) (auto simp: compatible_def)
  qed simp
next
  case (talking l)
  from talking(2) show ?case
  proof (cases rule: link_step.cases)
    case (peer_calls c s acts)
    then show ?thesis
      using joined_call [of E "lk_runtime l" "lk_peer l" "lk_to_peer l" "lk_to_runtime l" c S] talking(1) joined_sym
      by (intro link_inv.talking) (auto simp: joined_sym)
  next
    case (runtime_calls c s acts)
    then show ?thesis
      using joined_call [OF talking(1) runtime_calls(2), of S] by (intro link_inv.talking) simp
  next
    case (runtime_receives m ms s acts)
    then show ?thesis
      using joined_receive [of E "lk_peer l" "lk_runtime l" m ms "lk_to_peer l" S] talking(1)
      by (intro link_inv.talking) simp
  next
    case (peer_receives m ms s acts)
    then show ?thesis
      using joined_receive [of E "lk_runtime l" "lk_peer l" m ms "lk_to_runtime l" S] talking(1) joined_sym
      by (intro link_inv.talking) (auto simp: joined_sym)
  qed
qed

lemma link_reachable_inv:
  "link_reachable E S (link_new p d config d') l \<Longrightarrow> compatible S p d config d' \<Longrightarrow> link_inv E S p d config d' l"
  by (induction rule: link_reachable.induct) (auto intro: fresh link_inv_step)

lemma link_inv_accepts:
  assumes "link_inv E S p d config d' l" and ok: "compatible S p d config d'"
  shows "accepts_next E S (lk_runtime l) (lk_to_runtime l)" "accepts_next E S (lk_peer l) (lk_to_peer l)"
proof -
  have g: "accepts_next E S (session_runtime config d') [greeting S p i]" for i
    using ok greeting_received [of p config S E d' i]
    by (simp add: compatible_def accepts_next_def) (simp add: greeting_def acceptance_def)
  have a: "accepts_next E S (asking p d i) (acceptance S config p i # rest)" for i rest
    using ok acceptance_received [of p config S E d i]
    by (simp add: compatible_def accepts_next_def) (simp add: asking_def acceptance_def)
  from assms(1) have "accepts_next E S (lk_runtime l) (lk_to_runtime l) \<and> accepts_next E S (lk_peer l) (lk_to_peer l)"
  proof (cases rule: link_inv.cases)
    case talking
    then show ?thesis using joined_accepts joined_sym by blast
  qed (simp_all add: g a link_new_def, simp_all add: accepts_next_def)
  then show "accepts_next E S (lk_runtime l) (lk_to_runtime l)" "accepts_next E S (lk_peer l) (lk_to_peer l)" by simp_all
qed

section \<open>Properties\<close>

text \<open>C32: a request is answered once.  However calls and messages are interleaved on a fresh session, the
  application has been handed the requests under an id exactly as often as it has answered under that
  id, by completing or failing, plus one while a request with that id is waiting for its answer.\<close>

theorem requests_answered_once:
  assumes "s0 = session_peer p d \<or> s0 = session_runtime config d" "run_calls E S s0 calls = (s, trail)"
  shows "requests_handed_over i trail = answers_given i trail + (if map_of (ss_incoming s) i = None then 0 else 1)"
proof -
  have "open_requests s0 i = 0" using assms(1) by (auto simp: open_requests_def session_peer_def session_runtime_def)
  with run_balance [of i E S s0 calls] assms(2) show ?thesis by (simp add: open_requests_def)
qed

definition sample_request :: request where
  "sample_request = \<lparr>rq_id = Unsigned 7, rq_method = ''session.list'', rq_params = []\<rparr>"

lemma sample_compatible: "compatible sample_ipc sample_params Disabled sample_config Disabled"
  using sample_profile_ok
  by (simp add: compatible_def config_ok_def supervision_agrees_def sample_ipc_def sample_serde_def sample_config_def
      runtime_config_new_def sample_params_def sample_result_def negotiated_def PROTOCOL_VERSION_def)

lemma sample_greeting_received:
  "receive sample_env sample_ipc (session_runtime sample_config Disabled) (greeting sample_ipc sample_params i)
   = (runtime_open sample_config Disabled sample_params, [Send (acceptance sample_ipc sample_config sample_params i)])"
  using sample_compatible by (intro greeting_received) (simp_all add: compatible_def)

lemma sample_request_received:
  "\<exists>s. receive sample_env sample_ipc (runtime_open sample_config Disabled sample_params) (MRequest sample_request)
     = (s, [HandleRequest sample_request]) \<and> ss_incoming s = [(Unsigned 7, ''session.list'')]"
  by (simp add: receive_def receive_request_def runtime_open_def session_runtime_def negotiated_def sample_request_def
      sample_config_def runtime_config_new_def sample_params_def validate_incoming_request_def
      validate_runtime_incoming_def has_peer_role_def is_client_method_def validate_fixed_request_def
      validate_empty_def validate_keys_def Let_def)

theorem requests_answered_once_witness:
  "\<exists>s trail. run_calls sample_env sample_ipc (session_runtime sample_config Disabled)
       [Receive (greeting sample_ipc sample_params (Unsigned 1)), Receive (MRequest sample_request),
        FailRequest (Unsigned 7) (error_object_from (ipc_error_new 0 [])), CompleteRequest (Unsigned 7) (JObject [])]
     = (s, trail)
   \<and> ss_incoming s = [] \<and> requests_handed_over (Unsigned 7) trail = 1 \<and> answers_given (Unsigned 7) trail = 1"
proof -
  obtain s1 where s1: "receive sample_env sample_ipc (runtime_open sample_config Disabled sample_params) (MRequest sample_request)
     = (s1, [HandleRequest sample_request])" "ss_incoming s1 = [(Unsigned 7, ''session.list'')]"
    using sample_request_received by blast
  let ?calls = "[Receive (greeting sample_ipc sample_params (Unsigned 1)), Receive (MRequest sample_request),
        FailRequest (Unsigned 7) (error_object_from (ipc_error_new 0 [])), CompleteRequest (Unsigned 7) (JObject [])]"
  obtain s trail where r: "run_calls sample_env sample_ipc (session_runtime sample_config Disabled) ?calls = (s, trail)"
    by fastforce
  have "ss_incoming s = [] \<and> requests_handed_over (Unsigned 7) trail = 1"
    using r s1
    by (auto simp: sample_greeting_received fail_request_def complete_request_def acceptance_def sample_request_def)
  moreover from requests_answered_once [OF disjI2 [OF refl] r, of "Unsigned 7"] this
  have "answers_given (Unsigned 7) trail = 1" by simp
  ultimately show ?thesis using r by blast
qed

text \<open>C30: two sides of the protocol accept each other.  Connect a peer and a runtime whose profile and
  configuration fit by two ordered channels, and let the owners of both call their sessions as they
  like, also in between.  The next message on either channel is then never a protocol violation for its
  receiver: a request is answered or handed over, a response resolves a pending request, a
  notification is handed over.  Only a session that has closed drops it.\<close>

theorem linked_sides_accept:
  assumes "compatible S p d config d'" "link_reachable E S (link_new p d config d') l"
  shows "accepts_next E S (lk_runtime l) (lk_to_runtime l) \<and> accepts_next E S (lk_peer l) (lk_to_peer l)"
  using link_inv_accepts [OF link_reachable_inv [OF assms(2,1)] assms(1)] by simp

theorem linked_sides_accept_witness:
  "\<exists>l. link_reachable sample_env sample_ipc (link_new sample_params Disabled sample_config Disabled) l
     \<and> lk_to_runtime l = [MRequest sample_request] \<and> ss_state (lk_runtime l) = Initialized
     \<and> snd (receive sample_env sample_ipc (lk_runtime l) (MRequest sample_request)) = [HandleRequest sample_request]"
proof -
  let ?E = sample_env and ?S = sample_ipc and ?p = sample_params and ?c = sample_config
  let ?l0 = "link_new ?p Disabled ?c Disabled"
  let ?l1 = "?l0\<lparr>lk_peer := asking ?p Disabled (Unsigned 1), lk_to_runtime := [greeting ?S ?p (Unsigned 1)]\<rparr>"
  let ?l2 = "?l1\<lparr>lk_runtime := runtime_open ?c Disabled ?p, lk_to_runtime := [],
    lk_to_peer := [acceptance ?S ?c ?p (Unsigned 1)]\<rparr>"
  let ?l3 = "?l2\<lparr>lk_peer := peer_open ?c Disabled ?p, lk_to_peer := []\<rparr>"
  have 1: "link_step ?E ?S ?l0 ?l1"
    using link_step.peer_calls [of "Initialize (Unsigned 1)" ?E ?S ?l0] sample_initialize
    by (simp add: link_new_def asking_def greeting_def)
  have 2: "link_step ?E ?S ?l1 ?l2"
    using link_step.runtime_receives [of ?l1 "greeting ?S ?p (Unsigned 1)" "[]" ?E ?S] sample_greeting_received
    by (simp add: link_new_def)
  have 3: "link_step ?E ?S ?l2 ?l3"
    using link_step.peer_receives [of ?l2 "acceptance ?S ?c ?p (Unsigned 1)" "[]" ?E ?S]
      acceptance_received [of ?p ?c ?S ?E Disabled "Unsigned 1"] sample_compatible
    by (simp add: link_new_def compatible_def)
  obtain s where s: "send_request ?E (peer_open ?c Disabled ?p) (Unsigned 7) ''session.list'' [] = (s, Ok [Send (MRequest sample_request)])"
    by (simp add: send_request_def peer_open_def session_peer_def sample_params_def sample_config_def runtime_config_new_def
        negotiated_def validate_outgoing_request_def validate_peer_outgoing_def has_peer_role_def is_client_method_def
        validate_fixed_request_def validate_empty_def validate_keys_def sample_request_def)
  let ?l4 = "?l3\<lparr>lk_peer := s, lk_to_runtime := [MRequest sample_request]\<rparr>"
  have 4: "link_step ?E ?S ?l3 ?l4"
    using link_step.peer_calls [of "SendRequest (Unsigned 7) ''session.list'' []" ?E ?S ?l3] s by (simp add: link_new_def)
  have l4: "link_reachable ?E ?S ?l0 ?l4"
    by (rule link_reachable.intros(2) [OF link_reachable.intros(2) [OF link_reachable.intros(2)
            [OF link_reachable.intros(2) [OF link_reachable.intros(1) 1] 2] 3] 4])
  have "accepts_next ?E ?S (lk_runtime ?l4) (lk_to_runtime ?l4)"
    using linked_sides_accept [OF sample_compatible l4] by blast
  moreover have st: "ss_state (lk_runtime ?l4) = Initialized" by (simp add: runtime_open_def)
  ultimately have "accepted (lk_runtime ?l4) (MRequest sample_request)
      (snd (receive ?E ?S (lk_runtime ?l4) (MRequest sample_request)))"
    by (simp add: accepts_next_def)
  then have "snd (receive ?E ?S (lk_runtime ?l4) (MRequest sample_request)) = [HandleRequest sample_request]"
    by (simp add: sample_request_def)
  with l4 st show ?thesis by (intro exI [of _ ?l4] conjI) simp_all
qed

end
