(* ===== verification/Event.thy ===== *)
theory Event
  imports Hashing
begin

text \<open>
  \<open>crates/zeta-journal/src/event.rs\<close>: drafts, durable events, append outcomes and query filters.
  \<open>trim\<close> is \<open>str::trim\<close>: it works on the characters of the UTF-8 text and drops those with the
  Unicode \<open>White_Space\<close> property.  Cursors are \<open>u64\<close> values, time stamps \<open>i64\<close> values.
\<close>

section \<open>White space\<close>

definition white_space :: "string list" where
  "white_space =
     map (\<lambda>n. [char_of n]) [0x09, 0x0A, 0x0B, 0x0C, 0x0D, 0x20 :: nat]
     @ [[CHR 0xC2, CHR 0x85], [CHR 0xC2, CHR 0xA0], [CHR 0xE1, CHR 0x9A, CHR 0x80]]
     @ map (\<lambda>n. [CHR 0xE2, CHR 0x80, char_of n])
         [0x80, 0x81, 0x82, 0x83, 0x84, 0x85, 0x86, 0x87, 0x88, 0x89, 0x8A, 0xA8, 0xA9, 0xAF :: nat]
     @ [[CHR 0xE2, CHR 0x81, CHR 0x9F], [CHR 0xE3, CHR 0x80, CHR 0x80]]"

definition is_whitespace :: "string \<Rightarrow> bool" where
  "is_whitespace c \<longleftrightarrow> c \<in> set white_space"

definition trim :: "string \<Rightarrow> string" where
  "trim s = concat (rev (dropWhile is_whitespace (rev (dropWhile is_whitespace (chars s)))))"

section \<open>Events\<close>

record draft_event =
  draft_event_type :: string
  draft_source :: string
  draft_payload :: json_map
  draft_idempotency_key :: "string option"
  draft_caused_by :: "string option"
  draft_session_id :: "string option"
  draft_run_id :: "string option"
  draft_turn_id :: "string option"

record event =
  ev_id :: string
  ev_event_type :: string
  ev_source :: string
  ev_payload :: json_map
  ev_idempotency_key :: "string option"
  ev_caused_by :: "string option"
  ev_session_id :: "string option"
  ev_run_id :: "string option"
  ev_turn_id :: "string option"
  ev_timestamp_ms :: int
  ev_cursor :: "nat option"

definition from_draft :: "string \<Rightarrow> int \<Rightarrow> draft_event \<Rightarrow> event" where
  "from_draft event_id timestamp_ms draft =
     \<lparr>ev_id = event_id,
      ev_event_type = draft_event_type draft,
      ev_source = draft_source draft,
      ev_payload = draft_payload draft,
      ev_idempotency_key =
        (case draft_idempotency_key draft of
           Some idempotency_key \<Rightarrow>
             (let idempotency_key = trim idempotency_key in
              if idempotency_key = [] then None else Some idempotency_key)
         | None \<Rightarrow> None),
      ev_caused_by = draft_caused_by draft,
      ev_session_id = draft_session_id draft,
      ev_run_id = draft_run_id draft,
      ev_turn_id = draft_turn_id draft,
      ev_timestamp_ms = timestamp_ms,
      ev_cursor = None\<rparr>"

record append_outcome =
  out_event :: event
  out_inserted :: bool

record event_filter =
  f_event_type :: "string option"
  f_event_type_prefix :: "string option"
  f_session_id :: "string option"
  f_run_id :: "string option"
  f_turn_id :: "string option"
  f_caused_by :: "string option"
  f_after_cursor :: "nat option"
  f_limit :: "nat option"
  f_newest_first :: bool

definition event_filter_default :: event_filter where
  "event_filter_default =
     \<lparr>f_event_type = None, f_event_type_prefix = None, f_session_id = None, f_run_id = None,
      f_turn_id = None, f_caused_by = None, f_after_cursor = None, f_limit = None,
      f_newest_first = False\<rparr>"

section \<open>Trimmed keys\<close>

lemma chars_concat_drop: "chars (concat (drop n (chars s))) = drop n (chars s)"
proof (induction s arbitrary: n rule: chars.induct)
  case (2 c s)
  then show ?case by (cases n) simp_all
qed simp

lemma chars_first:
  assumes "q = [] \<or> length p = utf8_width c" "length p \<le> utf8_width c" "p = c # p'"
  shows "chars (p @ q) = p # chars q"
proof -
  have "take (utf8_width c) (p @ q) = p \<and> drop (utf8_width c) (p @ q) = q"
    using assms(1,2) by auto
  then show ?thesis using assms(3) by (metis append_Cons chars.simps(2))
qed

lemma chars_concat_take: "chars (concat (take n (chars s))) = take n (chars s)"
proof (induction s arbitrary: n rule: chars.induct)
  case (2 c s)
  show ?case
  proof (cases n)
    case (Suc m)
    let ?w = "utf8_width c"
    let ?p = "take ?w (c # s)" and ?q = "concat (take m (chars (drop ?w (c # s))))"
    have "?q = [] \<or> length ?p = ?w" by (cases "length (c # s) \<le> ?w") auto
    moreover obtain p' where "?p = c # p'" by (cases ?w) auto
    moreover have "length ?p \<le> ?w" by (simp only: length_take min.cobounded2)
    ultimately have "chars (?p @ ?q) = ?p # chars ?q" by (metis chars_first)
    with 2 [of m] Suc show ?thesis by simp
  qed simp
qed simp

lemma trim_parts:
  obtains pre post mid where "chars s = pre @ mid @ post" "list_all is_whitespace pre"
    "list_all is_whitespace post" "chars (trim s) = mid"
    "mid \<noteq> [] \<Longrightarrow> \<not> is_whitespace (hd mid) \<and> \<not> is_whitespace (last mid)"
proof -
  define a where "a = dropWhile is_whitespace (chars s)"
  define m where "m = rev (dropWhile is_whitespace (rev a))"
  define pre where "pre = takeWhile is_whitespace (chars s)"
  define post where "post = rev (takeWhile is_whitespace (rev a))"
  have s: "chars s = pre @ a" by (simp add: pre_def a_def)
  have a: "a = m @ post"
    unfolding m_def post_def by (metis rev_append rev_rev_ident takeWhile_dropWhile_id)
  have pp: "list_all is_whitespace pre" "list_all is_whitespace post"
    by (auto simp: pre_def post_def list_all_iff dest: set_takeWhileD)
  have "m = take (length m) (drop (length pre) (chars s))" by (simp add: s a)
  then have "m = take (length m) (chars (concat (drop (length pre) (chars s))))"
    by (simp only: chars_concat_drop)
  then have "chars (concat m) = m" by (metis chars_concat_take)
  then have tr: "chars (trim s) = m" by (simp add: trim_def m_def a_def)
  have ends: "\<not> is_whitespace (hd m) \<and> \<not> is_whitespace (last m)" if "m \<noteq> []"
  proof -
    have "last m = hd (dropWhile is_whitespace (rev a))" using that by (simp add: m_def last_rev)
    moreover have "dropWhile is_whitespace (rev a) \<noteq> []" using that by (simp add: m_def)
    ultimately have "\<not> is_whitespace (last m)" by (metis hd_dropWhile)
    moreover have "a \<noteq> []" "hd m = hd a" using that a by auto
    then have "\<not> is_whitespace (hd m)" unfolding a_def by (metis hd_dropWhile)
    ultimately show ?thesis by simp
  qed
  show ?thesis by (rule that [OF _ pp tr ends]) (simp_all add: s a)
qed

lemma trim_idem [simp]: "trim (trim s) = trim s"
proof -
  obtain mid where parts: "chars (trim s) = mid"
    "mid \<noteq> [] \<Longrightarrow> \<not> is_whitespace (hd mid) \<and> \<not> is_whitespace (last mid)"
    by (rule trim_parts [of s]) simp
  have "dropWhile is_whitespace mid = mid" "dropWhile is_whitespace (rev mid) = rev mid"
    using parts(2) by (cases mid, simp_all) (cases mid rule: rev_cases, simp_all)
  with parts(1) show ?thesis by (simp add: trim_def [of "trim s"]) (metis concat_chars)
qed

text \<open>The idempotency key of an event made from a draft is the draft's key without surrounding
  white space, and is absent exactly when the draft has none or only white space.\<close>

theorem from_draft_key:
  "ev_idempotency_key (from_draft event_id t d) =
     (case draft_idempotency_key d of
        None \<Rightarrow> None
      | Some k \<Rightarrow> if list_all is_whitespace (chars k) then None else Some (trim k))
   \<and> (case ev_idempotency_key (from_draft event_id t d) of None \<Rightarrow> True | Some k \<Rightarrow> k \<noteq> [] \<and> trim k = k)"
proof -
  have "trim k = [] \<longleftrightarrow> list_all is_whitespace (chars k)" for k
  proof -
    obtain pre post mid where p: "chars k = pre @ mid @ post" "list_all is_whitespace pre"
      "list_all is_whitespace post" "chars (trim k) = mid"
      "mid \<noteq> [] \<Longrightarrow> \<not> is_whitespace (hd mid) \<and> \<not> is_whitespace (last mid)"
      by (rule trim_parts [of k]) blast
    have "trim k = [] \<longleftrightarrow> mid = []" using p(4) by (metis chars.simps(1) concat_chars concat.simps(1))
    moreover have "list_all is_whitespace (chars k) \<longleftrightarrow> mid = []"
      using p by (cases mid) auto
    ultimately show ?thesis by simp
  qed
  then show ?thesis by (simp add: from_draft_def Let_def split: option.splits)
qed

end
