(* ===== verification/Dispatch_State.thy ===== *)
theory Dispatch_State
  imports Hashing Float64
begin

text \<open>
  \<open>crates/zeta-dispatch/src/state.rs\<close>: the queue-item and attempt state machines, their stored
  names, the failure classes and the bounded retry policy.

  The three vocabularies are interpretations of the locale \<open>spelling\<close>, so that each name is the only
  text its parser accepts.  \<open>f64::powf\<close> has no prescribed precision; it is an argument of the delay.
\<close>

section \<open>Queue items\<close>

datatype queue_item_status =
    QPending | QAvailable | QClaimed | QCompleted | QFailed | QCancelled
  | QRetryScheduled | QDeadLettered | QUnhandled

fun queue_can_transition :: "queue_item_status option \<Rightarrow> queue_item_status \<Rightarrow> bool" where
  "queue_can_transition None current = (current = QPending \<or> current = QAvailable \<or> current = QUnhandled)"
| "queue_can_transition (Some QPending) current =
     (current = QAvailable \<or> current = QClaimed \<or> current = QUnhandled)"
| "queue_can_transition (Some QAvailable) current = (current = QClaimed \<or> current = QCancelled)"
| "queue_can_transition (Some QClaimed) current =
     (current = QAvailable \<or> current = QCompleted \<or> current = QFailed \<or> current = QCancelled
      \<or> current = QDeadLettered)"
| "queue_can_transition (Some QRetryScheduled) current = (current = QAvailable \<or> current = QCancelled)"
| "queue_can_transition (Some QFailed) current = (current = QRetryScheduled \<or> current = QDeadLettered)"
| "queue_can_transition (Some QCompleted) current = False"
| "queue_can_transition (Some QCancelled) current = False"
| "queue_can_transition (Some QDeadLettered) current = False"
| "queue_can_transition (Some QUnhandled) current = False"

fun queue_status_display :: "queue_item_status \<Rightarrow> string" where
  "queue_status_display QPending = ''pending''"
| "queue_status_display QAvailable = ''available''"
| "queue_status_display QClaimed = ''claimed''"
| "queue_status_display QCompleted = ''completed''"
| "queue_status_display QFailed = ''failed''"
| "queue_status_display QCancelled = ''cancelled''"
| "queue_status_display QRetryScheduled = ''retry_scheduled''"
| "queue_status_display QDeadLettered = ''dead_lettered''"
| "queue_status_display QUnhandled = ''unhandled''"

record state_parse_error =
  spe_resource :: string
  spe_value :: string

definition queue_status_from_str :: "string \<Rightarrow> (state_parse_error, queue_item_status) result" where
  "queue_status_from_str text =
     (if text = ''pending'' then Ok QPending
      else if text = ''available'' then Ok QAvailable
      else if text = ''claimed'' then Ok QClaimed
      else if text = ''completed'' then Ok QCompleted
      else if text = ''failed'' then Ok QFailed
      else if text = ''cancelled'' then Ok QCancelled
      else if text = ''retry_scheduled'' then Ok QRetryScheduled
      else if text = ''dead_lettered'' then Ok QDeadLettered
      else if text = ''unhandled'' then Ok QUnhandled
      else Err \<lparr>spe_resource = ''queue item'', spe_value = text\<rparr>)"

section \<open>Attempts\<close>

datatype attempt_status = ARunning | ACompleted | AFailed | ACancelled

fun attempt_can_transition :: "attempt_status option \<Rightarrow> attempt_status \<Rightarrow> bool" where
  "attempt_can_transition None current = (current = ARunning)"
| "attempt_can_transition (Some ARunning) current =
     (current = ACompleted \<or> current = AFailed \<or> current = ACancelled)"
| "attempt_can_transition (Some ACompleted) current = False"
| "attempt_can_transition (Some AFailed) current = False"
| "attempt_can_transition (Some ACancelled) current = False"

fun attempt_status_display :: "attempt_status \<Rightarrow> string" where
  "attempt_status_display ARunning = ''running''"
| "attempt_status_display ACompleted = ''completed''"
| "attempt_status_display AFailed = ''failed''"
| "attempt_status_display ACancelled = ''cancelled''"

definition attempt_status_from_str :: "string \<Rightarrow> (state_parse_error, attempt_status) result" where
  "attempt_status_from_str text =
     (if text = ''running'' then Ok ARunning
      else if text = ''completed'' then Ok ACompleted
      else if text = ''failed'' then Ok AFailed
      else if text = ''cancelled'' then Ok ACancelled
      else Err \<lparr>spe_resource = ''attempt'', spe_value = text\<rparr>)"

datatype transition_error =
    TransitionQueue "queue_item_status option" queue_item_status
  | TransitionAttempt "attempt_status option" attempt_status

definition queue_validate_transition ::
  "queue_item_status option \<Rightarrow> queue_item_status \<Rightarrow> (transition_error, unit) result" where
  "queue_validate_transition previous current =
     (if queue_can_transition previous current then Ok () else Err (TransitionQueue previous current))"

definition attempt_validate_transition ::
  "attempt_status option \<Rightarrow> attempt_status \<Rightarrow> (transition_error, unit) result" where
  "attempt_validate_transition previous current =
     (if attempt_can_transition previous current then Ok () else Err (TransitionAttempt previous current))"

section \<open>Failures\<close>

datatype failure_class = ClassRetryable | ClassPermanent

datatype attempt_failure_code =
    AgentSpecInvalid | MalformedEventPayload | ProviderTimeout | NetworkError | ToolFailed
  | AgentExecutionFailed | EffectDeliveryFailed | UnsafeEffectAmbiguous

fun failure_code_display :: "attempt_failure_code \<Rightarrow> string" where
  "failure_code_display AgentSpecInvalid = ''agent_spec_invalid''"
| "failure_code_display MalformedEventPayload = ''malformed_event_payload''"
| "failure_code_display ProviderTimeout = ''provider_timeout''"
| "failure_code_display NetworkError = ''network_error''"
| "failure_code_display ToolFailed = ''tool_failed''"
| "failure_code_display AgentExecutionFailed = ''agent_execution_failed''"
| "failure_code_display EffectDeliveryFailed = ''effect_delivery_failed''"
| "failure_code_display UnsafeEffectAmbiguous = ''unsafe_effect_ambiguous''"

definition failure_code_from_str :: "string \<Rightarrow> (state_parse_error, attempt_failure_code) result" where
  "failure_code_from_str text =
     (if text = ''agent_spec_invalid'' then Ok AgentSpecInvalid
      else if text = ''malformed_event_payload'' then Ok MalformedEventPayload
      else if text = ''provider_timeout'' then Ok ProviderTimeout
      else if text = ''network_error'' then Ok NetworkError
      else if text = ''tool_failed'' then Ok ToolFailed
      else if text = ''agent_execution_failed'' then Ok AgentExecutionFailed
      else if text = ''effect_delivery_failed'' then Ok EffectDeliveryFailed
      else if text = ''unsafe_effect_ambiguous'' then Ok UnsafeEffectAmbiguous
      else Err \<lparr>spe_resource = ''dispatch error code'', spe_value = text\<rparr>)"

fun classify_attempt_failure_code :: "attempt_failure_code \<Rightarrow> failure_class" where
  "classify_attempt_failure_code AgentSpecInvalid = ClassPermanent"
| "classify_attempt_failure_code MalformedEventPayload = ClassPermanent"
| "classify_attempt_failure_code ProviderTimeout = ClassRetryable"
| "classify_attempt_failure_code NetworkError = ClassRetryable"
| "classify_attempt_failure_code ToolFailed = ClassRetryable"
| "classify_attempt_failure_code AgentExecutionFailed = ClassRetryable"
| "classify_attempt_failure_code EffectDeliveryFailed = ClassRetryable"
| "classify_attempt_failure_code UnsafeEffectAmbiguous = ClassPermanent"

section \<open>Retry policy\<close>

record retry_policy =
  rp_max_attempts :: nat
  rp_backoff_base_seconds :: f64
  rp_backoff_factor :: f64
  rp_backoff_max_seconds :: f64

datatype retry_policy_error =
    RpMaxAttempts | RpBackoffBase | RpBackoffFactor | RpBackoffMaximum | RpAttemptNumber | RpDelayOverflow

definition retry_policy_new :: "nat \<Rightarrow> f64 \<Rightarrow> f64 \<Rightarrow> f64 \<Rightarrow> (retry_policy_error, retry_policy) result" where
  "retry_policy_new max_attempts backoff_base_seconds backoff_factor backoff_max_seconds =
     (if max_attempts = 0 then Err RpMaxAttempts
      else if \<not> is_finite backoff_base_seconds \<or> f64_less backoff_base_seconds (Finite 0) then Err RpBackoffBase
      else if \<not> is_finite backoff_factor \<or> f64_less backoff_factor (Finite 1) then Err RpBackoffFactor
      else if \<not> is_finite backoff_max_seconds \<or> f64_less backoff_max_seconds (Finite 0) then Err RpBackoffMaximum
      else Ok \<lparr>rp_max_attempts = max_attempts, rp_backoff_base_seconds = backoff_base_seconds,
               rp_backoff_factor = backoff_factor, rp_backoff_max_seconds = backoff_max_seconds\<rparr>)"

definition permits_retry_after :: "retry_policy \<Rightarrow> nat \<Rightarrow> bool" where
  "permits_retry_after p attempt_number \<longleftrightarrow> attempt_number < rp_max_attempts p"

definition delay_seconds ::
  "(f64 \<Rightarrow> f64 \<Rightarrow> f64) \<Rightarrow> retry_policy \<Rightarrow> nat \<Rightarrow> (retry_policy_error, f64) result" where
  "delay_seconds powf p attempt_number =
     (if attempt_number = 0 then Err RpAttemptNumber
      else let exponent = Finite (of_nat (attempt_number - 1));
               delay = f64_mul (rp_backoff_base_seconds p) (powf (rp_backoff_factor p) exponent)
           in Ok (f64_min delay (rp_backoff_max_seconds p)))"

definition delay_ms ::
  "(f64 \<Rightarrow> f64 \<Rightarrow> f64) \<Rightarrow> retry_policy \<Rightarrow> nat \<Rightarrow> (retry_policy_error, nat) result" where
  "delay_ms powf p attempt_number =
     and_then (delay_seconds powf p attempt_number) (\<lambda>seconds.
       let milliseconds = f64_mul seconds (Finite 1000) in
       if f64_le (Finite (2 ^ 64)) milliseconds then Err RpDelayOverflow
       else Ok (f64_as_u64 milliseconds))"

text \<open>The sum of a key's bytes cannot reach 2 to the 64: no key has 2 to the 56 bytes.\<close>

definition deterministic_jitter_seconds :: "string \<Rightarrow> f64 \<Rightarrow> f64" where
  "deterministic_jitter_seconds key spread_seconds =
     (if f64_le spread_seconds (Finite 0) then Finite 0
      else let bucket = fold (\<lambda>byte b. b + of_char byte) key (0 :: nat) mod 10000
           in f64_mul spread_seconds (f64_round (of_nat bucket / 10000)))"

definition retry_policy_default :: retry_policy where
  "retry_policy_default =
     \<lparr>rp_max_attempts = 3, rp_backoff_base_seconds = Finite 5, rp_backoff_factor = Finite 2,
      rp_backoff_max_seconds = Finite 300\<rparr>"

section \<open>Vocabularies\<close>

interpretation queue_status_text: spelling queue_status_display queue_status_from_str "\<lambda>_. True"
proof
  show "queue_status_from_str (queue_status_display s) = Ok s" for s
    by (cases s) (simp_all add: queue_status_from_str_def)
  show "True \<and> queue_status_display s = t" if "queue_status_from_str t = Ok s" for t s
    using that by (auto simp: queue_status_from_str_def split: if_splits)
qed

interpretation attempt_status_text: spelling attempt_status_display attempt_status_from_str "\<lambda>_. True"
proof
  show "attempt_status_from_str (attempt_status_display s) = Ok s" for s
    by (cases s) (simp_all add: attempt_status_from_str_def)
  show "True \<and> attempt_status_display s = t" if "attempt_status_from_str t = Ok s" for t s
    using that by (auto simp: attempt_status_from_str_def split: if_splits)
qed

interpretation failure_code_text: spelling failure_code_display failure_code_from_str "\<lambda>_. True"
proof
  show "failure_code_from_str (failure_code_display s) = Ok s" for s
    by (cases s) (simp_all add: failure_code_from_str_def)
  show "True \<and> failure_code_display s = t" if "failure_code_from_str t = Ok s" for t s
    using that by (auto simp: failure_code_from_str_def split: if_splits)
qed

section \<open>Terminal states\<close>

definition queue_terminal :: "queue_item_status \<Rightarrow> bool" where
  "queue_terminal s \<longleftrightarrow> s \<in> {QCompleted, QCancelled, QDeadLettered, QUnhandled}"

lemma queue_terminal_iff: "queue_terminal s \<longleftrightarrow> (\<forall>t. \<not> queue_can_transition (Some s) t)"
  by (cases s) (auto simp: queue_terminal_def)

lemma attempt_terminal_iff: "(\<forall>t. \<not> attempt_can_transition (Some s) t) \<longleftrightarrow> s \<noteq> ARunning"
  by (cases s) auto

section \<open>Bounds\<close>

lemma f64_min_le: "y \<noteq> NaN \<Longrightarrow> f64_le (f64_min x y) y"
  by (cases x; cases y) (auto simp: f64_min_def)

lemma jitter_within_spread:
  assumes "0 \<le> q" "f64_round q = Finite q"
  shows "f64_le (Finite 0) (deterministic_jitter_seconds key (Finite q))"
    "f64_le (deterministic_jitter_seconds key (Finite q)) (Finite q)"
proof -
  let ?b = "fold (\<lambda>byte b. b + of_char byte) key (0 :: nat) mod 10000"
  have "?b < 10000" by simp
  then have "(of_nat ?b :: rat) \<le> of_nat 10000" by (simp only: of_nat_le_iff)
  then have lt: "(of_nat ?b :: rat) / 10000 \<le> 1" by simp
  have r: "f64_le (f64_round (of_nat ?b / 10000)) (f64_round 1)" by (rule f64_round_nonneg_mono) (use lt in simp_all)
  have nn: "f64_le (Finite 0) (f64_round (of_nat ?b / 10000))"
    using f64_round_nonneg_mono [of 0 "of_nat ?b / 10000"] by (simp add: f64_round_def)
  obtain z where z: "f64_round (of_nat ?b / 10000) = Finite z" "0 \<le> z" "z \<le> 1"
    using r nn unfolding f64_round_1 by (cases "f64_round (of_nat ?b / 10000)") auto
  have qz: "q * z \<le> q" using z assms(1) by (simp add: mult_left_le)
  show "f64_le (Finite 0) (deterministic_jitter_seconds key (Finite q))"
    using f64_round_nonneg_mono [of 0 "q * z"] z assms(1)
    by (simp add: deterministic_jitter_seconds_def Let_def f64_round_def [of 0])
  show "f64_le (deterministic_jitter_seconds key (Finite q)) (Finite q)"
    using f64_round_nonneg_mono [of "q * z" q] z assms qz
    by (simp add: deterministic_jitter_seconds_def Let_def)
qed

text \<open>C40: a retry never waits longer than the configured maximum, whatever the power function returns:
  the delay is at most the maximum, and its milliseconds at most the maximum's.\<close>

theorem retry_delay_bounded:
  assumes "retry_policy_new n base factor limit = Ok p" "delay_ms powf p k = Ok d"
  shows "0 < k \<and> (\<exists>s. delay_seconds powf p k = Ok s \<and> f64_le s limit)
    \<and> d \<le> f64_as_u64 (f64_mul limit (Finite 1000))"
proof -
  from assms(1) obtain m where m: "limit = Finite m" "0 \<le> m" and p: "rp_backoff_max_seconds p = limit"
    by (cases limit) (auto simp: retry_policy_new_def f64_less_def split: if_splits)
  from assms(2) obtain s where s: "delay_seconds powf p k = Ok s" and k: "0 < k"
    and d: "d = f64_as_u64 (f64_mul s (Finite 1000))"
    by (auto simp: delay_ms_def delay_seconds_def Let_def split: if_splits)
  have le: "f64_le s limit" using s m p by (auto simp: delay_seconds_def Let_def f64_min_le split: if_splits)
  have "d \<le> f64_as_u64 (f64_mul limit (Finite 1000))"
  proof (cases s)
    case (Finite q)
    show ?thesis
    proof (cases "0 \<le> q")
      case True
      have "f64_le (f64_mul s (Finite 1000)) (f64_mul limit (Finite 1000))"
        using Finite True le m by (auto intro: f64_round_nonneg_mono)
      then show ?thesis unfolding d by (rule f64_as_u64_mono)
    next
      case False
      then have "f64_as_u64 (f64_mul s (Finite 1000)) = 0"
        using Finite round_positive_nonneg [of "\<bar>q * 1000\<bar>"]
        by (auto simp: f64_round_def f64_as_u64_def f64_as_int_def Let_def truncate_rat_def clamp_def)
      then show ?thesis unfolding d by simp
    qed
  next
    case (Infinite n)
    then show ?thesis using le m unfolding d by (simp add: f64_sign_def f64_as_u64_def f64_as_int_def)
  next
    case NaN
    then show ?thesis using le m by simp
  qed
  with s k le show ?thesis by blast
qed

theorem retry_delay_bounded_witness:
  "retry_policy_new 3 (Finite 5) (Finite 2) (Finite 300) = Ok retry_policy_default
   \<and> delay_ms (\<lambda>x y. x) retry_policy_default 2 = Ok 10000
   \<and> (10000 :: nat) \<le> f64_as_u64 (f64_mul (Finite 300) (Finite 1000))"
proof -
  have p: "retry_policy_new 3 (Finite 5) (Finite 2) (Finite 300) = Ok retry_policy_default"
    by (simp add: retry_policy_new_def retry_policy_default_def f64_less_def)
  have d: "delay_ms (\<lambda>x y. x) retry_policy_default 2 = Ok 10000"
    by (simp add: delay_ms_def delay_seconds_def retry_policy_default_def f64_round_numeral f64_min_def
        f64_as_u64_def f64_as_int_def truncate_rat_def clamp_def)
  show ?thesis using retry_delay_bounded [OF p d] p d by simp
qed

end
