(* ===== verification/Dispatch_Identity.thy ===== *)
theory Dispatch_Identity
  imports Dispatch_State Json
begin

text \<open>
  \<open>crates/zeta-dispatch/src/identity.rs\<close>: the derived runtime identities and idempotency keys.  The
  id newtypes are their text.
\<close>

section \<open>Identities\<close>

type_synonym queue_item_id = string
type_synonym attempt_id = string
type_synonym run_id = string
type_synonym session_id = string
type_synonym claim_token = string

datatype runtime_id_parse_error = RuntimeIdParseError string

definition parse_runtime_id :: "string \<Rightarrow> string \<Rightarrow> (runtime_id_parse_error, string) result" where
  "parse_runtime_id resource t = (if t = [] then Err (RuntimeIdParseError resource) else Ok t)"

definition session_id_for_agent :: "string \<Rightarrow> string option \<Rightarrow> session_id" where
  "session_id_for_agent agent_id session_suffix = (case session_suffix of
     Some tail \<Rightarrow> ''agent/'' @ agent_id @ ''/'' @ tail
   | None \<Rightarrow> ''agent/'' @ agent_id)"

definition safe_agent_id :: "string \<Rightarrow> string" where
  "safe_agent_id agent_id = map (\<lambda>c. if c = CHR '':'' \<or> c = CHR ''.'' then CHR ''_'' else c) agent_id"

definition pending_queue_item_id :: "string \<Rightarrow> queue_item_id" where
  "pending_queue_item_id event_id = ''qi_'' @ event_id"

definition queue_item_id :: "string \<Rightarrow> string \<Rightarrow> queue_item_id" where
  "queue_item_id event_id agent_id = ''qi_'' @ event_id @ ''_'' @ safe_agent_id agent_id"

definition unhandled_queue_item_id :: "string \<Rightarrow> queue_item_id" where
  "unhandled_queue_item_id event_id = ''qi_'' @ event_id @ ''_unhandled''"

definition attempt_id :: "queue_item_id \<Rightarrow> nat \<Rightarrow> attempt_id" where
  "attempt_id item_id attempt_number = ''att_'' @ item_id @ ''_'' @ show_nat attempt_number"

definition derived_run_id :: "attempt_id \<Rightarrow> run_id" where
  "derived_run_id attempt = ''run_'' @ attempt"

definition run_id_for_attempt :: "string option \<Rightarrow> attempt_id \<Rightarrow> run_id" where
  "run_id_for_attempt claimed attempt = (case claimed of
     Some claimed \<Rightarrow> if claimed \<noteq> [] then claimed else derived_run_id attempt
   | None \<Rightarrow> derived_run_id attempt)"

definition publish_event_handle :: "env \<Rightarrow> queue_item_id \<Rightarrow> nat \<Rightarrow> string" where
  "publish_event_handle E item_id position =
     (let identity = item_id @ '':'' @ show_nat position
      in ''pub_'' @ hash_display (derive E DomainChain identity))"

definition wait_handle :: "env \<Rightarrow> queue_item_id \<Rightarrow> nat \<Rightarrow> string" where
  "wait_handle E item_id position =
     (let identity = item_id @ '':'' @ show_nat position
      in ''wait_'' @ hash_display (derive E DomainChain identity))"

definition effect_key :: "env \<Rightarrow> string \<Rightarrow> string \<Rightarrow> json_map \<Rightarrow> (canonical_json_error, string) result" where
  "effect_key E scope operation params =
     (let identity = map_insert ''params'' (JObject params)
            (map_insert ''operation'' (JString operation) (map_insert ''scope'' (JString scope) []))
      in and_then (canonical_json E (JObject identity)) (\<lambda>encoded.
           Ok (''effect:'' @ hash_display (derive E DomainChain encoded))))"

section \<open>Idempotency keys\<close>

definition queue_item_idempotency_key :: "string \<Rightarrow> string \<Rightarrow> queue_item_status \<Rightarrow> string" where
  "queue_item_idempotency_key event_id target_agent status =
     ''queue_item:'' @ event_id @ '':'' @ target_agent @ '':'' @ queue_status_display status"

definition queue_item_attempt_idempotency_key ::
  "string \<Rightarrow> string \<Rightarrow> queue_item_status \<Rightarrow> nat \<Rightarrow> string" where
  "queue_item_attempt_idempotency_key event_id target_agent status attempt_number =
     queue_item_idempotency_key event_id target_agent status @ '':'' @ show_nat attempt_number"

definition unhandled_queue_item_idempotency_key :: "string \<Rightarrow> string" where
  "unhandled_queue_item_idempotency_key event_id = ''queue_item:'' @ event_id @ '':unhandled''"

definition attempt_idempotency_key :: "queue_item_id \<Rightarrow> nat \<Rightarrow> attempt_status \<Rightarrow> string" where
  "attempt_idempotency_key item_id attempt_number status =
     ''attempt:'' @ item_id @ '':'' @ show_nat attempt_number @ '':'' @ attempt_status_display status"

section \<open>Separators\<close>

lemma last_separator_inject:
  assumes "c \<notin> set x" "c \<notin> set y"
  shows "a @ c # x = b @ c # y \<longleftrightarrow> a = b \<and> x = y"
proof
  assume eq: "a @ c # x = b @ c # y"
  have "takeWhile (\<lambda>d. d \<noteq> c) (rev (a @ c # x)) = rev x" "takeWhile (\<lambda>d. d \<noteq> c) (rev (b @ c # y)) = rev y"
    using assms by (auto simp: takeWhile_append)
  then have "x = y" using eq by (metis rev_rev_ident)
  with eq show "a = b \<and> x = y" by simp
qed simp

lemma show_nat_separator_free:
  "CHR ''_'' \<notin> set (show_nat n)" "CHR '':'' \<notin> set (show_nat n)"
proof -
  have "(of_char c :: nat) \<le> 57" if "c \<in> set (show_nat n)" for c
    using set_show_nat [OF that] digit_char_code by auto
  from this [of "CHR ''_''"] this [of "CHR '':''"]
  show "CHR ''_'' \<notin> set (show_nat n)" "CHR '':'' \<notin> set (show_nat n)" by auto
qed

lemma attempt_status_colon_free: "CHR '':'' \<notin> set (attempt_status_display s)"
  by (cases s) simp_all

lemma queue_item_id_eq_iff:
  "queue_item_id e a = queue_item_id e b \<longleftrightarrow> safe_agent_id a = safe_agent_id b"
  by (simp add: queue_item_id_def)

lemma safe_agent_id_fixed:
  "CHR '':'' \<notin> set a \<Longrightarrow> CHR ''.'' \<notin> set a \<Longrightarrow> safe_agent_id a = a"
  unfolding safe_agent_id_def by (rule map_idI) auto

lemma attempt_id_inject: "attempt_id q n = attempt_id r m \<longleftrightarrow> q = r \<and> n = m"
  using last_separator_inject [OF show_nat_separator_free(1) [of n] show_nat_separator_free(1) [of m], of q r]
  by (simp add: attempt_id_def)

lemma attempt_idempotency_key_inject:
  "attempt_idempotency_key q n s = attempt_idempotency_key r m t \<longleftrightarrow> q = r \<and> n = m \<and> s = t"
proof -
  have "attempt_idempotency_key q n s = attempt_idempotency_key r m t \<longleftrightarrow>
      (q @ CHR '':'' # show_nat n) @ CHR '':'' # attempt_status_display s
      = (r @ CHR '':'' # show_nat m) @ CHR '':'' # attempt_status_display t"
    by (simp add: attempt_idempotency_key_def)
  also have "\<dots> \<longleftrightarrow> q = r \<and> n = m \<and> s = t"
    by (simp only: last_separator_inject attempt_status_colon_free show_nat_separator_free
        attempt_status_text.display_inject show_nat_inject simp_thms conj_assoc)
  finally show ?thesis .
qed

text \<open>An attempt's id and the idempotency key of each of its lifecycle facts determine the queue
  item, the attempt number and the status they were made from, whatever text the queue item id is.\<close>

theorem attempt_identity_unambiguous:
  "(attempt_id q n = attempt_id r m \<longleftrightarrow> q = r \<and> n = m)
   \<and> (derived_run_id (attempt_id q n) = derived_run_id (attempt_id r m) \<longleftrightarrow> q = r \<and> n = m)
   \<and> (attempt_idempotency_key q n s = attempt_idempotency_key r m t \<longleftrightarrow> q = r \<and> n = m \<and> s = t)"
  by (simp add: attempt_id_inject attempt_idempotency_key_inject derived_run_id_def)

text \<open>The normalised queue item ids are not: two agents of one event, and two events, can share one.\<close>

lemma queue_item_id_ambiguous:
  "queue_item_id ''evt_1'' ''team.review'' = queue_item_id ''evt_1'' ''team_review''"
  "queue_item_id ''evt'' ''a_b'' = queue_item_id ''evt_a'' ''b''"
  "queue_item_id ''evt_1'' ''unhandled'' = unhandled_queue_item_id ''evt_1''"
  by (simp_all add: queue_item_id_def safe_agent_id_def unhandled_queue_item_id_def)

end
