(* ===== verification/Glob.thy ===== *)
theory Glob
  imports Prelude
begin

text \<open>
  \<open>shell_glob_matches\<close>, \<open>glob_suffix_matches\<close> and \<open>character_class\<close> of
  \<open>crates/zeta-dispatch/src/routing.rs\<close>: the shell patterns of event routes.

  Patterns and candidates are sequences of characters.  The matcher works on indices and threads its
  memo table; an index out of range is the panic \<open>None\<close>.  \<open>glob\<close> is what a pattern means, without
  indices, order of search or memo, and the matcher is proved to decide it.
\<close>

section \<open>Characters\<close>

text \<open>The scalar value of a character, from its UTF-8 bytes.\<close>

fun code_point :: "string \<Rightarrow> nat" where
  "code_point [a] = of_char a"
| "code_point [a, b] = (of_char a mod 32) * 64 + of_char b mod 64"
| "code_point [a, b, c] = (of_char a mod 16) * 4096 + (of_char b mod 64) * 64 + of_char c mod 64"
| "code_point [a, b, c, d] =
     (of_char a mod 8) * 262144 + (of_char b mod 64) * 4096 + (of_char c mod 64) * 64 + of_char d mod 64"
| "code_point _ = 0"

definition char_le :: "string \<Rightarrow> string \<Rightarrow> bool" where
  "char_le c d \<longleftrightarrow> code_point c \<le> code_point d"

definition nth_opt :: "'a list \<Rightarrow> nat \<Rightarrow> 'a option" where
  "nth_opt xs i = (if i < length xs then Some (xs ! i) else None)"

section \<open>Character classes\<close>

function find_close :: "string list \<Rightarrow> nat \<Rightarrow> nat" where
  "find_close pattern index =
     (if index < length pattern \<and> pattern ! index \<noteq> '']'' then find_close pattern (index + 1) else index)"
  by pat_completeness auto
termination by (relation "measure (\<lambda>(pattern, index). length pattern - index)") auto

function class_scan :: "string list \<Rightarrow> nat \<Rightarrow> string \<Rightarrow> nat \<Rightarrow> bool \<Rightarrow> bool" where
  "class_scan pattern index candidate class_index matched =
     (if class_index < index then
        let first = pattern ! class_index in
        if class_index + 2 < index \<and> pattern ! (class_index + 1) = ''-'' then
          let last = pattern ! (class_index + 2) in
          class_scan pattern index candidate (class_index + 3)
            (matched \<or> char_le first candidate \<and> char_le candidate last)
        else class_scan pattern index candidate (class_index + 1) (matched \<or> first = candidate)
      else matched)"
  by pat_completeness auto
termination by (relation "measure (\<lambda>(pattern, index, candidate, class_index, matched). index - class_index)") auto

declare find_close.simps [simp del] class_scan.simps [simp del]

definition character_class :: "string list \<Rightarrow> nat \<Rightarrow> string \<Rightarrow> (nat \<times> bool) option" where
  "character_class pattern start candidate =
     (let index = start + 1;
          negated = (nth_opt pattern index = Some ''!'');
          index = (if negated then index + 1 else index);
          content_start = index;
          index = (if nth_opt pattern index = Some '']'' then index + 1 else index);
          index = find_close pattern index
      in if index = length pattern \<or> index = content_start then None
         else let matched = class_scan pattern index candidate content_start False
              in Some (index, if negated then \<not> matched else matched))"

lemma find_close_ge: "index \<le> find_close pattern index"
proof (induction pattern index rule: find_close.induct)
  case (1 pattern index)
  then show ?case by (subst find_close.simps) (auto dest: order_trans [rotated])
qed

lemma character_class_end:
  assumes "character_class pattern start c = Some (stop, b)"
  shows "start < stop"
proof -
  have "start < find_close pattern (start + 1 + k)" for k
    using find_close_ge [of "start + 1 + k" pattern] by simp
  from this [of 0] this [of 1] this [of 2] assms show ?thesis
    by (auto simp: character_class_def Let_def split: if_splits)
qed

section \<open>The matcher\<close>

type_synonym glob_memo = "((nat \<times> nat) \<times> bool) list"

function glob_suffix_matches ::
  "string list \<Rightarrow> string list \<Rightarrow> nat \<Rightarrow> nat \<Rightarrow> glob_memo \<Rightarrow> (bool \<times> glob_memo) option" where
  "glob_suffix_matches pattern candidate pattern_index candidate_index memo =
     (case map_of memo (pattern_index, candidate_index) of
        Some answer \<Rightarrow> Some (answer, memo)
      | None \<Rightarrow>
          let remember = map_option (\<lambda>(answer, memo). (answer, AList.update (pattern_index, candidate_index) answer memo))
          in remember
            (if pattern_index = length pattern then Some (candidate_index = length candidate, memo)
             else case nth_opt pattern pattern_index of
               None \<Rightarrow> None
             | Some p \<Rightarrow>
                 if p = ''*'' then
                   (case glob_suffix_matches pattern candidate (pattern_index + 1) candidate_index memo of
                      None \<Rightarrow> None
                    | Some (answer, memo) \<Rightarrow>
                        if answer then Some (True, memo)
                        else if candidate_index < length candidate
                        then glob_suffix_matches pattern candidate pattern_index (candidate_index + 1) memo
                        else Some (False, memo))
                 else if candidate_index = length candidate then Some (False, memo)
                 else if p = ''?''
                 then glob_suffix_matches pattern candidate (pattern_index + 1) (candidate_index + 1) memo
                 else case nth_opt candidate candidate_index of
                   None \<Rightarrow> None
                 | Some c \<Rightarrow>
                     (case if p = ''['' then character_class pattern pattern_index c else None of
                        Some (class_end, matched) \<Rightarrow>
                          if matched
                          then glob_suffix_matches pattern candidate (class_end + 1) (candidate_index + 1) memo
                          else Some (False, memo)
                      | None \<Rightarrow>
                          if p = c
                          then glob_suffix_matches pattern candidate (pattern_index + 1) (candidate_index + 1) memo
                          else Some (False, memo))))"
  by pat_completeness auto
termination
  by (relation "measures [\<lambda>(p, c, i, j, m). length p - i, \<lambda>(p, c, i, j, m). length c - j]")
    (auto simp: nth_opt_def dest!: character_class_end split: if_splits)

declare glob_suffix_matches.simps [simp del]

definition shell_glob_matches :: "string \<Rightarrow> string \<Rightarrow> bool option" where
  "shell_glob_matches pattern candidate =
     map_option fst (glob_suffix_matches (chars pattern) (chars candidate) 0 0 [])"

section \<open>What a pattern means\<close>

text \<open>
  A class is the text between its brackets, where a first closing bracket is a member, and whether
  it is negated; an unclosed bracket is no class.
\<close>

definition class_body :: "string list \<Rightarrow> (string list \<times> string list) option" where
  "class_body q =
     (let (first, r) = (if q \<noteq> [] \<and> hd q = '']'' then ([hd q], tl q) else ([], q));
          body = first @ takeWhile (\<lambda>x. x \<noteq> '']'') r
      in case dropWhile (\<lambda>x. x \<noteq> '']'') r of [] \<Rightarrow> None | _ # rest \<Rightarrow> Some (body, rest))"

definition class_split :: "string list \<Rightarrow> (bool \<times> string list \<times> string list) option" where
  "class_split q =
     (if q \<noteq> [] \<and> hd q = ''!'' then map_option (Pair True) (class_body (tl q))
      else map_option (Pair False) (class_body q))"

fun in_class :: "string list \<Rightarrow> string \<Rightarrow> bool" where
  "in_class [] c = False"
| "in_class (x # y # z # r) c =
     (if y = ''-'' then char_le x c \<and> char_le c z \<or> in_class r c else x = c \<or> in_class (y # z # r) c)"
| "in_class (x # r) c = (x = c \<or> in_class r c)"

inductive glob :: "string list \<Rightarrow> string list \<Rightarrow> bool" where
  glob_nil: "glob [] []"
| glob_star: "glob p cs \<Longrightarrow> glob (''*'' # p) (skipped @ cs)"
| glob_any: "glob p cs \<Longrightarrow> glob (''?'' # p) (c # cs)"
| glob_class: "class_split p = Some (negated, body, q) \<Longrightarrow> in_class body c \<noteq> negated \<Longrightarrow> glob q cs
    \<Longrightarrow> glob (''['' # p) (c # cs)"
| glob_literal: "x \<noteq> ''*'' \<Longrightarrow> x \<noteq> ''?'' \<Longrightarrow> x = ''['' \<longrightarrow> class_split p = None \<Longrightarrow> glob p cs
    \<Longrightarrow> glob (x # p) (x # cs)"

inductive_cases glob_consE: "glob (x # p) cs"
inductive_simps glob_nil_iff: "glob [] cs"

section \<open>Classes by index and by text\<close>

lemma find_close_eq:
  "index \<le> length pattern \<Longrightarrow>
     find_close pattern index = index + length (takeWhile (\<lambda>x. x \<noteq> '']'') (drop index pattern))"
proof (induction pattern index rule: find_close.induct)
  case (1 pattern index)
  show ?case
  proof (cases "index < length pattern")
    case True
    with 1 show ?thesis by (subst find_close.simps) (simp add: Cons_nth_drop_Suc [symmetric])
  next
    case False
    with 1(2) show ?thesis by (subst find_close.simps) simp
  qed
qed

lemma drop_take_Cons: "i < stop \<Longrightarrow> stop \<le> length p \<Longrightarrow> drop i (take stop p) = p ! i # drop (Suc i) (take stop p)"
  by (metis Cons_nth_drop_Suc length_take min.absorb2 nth_take)

lemma class_scan_eq:
  "stop \<le> length pattern \<Longrightarrow>
     class_scan pattern stop c i matched \<longleftrightarrow> matched \<or> in_class (drop i (take stop pattern)) c"
proof (induction pattern stop c i matched rule: class_scan.induct)
  case (1 pattern stop c i matched)
  note len = 1(3)
  consider "stop \<le> i" | "i < stop" "stop \<le> i + 1" | "i + 1 < stop" "stop \<le> i + 2" | "i + 2 < stop" by linarith
  then show ?case
  proof cases
    case 1
    then show ?thesis by (subst class_scan.simps) simp
  next
    case 2
    then have "drop i (take stop pattern) = [pattern ! i]" using len by (simp add: drop_take_Cons)
    with 2 1(2) [OF _ refl] len show ?thesis by (subst class_scan.simps) (simp add: Let_def)
  next
    case 3
    then have "drop i (take stop pattern) = [pattern ! i, pattern ! Suc i]"
      "drop (Suc i) (take stop pattern) = [pattern ! Suc i]" using len by (simp_all add: drop_take_Cons)
    with 3 1(2) [OF _ refl] len show ?thesis by (subst class_scan.simps) (simp add: Let_def)
  next
    case 4
    then have "drop i (take stop pattern) = pattern ! i # pattern ! Suc i # pattern ! Suc (Suc i) # drop (i + 3) (take stop pattern)"
      "drop (i + 1) (take stop pattern) = pattern ! Suc i # pattern ! Suc (Suc i) # drop (i + 3) (take stop pattern)"
      using len by (simp_all add: drop_take_Cons numeral_3_eq_3)
    with 4 1(1) [OF _ refl _ refl] 1(2) [OF _ refl] len show ?thesis
      by (subst class_scan.simps) (auto simp: Let_def)
  qed
qed

lemma nth_opt_drop: "nth_opt p i = Some x \<longleftrightarrow> drop i p \<noteq> [] \<and> hd (drop i p) = x"
  by (auto simp: nth_opt_def hd_drop_conv_nth)

lemma nth_opt_le: "nth_opt p i = Some x \<Longrightarrow> Suc i \<le> length p"
  by (simp add: nth_opt_def split: if_splits)

lemma take_span: "drop k (take (k + length (takeWhile P (drop k p))) p) = takeWhile P (drop k p)"
  by (simp add: drop_take takeWhile_eq_take [symmetric])

lemma drop_span: "dropWhile P (drop k p) = drop (k + length (takeWhile P (drop k p))) p"
  by (simp add: dropWhile_eq_drop add.commute)

definition class_stop :: "string list \<Rightarrow> nat \<Rightarrow> nat" where
  "class_stop p k = find_close p (if nth_opt p k = Some '']'' then k + 1 else k)"

lemma class_stop_found:
  assumes "k \<le> length p" "class_stop p k \<noteq> length p"
  shows "class_stop p k < length p" "k < class_stop p k" "p ! class_stop p k = '']''"
proof -
  define k' where "k' = (if nth_opt p k = Some '']'' then k + 1 else k)"
  have k': "k' \<le> length p" "k \<le> k'" using assms(1) nth_opt_le by (auto simp: k'_def)
  have m: "class_stop p k = k' + length (takeWhile (\<lambda>x. x \<noteq> '']'') (drop k' p))"
    using find_close_eq [OF k'(1)] by (simp add: class_stop_def k'_def)
  have "length (takeWhile (\<lambda>x. x \<noteq> '']'') (drop k' p)) \<le> length (drop k' p)" by (rule length_takeWhile_le)
  with m k' assms(2) show lt: "class_stop p k < length p" by simp
  with m have "length (takeWhile (\<lambda>x. x \<noteq> '']'') (drop k' p)) < length (drop k' p)" by simp
  from nth_length_takeWhile [OF this] m k' show br: "p ! class_stop p k = '']''" by simp
  show "k < class_stop p k"
  proof (rule ccontr)
    assume "\<not> k < class_stop p k"
    then have "class_stop p k = k" "k' = k" using m k'(2) by simp_all
    with br lt show False by (auto simp: k'_def nth_opt_def)
  qed
qed

lemma class_body_eq:
  assumes "k \<le> length p"
  shows "class_body (drop k p) =
    (if class_stop p k = length p then None
     else Some (drop k (take (class_stop p k) p), drop (class_stop p k + 1) p))"
proof -
  let ?P = "\<lambda>x. x \<noteq> '']''"
  define k' where "k' = (if nth_opt p k = Some '']'' then k + 1 else k)"
  have k': "k' \<le> length p" using assms nth_opt_le by (auto simp: k'_def)
  have m: "class_stop p k = k' + length (takeWhile ?P (drop k' p))"
    using find_close_eq [OF k'] by (simp add: class_stop_def k'_def)
  have rest: "dropWhile ?P (drop k' p) = drop (class_stop p k) p" unfolding m by (rule drop_span)
  have body: "(if nth_opt p k = Some '']'' then [hd (drop k p)] else []) @ takeWhile ?P (drop k' p)
      = drop k (take (class_stop p k) p)"
  proof (cases "nth_opt p k = Some '']''")
    case True
    then have lt: "k < length p" "k' = k + 1" by (simp_all add: nth_opt_def k'_def split: if_splits)
    have "class_stop p k \<le> length p" using m k' length_takeWhile_le [of ?P "drop k' p"] by simp
    then have "drop k (take (class_stop p k) p) = p ! k # drop k' (take (class_stop p k) p)"
      using lt m drop_take_Cons [of k "class_stop p k" p] by simp
    moreover have "drop k' (take (class_stop p k) p) = takeWhile ?P (drop k' p)" unfolding m by (rule take_span)
    ultimately show ?thesis using True lt by (simp add: hd_drop_conv_nth)
  next
    case False
    then have "k' = k" by (simp add: k'_def)
    with False show ?thesis unfolding m by (simp add: take_span)
  qed
  have split: "(if drop k p \<noteq> [] \<and> hd (drop k p) = '']'' then ([hd (drop k p)], tl (drop k p)) else ([], drop k p))
      = (if nth_opt p k = Some '']'' then [hd (drop k p)] else [], drop k' p)"
    by (simp add: nth_opt_drop k'_def drop_Suc tl_drop)
  show ?thesis
  proof (cases "class_stop p k = length p")
    case True
    then show ?thesis by (simp only: class_body_def split Let_def prod.case rest drop_all) simp
  next
    case False
    have "drop (class_stop p k) p = p ! class_stop p k # drop (class_stop p k + 1) p"
      using class_stop_found(1) [OF assms False] by (simp add: Cons_nth_drop_Suc)
    with False body show ?thesis by (simp only: class_body_def split Let_def prod.case rest) simp
  qed
qed

lemma character_class_eq:
  assumes "start < length p"
  shows "case class_split (drop (Suc start) p) of
      None \<Rightarrow> character_class p start c = None
    | Some (negated, body, rest) \<Rightarrow> \<exists>stop < length p. start < stop \<and> rest = drop (stop + 1) p
        \<and> character_class p start c = Some (stop, in_class body c \<noteq> negated)"
proof -
  define k where "k = (if nth_opt p (start + 1) = Some ''!'' then start + 2 else start + 1)"
  have k: "k \<le> length p" "start < k" using assms nth_opt_le by (auto simp: k_def)
  have cc: "character_class p start c =
    (if class_stop p k = length p \<or> class_stop p k = k then None
     else let matched = class_scan p (class_stop p k) c k False
          in Some (class_stop p k, if nth_opt p (start + 1) = Some ''!'' then \<not> matched else matched))"
    by (simp add: character_class_def Let_def class_stop_def k_def)
  have sp: "class_split (drop (Suc start) p) = map_option (Pair (nth_opt p (start + 1) = Some ''!'')) (class_body (drop k p))"
    by (simp add: class_split_def nth_opt_drop k_def drop_Suc tl_drop)
  show ?thesis
  proof (cases "class_stop p k = length p")
    case True
    then show ?thesis by (simp add: sp class_body_eq [OF k(1)] cc)
  next
    case False
    note found = class_stop_found [OF k(1) False]
    then show ?thesis
      using False k by (auto simp: sp class_body_eq [OF k(1)] cc class_scan_eq Let_def)
  qed
qed

section \<open>The matcher decides the meaning\<close>

lemma glob_star_iff: "glob (''*'' # p) cs \<longleftrightarrow> glob p cs \<or> (cs \<noteq> [] \<and> glob (''*'' # p) (tl cs))"
proof
  assume "glob (''*'' # p) cs"
  then obtain skipped r where s: "cs = skipped @ r" "glob p r" by (auto elim: glob_consE)
  show "glob p cs \<or> (cs \<noteq> [] \<and> glob (''*'' # p) (tl cs))"
    using s by (cases skipped) (auto intro: glob_star)
next
  assume "glob p cs \<or> (cs \<noteq> [] \<and> glob (''*'' # p) (tl cs))"
  then show "glob (''*'' # p) cs"
  proof (elim disjE conjE)
    assume "glob p cs"
    then show ?thesis using glob_star [of p cs "[]"] by simp
  next
    assume "cs \<noteq> []" "glob (''*'' # p) (tl cs)"
    then obtain skipped r where s: "tl cs = skipped @ r" "glob p r" by (auto elim: glob_consE)
    then have "cs = (hd cs # skipped) @ r" using \<open>cs \<noteq> []\<close> by (cases cs) simp_all
    with s(2) show ?thesis by (metis glob_star)
  qed
qed

lemma glob_any_iff: "glob (''?'' # p) cs \<longleftrightarrow> cs \<noteq> [] \<and> glob p (tl cs)"
  by (cases cs) (auto elim: glob_consE intro: glob_any)

lemma glob_other_iff:
  assumes "x \<noteq> ''*''" "x \<noteq> ''?''"
  shows "glob (x # p) cs \<longleftrightarrow> cs \<noteq> [] \<and>
    (case if x = ''['' then class_split p else None of
       None \<Rightarrow> x = hd cs \<and> glob p (tl cs)
     | Some (negated, body, q) \<Rightarrow> in_class body (hd cs) \<noteq> negated \<and> glob q (tl cs))"
proof (cases cs)
  case Nil
  then show ?thesis using assms by (auto elim: glob_consE)
next
  case (Cons c r)
  then show ?thesis
    using assms by (auto elim!: glob_consE intro: glob_literal glob_class split: option.splits if_splits)
qed

definition memo_ok :: "string list \<Rightarrow> string list \<Rightarrow> glob_memo \<Rightarrow> bool" where
  "memo_ok p c memo \<longleftrightarrow> (\<forall>i j a. map_of memo (i, j) = Some a \<longrightarrow> (a \<longleftrightarrow> glob (drop i p) (drop j c)))"

lemma memo_ok_update:
  "memo_ok p c m \<Longrightarrow> memo_ok p c (AList.update (i, j) (glob (drop i p) (drop j c)) m)"
  by (auto simp: memo_ok_def update_conv')

text \<open>The answer and a memo table that holds only right answers.\<close>

definition decides :: "string list \<Rightarrow> string list \<Rightarrow> bool \<Rightarrow> (bool \<times> glob_memo) option \<Rightarrow> bool" where
  "decides p c a r \<longleftrightarrow> (\<exists>m. r = Some (a, m) \<and> memo_ok p c m)"

lemma decides_Some [simp]: "decides p c a (Some (b, m)) \<longleftrightarrow> b = a \<and> memo_ok p c m"
  by (auto simp: decides_def)

lemma decides_remember:
  assumes "decides p c (glob (drop i p) (drop j c)) r"
  shows "decides p c (glob (drop i p) (drop j c))
    (map_option (\<lambda>(answer, memo). (answer, AList.update (i, j) answer memo)) r)"
  using assms memo_ok_update by (auto simp: decides_def)

lemma glob_suffix_matches_decides:
  assumes "i \<le> length p" "j \<le> length c" "memo_ok p c m"
  shows "decides p c (glob (drop i p) (drop j c)) (glob_suffix_matches p c i j m)"
  using assms
proof (induction "(length p - i) + (length c - j)" arbitrary: i j m rule: less_induct)
  case less
  note i = less(2) and j = less(3) and m = less(4)
  have IH: "decides p c (glob (drop i' p) (drop j' c)) (glob_suffix_matches p c i' j' m')"
    if "i \<le> i'" "j \<le> j'" "i' \<le> length p" "j' \<le> length c" "i < i' \<or> j < j'" "memo_ok p c m'" for i' j' m'
    by (rule less(1)) (use that in auto)
  let ?g = "glob (drop i p) (drop j c)"
  show ?case
  proof (cases "map_of m (i, j)")
    case (Some a)
    then show ?thesis using m by (subst glob_suffix_matches.simps) (auto simp: memo_ok_def)
  next
    case fresh: None
    show ?thesis
    proof (cases "i = length p")
      case True
      have "decides p c ?g (Some (j = length c, m))" using True j m by (auto simp: glob_nil_iff)
      from decides_remember [OF this] show ?thesis
        using fresh True by (subst glob_suffix_matches.simps) (auto simp: Let_def)
    next
      case False
      then have lt: "i < length p" using i by simp
      define x where "x = p ! i"
      have dp: "drop i p = x # drop (Suc i) p" using lt by (simp add: x_def Cons_nth_drop_Suc)
      have nx: "nth_opt p i = Some x" using lt by (simp add: nth_opt_def x_def)
      have tl: "tl (drop j c) = drop (Suc j) c" by (simp add: drop_Suc tl_drop)
      have jc: "j \<noteq> length c \<Longrightarrow> nth_opt c j = Some (hd (drop j c)) \<and> drop j c \<noteq> [] \<and> Suc j \<le> length c"
        using j by (auto simp: nth_opt_def hd_drop_conv_nth)
      note unfold = glob_suffix_matches.simps [of p c i j m] fresh False nx Let_def
      consider (star) "x = ''*''" | (stop) "x \<noteq> ''*''" "j = length c"
        | (any) "x = ''?''" "j \<noteq> length c" | (other) "x \<noteq> ''*''" "x \<noteq> ''?''" "j \<noteq> length c" by blast
      then show ?thesis
      proof cases
        case star
        obtain m1 where m1: "glob_suffix_matches p c (Suc i) j m = Some (glob (drop (Suc i) p) (drop j c), m1)" "memo_ok p c m1"
          using IH [of "Suc i" j m] lt j m by (auto simp: decides_def)
        have "decides p c ?g (if glob (drop (Suc i) p) (drop j c) then Some (True, m1)
            else if j < length c then glob_suffix_matches p c i (Suc j) m1 else Some (False, m1))"
          using IH [of i "Suc j" m1] m1 lt j star
          by (auto simp: dp glob_star_iff [of "drop (Suc i) p" "drop j c"] tl)
        from decides_remember [OF this] show ?thesis
          using m1 star by (simp add: unfold if_distrib [where f = "map_option _"] cong: if_cong split: if_split_asm)
      next
        case stop
        then have "\<not> ?g" by (cases "x = ''?''") (simp_all add: dp glob_any_iff glob_other_iff)
        then have "decides p c ?g (Some (False, m))" using m by simp
        from decides_remember [OF this] show ?thesis
          using stop fresh by (subst glob_suffix_matches.simps) (simp add: False nx Let_def)
      next
        case any
        have "decides p c ?g (glob_suffix_matches p c (Suc i) (Suc j) m)"
          using IH [of "Suc i" "Suc j" m] lt m jc any by (simp add: dp glob_any_iff tl)
        from decides_remember [OF this] show ?thesis using any by (simp add: unfold)
      next
        case other
        let ?c = "hd (drop j c)"
        have step: "decides p c ?g (case if x = ''['' then character_class p i ?c else None of
            Some (class_end, matched) \<Rightarrow>
              if matched then glob_suffix_matches p c (class_end + 1) (j + 1) m else Some (False, m)
          | None \<Rightarrow> if x = ?c then glob_suffix_matches p c (i + 1) (j + 1) m else Some (False, m))"
          using IH [of "Suc i" "Suc j" m] IH [of _ "Suc j" m] character_class_eq [OF lt, of ?c] m lt jc other
          by (auto simp: dp glob_other_iff tl split: option.splits if_splits)
        from decides_remember [OF step] show ?thesis using other jc by (simp add: unfold split del: if_split)
      qed
    qed
  qed
qed

lemma shell_glob_decides:
  "shell_glob_matches pattern candidate = Some (glob (chars pattern) (chars candidate))"
proof -
  have "memo_ok (chars pattern) (chars candidate) []" by (simp add: memo_ok_def)
  then show ?thesis
    using glob_suffix_matches_decides [of 0 "chars pattern" 0 "chars candidate" "[]"]
    by (auto simp: shell_glob_matches_def decides_def)
qed

text \<open>C34: the memoised index matcher of event patterns always answers, never reads out of range, and
  answers what the pattern means: stars match any run, question marks one character, classes their
  members or the others, and every other character itself.\<close>

theorem shell_glob_matches_iff:
  "shell_glob_matches pattern candidate = Some (glob (chars pattern) (chars candidate))"
  by (rule shell_glob_decides)

end
