(* ===== verification/Routes.thy ===== *)
theory Routes
  imports Event Dispatch_Identity Glob
begin

text \<open>
  \<open>crates/zeta-dispatch/src/routing.rs\<close>: event patterns, session rules with their templates, and the
  pure route planning.

  The parser and the formatter of Python format strings come from the package \<open>rustpython-format\<close>;
  they are the record \<open>format_lib\<close>.  A \<open>FormatSpec\<close> is determined by the text it was parsed from, so
  the formatting functions take that text.  Errors carry the package's \<open>Debug\<close> text.
\<close>

section \<open>Patterns\<close>

datatype pattern_kind = PatternExact | PatternShellGlob

record event_pattern =
  pat_text :: string
  pat_kind :: pattern_kind

definition event_pattern_new :: "string \<Rightarrow> event_pattern" where
  "event_pattern_new pattern = \<lparr>pat_text = pattern, pat_kind = PatternShellGlob\<rparr>"

definition event_pattern_exact :: "string \<Rightarrow> event_pattern" where
  "event_pattern_exact event_type = \<lparr>pat_text = event_type, pat_kind = PatternExact\<rparr>"

text \<open>The matcher never panics (\<open>shell_glob_matches\<close> is always \<open>Some\<close>).\<close>

definition pattern_matches :: "event_pattern \<Rightarrow> event \<Rightarrow> bool" where
  "pattern_matches p ev = (case pat_kind p of
     PatternExact \<Rightarrow> pat_text p = ev_event_type ev
   | PatternShellGlob \<Rightarrow> shell_glob_matches (pat_text p) (ev_event_type ev) = Some True)"

section \<open>Python text of values\<close>

definition is_control :: "string \<Rightarrow> bool" where
  "is_control c \<longleftrightarrow> (let n = code_point c in n \<le> 0x1f \<or> 0x7f \<le> n \<and> n \<le> 0x9f)"

definition is_ascii :: "string \<Rightarrow> bool" where
  "is_ascii c \<longleftrightarrow> code_point c < 128"

definition pad_hex :: "nat \<Rightarrow> nat \<Rightarrow> string" where
  "pad_hex width n = replicate (width - length (show_hex n)) (CHR ''0'') @ show_hex n"

definition python_escape :: "string \<Rightarrow> string" where
  "python_escape character =
     (let code = code_point character in
      if code \<le> 0xff then [CHR 0x5C] @ ''x'' @ pad_hex 2 code
      else if code \<le> 0xffff then [CHR 0x5C] @ ''u'' @ pad_hex 4 code
      else [CHR 0x5C] @ ''U'' @ pad_hex 8 code)"

definition quote_char :: "string \<Rightarrow> bool \<Rightarrow> string \<Rightarrow> string" where
  "quote_char quote ascii_only character =
     (if character = quote \<or> character = [CHR 0x5C] then [CHR 0x5C] @ character
      else if character = [CHR 0x09] then [CHR 0x5C] @ ''t''
      else if character = [CHR 0x0A] then [CHR 0x5C] @ ''n''
      else if character = [CHR 0x0D] then [CHR 0x5C] @ ''r''
      else if is_control character \<or> (ascii_only \<and> \<not> is_ascii character) then python_escape character
      else character)"

definition python_quote :: "string \<Rightarrow> bool \<Rightarrow> string" where
  "python_quote text ascii_only =
     (let quote = (if CHR 0x27 \<in> set text \<and> CHR 0x22 \<notin> set text then [CHR 0x22] else [CHR 0x27])
      in quote @ concat (map (quote_char quote ascii_only) (chars text)) @ quote)"

definition ascii_escape :: "string \<Rightarrow> string" where
  "ascii_escape text = concat (map (\<lambda>c. if is_ascii c then c else python_escape c) (chars text))"

fun join_comma :: "string list \<Rightarrow> string" where
  "join_comma [] = []"
| "join_comma [x] = x"
| "join_comma (x # y # ys) = x @ '', '' @ join_comma (y # ys)"

primrec python_repr :: "env \<Rightarrow> json \<Rightarrow> bool \<Rightarrow> string" where
  "python_repr E JNull = (\<lambda>ascii_only. ''None'')"
| "python_repr E (JBool b) = (\<lambda>ascii_only. if b then ''True'' else ''False'')"
| "python_repr E (JNumber n) = (\<lambda>ascii_only. num_to_string E n)"
| "python_repr E (JString s) = (\<lambda>ascii_only. python_quote s ascii_only)"
| "python_repr E (JArray vs) = (\<lambda>ascii_only.
     ''['' @ join_comma (map (\<lambda>r. r ascii_only) (map (python_repr E) vs)) @ '']'')"
| "python_repr E (JObject kvs) = (\<lambda>ascii_only.
     ''{'' @ join_comma (map (\<lambda>(k, r). python_quote k ascii_only @ '': '' @ r ascii_only)
       (map (map_prod id (python_repr E)) kvs)) @ ''}'')"

definition python_str :: "env \<Rightarrow> json \<Rightarrow> string" where
  "python_str E v = (case v of JString s \<Rightarrow> s | _ \<Rightarrow> python_repr E v False)"

definition optional_string_value :: "string option \<Rightarrow> json" where
  "optional_string_value v = (case v of Some s \<Rightarrow> JString s | None \<Rightarrow> JNull)"

definition cursor_value :: "env \<Rightarrow> nat option \<Rightarrow> json" where
  "cursor_value E cursor = (case cursor of Some c \<Rightarrow> JNumber (num_from_int E (int c)) | None \<Rightarrow> JNull)"

definition event_repr :: "env \<Rightarrow> event \<Rightarrow> bool \<Rightarrow> string" where
  "event_repr E ev ascii_only =
     ''Event(id='' @ python_quote (ev_id ev) ascii_only
     @ '', event_type='' @ python_quote (ev_event_type ev) ascii_only
     @ '', source='' @ python_quote (ev_source ev) ascii_only
     @ '', payload='' @ python_repr E (JObject (ev_payload ev)) ascii_only
     @ '', idempotency_key='' @ python_repr E (optional_string_value (ev_idempotency_key ev)) ascii_only
     @ '', caused_by='' @ python_repr E (optional_string_value (ev_caused_by ev)) ascii_only
     @ '', session_id='' @ python_repr E (optional_string_value (ev_session_id ev)) ascii_only
     @ '', timestamp_ms='' @ show_int (ev_timestamp_ms ev)
     @ '', turn_id='' @ python_repr E (optional_string_value (ev_turn_id ev)) ascii_only
     @ '', run_id='' @ python_repr E (optional_string_value (ev_run_id ev)) ascii_only
     @ '', cursor='' @ python_repr E (cursor_value E (ev_cursor ev)) ascii_only
     @ '')''"

section \<open>Session templates\<close>

datatype format_part = FormatLiteral string | FormatField string "string option" string

datatype field_type = FieldAuto | FieldIndex nat | FieldKeyword string

datatype field_name_part = PartAttribute string | PartIndex nat | PartStringIndex string

record format_lib =
  format_from_str :: "string \<Rightarrow> format_part list option"
  field_parse :: "string \<Rightarrow> (field_type \<times> field_name_part list) option"
  spec_parse :: "string \<Rightarrow> (string, unit) result"
  spec_format_string :: "string \<Rightarrow> string \<Rightarrow> (string, string) result"
  spec_format_bool :: "string \<Rightarrow> bool \<Rightarrow> (string, string) result"
  spec_format_int :: "string \<Rightarrow> int \<Rightarrow> (string, string) result"
  spec_format_float :: "string \<Rightarrow> rat \<Rightarrow> (string, string) result"

datatype session_error =
    MalformedTemplate string
  | MissingField string
  | InvalidField string
  | InvalidFormat string

datatype template_value = TemplateJson json | TemplateEvent string

definition event_attribute :: "env \<Rightarrow> event \<Rightarrow> string \<Rightarrow> json option" where
  "event_attribute E ev attribute =
     (if attribute = ''id'' then Some (JString (ev_id ev))
      else if attribute = ''event_type'' then Some (JString (ev_event_type ev))
      else if attribute = ''source'' then Some (JString (ev_source ev))
      else if attribute = ''payload'' then Some (JObject (ev_payload ev))
      else if attribute = ''idempotency_key'' then Some (optional_string_value (ev_idempotency_key ev))
      else if attribute = ''caused_by'' then Some (optional_string_value (ev_caused_by ev))
      else if attribute = ''session_id'' then Some (optional_string_value (ev_session_id ev))
      else if attribute = ''run_id'' then Some (optional_string_value (ev_run_id ev))
      else if attribute = ''turn_id'' then Some (optional_string_value (ev_turn_id ev))
      else if attribute = ''timestamp_ms'' then Some (JNumber (num_from_int E (ev_timestamp_ms ev)))
      else if attribute = ''cursor'' then Some (cursor_value E (ev_cursor ev))
      else None)"

definition string_character :: "string \<Rightarrow> nat \<Rightarrow> string option" where
  "string_character text expected_index = nth_opt (chars text) expected_index"

definition ok_or :: "'e \<Rightarrow> 'a option \<Rightarrow> ('e, 'a) result" where
  "ok_or e v = (case v of Some x \<Rightarrow> Ok x | None \<Rightarrow> Err e)"

fun index_template_value :: "string \<Rightarrow> json \<Rightarrow> field_name_part \<Rightarrow> (session_error, json) result" where
  "index_template_value field v (PartAttribute a) = Err (InvalidField field)"
| "index_template_value field (JArray vs) (PartIndex i) = ok_or (MissingField field) (nth_opt vs i)"
| "index_template_value field (JString s) (PartIndex i) =
     ok_or (MissingField field) (map_option JString (string_character s i))"
| "index_template_value field v (PartIndex i) = Err (InvalidField field)"
| "index_template_value field (JObject m) (PartStringIndex k) = ok_or (MissingField field) (map_get m k)"
| "index_template_value field v (PartStringIndex k) = Err (InvalidField field)"

fun index_parts :: "string \<Rightarrow> json \<Rightarrow> field_name_part list \<Rightarrow> (session_error, json) result" where
  "index_parts field v [] = Ok v"
| "index_parts field v (part # parts) =
     and_then (index_template_value field v part) (\<lambda>v. index_parts field v parts)"

definition resolve_template_field ::
  "format_lib \<Rightarrow> env \<Rightarrow> string \<Rightarrow> event \<Rightarrow> (session_error, template_value) result" where
  "resolve_template_field F E field ev =
     (case field_parse F field of
        None \<Rightarrow> Err (InvalidField field)
      | Some (FieldAuto, parts) \<Rightarrow> Err (MissingField field)
      | Some (FieldIndex i, parts) \<Rightarrow> Err (MissingField field)
      | Some (FieldKeyword keyword, parts) \<Rightarrow>
          if keyword = ''event'' then
            (case parts of
               [] \<Rightarrow> Ok (TemplateEvent (event_repr E ev False))
             | PartAttribute attribute # parts \<Rightarrow>
                 and_then (ok_or (MissingField field) (event_attribute E ev attribute)) (\<lambda>v.
                 and_then (index_parts field v parts) (\<lambda>v. Ok (TemplateJson v)))
             | _ # parts \<Rightarrow> Err (InvalidField field))
          else
            and_then (ok_or (MissingField field)
              (case map_get (ev_payload ev) keyword of Some v \<Rightarrow> Some v | None \<Rightarrow> event_attribute E ev keyword)) (\<lambda>v.
            and_then (index_parts field v parts) (\<lambda>v. Ok (TemplateJson v))))"

definition invalid_format :: "string \<Rightarrow> (string, 'a) result \<Rightarrow> (session_error, 'a) result" where
  "invalid_format field r = map_err (\<lambda>e. InvalidFormat (field @ '':'' @ e)) r"

definition format_json_value ::
  "format_lib \<Rightarrow> env \<Rightarrow> string \<Rightarrow> json \<Rightarrow> string \<Rightarrow> (session_error, string) result" where
  "format_json_value F E field v raw_spec =
     (case v of
        JNull \<Rightarrow> if raw_spec \<noteq> [] then Err (InvalidFormat field) else Ok ''None''
      | JBool b \<Rightarrow> invalid_format field (spec_format_bool F raw_spec b)
      | JNumber n \<Rightarrow>
          (case num_as_i64 E n of
             Some i \<Rightarrow> invalid_format field (spec_format_int F raw_spec i)
           | None \<Rightarrow>
               (case num_as_u64 E n of
                  Some u \<Rightarrow> invalid_format field (spec_format_int F raw_spec (int u))
                | None \<Rightarrow>
                    (case num_as_f64 E n of
                       Some f \<Rightarrow> invalid_format field (spec_format_float F raw_spec f)
                     | None \<Rightarrow> Err (InvalidFormat field))))
      | JString s \<Rightarrow> invalid_format field (spec_format_string F raw_spec s)
      | JArray vs \<Rightarrow> if raw_spec \<noteq> [] then Err (InvalidFormat field) else Ok (python_repr E (JArray vs) False)
      | JObject m \<Rightarrow> if raw_spec \<noteq> [] then Err (InvalidFormat field) else Ok (python_repr E (JObject m) False))"

definition format_template_value ::
  "format_lib \<Rightarrow> env \<Rightarrow> string \<Rightarrow> template_value \<Rightarrow> string option \<Rightarrow> string \<Rightarrow> (session_error, string) result" where
  "format_template_value F E field v conversion format_spec =
     and_then (invalid_format field (spec_parse F format_spec)) (\<lambda>_.
       case v of
         TemplateEvent shown \<Rightarrow>
           if conversion = None \<and> format_spec \<noteq> [] then Err (InvalidFormat field)
           else and_then
             (if conversion = Some ''a'' then Ok (ascii_escape shown)
              else if conversion = None \<or> conversion = Some ''s'' \<or> conversion = Some ''r'' then Ok shown
              else Err (InvalidFormat field))
             (\<lambda>shown. invalid_format field (spec_format_string F format_spec shown))
       | TemplateJson v \<Rightarrow>
           (case conversion of
              Some conversion \<Rightarrow>
                and_then
                  (if conversion = ''s'' then Ok (python_str E v)
                   else if conversion = ''r'' then Ok (python_repr E v False)
                   else if conversion = ''a'' then Ok (python_repr E v True)
                   else Err (InvalidFormat field))
                  (\<lambda>converted. invalid_format field (spec_format_string F format_spec converted))
            | None \<Rightarrow> format_json_value F E field v format_spec))"

fun render_parts ::
  "format_lib \<Rightarrow> env \<Rightarrow> event \<Rightarrow> (string \<Rightarrow> (session_error, string) result) \<Rightarrow> format_part list
     \<Rightarrow> (session_error, string) result" where
  "render_parts F E ev nested [] = Ok []"
| "render_parts F E ev nested (FormatLiteral literal # parts) =
     and_then (render_parts F E ev nested parts) (\<lambda>rendered. Ok (literal @ rendered))"
| "render_parts F E ev nested (FormatField field_name conversion_spec format_spec # parts) =
     and_then (resolve_template_field F E field_name ev) (\<lambda>v.
     and_then (if CHR ''{'' \<in> set format_spec \<or> CHR ''}'' \<in> set format_spec then nested format_spec
               else Ok format_spec) (\<lambda>format_spec.
     and_then (format_template_value F E field_name v conversion_spec format_spec) (\<lambda>t.
     and_then (render_parts F E ev nested parts) (\<lambda>rendered. Ok (t @ rendered)))))"

function render_template_text ::
  "format_lib \<Rightarrow> env \<Rightarrow> string \<Rightarrow> event \<Rightarrow> nat \<Rightarrow> (session_error, string) result" where
  "render_template_text F E template ev nesting =
     (if 2 < nesting then Err (MalformedTemplate template)
      else case format_from_str F template of
        None \<Rightarrow> Err (MalformedTemplate template)
      | Some parts \<Rightarrow> render_parts F E ev (\<lambda>spec. render_template_text F E spec ev (nesting + 1)) parts)"
  by pat_completeness auto
termination by (relation "measure (\<lambda>(F, E, template, ev, nesting). 3 - nesting)") auto

declare render_template_text.simps [simp del]

definition render_event_template ::
  "format_lib \<Rightarrow> env \<Rightarrow> string \<Rightarrow> event \<Rightarrow> (session_error, string) result" where
  "render_event_template F E template ev = render_template_text F E template ev 0"

section \<open>Session rules and routes\<close>

datatype session_rule = Shared | PerEvent | Template string

definition session_rule_resolve ::
  "format_lib \<Rightarrow> env \<Rightarrow> session_rule \<Rightarrow> string \<Rightarrow> event \<Rightarrow> (session_error, session_id) result" where
  "session_rule_resolve F E rule agent_id ev =
     and_then (case rule of
         Shared \<Rightarrow> Ok None
       | PerEvent \<Rightarrow> Ok (Some (ev_id ev))
       | Template template \<Rightarrow> and_then (render_event_template F E template ev) (\<lambda>s. Ok (Some s)))
       (\<lambda>s. Ok (session_id_for_agent agent_id s))"

definition session_rule_from_str :: "string \<Rightarrow> (session_error, session_rule) result" where
  "session_rule_from_str text =
     Ok (if text = ''shared'' then Shared else if text = ''per-event'' then PerEvent else Template text)"

record route =
  route_agent_id :: string
  route_accepts :: "event_pattern list"
  route_session :: session_rule
  route_lock_keys :: "string list"
  route_project_revision :: "string option"

fun any_matches :: "event_pattern list \<Rightarrow> event \<Rightarrow> bool" where
  "any_matches [] ev = False"
| "any_matches (p # ps) ev = (if pattern_matches p ev then True else any_matches ps ev)"

definition route_matches :: "route \<Rightarrow> event \<Rightarrow> bool" where
  "route_matches r ev = any_matches (route_accepts r) ev"

record route_decision =
  rd_agent_id :: string
  rd_queue_item_id :: queue_item_id
  rd_session_id :: session_id
  rd_lock_keys :: "string list"
  rd_project_revision :: "string option"

fun plan_routes ::
  "format_lib \<Rightarrow> env \<Rightarrow> event \<Rightarrow> route list \<Rightarrow> (session_error, route_decision list) result" where
  "plan_routes F E ev [] = Ok []"
| "plan_routes F E ev (r # rs) =
     (if \<not> route_matches r ev then plan_routes F E ev rs
      else and_then (session_rule_resolve F E (route_session r) (route_agent_id r) ev) (\<lambda>session_id.
           and_then (plan_routes F E ev rs) (\<lambda>decisions.
             Ok (\<lparr>rd_agent_id = route_agent_id r,
                  rd_queue_item_id = queue_item_id (ev_id ev) (route_agent_id r),
                  rd_session_id = session_id,
                  rd_lock_keys = route_lock_keys r,
                  rd_project_revision = route_project_revision r\<rparr> # decisions))))"

definition route_event ::
  "format_lib \<Rightarrow> env \<Rightarrow> event \<Rightarrow> route list \<Rightarrow> (session_error, route_decision list) result" where
  "route_event F E ev routes =
     and_then (plan_routes F E ev routes) (\<lambda>decisions.
       Ok (if length decisions = 1
           then [(hd decisions)\<lparr>rd_queue_item_id := pending_queue_item_id (ev_id ev)\<rparr>]
           else decisions))"

section \<open>Planned routes\<close>

lemma any_matches_iff: "any_matches ps ev \<longleftrightarrow> (\<exists>p \<in> set ps. pattern_matches p ev)"
  by (induction ps) auto

lemma route_matches_iff:
  "route_matches r ev \<longleftrightarrow> (\<exists>p \<in> set (route_accepts r). case pat_kind p of
     PatternExact \<Rightarrow> pat_text p = ev_event_type ev
   | PatternShellGlob \<Rightarrow> glob (chars (pat_text p)) (chars (ev_event_type ev)))"
  by (simp add: route_matches_def any_matches_iff pattern_matches_def shell_glob_decides cong: pattern_kind.case_cong)

definition resolves :: "format_lib \<Rightarrow> env \<Rightarrow> event \<Rightarrow> route \<Rightarrow> (session_error, session_id) result" where
  "resolves F E ev r = session_rule_resolve F E (route_session r) (route_agent_id r) ev"

definition decision_for :: "format_lib \<Rightarrow> env \<Rightarrow> event \<Rightarrow> queue_item_id \<Rightarrow> route \<Rightarrow> route_decision \<Rightarrow> bool" where
  "decision_for F E ev item r d \<longleftrightarrow>
     rd_agent_id d = route_agent_id r \<and> resolves F E ev r = Ok (rd_session_id d)
     \<and> rd_lock_keys d = route_lock_keys r \<and> rd_project_revision d = route_project_revision r
     \<and> rd_queue_item_id d = item"

lemma plan_routes_Ok:
  "plan_routes F E ev routes = Ok ds \<Longrightarrow>
     list_all2 (\<lambda>r. decision_for F E ev (queue_item_id (ev_id ev) (route_agent_id r)) r)
       (filter (\<lambda>r. route_matches r ev) routes) ds"
  by (induction routes arbitrary: ds)
    (auto simp: result_simps decision_for_def resolves_def split: if_splits)

lemma first_failure_Cons:
  "(\<exists>pre r post. x # xs = pre @ r # post \<and> list_all P pre \<and> Q r) \<longleftrightarrow>
     Q x \<or> P x \<and> (\<exists>pre r post. xs = pre @ r # post \<and> list_all P pre \<and> Q r)"
  (is "?L \<longleftrightarrow> ?R")
proof
  assume ?L
  then obtain pre r post where "x # xs = pre @ r # post" "list_all P pre" "Q r" by blast
  then show ?R by (cases pre) auto
next
  assume ?R
  then show ?L
  proof (elim disjE conjE exE)
    assume "Q x"
    then have "x # xs = [] @ x # xs \<and> list_all P [] \<and> Q x" by simp
    then show ?L by blast
  next
    fix pre r post
    assume "P x" "xs = pre @ r # post" "list_all P pre" "Q r"
    then have "x # xs = (x # pre) @ r # post \<and> list_all P (x # pre) \<and> Q r" by simp
    then show ?L by blast
  qed
qed

lemma plan_routes_Err:
  "plan_routes F E ev routes = Err e \<longleftrightarrow>
     (\<exists>pre r post. filter (\<lambda>r. route_matches r ev) routes = pre @ r # post
        \<and> list_all (\<lambda>p. is_ok (resolves F E ev p)) pre \<and> resolves F E ev r = Err e)"
proof (induction routes)
  case (Cons r rs)
  show ?case
  proof (cases "route_matches r ev")
    case True
    have "plan_routes F E ev (r # rs) = Err e \<longleftrightarrow>
        resolves F E ev r = Err e \<or> is_ok (resolves F E ev r) \<and> plan_routes F E ev rs = Err e"
      using True by (auto simp: resolves_def result_simps is_ok_iff)
    with True Cons show ?thesis
      using first_failure_Cons [of r "filter (\<lambda>r. route_matches r ev) rs"] by simp
  qed (use Cons in simp)
qed simp

text \<open>C35: route planning yields one decision per matching route, in declaration order, with that
  route's agent, session, lock keys and revision; a single decision takes over the pending item and
  several get an item per agent.  It fails exactly with the first session that does not resolve.\<close>

theorem route_event_correct:
  "case route_event F E ev routes of
     Inr ds \<Rightarrow> list_all2
       (\<lambda>r. decision_for F E ev (if length ds = 1 then pending_queue_item_id (ev_id ev)
          else queue_item_id (ev_id ev) (route_agent_id r)) r)
       (filter (\<lambda>r. route_matches r ev) routes) ds
   | Inl e \<Rightarrow> (\<exists>pre r post. filter (\<lambda>r. route_matches r ev) routes = pre @ r # post
        \<and> list_all (\<lambda>p. is_ok (resolves F E ev p)) pre \<and> resolves F E ev r = Err e)"
proof (cases "plan_routes F E ev routes")
  case (Inl e)
  then show ?thesis using plan_routes_Err [of F E ev routes e] by (simp add: route_event_def)
next
  case (Inr ds)
  note all = plan_routes_Ok [OF Inr]
  show ?thesis
  proof (cases "length ds = 1")
    case True
    then obtain d where "ds = [d]" by (cases ds) auto
    with all Inr show ?thesis by (auto simp: route_event_def decision_for_def list_all2_Cons2)
  next
    case False
    with all Inr show ?thesis by (auto simp: route_event_def)
  qed
qed

end
