(* ===== verification/Chain.thy ===== *)
theory Chain
  imports Event
begin

text \<open>
  \<open>crates/zeta-journal/src/chain.rs\<close> and \<open>error.rs\<close>: the identity of payloads and entries, the
  hash chain, and its verifier.

  \<open>verify\<close> is the source's loop over a record of its local variables.  \<open>journal_ok\<close> says
  directly, without a loop, what a well-formed journal is; \<open>verify_iff\<close> shows that the verifier
  decides it.  The later sections show that a verified head fixes the whole history.
\<close>

section \<open>Errors\<close>

datatype append_error =
    EmptyId
  | EmptyEventType
  | EmptySource
  | CursorZero
  | CursorExhausted
  | PayloadEncoding canonical_json_error
  | DuplicateIdPayloadMismatch

fun append_error_reason :: "append_error \<Rightarrow> string" where
  "append_error_reason EmptyId = ''empty_id''"
| "append_error_reason EmptyEventType = ''empty_event_type''"
| "append_error_reason EmptySource = ''empty_source''"
| "append_error_reason CursorZero = ''cursor_zero''"
| "append_error_reason CursorExhausted = ''cursor_exhausted''"
| "append_error_reason (PayloadEncoding _) = ''payload_encoding''"
| "append_error_reason DuplicateIdPayloadMismatch = ''duplicate_id_payload_mismatch''"

definition append_error_from :: "canonical_json_error \<Rightarrow> append_error" where
  "append_error_from error = PayloadEncoding error"

datatype verification_error_kind =
    CursorOrder "nat option" "nat option"
  | DuplicateId
  | DuplicateIdempotencyKey string
  | VPayloadEncoding
  | PayloadAddressMismatch hash hash
  | PreviousAddressMismatch "hash option" "hash option"
  | EntryAddressMismatch "hash option" hash
  | ExpectedHeadMismatch "hash option" "hash option"

fun verification_reason :: "verification_error_kind \<Rightarrow> string" where
  "verification_reason (CursorOrder _ _) = ''cursor_order''"
| "verification_reason DuplicateId = ''duplicate_id''"
| "verification_reason (DuplicateIdempotencyKey _) = ''duplicate_idempotency_key''"
| "verification_reason VPayloadEncoding = ''payload_encoding''"
| "verification_reason (PayloadAddressMismatch _ _) = ''payload_address''"
| "verification_reason (PreviousAddressMismatch _ _) = ''previous_address''"
| "verification_reason (EntryAddressMismatch _ _) = ''entry_address''"
| "verification_reason (ExpectedHeadMismatch _ _) = ''expected_head''"

record verification_error =
  verr_entries_checked :: nat
  verr_event_id :: "string option"
  verr_cursor :: "nat option"
  verr_kind :: verification_error_kind

record verification_report =
  rep_entries_checked :: nat
  rep_head :: "hash option"

section \<open>Identity\<close>

definition canonical_payload :: "env \<Rightarrow> json_map \<Rightarrow> (canonical_json_error, bytes) result" where
  "canonical_payload E payload = canonical_json E (JObject payload)"

definition payload_address :: "env \<Rightarrow> bytes \<Rightarrow> hash" where
  "payload_address E payload_bytes = hash_bytes E payload_bytes"

definition validate_identity_fields :: "event \<Rightarrow> (append_error, unit) result" where
  "validate_identity_fields ev =
     (if ev_id ev = [] then Err EmptyId
      else if ev_event_type ev = [] then Err EmptyEventType
      else if ev_source ev = [] then Err EmptySource
      else Ok ())"

fun optional_text :: "string option \<Rightarrow> json" where
  "optional_text (Some s) = JString s"
| "optional_text None = JNull"

fun optional_hash :: "hash option \<Rightarrow> json" where
  "optional_hash (Some h) = JString (hash_display h)"
| "optional_hash None = JNull"

definition chain_value :: "env \<Rightarrow> event \<Rightarrow> hash \<Rightarrow> hash option \<Rightarrow> json" where
  "chain_value E ev pa prev = JArray
     [JNumber (num_from_int E 0),
      JString (ev_id ev),
      JString (ev_event_type ev),
      JString (ev_source ev),
      JString (hash_display pa),
      optional_text (ev_idempotency_key ev),
      optional_text (ev_caused_by ev),
      optional_text (ev_session_id ev),
      optional_text (ev_run_id ev),
      optional_text (ev_turn_id ev),
      JNumber (num_from_int E (ev_timestamp_ms ev)),
      optional_hash prev]"

definition canonical_chain_bytes :: "env \<Rightarrow> event \<Rightarrow> hash \<Rightarrow> hash option \<Rightarrow> (append_error, bytes) result" where
  "canonical_chain_bytes E ev pa prev =
     and_then (validate_identity_fields ev) (\<lambda>_.
       map_err append_error_from (canonical_json E (chain_value E ev pa prev)))"

definition entry_address :: "env \<Rightarrow> event \<Rightarrow> hash \<Rightarrow> hash option \<Rightarrow> (append_error, hash) result" where
  "entry_address E ev pa prev =
     and_then (canonical_chain_bytes E ev pa prev) (\<lambda>bytes. Ok (derive E DomainChain bytes))"

record journal_entry =
  je_event :: event
  je_payload_bytes :: bytes
  je_payload_address :: hash
  je_previous_address :: "hash option"
  je_entry_address :: hash

definition journal_entry_new ::
  "env \<Rightarrow> event \<Rightarrow> nat \<Rightarrow> hash option \<Rightarrow> (append_error, journal_entry) result" where
  "journal_entry_new E ev cursor previous_address =
     (if cursor = 0 then Err CursorZero
      else and_then (validate_identity_fields ev) (\<lambda>_.
        and_then (map_err append_error_from (canonical_payload E (ev_payload ev))) (\<lambda>payload_bytes.
          let pa = payload_address E payload_bytes;
              ev = ev\<lparr>ev_cursor := Some cursor\<rparr>
          in and_then (entry_address E ev pa previous_address) (\<lambda>ea.
            Ok \<lparr>je_event = ev, je_payload_bytes = payload_bytes, je_payload_address = pa,
                je_previous_address = previous_address, je_entry_address = ea\<rparr>))))"

section \<open>Verification\<close>

datatype head_expectation = Unanchored | Exact "hash option"

record verify_state =
  vs_previous_address :: "hash option"
  vs_previous_cursor :: "nat option"
  vs_seen_ids :: "string set"
  vs_seen_keys :: "string set"
  vs_entries_checked :: nat
  vs_last_event_id :: "string option"
  vs_last_cursor :: "nat option"

definition verify_start :: verify_state where
  "verify_start =
     \<lparr>vs_previous_address = None, vs_previous_cursor = None, vs_seen_ids = {}, vs_seen_keys = {},
      vs_entries_checked = 0, vs_last_event_id = None, vs_last_cursor = None\<rparr>"

definition verification_error_at ::
  "nat \<Rightarrow> string \<Rightarrow> nat option \<Rightarrow> verification_error_kind \<Rightarrow> verification_error" where
  "verification_error_at entries_checked event_id cursor kind =
     \<lparr>verr_entries_checked = entries_checked, verr_event_id = Some event_id,
      verr_cursor = cursor, verr_kind = kind\<rparr>"

definition cursor_is_valid :: "nat option \<Rightarrow> nat option \<Rightarrow> bool" where
  "cursor_is_valid previous_cursor cursor =
     (case cursor of
        Some cursor \<Rightarrow> cursor > 0 \<and> (case previous_cursor of Some p \<Rightarrow> cursor > p | None \<Rightarrow> True)
      | None \<Rightarrow> False)"

definition verify_entry ::
  "env \<Rightarrow> verify_state \<Rightarrow> journal_entry \<Rightarrow> (verification_error, verify_state) result" where
  "verify_entry E st entry =
     (let ev = je_event entry; cursor = ev_cursor ev;
          fail = (\<lambda>kind. Err (verification_error_at (vs_entries_checked st) (ev_id ev) cursor kind))
      in if \<not> cursor_is_valid (vs_previous_cursor st) cursor
         then fail (CursorOrder (vs_previous_cursor st) cursor)
         else if ev_id ev \<in> vs_seen_ids st then fail DuplicateId
         else if (case ev_idempotency_key ev of Some k \<Rightarrow> k \<in> vs_seen_keys st | None \<Rightarrow> False)
         then fail (DuplicateIdempotencyKey (the (ev_idempotency_key ev)))
         else case canonical_payload E (ev_payload ev) of
           Inl _ \<Rightarrow> fail VPayloadEncoding
         | Inr payload \<Rightarrow>
             if je_payload_bytes entry \<noteq> payload then fail VPayloadEncoding
             else let expected_payload_address = payload_address E payload in
               if je_payload_address entry \<noteq> expected_payload_address
               then fail (PayloadAddressMismatch expected_payload_address (je_payload_address entry))
               else if je_previous_address entry \<noteq> vs_previous_address st
               then fail (PreviousAddressMismatch (vs_previous_address st) (je_previous_address entry))
               else let expected_entry_address =
                      (case entry_address E ev expected_payload_address (vs_previous_address st) of
                         Inl _ \<Rightarrow> None | Inr a \<Rightarrow> Some a)
                 in if expected_entry_address \<noteq> Some (je_entry_address entry)
                 then fail (EntryAddressMismatch expected_entry_address (je_entry_address entry))
                 else Ok \<lparr>vs_previous_address = expected_entry_address,
                          vs_previous_cursor = cursor,
                          vs_seen_ids = insert (ev_id ev) (vs_seen_ids st),
                          vs_seen_keys = (case ev_idempotency_key ev of
                             Some k \<Rightarrow> insert k (vs_seen_keys st) | None \<Rightarrow> vs_seen_keys st),
                          vs_entries_checked = vs_entries_checked st + 1,
                          vs_last_event_id = Some (ev_id ev),
                          vs_last_cursor = cursor\<rparr>)"

primrec verify_entries ::
  "env \<Rightarrow> verify_state \<Rightarrow> journal_entry list \<Rightarrow> (verification_error, verify_state) result" where
  "verify_entries E st [] = Ok st"
| "verify_entries E st (e # es) = and_then (verify_entry E st e) (\<lambda>st. verify_entries E st es)"

definition verify ::
  "env \<Rightarrow> journal_entry list \<Rightarrow> head_expectation \<Rightarrow> (verification_error, verification_report) result" where
  "verify E entries expectation =
     and_then (verify_entries E verify_start entries) (\<lambda>st.
       let report = \<lparr>rep_entries_checked = vs_entries_checked st, rep_head = vs_previous_address st\<rparr>
       in case expectation of
            Unanchored \<Rightarrow> Ok report
          | Exact expected \<Rightarrow>
              if vs_previous_address st \<noteq> expected then
                Err \<lparr>verr_entries_checked = vs_entries_checked st, verr_event_id = vs_last_event_id st,
                     verr_cursor = vs_last_cursor st,
                     verr_kind = ExpectedHeadMismatch expected (vs_previous_address st)\<rparr>
              else Ok report)"

section \<open>Well-formed journals\<close>

definition je_cursor :: "journal_entry \<Rightarrow> nat option" where
  "je_cursor e = ev_cursor (je_event e)"

definition je_keys :: "journal_entry list \<Rightarrow> string list" where
  "je_keys es = List.map_filter (\<lambda>e. ev_idempotency_key (je_event e)) es"

definition je_ids :: "journal_entry list \<Rightarrow> string list" where
  "je_ids es = map (\<lambda>e. ev_id (je_event e)) es"

definition journal_head :: "journal_entry list \<Rightarrow> hash option" where
  "journal_head es = (if es = [] then None else Some (je_entry_address (last es)))"

definition entry_ok :: "env \<Rightarrow> hash option \<Rightarrow> journal_entry \<Rightarrow> bool" where
  "entry_ok E prev e \<longleftrightarrow>
     canonical_payload E (ev_payload (je_event e)) = Ok (je_payload_bytes e)
     \<and> je_payload_address e = payload_address E (je_payload_bytes e)
     \<and> je_previous_address e = prev
     \<and> entry_address E (je_event e) (je_payload_address e) prev = Ok (je_entry_address e)"

definition linked :: "env \<Rightarrow> journal_entry list \<Rightarrow> bool" where
  "linked E es \<longleftrightarrow> (\<forall>i < length es. entry_ok E (journal_head (take i es)) (es ! i))"

definition cursors_ordered :: "journal_entry list \<Rightarrow> bool" where
  "cursors_ordered es \<longleftrightarrow>
     (\<forall>e \<in> set es. je_cursor e \<noteq> None \<and> 0 < the (je_cursor e))
     \<and> sorted_wrt (<) (map (the \<circ> je_cursor) es)"

definition journal_ok :: "env \<Rightarrow> journal_entry list \<Rightarrow> bool" where
  "journal_ok E es \<longleftrightarrow>
     cursors_ordered es \<and> distinct (je_ids es) \<and> distinct (je_keys es) \<and> linked E es"

definition last_cursor :: "journal_entry list \<Rightarrow> nat option" where
  "last_cursor es = (if es = [] then None else je_cursor (last es))"

definition verified_state :: "journal_entry list \<Rightarrow> verify_state" where
  "verified_state es =
     \<lparr>vs_previous_address = journal_head es, vs_previous_cursor = last_cursor es,
      vs_seen_ids = set (je_ids es), vs_seen_keys = set (je_keys es),
      vs_entries_checked = length es,
      vs_last_event_id = (if es = [] then None else Some (ev_id (je_event (last es)))),
      vs_last_cursor = last_cursor es\<rparr>"

lemma journal_ok_Nil [simp]: "journal_ok E []"
  by (simp add: journal_ok_def cursors_ordered_def linked_def je_ids_def je_keys_def)

lemma journal_head_Nil [simp]: "journal_head [] = None"
  and journal_head_snoc [simp]: "journal_head (es @ [e]) = Some (je_entry_address e)"
  by (simp_all add: journal_head_def)

lemma je_keys_append [simp]: "je_keys (es @ fs) = je_keys es @ je_keys fs"
  by (simp add: je_keys_def List.map_filter_def)

lemma je_keys_single [simp]:
  "je_keys [e] = (case ev_idempotency_key (je_event e) of None \<Rightarrow> [] | Some k \<Rightarrow> [k])"
  by (simp add: je_keys_def map_filter_simps split: option.splits)

lemma je_ids_append [simp]: "je_ids (es @ fs) = je_ids es @ je_ids fs"
  and je_ids_simps [simp]: "je_ids [] = []" "je_ids (e # fs) = ev_id (je_event e) # je_ids fs"
  by (simp_all add: je_ids_def)

lemma je_keys_Nil [simp]: "je_keys [] = []"
  by (simp add: je_keys_def map_filter_simps)

lemma linked_snoc [simp]: "linked E (es @ [e]) \<longleftrightarrow> linked E es \<and> entry_ok E (journal_head es) e"
  by (auto simp: linked_def nth_append less_Suc_eq)

lemma sorted_wrt_less_last:
  "sorted_wrt (<) (xs :: nat list) \<Longrightarrow> (\<forall>x \<in> set xs. x < y) \<longleftrightarrow> (xs = [] \<or> last xs < y)"
  by (induction xs rule: rev_induct) (auto simp: sorted_wrt_append)

lemma cursors_ordered_snoc [simp]:
  "cursors_ordered (es @ [e]) \<longleftrightarrow> cursors_ordered es \<and> cursor_is_valid (last_cursor es) (je_cursor e)"
proof (cases "cursors_ordered es")
  case True
  then have s: "sorted_wrt (<) (map (the \<circ> je_cursor) es)" by (simp add: cursors_ordered_def)
  have "last_cursor es = (if es = [] then None else Some (last (map (the \<circ> je_cursor) es)))"
    using True by (simp add: last_cursor_def cursors_ordered_def last_map)
  then show ?thesis
    using True sorted_wrt_less_last [OF s, of "the (je_cursor e)"]
    by (auto simp: cursors_ordered_def cursor_is_valid_def sorted_wrt_append split: option.splits)
qed (auto simp: cursors_ordered_def sorted_wrt_append)

lemma journal_ok_snoc:
  "journal_ok E (es @ [e]) \<longleftrightarrow>
     journal_ok E es \<and> cursor_is_valid (last_cursor es) (je_cursor e)
     \<and> ev_id (je_event e) \<notin> set (je_ids es)
     \<and> (case ev_idempotency_key (je_event e) of None \<Rightarrow> True | Some k \<Rightarrow> k \<notin> set (je_keys es))
     \<and> entry_ok E (journal_head es) e"
  by (auto simp: journal_ok_def split: option.splits)

lemma journal_ok_appendD: "journal_ok E (es @ fs) \<Longrightarrow> journal_ok E es"
proof (induction fs rule: rev_induct)
  case (snoc f fs)
  then show ?case using journal_ok_snoc [of E "es @ fs" f] by simp
qed simp

section \<open>The verifier decides well-formedness\<close>

lemma verified_state_sel [simp]:
  "vs_previous_address (verified_state es) = journal_head es"
  "vs_entries_checked (verified_state es) = length es"
  by (simp_all add: verified_state_def)

lemma verified_state_Nil: "verified_state [] = verify_start"
  by (simp add: verified_state_def verify_start_def last_cursor_def)

lemma verify_entry_Ok:
  assumes "journal_ok E es"
  shows "verify_entry E (verified_state es) e = Ok st \<longleftrightarrow>
    journal_ok E (es @ [e]) \<and> st = verified_state (es @ [e])"
  using assms unfolding journal_ok_snoc
  by (auto simp: verify_entry_def verified_state_def entry_ok_def Let_def je_cursor_def last_cursor_def
      split: if_splits sum.splits option.splits)

lemma verify_entry_Err:
  assumes "verify_entry E st e = Err err"
  shows "verr_entries_checked err = vs_entries_checked st \<and> verr_event_id err = Some (ev_id (je_event e))
    \<and> verr_cursor err = je_cursor e"
  using assms
  by (auto simp: verify_entry_def verification_error_at_def Let_def je_cursor_def
      split: if_splits sum.splits option.splits)

lemma verify_entries_Ok:
  "journal_ok E es \<Longrightarrow> verify_entries E (verified_state es) fs = Ok st \<longleftrightarrow>
    journal_ok E (es @ fs) \<and> st = verified_state (es @ fs)"
proof (induction fs arbitrary: es)
  case (Cons f fs)
  show ?case
  proof
    assume "verify_entries E (verified_state es) (f # fs) = Ok st"
    then show "journal_ok E (es @ f # fs) \<and> st = verified_state (es @ f # fs)"
      using verify_entry_Ok [OF Cons.prems] Cons.IH [of "es @ [f]"] by (auto simp: result_simps)
  next
    assume ok: "journal_ok E (es @ f # fs) \<and> st = verified_state (es @ f # fs)"
    then have "journal_ok E (es @ [f])" using journal_ok_appendD [of E "es @ [f]" fs] by simp
    with ok verify_entry_Ok [OF Cons.prems] Cons.IH [of "es @ [f]"]
    show "verify_entries E (verified_state es) (f # fs) = Ok st" by (auto simp: result_simps)
  qed
qed auto

lemma verify_entries_Err:
  "journal_ok E es \<Longrightarrow> verify_entries E (verified_state es) fs = Err err \<Longrightarrow>
    \<exists>pre f post. fs = pre @ f # post \<and> journal_ok E (es @ pre) \<and> \<not> journal_ok E (es @ pre @ [f])
      \<and> verr_entries_checked err = length (es @ pre) \<and> verr_event_id err = Some (ev_id (je_event f))
      \<and> verr_cursor err = je_cursor f"
proof (induction fs arbitrary: es)
  case (Cons f fs)
  show ?case
  proof (cases "verify_entry E (verified_state es) f")
    case (Inl e)
    with Cons.prems have "err = e" by simp
    with Inl verify_entry_Err [OF Inl] verify_entry_Ok [OF Cons.prems(1), of f] Cons.prems(1)
    show ?thesis by (intro exI [of _ "[]"] exI [of _ f] exI [of _ fs]) (auto simp: verified_state_def)
  next
    case (Inr st)
    with verify_entry_Ok [OF Cons.prems(1)] have ok: "journal_ok E (es @ [f])" "st = verified_state (es @ [f])"
      by auto
    with Inr Cons.prems(2) have "verify_entries E (verified_state (es @ [f])) fs = Err err" by simp
    from Cons.IH [OF ok(1) this] obtain pre g post where
      "fs = pre @ g # post" "journal_ok E ((es @ [f]) @ pre)" "\<not> journal_ok E ((es @ [f]) @ pre @ [g])"
      "verr_entries_checked err = length ((es @ [f]) @ pre)" "verr_event_id err = Some (ev_id (je_event g))"
      "verr_cursor err = je_cursor g" by blast
    then show ?thesis by (intro exI [of _ "f # pre"] exI [of _ g] exI [of _ post]) auto
  qed
qed simp

section \<open>A head fixes the history\<close>

text \<open>
  What the chain commits to in an entry: everything but the cursor, which is not hashed, and the
  payload up to the order of its members and the spelling of its numbers.
\<close>

definition committed :: "env \<Rightarrow> journal_entry \<Rightarrow> journal_entry \<times> json" where
  "committed E e =
     (e\<lparr>je_event := (je_event e)\<lparr>ev_cursor := None, ev_payload := []\<rparr>\<rparr>,
      normal E (JObject (ev_payload (je_event e))))"

definition chain_inputs :: "env \<Rightarrow> journal_entry list \<Rightarrow> bytes set" where
  "chain_inputs E es =
     {b. \<exists>e \<in> set es. canonical_chain_bytes E (je_event e) (je_payload_address e) (je_previous_address e) = Ok b}"

text \<open>The collisions that would let two histories share a head are absent from their entries.\<close>

definition no_collision :: "env \<Rightarrow> journal_entry list \<Rightarrow> bool" where
  "no_collision E es \<longleftrightarrow>
     inj_on (derive E DomainChain) (chain_inputs E es) \<and> inj_on (hash_bytes E) (je_payload_bytes ` set es)"

definition timestamps_i64 :: "journal_entry list \<Rightarrow> bool" where
  "timestamps_i64 es \<longleftrightarrow> list_all (\<lambda>e. is_i64 (ev_timestamp_ms (je_event e))) es"

definition host_laws :: "env \<Rightarrow> bool" where
  "host_laws E \<longleftrightarrow> json_printing E \<and> integer_printing E \<and> digest_law E"

lemma sample_host_laws [simp]: "host_laws sample_env"
  by (simp add: host_laws_def)

lemma number_text_int: "integer_printing E \<Longrightarrow> is_i64 i \<Longrightarrow> number_text E (num_from_int E i) = show_int i"
  by (simp add: integer_printing_def number_text_def)

lemma optional_text_inject [simp]: "normal E (optional_text a) = normal E (optional_text b) \<longleftrightarrow> a = b"
  by (cases a; cases b) simp_all

lemma optional_hash_inject:
  "\<forall>h. a = Some h \<or> b = Some h \<longrightarrow> wf_hash h \<Longrightarrow>
    normal E (optional_hash a) = normal E (optional_hash b) \<longleftrightarrow> a = b"
  by (cases a; cases b) (simp_all add: hash_text.display_inject)

lemma chain_value_inject:
  assumes "normal E (chain_value E ev pa prev) = normal E (chain_value E ev' pa' prev')"
    and "integer_printing E" "is_i64 (ev_timestamp_ms ev)" "is_i64 (ev_timestamp_ms ev')"
    and "wf_hash pa" "wf_hash pa'" "\<forall>h. prev = Some h \<or> prev' = Some h \<longrightarrow> wf_hash h"
  shows "ev\<lparr>ev_cursor := None, ev_payload := []\<rparr> = ev'\<lparr>ev_cursor := None, ev_payload := []\<rparr>
    \<and> pa = pa' \<and> prev = prev'"
  using assms
  by (simp add: chain_value_def number_text_int optional_hash_inject hash_text.display_inject)

lemma entry_ok_chain_bytes:
  assumes "entry_ok E prev e"
  obtains b where "canonical_chain_bytes E (je_event e) (je_payload_address e) prev = Ok b"
    "je_entry_address e = derive E DomainChain b"
  using assms by (auto simp: entry_ok_def entry_address_def result_simps)

lemma entry_ok_wf:
  assumes "digest_law E" "entry_ok E prev e"
  shows "wf_hash (je_payload_address e)" "wf_hash (je_entry_address e)"
proof -
  show "wf_hash (je_payload_address e)" using assms by (simp add: entry_ok_def payload_address_def)
  obtain b where "je_entry_address e = derive E DomainChain b" using assms(2) by (rule entry_ok_chain_bytes)
  then show "wf_hash (je_entry_address e)" using assms(1) by simp
qed

lemmas canonical_json_identifies = write_value_inject [folded canonical_json_def]

lemma same_address_same_entry:
  assumes laws: "host_laws E" and e: "entry_ok E p e" and f: "entry_ok E q f"
    and eq: "je_entry_address e = je_entry_address f"
    and nc: "no_collision E es" "e \<in> set es" "f \<in> set es" "timestamps_i64 es"
    and wf: "\<forall>h. p = Some h \<or> q = Some h \<longrightarrow> wf_hash h"
  shows "committed E e = committed E f \<and> p = q"
proof -
  have laws': "json_printing E" "integer_printing E" "digest_law E" using laws by (simp_all add: host_laws_def)
  obtain b c where b: "canonical_chain_bytes E (je_event e) (je_payload_address e) p = Ok b"
    "je_entry_address e = derive E DomainChain b"
    and c: "canonical_chain_bytes E (je_event f) (je_payload_address f) q = Ok c"
    "je_entry_address f = derive E DomainChain c"
    using entry_ok_chain_bytes [OF e] entry_ok_chain_bytes [OF f] by metis
  have pq: "je_previous_address e = p" "je_previous_address f = q"
    using e f by (simp_all add: entry_ok_def)
  then have "b \<in> chain_inputs E es" "c \<in> chain_inputs E es"
    using b c nc(2,3) by (auto simp: chain_inputs_def)
  with nc(1) eq b c have "b = c" unfolding no_collision_def by (metis inj_onD)
  with b c have "normal E (chain_value E (je_event e) (je_payload_address e) p)
      = normal E (chain_value E (je_event f) (je_payload_address f) q)"
    by (auto simp: canonical_chain_bytes_def result_simps intro: canonical_json_identifies [OF laws'(1)])
  then have same: "(je_event e)\<lparr>ev_cursor := None, ev_payload := []\<rparr> = (je_event f)\<lparr>ev_cursor := None, ev_payload := []\<rparr>"
    "je_payload_address e = je_payload_address f" "p = q"
    using chain_value_inject [OF _ laws'(2), of "je_event e" "je_payload_address e" p "je_event f" "je_payload_address f" q]
      nc(2-4) entry_ok_wf(1) [OF laws'(3) e] entry_ok_wf(1) [OF laws'(3) f] wf
    by (auto simp: timestamps_i64_def list_all_iff)
  have "je_payload_bytes e = je_payload_bytes f"
    using e f same(2) nc(1-3) by (auto simp: entry_ok_def payload_address_def no_collision_def dest: inj_onD)
  moreover from this e f have "normal E (JObject (ev_payload (je_event e))) = normal E (JObject (ev_payload (je_event f)))"
    by (intro canonical_json_identifies [OF laws'(1), of _ "je_payload_bytes f"])
      (simp_all only: entry_ok_def canonical_payload_def)
  ultimately show ?thesis using same eq pq by (simp add: committed_def)
qed

lemma journal_head_wf:
  assumes "digest_law E" "journal_ok E es" "journal_head es = Some h"
  shows "wf_hash h"
proof (cases es rule: rev_cases)
  case (snoc fs f)
  with assms show ?thesis by (auto simp: journal_ok_snoc dest: entry_ok_wf(2))
qed (use assms in simp)

lemma same_head_same_history:
  assumes laws: "host_laws E" and nc: "no_collision E all" "timestamps_i64 all"
  shows "journal_ok E es \<Longrightarrow> journal_ok E fs \<Longrightarrow> set es \<subseteq> set all \<Longrightarrow> set fs \<subseteq> set all \<Longrightarrow>
    journal_head es = journal_head fs \<Longrightarrow> map (committed E) es = map (committed E) fs"
proof (induction es arbitrary: fs rule: rev_induct)
  case Nil
  then show ?case by (cases fs rule: rev_cases) auto
next
  case (snoc e es)
  then obtain f fs' where fs: "fs = fs' @ [f]" by (cases fs rule: rev_cases) auto
  have e: "entry_ok E (journal_head es) e" and f: "entry_ok E (journal_head fs') f"
    and es: "journal_ok E es" and fs': "journal_ok E fs'"
    using snoc.prems fs by (simp_all add: journal_ok_snoc)
  have eq: "je_entry_address e = je_entry_address f" using snoc.prems(5) fs by simp
  have "digest_law E" using laws by (simp add: host_laws_def)
  then have wf: "\<forall>h. journal_head es = Some h \<or> journal_head fs' = Some h \<longrightarrow> wf_hash h"
    using journal_head_wf es fs' by blast
  have "e \<in> set all" "f \<in> set all" using snoc.prems fs by auto
  from same_address_same_entry [OF laws e f eq nc(1) this nc(2) wf]
  have "committed E e = committed E f" "journal_head es = journal_head fs'" by simp_all
  with snoc.IH [OF es fs'] snoc.prems fs show ?case by simp
qed

lemma verify_run:
  "verify_entries E verify_start entries = Ok st \<longleftrightarrow> journal_ok E entries \<and> st = verified_state entries"
  using verify_entries_Ok [of E "[]" entries st] by (simp add: verified_state_Nil)

section \<open>New entries\<close>

lemma journal_entry_new_entry_ok:
  assumes "journal_entry_new E ev cursor prev = Ok e"
  shows "entry_ok E prev e \<and> je_event e = ev\<lparr>ev_cursor := Some cursor\<rparr> \<and> cursor \<noteq> 0"
proof -
  from assms have "cursor \<noteq> 0" by (auto simp: journal_entry_new_def split: if_splits)
  with assms obtain bytes ea where "canonical_payload E (ev_payload ev) = Ok bytes"
    "entry_address E (ev\<lparr>ev_cursor := Some cursor\<rparr>) (payload_address E bytes) prev = Ok ea"
    "e = \<lparr>je_event = ev\<lparr>ev_cursor := Some cursor\<rparr>, je_payload_bytes = bytes,
       je_payload_address = payload_address E bytes, je_previous_address = prev, je_entry_address = ea\<rparr>"
    unfolding journal_entry_new_def Let_def
    by (auto simp: and_then_Ok_iff map_err_Ok_iff simp del: event.simps)
  with \<open>cursor \<noteq> 0\<close> show ?thesis by (simp add: entry_ok_def)
qed

lemma encodable_optional [simp]: "encodable E (optional_text a)" "encodable E (optional_hash h)"
  by (cases a; simp) (cases h; simp)

lemma encodable_chain_value:
  "integer_printing E \<Longrightarrow> is_i64 (ev_timestamp_ms ev) \<Longrightarrow> encodable E (chain_value E ev pa prev)"
  by (simp add: chain_value_def integer_printing_def is_i64_def)

lemma entry_address_total:
  assumes "integer_printing E" "is_i64 (ev_timestamp_ms ev)" "validate_identity_fields ev = Ok ()"
  shows "entry_address E ev pa prev =
    Ok (derive E DomainChain (enc (json_quote E) (normal E (chain_value E ev pa prev))))"
proof -
  have "canonical_json E (chain_value E ev pa prev) = Ok (enc (json_quote E) (normal E (chain_value E ev pa prev)))"
    using encodable_chain_value [OF assms(1,2)] by (simp add: canonical_json_def write_value_Ok_iff)
  then show ?thesis
    by (simp add: entry_address_def canonical_chain_bytes_def assms(3))
qed

lemma validate_identity_fields_cursor [simp]:
  "validate_identity_fields (ev\<lparr>ev_cursor := c\<rparr>) = validate_identity_fields ev"
  by (simp add: validate_identity_fields_def)

lemma chain_value_cursor [simp]: "chain_value E (ev\<lparr>ev_cursor := c\<rparr>) pa prev = chain_value E ev pa prev"
  by (simp add: chain_value_def)

lemma journal_entry_new_total:
  assumes "integer_printing E" "is_i64 (ev_timestamp_ms ev)" "validate_identity_fields ev = Ok ()"
    "canonical_payload E (ev_payload ev) = Ok b" "cursor \<noteq> 0"
  shows "journal_entry_new E ev cursor prev = Ok
    \<lparr>je_event = ev\<lparr>ev_cursor := Some cursor\<rparr>, je_payload_bytes = b,
     je_payload_address = payload_address E b, je_previous_address = prev,
     je_entry_address = derive E DomainChain
       (enc (json_quote E) (normal E (chain_value E ev (payload_address E b) prev)))\<rparr>"
  using assms by (simp add: journal_entry_new_def entry_address_total Let_def)

definition sample_event :: event where
  "sample_event = \<lparr>ev_id = ''e1'', ev_event_type = ''t'', ev_source = ''s'', ev_payload = [],
     ev_idempotency_key = None, ev_caused_by = None, ev_session_id = None, ev_run_id = None,
     ev_turn_id = None, ev_timestamp_ms = 7, ev_cursor = None\<rparr>"

definition sample_entry :: "nat \<Rightarrow> journal_entry" where
  "sample_entry cursor =
    \<lparr>je_event = sample_event\<lparr>ev_cursor := Some cursor\<rparr>, je_payload_bytes = ''{}'',
     je_payload_address = payload_address sample_env ''{}'', je_previous_address = None,
     je_entry_address = derive sample_env DomainChain
       (enc (json_quote sample_env) (normal sample_env
         (chain_value sample_env sample_event (payload_address sample_env ''{}'') None)))\<rparr>"

lemma sample_payload [simp]: "canonical_payload sample_env [] = Ok ''{}''"
  by (simp add: canonical_payload_def canonical_json_def)

lemma sample_entry_new: "cursor \<noteq> 0 \<Longrightarrow> journal_entry_new sample_env sample_event cursor None = Ok (sample_entry cursor)"
  unfolding sample_entry_def
  by (rule journal_entry_new_total)
    (simp_all add: sample_event_def is_i64_def validate_identity_fields_def)

lemma sample_journal_ok: "cursor \<noteq> 0 \<Longrightarrow> journal_ok sample_env [sample_entry cursor]"
proof -
  assume c: "cursor \<noteq> 0"
  have "entry_ok sample_env None (sample_entry cursor)"
    using journal_entry_new_entry_ok [OF sample_entry_new [OF c]] by simp
  moreover have "je_cursor (sample_entry cursor) = Some cursor" "ev_idempotency_key (je_event (sample_entry cursor)) = None"
    by (simp_all add: je_cursor_def sample_entry_def sample_event_def)
  ultimately show ?thesis
    using c journal_ok_snoc [of sample_env "[]" "sample_entry cursor"]
    by (simp add: cursor_is_valid_def last_cursor_def)
qed

lemma verify_exact_iff:
  "verify E entries (Exact h) = Ok report \<longleftrightarrow>
     journal_ok E entries \<and> journal_head entries = h
     \<and> report = \<lparr>rep_entries_checked = length entries, rep_head = journal_head entries\<rparr>"
  by (auto simp: verify_def verify_run verified_state_def Let_def and_then_Ok_iff split: if_splits)

section \<open>Properties\<close>

text \<open>C5: the verifier decides well-formedness.  It accepts a list of entries exactly when the cursors
  are positive and strictly increase, ids and idempotency keys do not repeat, every payload is in
  canonical form under its address, every entry names its predecessor's address and carries the
  address of its own chain bytes, and the head is the expected one; its report then counts the
  entries and names the last address.\<close>

theorem verify_iff:
  "verify E entries expectation = Ok report \<longleftrightarrow>
     journal_ok E entries
     \<and> (case expectation of Unanchored \<Rightarrow> True | Exact h \<Rightarrow> journal_head entries = h)
     \<and> report = \<lparr>rep_entries_checked = length entries, rep_head = journal_head entries\<rparr>"
  by (cases expectation)
    (auto simp: verify_def verify_run verified_state_def Let_def and_then_Ok_iff split: if_splits)

text \<open>C29: a rejection names the first divergence.  The entries counted as checked form a well-formed
  journal; if entries are left, the next one is the one named, and adding it breaks
  well-formedness; if none is left, the head differs from the expected one.\<close>

theorem verify_first_divergence:
  assumes "verify E entries expectation = Err err"
  defines "n \<equiv> verr_entries_checked err"
  shows "n \<le> length entries \<and> journal_ok E (take n entries)
    \<and> (if n < length entries
       then \<not> journal_ok E (take (Suc n) entries)
         \<and> verr_event_id err = Some (ev_id (je_event (entries ! n)))
         \<and> verr_cursor err = ev_cursor (je_event (entries ! n))
       else \<exists>h. expectation = Exact h \<and> journal_head entries \<noteq> h
         \<and> verr_kind err = ExpectedHeadMismatch h (journal_head entries))"
proof (cases "verify_entries E verify_start entries")
  case (Inl e)
  then have "e = err" using assms(1) by (simp add: verify_def)
  with verify_entries_Err [of E "[]" entries e] Inl obtain pre f post where
    "entries = pre @ f # post" "journal_ok E pre" "\<not> journal_ok E (pre @ [f])" "n = length pre"
    "verr_event_id err = Some (ev_id (je_event f))" "verr_cursor err = je_cursor f"
    by (auto simp: n_def verified_state_Nil)
  then show ?thesis by (simp add: je_cursor_def)
next
  case (Inr st)
  then have "journal_ok E entries" "st = verified_state entries" by (simp_all add: verify_run)
  with Inr assms(1) show ?thesis
    by (cases expectation) (auto simp: verify_def n_def Let_def split: if_splits)
qed

theorem verify_first_divergence_witness:
  "\<exists>err. verify sample_env [(sample_entry 1)\<lparr>je_payload_bytes := ''[]''\<rparr>] Unanchored = Err err
     \<and> verr_entries_checked err = 0
     \<and> \<not> journal_ok sample_env [(sample_entry 1)\<lparr>je_payload_bytes := ''[]''\<rparr>]"
proof -
  let ?es = "[(sample_entry 1)\<lparr>je_payload_bytes := ''[]''\<rparr>]"
  obtain err where err: "verify sample_env ?es Unanchored = Err err" "verr_entries_checked err = 0"
    by (simp add: verify_def verify_start_def verify_entry_def sample_entry_def sample_event_def
        cursor_is_valid_def Let_def verification_error_at_def)
  from verify_first_divergence [OF err(1)] err(2) have "\<not> journal_ok sample_env ?es" by simp
  with err show ?thesis by auto
qed

text \<open>C1: a head fixes the history.  Two journals that both verify against the same external head
  have the same number of entries, and entry by entry the same event, addresses and payload bytes;
  only the cursors, which the chain does not hash, and the spelling of the payloads can differ.
  This holds when BLAKE3 does not collide on the entries and payloads of the two journals.\<close>

theorem verified_head_fixes_history:
  assumes "host_laws E" "no_collision E (es @ fs)" "timestamps_i64 (es @ fs)"
    and "verify E es (Exact h) = Ok r" "verify E fs (Exact h) = Ok s"
  shows "map (committed E) es = map (committed E) fs \<and> r = s"
proof -
  have "journal_ok E es" "journal_head es = h" "journal_ok E fs" "journal_head fs = h"
    and r: "r = \<lparr>rep_entries_checked = length es, rep_head = journal_head es\<rparr>"
      "s = \<lparr>rep_entries_checked = length fs, rep_head = journal_head fs\<rparr>"
    using assms(4,5) unfolding verify_exact_iff by simp_all
  then have same: "map (committed E) es = map (committed E) fs"
    by (intro same_head_same_history [OF assms(1-3)]) auto
  then have "length es = length fs" by (rule map_eq_imp_length_eq)
  with same r \<open>journal_head es = h\<close> \<open>journal_head fs = h\<close> show ?thesis by simp
qed

theorem verified_head_fixes_history_witness:
  "\<exists>h. verify sample_env [sample_entry 1] (Exact h) = Ok \<lparr>rep_entries_checked = 1, rep_head = h\<rparr>
     \<and> verify sample_env [sample_entry 5] (Exact h) = Ok \<lparr>rep_entries_checked = 1, rep_head = h\<rparr>
     \<and> map (committed sample_env) [sample_entry 1] = map (committed sample_env) [sample_entry 5]"
proof -
  let ?es = "[sample_entry 1]" and ?fs = "[sample_entry 5]"
  have head: "journal_head ?es = journal_head ?fs" by (simp add: journal_head_def sample_entry_def)
  have ok: "verify sample_env ?es (Exact (journal_head ?es)) = Ok \<lparr>rep_entries_checked = 1, rep_head = journal_head ?es\<rparr>"
    "verify sample_env ?fs (Exact (journal_head ?es)) = Ok \<lparr>rep_entries_checked = 1, rep_head = journal_head ?es\<rparr>"
    unfolding verify_exact_iff using head sample_journal_ok [of 1] sample_journal_ok [of 5] by simp_all
  have "chain_inputs sample_env (?es @ ?fs) \<subseteq>
      {b. canonical_chain_bytes sample_env sample_event (payload_address sample_env ''{}'') None = Ok b}"
    by (auto simp: chain_inputs_def sample_entry_def canonical_chain_bytes_def)
  then have "inj_on (derive sample_env DomainChain) (chain_inputs sample_env (?es @ ?fs))"
    by (rule inj_on_subset [rotated]) (auto simp: inj_on_def)
  then have "no_collision sample_env (?es @ ?fs)"
    by (simp add: no_collision_def) (simp add: sample_entry_def)
  moreover have "timestamps_i64 (?es @ ?fs)"
    by (simp add: timestamps_i64_def sample_entry_def sample_event_def is_i64_def)
  ultimately show ?thesis
    using verified_head_fixes_history [OF sample_host_laws _ _ ok] ok by auto
qed

end
