(* ===== verification/Database.thy ===== *)
theory Database
  imports Routes Chain
begin

text \<open>
  \<open>crates/zeta-dispatch/src/sqlite.rs\<close>: the tables of a Dispatch database, the errors of its
  operations and the readers of lifecycle payloads.

  A table is the list of its rows.  A statement is translated to what SQL defines it to do on them,
  with the constraints of \<open>CREATE_SCHEMA\<close> and \<open>CREATE_PROJECTIONS\<close>: primary and unique keys, checks,
  foreign keys and their cascades.  A statement that violates a constraint is the error \<open>Database\<close>
  with the operation the source names (the text of SQLite's message is left out).  An operation that
  fails returns no database: its transaction is rolled back.  Failures of the disk and of locking, which
  also leave the database as it was, are not modelled.  Status and JSON columns hold text.
\<close>

section \<open>Errors\<close>

datatype dispatch_error =
    Append append_error
  | Verification verification_error
  | MissingBaseSchema
  | BaseSchemaEpoch int int
  | ProjectionSchemaEpoch int int
  | ReservedRuntimeEvent string
  | IngressEventNotFound string
  | RuntimeEventIdentityCount nat nat
  | DuplicateRuntimeEventIdentity string
  | RuntimeEventIdentityCollision string
  | IngressAlreadyRouted string
  | InvalidLifecycleEvent string string
  | Transition transition_error
  | Session session_error
  | SessionNotFound string
  | SessionOwnerConflict string "string list"
  | CorruptProjection string string
  | InvalidCoordinationInput string
  | ClaimNotCurrent string
  | CancellationSessionMismatch string "string option"
  | InvalidCancellationHandle string
  | CancellationResourceNotFound string
  | CancellationAuthorityMismatch string
  | InvalidCompletion string
  | InvalidTrace string string
  | CorruptTrace string string
  | CorruptJournal "nat option" string
  | StorageBusy string
  | Database string

fun dispatch_error_reason :: "dispatch_error \<Rightarrow> string" where
  "dispatch_error_reason (Append _) = ''append''"
| "dispatch_error_reason (Verification _) = ''verification''"
| "dispatch_error_reason MissingBaseSchema = ''missing_base_schema''"
| "dispatch_error_reason (BaseSchemaEpoch _ _) = ''base_schema_epoch''"
| "dispatch_error_reason (ProjectionSchemaEpoch _ _) = ''projection_schema_epoch''"
| "dispatch_error_reason (ReservedRuntimeEvent _) = ''reserved_runtime_event''"
| "dispatch_error_reason (IngressEventNotFound _) = ''ingress_event_not_found''"
| "dispatch_error_reason (RuntimeEventIdentityCount _ _) = ''runtime_event_identity_count''"
| "dispatch_error_reason (DuplicateRuntimeEventIdentity _) = ''duplicate_runtime_event_identity''"
| "dispatch_error_reason (RuntimeEventIdentityCollision _) = ''runtime_event_identity_collision''"
| "dispatch_error_reason (IngressAlreadyRouted _) = ''ingress_already_routed''"
| "dispatch_error_reason (InvalidLifecycleEvent _ _) = ''invalid_lifecycle_event''"
| "dispatch_error_reason (Transition (TransitionQueue _ _)) = ''queue_transition''"
| "dispatch_error_reason (Transition (TransitionAttempt _ _)) = ''attempt_transition''"
| "dispatch_error_reason (Session _) = ''session''"
| "dispatch_error_reason (SessionNotFound _) = ''session_not_found''"
| "dispatch_error_reason (SessionOwnerConflict _ _) = ''session_owner_conflict''"
| "dispatch_error_reason (CorruptProjection _ _) = ''corrupt_projection''"
| "dispatch_error_reason (InvalidCoordinationInput _) = ''invalid_coordination_input''"
| "dispatch_error_reason (ClaimNotCurrent _) = ''claim_not_current''"
| "dispatch_error_reason (CancellationSessionMismatch _ _) = ''cancellation_session_mismatch''"
| "dispatch_error_reason (InvalidCancellationHandle _) = ''invalid_cancellation_handle''"
| "dispatch_error_reason (CancellationResourceNotFound _) = ''cancellation_resource_not_found''"
| "dispatch_error_reason (CancellationAuthorityMismatch _) = ''cancellation_authority_mismatch''"
| "dispatch_error_reason (InvalidCompletion _) = ''invalid_completion''"
| "dispatch_error_reason (InvalidTrace _ _) = ''invalid_trace''"
| "dispatch_error_reason (CorruptTrace _ _) = ''corrupt_trace''"
| "dispatch_error_reason (CorruptJournal _ _) = ''corrupt_journal''"
| "dispatch_error_reason (StorageBusy _) = ''storage_busy''"
| "dispatch_error_reason (Database _) = ''database''"

section \<open>Tables\<close>

record stored_entry =
  se_cursor :: int
  se_event_id :: string
  se_event_type :: string
  se_source :: string
  se_payload_bytes :: bytes
  se_payload_address :: "u8 list"
  se_idempotency_key :: "string option"
  se_caused_by :: "string option"
  se_session_id :: "string option"
  se_run_id :: "string option"
  se_turn_id :: "string option"
  se_timestamp_ms :: int
  se_previous_address :: "u8 list option"
  se_entry_address :: "u8 list"

record queue_item_row =
  qi_id :: string
  qi_event_id :: string
  qi_target_agent :: string
  qi_project_revision :: "string option"
  qi_session_id :: "string option"
  qi_lock_keys_json :: string
  qi_input_cursor :: int
  qi_status :: string
  qi_available_at :: "int option"
  qi_cancel_requested_event_id :: "string option"
  qi_cancel_requested_at :: "int option"
  qi_cancel_reason :: "string option"
  qi_attempt_count :: int
  qi_last_error :: "string option"
  qi_updated_at :: int

record queue_claim_row =
  qc_queue_item_id :: string
  qc_worker_name :: string
  qc_claim_token :: string
  qc_claimed_at :: int
  qc_claimed_until :: int

record attempt_row =
  at_id :: string
  at_queue_item_id :: string
  at_event_id :: string
  at_number :: int
  at_target_agent :: string
  at_worker_name :: "string option"
  at_claim_token :: "string option"
  at_status :: string
  at_started_at :: string
  at_heartbeat_at :: "int option"
  at_finished_at :: "string option"
  at_error :: "string option"
  at_session_id :: "string option"
  at_run_id :: "string option"
  at_project_revision :: "string option"

record lock_row =
  lk_key :: string
  lk_owner :: string
  lk_acquired_at :: int
  lk_expires_at :: int

record wait_row =
  wt_handle :: string
  wt_agent_id :: string
  wt_session_id :: string
  wt_event_type :: string
  wt_fields_json :: string
  wt_deadline_ms :: "int option"
  wt_source_queue_item_id :: string
  wt_project_revision :: "string option"
  wt_created_event_id :: string
  wt_status :: string
  wt_matched_event_id :: "string option"
  wt_terminal_event_id :: "string option"
  wt_updated_at :: int

record deferred_row =
  dp_handle :: string
  dp_event_type :: string
  dp_payload_json :: string
  dp_publish_at_ms :: int
  dp_source_agent_id :: string
  dp_source_session_id :: "string option"
  dp_source_run_id :: "string option"
  dp_source_queue_item_id :: string
  dp_position :: int
  dp_created_event_id :: string
  dp_status :: string
  dp_published_event_id :: "string option"
  dp_terminal_event_id :: "string option"
  dp_updated_at :: int

record effect_row =
  ef_key :: string
  ef_operation :: string
  ef_semantics :: string
  ef_scope :: string
  ef_queue_item_id :: "string option"
  ef_params_json :: string
  ef_status :: string
  ef_result_json :: "string option"
  ef_caused_by :: string
  ef_planned_event_id :: string
  ef_terminal_event_id :: "string option"
  ef_updated_at :: int
  ef_delivery_attempts :: int
  ef_available_at :: "int option"

record effect_claim_row =
  ec_effect_key :: string
  ec_worker_name :: string
  ec_claim_token :: string
  ec_claimed_at :: int
  ec_claimed_until :: int

record db =
  db_journal :: "stored_entry list"
  db_queue_items :: "queue_item_row list"
  db_queue_claims :: "queue_claim_row list"
  db_attempts :: "attempt_row list"
  db_locks :: "lock_row list"
  db_waits :: "wait_row list"
  db_deferred :: "deferred_row list"
  db_effects :: "effect_row list"
  db_effect_claims :: "effect_claim_row list"

definition db_empty :: db where
  "db_empty = \<lparr>db_journal = [], db_queue_items = [], db_queue_claims = [], db_attempts = [], db_locks = [],
     db_waits = [], db_deferred = [], db_effects = [], db_effect_claims = []\<rparr>"

text \<open>\<open>length(x) > 0\<close> on text: SQLite counts the characters before the first NUL.\<close>

definition sql_nonempty :: "string \<Rightarrow> bool" where
  "sql_nonempty s \<longleftrightarrow> s \<noteq> [] \<and> hd s \<noteq> CHR 0x00"

definition sql_insert :: "string \<Rightarrow> bool \<Rightarrow> 'r \<Rightarrow> 'r list \<Rightarrow> (dispatch_error, 'r list) result" where
  "sql_insert operation constraints row rows = (if constraints then Ok (rows @ [row]) else Err (Database operation))"

definition sql_update :: "('r \<Rightarrow> bool) \<Rightarrow> ('r \<Rightarrow> 'r) \<Rightarrow> 'r list \<Rightarrow> 'r list" where
  "sql_update condition change rows = map (\<lambda>r. if condition r then change r else r) rows"

definition sql_count :: "('r \<Rightarrow> bool) \<Rightarrow> 'r list \<Rightarrow> nat" where
  "sql_count condition rows = length (filter condition rows)"

definition journal_has :: "db \<Rightarrow> string \<Rightarrow> bool" where
  "journal_has d event_id = list_ex (\<lambda>r. se_event_id r = event_id) (db_journal d)"

text \<open>Deleting claims deletes the locks their tokens own.\<close>

definition delete_queue_claims :: "(queue_claim_row \<Rightarrow> bool) \<Rightarrow> db \<Rightarrow> db" where
  "delete_queue_claims condition d =
     (let tokens = map qc_claim_token (filter condition (db_queue_claims d))
      in d\<lparr>db_queue_claims := filter (\<lambda>c. \<not> condition c) (db_queue_claims d),
           db_locks := filter (\<lambda>l. lk_owner l \<notin> set tokens) (db_locks d)\<rparr>)"

definition insert_queue_claim :: "queue_claim_row \<Rightarrow> db \<Rightarrow> (dispatch_error, db) result" where
  "insert_queue_claim c d =
     and_then (sql_insert ''insert queue claim''
       (sql_nonempty (qc_queue_item_id c) \<and> sql_nonempty (qc_worker_name c) \<and> sql_nonempty (qc_claim_token c)
        \<and> qc_claimed_at c < qc_claimed_until c
        \<and> list_all (\<lambda>r. qc_queue_item_id r \<noteq> qc_queue_item_id c \<and> qc_claim_token r \<noteq> qc_claim_token c) (db_queue_claims d)
        \<and> list_ex (\<lambda>r. qi_id r = qc_queue_item_id c) (db_queue_items d))
       c (db_queue_claims d)) (\<lambda>rows. Ok (d\<lparr>db_queue_claims := rows\<rparr>))"

definition insert_lock :: "lock_row \<Rightarrow> db \<Rightarrow> (dispatch_error, db) result" where
  "insert_lock l d =
     and_then (sql_insert ''acquire queue lock''
       (sql_nonempty (lk_key l) \<and> sql_nonempty (lk_owner l) \<and> lk_acquired_at l < lk_expires_at l
        \<and> list_all (\<lambda>r. lk_key r \<noteq> lk_key l) (db_locks d)
        \<and> list_ex (\<lambda>c. qc_claim_token c = lk_owner l) (db_queue_claims d))
       l (db_locks d)) (\<lambda>rows. Ok (d\<lparr>db_locks := rows\<rparr>))"

section \<open>Lifecycle payloads\<close>

definition invalid_lifecycle :: "event \<Rightarrow> string \<Rightarrow> dispatch_error" where
  "invalid_lifecycle ev field = InvalidLifecycleEvent (ev_id ev) field"

definition corrupt_projection :: "string \<Rightarrow> string \<Rightarrow> dispatch_error" where
  "corrupt_projection table field = CorruptProjection table field"

definition required_payload_string :: "event \<Rightarrow> string \<Rightarrow> bool \<Rightarrow> (dispatch_error, string) result" where
  "required_payload_string ev field allow_empty = (case map_get (ev_payload ev) field of
     Some (JString s) \<Rightarrow>
       if \<not> allow_empty \<and> s = [] then Err (invalid_lifecycle ev field) else Ok s
   | _ \<Rightarrow> Err (invalid_lifecycle ev field))"

definition required_runtime_id :: "event \<Rightarrow> string \<Rightarrow> (dispatch_error, string) result" where
  "required_runtime_id ev field = required_payload_string ev field False"

definition required_payload_object :: "event \<Rightarrow> string \<Rightarrow> (dispatch_error, json_map) result" where
  "required_payload_object ev field = (case map_get (ev_payload ev) field of
     Some (JObject m) \<Rightarrow> Ok m
   | _ \<Rightarrow> Err (invalid_lifecycle ev field))"

definition optional_payload_string :: "event \<Rightarrow> string \<Rightarrow> (dispatch_error, string option) result" where
  "optional_payload_string ev field = (case map_get (ev_payload ev) field of
     Some (JString s) \<Rightarrow> Ok (Some s)
   | Some JNull \<Rightarrow> Ok None
   | Some _ \<Rightarrow> Err (invalid_lifecycle ev field)
   | None \<Rightarrow> Ok None)"

definition validate_optional_runtime_id :: "event \<Rightarrow> string \<Rightarrow> string option \<Rightarrow> (dispatch_error, unit) result" where
  "validate_optional_runtime_id ev field v =
     (if v = Some [] then Err (invalid_lifecycle ev field) else Ok ())"

definition positive_u64_projection :: "int \<Rightarrow> string \<Rightarrow> string \<Rightarrow> (dispatch_error, nat) result" where
  "positive_u64_projection v table field = (if v \<le> 0 then Err (corrupt_projection table field) else Ok (nat v))"

definition nonnegative_u32_projection :: "int \<Rightarrow> string \<Rightarrow> string \<Rightarrow> (dispatch_error, nat) result" where
  "nonnegative_u32_projection v table field =
     (if v < 0 \<or> 2 ^ 32 - 1 < v then Err (corrupt_projection table field) else Ok (nat v))"

section \<open>Statements\<close>

lemma sql_insert_Ok_iff [simp]:
  "sql_insert operation ok row rows = Inr rows' \<longleftrightarrow> ok \<and> rows' = rows @ [row]"
  by (auto simp: sql_insert_def)

lemma sql_update_map: "(\<And>r. f (change r) = f r) \<Longrightarrow> map f (sql_update condition change rows) = map f rows"
  by (simp add: sql_update_def)

lemma in_sql_update:
  "r \<in> set (sql_update condition change rows) \<longleftrightarrow>
     (\<exists>r0 \<in> set rows. r = (if condition r0 then change r0 else r0))"
  by (auto simp: sql_update_def)

lemma sql_update_none: "(\<And>r. r \<in> set rows \<Longrightarrow> \<not> condition r) \<Longrightarrow> sql_update condition change rows = rows"
  by (simp add: sql_update_def map_idI)

lemma sql_count_none: "(\<And>r. r \<in> set rows \<Longrightarrow> \<not> condition r) \<Longrightarrow> sql_count condition rows = 0"
  by (simp add: sql_count_def filter_empty_conv)

lemma list_ex_image: "list_ex (\<lambda>r. f r = a) rows \<longleftrightarrow> a \<in> f ` set rows"
  by (auto simp: list_ex_iff)

lemma list_all_image: "list_all (\<lambda>r. f r \<noteq> a) rows \<longleftrightarrow> a \<notin> f ` set rows"
  by (auto simp: list_all_iff)

lemma list_all_image2: "list_all (\<lambda>r. f r \<noteq> a \<and> g r \<noteq> b) rows \<longleftrightarrow> a \<notin> f ` set rows \<and> b \<notin> g ` set rows"
  by (auto simp: list_all_iff)

end
