(* ===== verification/Coordination.thy ===== *)
theory Coordination
  imports Database "HOL-Library.Product_Lexorder"
begin

text \<open>
  \<open>crates/zeta-dispatch/src/sqlite/coordination.rs\<close>: claims, their leases and the locks they hold.

  \<open>coord_inv\<close> is the invariant of the claim and lock tables; every operation keeps it.  From it follow
  that two live claims never hold a common lock key and never work ahead of each other in a session.
  The claim itself is shown to take the oldest item that may run, and to find one whenever there is one.
\<close>

section \<open>Operations\<close>

record queue_claim =
  cl_queue_item_id :: queue_item_id
  cl_worker_name :: string
  cl_token :: claim_token
  cl_claimed_until :: int

record lock_lease =
  ll_key :: string
  ll_owner :: claim_token
  ll_acquired_at :: int
  ll_expires_at :: int

record claim_candidate =
  cc_queue_item_id :: queue_item_id
  cc_lock_keys :: "string list"

definition lease_deadline :: "int \<Rightarrow> nat \<Rightarrow> (dispatch_error, int) result" where
  "lease_deadline now_ms lease_ms =
     (if lease_ms = 0 \<or> 2 ^ 63 - 1 < lease_ms then Err (InvalidCoordinationInput ''lease_ms'')
      else if is_i64 (now_ms + int lease_ms) then Ok (now_ms + int lease_ms)
      else Err (InvalidCoordinationInput ''lease_ms''))"

text \<open>\<open>serde_json::from_str\<close> to a vector of strings.\<close>

definition parse_string_list :: "env \<Rightarrow> string \<Rightarrow> string list option" where
  "parse_string_list E t = (case json_parse E t of Some (JArray vs) \<Rightarrow> those (map as_str vs) | _ \<Rightarrow> None)"

definition reconcile_expired_in_transaction :: "int \<Rightarrow> db \<Rightarrow> db \<times> nat" where
  "reconcile_expired_in_transaction now_ms d =
     (let expired = (\<lambda>c. qc_claimed_until c \<le> now_ms);
          d1 = d\<lparr>db_queue_items := sql_update
             (\<lambda>r. qi_status r = ''claimed'' \<and> qi_id r \<in> set (map qc_queue_item_id (filter expired (db_queue_claims d))))
             (\<lambda>r. r\<lparr>qi_status := ''available''\<rparr>) (db_queue_items d)\<rparr>
      in (delete_queue_claims expired d1, sql_count expired (db_queue_claims d1)))"

definition claim_token_exists :: "db \<Rightarrow> claim_token \<Rightarrow> bool" where
  "claim_token_exists d token = list_ex (\<lambda>c. qc_claim_token c = token) (db_queue_claims d)"

definition claimable :: "db \<Rightarrow> int \<Rightarrow> queue_item_row \<Rightarrow> bool" where
  "claimable d now_ms r \<longleftrightarrow>
     qi_status r = ''available''
     \<and> (case qi_available_at r of Some t \<Rightarrow> t \<le> now_ms | None \<Rightarrow> qi_updated_at r \<le> now_ms)
     \<and> \<not> list_ex (\<lambda>c. qc_queue_item_id c = qi_id r) (db_queue_claims d)
     \<and> qi_cancel_requested_event_id r = None
     \<and> \<not> list_ex (\<lambda>barrier. qi_input_cursor barrier < qi_input_cursor r
           \<and> qi_target_agent barrier = [] \<and> qi_status barrier = ''pending'') (db_queue_items d)
     \<and> (qi_session_id r = None \<or>
        \<not> list_ex (\<lambda>earlier. qi_session_id earlier = qi_session_id r
           \<and> qi_input_cursor earlier < qi_input_cursor r
           \<and> qi_status earlier \<notin> {''completed'', ''cancelled'', ''dead_lettered'', ''unhandled''}) (db_queue_items d))"

definition read_candidate :: "env \<Rightarrow> queue_item_row \<Rightarrow> (dispatch_error, claim_candidate) result" where
  "read_candidate E r =
     and_then (map_err (\<lambda>_. corrupt_projection ''queue_items'' ''queue_item_id'')
       (parse_runtime_id ''queue item'' (qi_id r))) (\<lambda>item.
     and_then (ok_or (corrupt_projection ''queue_items'' ''lock_keys_json'')
       (parse_string_list E (qi_lock_keys_json r))) (\<lambda>lock_keys.
     if [] \<in> set lock_keys \<or> \<not> all_fresh [] lock_keys
     then Err (corrupt_projection ''queue_items'' ''lock_keys_json'')
     else Ok \<lparr>cc_queue_item_id = item, cc_lock_keys = lock_keys\<rparr>))"

fun try_collect :: "('r \<Rightarrow> ('e, 'a) result) \<Rightarrow> 'r list \<Rightarrow> ('e, 'a list) result" where
  "try_collect f [] = Ok []"
| "try_collect f (r # rs) = and_then (f r) (\<lambda>x. and_then (try_collect f rs) (\<lambda>xs. Ok (x # xs)))"

definition candidate_rows :: "int \<Rightarrow> db \<Rightarrow> queue_item_row list" where
  "candidate_rows now_ms d =
     sort_key (\<lambda>r. (qi_input_cursor r, qi_id r)) (filter (claimable d now_ms) (db_queue_items d))"

definition claim_candidates :: "env \<Rightarrow> db \<Rightarrow> int \<Rightarrow> (dispatch_error, claim_candidate list) result" where
  "claim_candidates E d now_ms = try_collect (read_candidate E) (candidate_rows now_ms d)"

definition locks_are_available :: "db \<Rightarrow> string list \<Rightarrow> int \<Rightarrow> bool" where
  "locks_are_available d lock_keys now_ms =
     list_all (\<lambda>key. \<not> list_ex (\<lambda>l. lk_key l = key \<and> now_ms < lk_expires_at l) (db_locks d)) lock_keys"

fun acquire_locks :: "string list \<Rightarrow> claim_token \<Rightarrow> int \<Rightarrow> int \<Rightarrow> db \<Rightarrow> (dispatch_error, db) result" where
  "acquire_locks [] token now_ms claimed_until d = Ok d"
| "acquire_locks (key # lock_keys) token now_ms claimed_until d =
     and_then (insert_lock \<lparr>lk_key = key, lk_owner = token, lk_acquired_at = now_ms, lk_expires_at = claimed_until\<rparr> d)
       (\<lambda>d. acquire_locks lock_keys token now_ms claimed_until d)"

fun claim_loop ::
  "string \<Rightarrow> claim_token \<Rightarrow> int \<Rightarrow> int \<Rightarrow> db \<Rightarrow> claim_candidate list
     \<Rightarrow> (dispatch_error, db \<times> queue_claim option) result" where
  "claim_loop worker_name token claimed_until now_ms d [] = Ok (d, None)"
| "claim_loop worker_name token claimed_until now_ms d (candidate # candidates) =
     (if \<not> locks_are_available d (cc_lock_keys candidate) now_ms
      then claim_loop worker_name token claimed_until now_ms d candidates
      else and_then (insert_queue_claim
          \<lparr>qc_queue_item_id = cc_queue_item_id candidate, qc_worker_name = worker_name, qc_claim_token = token,
           qc_claimed_at = now_ms, qc_claimed_until = claimed_until\<rparr> d) (\<lambda>d.
        and_then (acquire_locks (cc_lock_keys candidate) token now_ms claimed_until d) (\<lambda>d.
          Ok (d, Some \<lparr>cl_queue_item_id = cc_queue_item_id candidate, cl_worker_name = worker_name,
                       cl_token = token, cl_claimed_until = claimed_until\<rparr>))))"

definition claim_next_queue_item ::
  "env \<Rightarrow> string \<Rightarrow> claim_token \<Rightarrow> nat \<Rightarrow> int \<Rightarrow> db \<Rightarrow> (dispatch_error, db \<times> queue_claim option) result" where
  "claim_next_queue_item E worker_name token lease_ms now_ms d =
     (if worker_name = [] then Err (InvalidCoordinationInput ''worker_name'')
      else and_then (lease_deadline now_ms lease_ms) (\<lambda>claimed_until.
        let (d, _) = reconcile_expired_in_transaction now_ms d in
        if claim_token_exists d token then Err (InvalidCoordinationInput ''claim_token'')
        else and_then (claim_candidates E d now_ms) (\<lambda>candidates.
          claim_loop worker_name token claimed_until now_ms d candidates)))"

definition owns :: "queue_claim \<Rightarrow> queue_claim_row \<Rightarrow> bool" where
  "owns claim c \<longleftrightarrow> qc_queue_item_id c = cl_queue_item_id claim \<and> qc_worker_name c = cl_worker_name claim
     \<and> qc_claim_token c = cl_token claim"

definition claim_is_current :: "queue_claim \<Rightarrow> int \<Rightarrow> db \<Rightarrow> bool" where
  "claim_is_current claim now_ms d = list_ex (\<lambda>c. owns claim c \<and> now_ms < qc_claimed_until c) (db_queue_claims d)"

text \<open>The updates fail when a new deadline is not after the stored start of the lease.\<close>

definition renew_claim :: "queue_claim \<Rightarrow> nat \<Rightarrow> int \<Rightarrow> db \<Rightarrow> (dispatch_error, db \<times> bool) result" where
  "renew_claim claim lease_ms now_ms d =
     and_then (lease_deadline now_ms lease_ms) (\<lambda>claimed_until.
       let current = (\<lambda>c. owns claim c \<and> now_ms < qc_claimed_until c);
           updated = sql_count current (db_queue_claims d);
           held = (\<lambda>l. lk_owner l = cl_token claim)
       in if list_ex (\<lambda>c. current c \<and> claimed_until \<le> qc_claimed_at c) (db_queue_claims d)
          then Err (Database ''renew queue claim'')
          else let d1 = d\<lparr>db_queue_claims := sql_update current (\<lambda>c. c\<lparr>qc_claimed_until := claimed_until\<rparr>) (db_queue_claims d)\<rparr>
            in if updated = 1 then
                 if list_ex (\<lambda>l. held l \<and> claimed_until \<le> lk_acquired_at l) (db_locks d1)
                 then Err (Database ''renew queue locks'')
                 else Ok (d1\<lparr>db_locks := sql_update held (\<lambda>l. l\<lparr>lk_expires_at := claimed_until\<rparr>) (db_locks d1)\<rparr>, True)
               else Ok (d1, False))"

definition release_claim :: "queue_claim \<Rightarrow> int \<Rightarrow> db \<Rightarrow> db \<times> bool" where
  "release_claim claim now_ms d =
     (let current = (\<lambda>c. owns claim c \<and> now_ms < qc_claimed_until c);
          released = sql_count current (db_queue_claims d);
          d1 = delete_queue_claims current d
      in if released = 1 then
           (d1\<lparr>db_queue_items := sql_update
              (\<lambda>r. qi_id r = cl_queue_item_id claim \<and> qi_status r = ''claimed'')
              (\<lambda>r. r\<lparr>qi_status := ''available''\<rparr>) (db_queue_items d1)\<rparr>, True)
         else (d1, False))"

definition reconcile_expired_claims :: "int \<Rightarrow> db \<Rightarrow> db \<times> nat" where
  "reconcile_expired_claims now_ms d = reconcile_expired_in_transaction now_ms d"

definition release_claim_in_transaction :: "queue_claim \<Rightarrow> string \<Rightarrow> db \<Rightarrow> (dispatch_error, db) result" where
  "release_claim_in_transaction claim operation d =
     (let deleted = sql_count (owns claim) (db_queue_claims d);
          d1 = delete_queue_claims (owns claim) d
      in if deleted \<noteq> 1 then Err (ClaimNotCurrent (cl_queue_item_id claim)) else Ok d1)"

definition load_lock :: "lock_row \<Rightarrow> (dispatch_error, lock_lease) result" where
  "load_lock l =
     and_then (map_err (\<lambda>_. corrupt_projection ''locks'' ''owner'') (parse_runtime_id ''claim token'' (lk_owner l))) (\<lambda>owner.
       if lk_key l = [] \<or> lk_expires_at l \<le> lk_acquired_at l then Err (corrupt_projection ''locks'' ''lease'')
       else Ok \<lparr>ll_key = lk_key l, ll_owner = owner, ll_acquired_at = lk_acquired_at l, ll_expires_at = lk_expires_at l\<rparr>)"

definition list_locks :: "db \<Rightarrow> (dispatch_error, lock_lease list) result" where
  "list_locks d = try_collect load_lock (sort_key lk_key (db_locks d))"

section \<open>Invariant\<close>

definition finished :: "queue_item_row \<Rightarrow> bool" where
  "finished r \<longleftrightarrow> qi_status r \<in> {''completed'', ''cancelled'', ''dead_lettered'', ''unhandled''}"

definition unbound :: "queue_item_row \<Rightarrow> bool" where
  "unbound r \<longleftrightarrow> qi_target_agent r = [] \<and> qi_status r = ''pending''"

text \<open>What holds of an item while a claim on it is live.\<close>

definition holds_locks :: "env \<Rightarrow> db \<Rightarrow> claim_token \<Rightarrow> queue_item_row \<Rightarrow> bool" where
  "holds_locks E d token r \<longleftrightarrow> (\<forall>ks. parse_string_list E (qi_lock_keys_json r) = Some ks \<longrightarrow>
     (\<forall>k \<in> set ks. \<exists>l \<in> set (db_locks d). lk_key l = k \<and> lk_owner l = token))"

definition first_in_line :: "queue_item_row list \<Rightarrow> queue_item_row \<Rightarrow> bool" where
  "first_in_line items r \<longleftrightarrow>
     qi_status r \<in> {''available'', ''claimed''}
     \<and> (\<forall>b \<in> set items. qi_input_cursor b < qi_input_cursor r \<longrightarrow> \<not> unbound b)
     \<and> (\<forall>e \<in> set items. qi_session_id r \<noteq> None \<longrightarrow> qi_session_id e = qi_session_id r \<longrightarrow>
          qi_input_cursor e < qi_input_cursor r \<longrightarrow> finished e)"

definition working :: "env \<Rightarrow> db \<Rightarrow> queue_claim_row \<Rightarrow> queue_item_row \<Rightarrow> bool" where
  "working E d c r \<longleftrightarrow> holds_locks E d (qc_claim_token c) r \<and> first_in_line (db_queue_items d) r"

definition backed :: "db \<Rightarrow> lock_row \<Rightarrow> bool" where
  "backed d l \<longleftrightarrow> (\<exists>c \<in> set (db_queue_claims d). lk_owner l = qc_claim_token c
     \<and> lk_acquired_at l = qc_claimed_at c \<and> lk_expires_at l = qc_claimed_until c)"

definition coord_inv :: "env \<Rightarrow> db \<Rightarrow> bool" where
  "coord_inv E d \<longleftrightarrow>
     distinct (map qi_id (db_queue_items d))
     \<and> distinct (map qc_queue_item_id (db_queue_claims d))
     \<and> distinct (map qc_claim_token (db_queue_claims d))
     \<and> distinct (map lk_key (db_locks d))
     \<and> (\<forall>c \<in> set (db_queue_claims d). qc_claimed_at c < qc_claimed_until c
          \<and> qc_queue_item_id c \<in> qi_id ` set (db_queue_items d))
     \<and> (\<forall>l \<in> set (db_locks d). backed d l)
     \<and> (\<forall>c \<in> set (db_queue_claims d). \<forall>r \<in> set (db_queue_items d).
          qi_id r = qc_queue_item_id c \<longrightarrow> working E d c r)"

lemma coord_invD:
  assumes "coord_inv E d"
  shows "distinct (map qi_id (db_queue_items d))"
    and "distinct (map qc_queue_item_id (db_queue_claims d))"
    and "distinct (map qc_claim_token (db_queue_claims d))"
    and "distinct (map lk_key (db_locks d))"
    and "c \<in> set (db_queue_claims d) \<Longrightarrow> qc_claimed_at c < qc_claimed_until c"
    and "c \<in> set (db_queue_claims d) \<Longrightarrow> qc_queue_item_id c \<in> qi_id ` set (db_queue_items d)"
    and "l \<in> set (db_locks d) \<Longrightarrow> backed d l"
    and "c \<in> set (db_queue_claims d) \<Longrightarrow> r \<in> set (db_queue_items d) \<Longrightarrow> qi_id r = qc_queue_item_id c \<Longrightarrow> working E d c r"
  using assms by (simp_all add: coord_inv_def)

lemma distinct_map_eq: "distinct (map f xs) \<Longrightarrow> x \<in> set xs \<Longrightarrow> y \<in> set xs \<Longrightarrow> f x = f y \<Longrightarrow> x = y"
  by (auto simp: distinct_map dest: inj_onD)

lemma coord_inv_claim_free:
  assumes "distinct (map qi_id (db_queue_items d))" "db_queue_claims d = []" "db_locks d = []"
  shows "coord_inv E d"
  using assms by (simp add: coord_inv_def)

text \<open>Giving a claimed item back changes no order and no lock.\<close>

definition reopen :: "(queue_item_row \<Rightarrow> bool) \<Rightarrow> queue_item_row list \<Rightarrow> queue_item_row list" where
  "reopen P items = sql_update (\<lambda>r. P r \<and> qi_status r = ''claimed'') (\<lambda>r. r\<lparr>qi_status := ''available''\<rparr>) items"

lemma reopen_row:
  assumes "r \<in> set (reopen P items)"
  obtains r0 where "r0 \<in> set items" "qi_id r = qi_id r0" "qi_input_cursor r = qi_input_cursor r0"
    "qi_session_id r = qi_session_id r0" "qi_lock_keys_json r = qi_lock_keys_json r0"
    "unbound r \<longleftrightarrow> unbound r0" "finished r \<longleftrightarrow> finished r0"
    "qi_status r \<in> {''available'', ''claimed''} \<longleftrightarrow> qi_status r0 \<in> {''available'', ''claimed''}"
proof -
  from assms obtain r0 where r0: "r0 \<in> set items"
    "r = (if P r0 \<and> qi_status r0 = ''claimed'' then r0\<lparr>qi_status := ''available''\<rparr> else r0)"
    unfolding reopen_def in_sql_update by blast
  show thesis
    by (rule that [OF r0(1)]) (simp_all add: r0(2) unbound_def finished_def split: if_splits)
qed

lemma reopen_ids [simp]: "map qi_id (reopen P items) = map qi_id items"
  unfolding reopen_def by (rule sql_update_map) simp

lemma reopen_id_set [simp]: "qi_id ` set (reopen P items) = qi_id ` set items"
  by (metis list.set_map reopen_ids)

lemma first_in_line_reopen:
  assumes "first_in_line items r0" "qi_input_cursor r = qi_input_cursor r0" "qi_session_id r = qi_session_id r0"
    "qi_status r \<in> {''available'', ''claimed''} \<longleftrightarrow> qi_status r0 \<in> {''available'', ''claimed''}"
  shows "first_in_line (reopen P items) r"
  using assms unfolding first_in_line_def by (metis reopen_row)

lemma coord_inv_reopen:
  assumes inv: "coord_inv E d"
  shows "coord_inv E (d\<lparr>db_queue_items := reopen P (db_queue_items d)\<rparr>)"
proof -
  have "working E (d\<lparr>db_queue_items := reopen P (db_queue_items d)\<rparr>) c r"
    if "c \<in> set (db_queue_claims d)" "r \<in> set (reopen P (db_queue_items d))" "qi_id r = qc_queue_item_id c" for c r
  proof (rule reopen_row [OF that(2)])
    fix r0
    assume r0: "r0 \<in> set (db_queue_items d)" "qi_id r = qi_id r0" "qi_input_cursor r = qi_input_cursor r0"
      "qi_session_id r = qi_session_id r0" "qi_lock_keys_json r = qi_lock_keys_json r0"
      "qi_status r \<in> {''available'', ''claimed''} \<longleftrightarrow> qi_status r0 \<in> {''available'', ''claimed''}"
    then have w: "working E d c r0" using coord_invD(8) [OF inv that(1) r0(1)] that(3) by simp
    then have "first_in_line (reopen P (db_queue_items d)) r"
      by (intro first_in_line_reopen [OF _ r0(3,4,6)]) (simp add: working_def)
    moreover have "holds_locks E (d\<lparr>db_queue_items := reopen P (db_queue_items d)\<rparr>) (qc_claim_token c) r"
      using w r0(5) by (simp add: working_def holds_locks_def)
    ultimately show ?thesis by (simp add: working_def)
  qed
  then show ?thesis using inv by (simp add: coord_inv_def backed_def)
qed

lemma coord_inv_delete:
  assumes inv: "coord_inv E d"
  shows "coord_inv E (delete_queue_claims P d)"
proof -
  let ?d = "delete_queue_claims P d"
  have claims: "set (db_queue_claims ?d) = {c \<in> set (db_queue_claims d). \<not> P c}"
    and locks: "set (db_locks ?d) = {l \<in> set (db_locks d). lk_owner l \<notin> qc_claim_token ` {c \<in> set (db_queue_claims d). P c}}"
    and items [simp]: "db_queue_items ?d = db_queue_items d"
    by (auto simp: delete_queue_claims_def Let_def)
  have kept: "qc_claim_token c \<notin> qc_claim_token ` {c \<in> set (db_queue_claims d). P c}"
    if "c \<in> set (db_queue_claims ?d)" for c
    using that claims distinct_map_eq [OF coord_invD(3) [OF inv]] by auto
  have "backed ?d l" if "l \<in> set (db_locks ?d)" for l
  proof -
    from that obtain c where c: "c \<in> set (db_queue_claims d)" "lk_owner l = qc_claim_token c"
      "lk_acquired_at l = qc_claimed_at c" "lk_expires_at l = qc_claimed_until c"
      using coord_invD(7) [OF inv, of l] locks by (auto simp: backed_def)
    with that locks have "\<not> P c" by auto
    with c show ?thesis by (auto simp: backed_def claims)
  qed
  moreover have "working E ?d c r"
    if "c \<in> set (db_queue_claims ?d)" "r \<in> set (db_queue_items d)" "qi_id r = qc_queue_item_id c" for c r
  proof -
    have c: "c \<in> set (db_queue_claims d)" using that(1) claims by simp
    have "holds_locks E ?d (qc_claim_token c) r" if "holds_locks E d (qc_claim_token c) r"
      using that kept [OF \<open>c \<in> set (db_queue_claims ?d)\<close>] unfolding holds_locks_def locks by (simp (no_asm)) metis
    then show ?thesis using coord_invD(8) [OF inv c that(2,3)] by (simp add: working_def)
  qed
  moreover have "distinct (map qc_queue_item_id (db_queue_claims ?d))" "distinct (map qc_claim_token (db_queue_claims ?d))"
    "distinct (map lk_key (db_locks ?d))"
    using coord_invD(2-4) [OF inv] by (simp_all add: delete_queue_claims_def Let_def distinct_map_filter)
  ultimately show ?thesis
    using coord_invD(1,5,6) [OF inv] by (simp add: coord_inv_def claims)
qed

lemma reconcile_reopen:
  "fst (reconcile_expired_in_transaction now_ms d) =
     delete_queue_claims (\<lambda>c. qc_claimed_until c \<le> now_ms)
       (d\<lparr>db_queue_items := reopen (\<lambda>r. qi_id r \<in> qc_queue_item_id ` {c \<in> set (db_queue_claims d). qc_claimed_until c \<le> now_ms})
          (db_queue_items d)\<rparr>)"
  by (simp add: reconcile_expired_in_transaction_def reopen_def Let_def conj_commute)

lemma coord_inv_reconcile: "coord_inv E d \<Longrightarrow> coord_inv E (fst (reconcile_expired_in_transaction now_ms d))"
  unfolding reconcile_reopen by (intro coord_inv_delete coord_inv_reopen)

lemma coord_inv_release:
  assumes "coord_inv E d"
  shows "coord_inv E (fst (release_claim claim now_ms d))"
proof -
  have "coord_inv E (d'\<lparr>db_queue_items := sql_update (\<lambda>r. qi_id r = cl_queue_item_id claim \<and> qi_status r = ''claimed'')
      (\<lambda>r. r\<lparr>qi_status := ''available''\<rparr>) (db_queue_items d')\<rparr>)" if "coord_inv E d'" for d'
    using coord_inv_reopen [OF that, of "\<lambda>r. qi_id r = cl_queue_item_id claim"] by (simp add: reopen_def)
  with coord_inv_delete [OF assms] show ?thesis by (simp add: release_claim_def Let_def)
qed

lemma coord_inv_release_in_transaction:
  "coord_inv E d \<Longrightarrow> release_claim_in_transaction claim operation d = Ok d' \<Longrightarrow> coord_inv E d'"
  using coord_inv_delete by (auto simp: release_claim_in_transaction_def Let_def split: if_splits)

section \<open>Claiming\<close>

definition lock_for :: "claim_token \<Rightarrow> int \<Rightarrow> int \<Rightarrow> string \<Rightarrow> lock_row" where
  "lock_for token now_ms claimed_until key =
     \<lparr>lk_key = key, lk_owner = token, lk_acquired_at = now_ms, lk_expires_at = claimed_until\<rparr>"

lemma lock_for_sel [simp]:
  "lk_key (lock_for token now_ms claimed_until k) = k" "lk_owner (lock_for token now_ms claimed_until k) = token"
  "lk_acquired_at (lock_for token now_ms claimed_until k) = now_ms"
  "lk_expires_at (lock_for token now_ms claimed_until k) = claimed_until"
  by (simp_all add: lock_for_def)

lemma acquire_locks_Ok_iff:
  "acquire_locks ks token now_ms claimed_until d = Ok d' \<longleftrightarrow>
     d' = d\<lparr>db_locks := db_locks d @ map (lock_for token now_ms claimed_until) ks\<rparr>
     \<and> (\<forall>k \<in> set ks. sql_nonempty k \<and> k \<notin> lk_key ` set (db_locks d)) \<and> distinct ks
     \<and> (ks = [] \<or> sql_nonempty token \<and> now_ms < claimed_until \<and> claim_token_exists d token)"
proof (induction ks arbitrary: d)
  case (Cons k ks)
  let ?l = "lock_for token now_ms claimed_until k"
  have ins: "insert_lock ?l d = Ok e \<longleftrightarrow> e = d\<lparr>db_locks := db_locks d @ [?l]\<rparr> \<and> sql_nonempty k
      \<and> k \<notin> lk_key ` set (db_locks d) \<and> sql_nonempty token \<and> now_ms < claimed_until \<and> claim_token_exists d token" for e
    by (auto simp: insert_lock_def result_simps claim_token_exists_def list_all_iff)
  have eq: "acquire_locks (k # ks) token now_ms claimed_until d = and_then (insert_lock ?l d) (acquire_locks ks token now_ms claimed_until)"
    by (simp add: lock_for_def)
  show ?case unfolding eq by (auto simp: result_simps ins Cons.IH claim_token_exists_def)
qed auto

lemma claimable_first_in_line:
  assumes "claimable d now_ms r"
  shows "first_in_line (db_queue_items d) r" "qi_id r \<notin> qc_queue_item_id ` set (db_queue_claims d)"
    "qi_cancel_requested_event_id r = None"
  using assms by (auto simp: claimable_def first_in_line_def unbound_def finished_def list_ex_iff)

lemma read_candidate_Ok:
  "read_candidate E r = Ok cand \<longleftrightarrow>
     qi_id r \<noteq> [] \<and> cc_queue_item_id cand = qi_id r
     \<and> parse_string_list E (qi_lock_keys_json r) = Some (cc_lock_keys cand)
     \<and> [] \<notin> set (cc_lock_keys cand) \<and> distinct (cc_lock_keys cand)"
  by (cases cand) (auto simp: read_candidate_def result_simps parse_runtime_id_def ok_or_def split: if_splits option.splits)

lemma try_collect_Ok_iff: "try_collect f rs = Ok xs \<longleftrightarrow> list_all2 (\<lambda>r x. f r = Ok x) rs xs"
  by (induction rs arbitrary: xs) (auto simp: result_simps list_all2_Cons1)

text \<open>The database after a claim: one more claim and its locks.\<close>

definition claimed_db :: "queue_claim_row \<Rightarrow> string list \<Rightarrow> db \<Rightarrow> db" where
  "claimed_db c ks d = d\<lparr>db_queue_claims := db_queue_claims d @ [c],
     db_locks := db_locks d @ map (lock_for (qc_claim_token c) (qc_claimed_at c) (qc_claimed_until c)) ks\<rparr>"

lemma coord_inv_claimed:
  assumes inv: "coord_inv E d" and r: "r \<in> set (db_queue_items d)" "claimable d now_ms r"
    and keys: "parse_string_list E (qi_lock_keys_json r) = Some ks" "distinct ks" "set ks \<inter> lk_key ` set (db_locks d) = {}"
    and c: "qc_queue_item_id c = qi_id r" "\<not> claim_token_exists d (qc_claim_token c)" "qc_claimed_at c < qc_claimed_until c"
  shows "coord_inv E (claimed_db c ks d)"
proof -
  let ?d = "claimed_db c ks d" and ?lock = "lock_for (qc_claim_token c) (qc_claimed_at c) (qc_claimed_until c)"
  have [simp]: "db_queue_items ?d = db_queue_items d" "db_queue_claims ?d = db_queue_claims d @ [c]"
    "db_locks ?d = db_locks d @ map ?lock ks"
    by (simp_all add: claimed_db_def)
  have fresh: "qc_claim_token c \<notin> qc_claim_token ` set (db_queue_claims d)"
    using c(2) by (auto simp: claim_token_exists_def list_ex_iff)
  have "backed ?d l" if "l \<in> set (db_locks ?d)" for l
    using that coord_invD(7) [OF inv, of l] by (auto simp: backed_def)
  moreover have "working E ?d c' r'"
    if "c' \<in> set (db_queue_claims ?d)" "r' \<in> set (db_queue_items d)" "qi_id r' = qc_queue_item_id c'" for c' r'
  proof (cases "c' = c")
    case True
    then have "r' = r" using distinct_map_eq [OF coord_invD(1) [OF inv] that(2) r(1)] that(3) c(1) by simp
    moreover have "holds_locks E ?d (qc_claim_token c) r" using keys(1) by (auto simp: holds_locks_def bex_Un)
    ultimately show ?thesis using True claimable_first_in_line(1) [OF r(2)] by (simp add: working_def)
  next
    case False
    then have "working E d c' r'" using coord_invD(8) [OF inv _ that(2,3)] that(1) by simp
    then show ?thesis unfolding working_def holds_locks_def by auto blast
  qed
  moreover have "distinct (map lk_key (db_locks ?d))"
    using coord_invD(4) [OF inv] keys(2,3) by (auto simp: comp_def)
  ultimately show ?thesis
    using coord_invD(1,2,3,5,6) [OF inv] c(1,3) r(1) fresh claimable_first_in_line(2) [OF r(2)]
    by (auto simp: coord_inv_def)
qed

definition claim_row :: "queue_claim \<Rightarrow> int \<Rightarrow> queue_claim_row" where
  "claim_row claim now_ms = \<lparr>qc_queue_item_id = cl_queue_item_id claim, qc_worker_name = cl_worker_name claim,
     qc_claim_token = cl_token claim, qc_claimed_at = now_ms, qc_claimed_until = cl_claimed_until claim\<rparr>"

lemma claim_row_sel [simp]:
  "qc_queue_item_id (claim_row claim now_ms) = cl_queue_item_id claim" "qc_worker_name (claim_row claim now_ms) = cl_worker_name claim"
  "qc_claim_token (claim_row claim now_ms) = cl_token claim" "qc_claimed_at (claim_row claim now_ms) = now_ms"
  "qc_claimed_until (claim_row claim now_ms) = cl_claimed_until claim"
  by (simp_all add: claim_row_def)

lemma insert_queue_claim_Ok_iff:
  "insert_queue_claim c d = Ok d' \<longleftrightarrow>
     d' = d\<lparr>db_queue_claims := db_queue_claims d @ [c]\<rparr>
     \<and> sql_nonempty (qc_queue_item_id c) \<and> sql_nonempty (qc_worker_name c) \<and> sql_nonempty (qc_claim_token c)
     \<and> qc_claimed_at c < qc_claimed_until c \<and> qc_queue_item_id c \<notin> qc_queue_item_id ` set (db_queue_claims d)
     \<and> \<not> claim_token_exists d (qc_claim_token c) \<and> qc_queue_item_id c \<in> qi_id ` set (db_queue_items d)"
  by (auto simp add: insert_queue_claim_def result_simps list_all_image2 list_ex_image claim_token_exists_def)

text \<open>One candidate whose locks are free is claimed.\<close>

lemma take_candidate_Ok_iff:
  "and_then (insert_queue_claim (claim_row claim now_ms) d) (\<lambda>d.
     and_then (acquire_locks ks (cl_token claim) now_ms (cl_claimed_until claim) d) (\<lambda>d. Ok (d, Some claim))) = Ok (d', res) \<longleftrightarrow>
   res = Some claim \<and> d' = claimed_db (claim_row claim now_ms) ks d
   \<and> sql_nonempty (cl_queue_item_id claim) \<and> sql_nonempty (cl_worker_name claim) \<and> sql_nonempty (cl_token claim)
   \<and> now_ms < cl_claimed_until claim \<and> cl_queue_item_id claim \<notin> qc_queue_item_id ` set (db_queue_claims d)
   \<and> \<not> claim_token_exists d (cl_token claim) \<and> cl_queue_item_id claim \<in> qi_id ` set (db_queue_items d)
   \<and> (\<forall>k \<in> set ks. sql_nonempty k \<and> k \<notin> lk_key ` set (db_locks d)) \<and> distinct ks"
  by (auto simp: result_simps insert_queue_claim_Ok_iff acquire_locks_Ok_iff claimed_db_def claim_token_exists_def)

lemma claim_loop_None_iff:
  "(\<exists>d'. claim_loop w token until now_ms d cands = Ok (d', None)) \<longleftrightarrow>
     (\<forall>cand \<in> set cands. \<not> locks_are_available d (cc_lock_keys cand) now_ms)"
  by (induction cands) (auto simp: result_simps)

lemma claim_loop_None_db: "claim_loop w token until now_ms d cands = Ok (d', None) \<Longrightarrow> d' = d"
  by (induction cands) (auto simp: result_simps split: if_splits)

lemma claim_loop_first:
  assumes "\<forall>cand \<in> set pre. \<not> locks_are_available d (cc_lock_keys cand) now_ms"
    "locks_are_available d (cc_lock_keys cand) now_ms"
    "claim = \<lparr>cl_queue_item_id = cc_queue_item_id cand, cl_worker_name = w, cl_token = token, cl_claimed_until = until\<rparr>"
  shows "claim_loop w token until now_ms d (pre @ cand # post) =
    and_then (insert_queue_claim (claim_row claim now_ms) d) (\<lambda>d.
      and_then (acquire_locks (cc_lock_keys cand) (cl_token claim) now_ms (cl_claimed_until claim) d) (\<lambda>d. Ok (d, Some claim)))"
  using assms(1) by (induction pre) (simp_all add: assms(2,3) claim_row_def)

lemma claim_loop_cases:
  assumes "claim_loop w token until now_ms d cands = Ok (d', res)"
  obtains (none) "res = None" "d' = d" "\<forall>cand \<in> set cands. \<not> locks_are_available d (cc_lock_keys cand) now_ms"
  | (first) pre cand post claim where "res = Some claim" "cands = pre @ cand # post"
      "\<forall>c \<in> set pre. \<not> locks_are_available d (cc_lock_keys c) now_ms"
      "locks_are_available d (cc_lock_keys cand) now_ms"
      "claim = \<lparr>cl_queue_item_id = cc_queue_item_id cand, cl_worker_name = w, cl_token = token, cl_claimed_until = until\<rparr>"
      "d' = claimed_db (claim_row claim now_ms) (cc_lock_keys cand) d"
      "now_ms < until" "\<not> claim_token_exists d token"
      "\<forall>k \<in> set (cc_lock_keys cand). k \<notin> lk_key ` set (db_locks d)"
proof (cases "\<exists>cand \<in> set cands. locks_are_available d (cc_lock_keys cand) now_ms")
  case False
  then obtain e where "claim_loop w token until now_ms d cands = Ok (e, None)"
    using claim_loop_None_iff [of w token until now_ms d cands] by auto
  with assms show thesis using none False claim_loop_None_db by (metis Inr_inject Pair_inject)
next
  case True
  then obtain pre cand post where c: "cands = pre @ cand # post"
    "\<forall>c \<in> set pre. \<not> locks_are_available d (cc_lock_keys c) now_ms" "locks_are_available d (cc_lock_keys cand) now_ms"
    using split_list_first_prop [OF True] by metis
  define claim where "claim = \<lparr>cl_queue_item_id = cc_queue_item_id cand, cl_worker_name = w, cl_token = token, cl_claimed_until = until\<rparr>"
  from assms have "res = Some claim" "d' = claimed_db (claim_row claim now_ms) (cc_lock_keys cand) d"
      "now_ms < until" "\<not> claim_token_exists d token" "\<forall>k \<in> set (cc_lock_keys cand). k \<notin> lk_key ` set (db_locks d)"
    unfolding c(1) claim_loop_first [OF c(2,3) claim_def] take_candidate_Ok_iff by (simp_all add: claim_def)
  then show thesis by (rule first [OF _ c(1,2,3) claim_def])
qed

lemma coord_inv_claim_loop:
  assumes inv: "coord_inv E d" and cands: "claim_candidates E d now_ms = Ok cands"
    and loop: "claim_loop w token until now_ms d cands = Ok (d', res)"
  shows "coord_inv E d'"
  using loop
proof (cases rule: claim_loop_cases)
  case (first pre cand post claim)
  from cands first(2) obtain r where r: "r \<in> set (candidate_rows now_ms d)" "read_candidate E r = Ok cand"
    by (fastforce simp: claim_candidates_def try_collect_Ok_iff list_all2_append2 list_all2_Cons2)
  then have row: "r \<in> set (db_queue_items d)" "claimable d now_ms r" by (auto simp: candidate_rows_def)
  from r(2) have keys: "qi_id r = cc_queue_item_id cand"
      "parse_string_list E (qi_lock_keys_json r) = Some (cc_lock_keys cand)" "distinct (cc_lock_keys cand)"
    by (auto simp: read_candidate_Ok)
  show ?thesis unfolding first(6)
    by (rule coord_inv_claimed [OF inv row keys(2,3)]) (use first keys(1) in auto)
qed (use inv in simp)

lemma claim_next_Ok:
  assumes "claim_next_queue_item E w token lease_ms now_ms d = Ok (d', res)"
  obtains until cands where "lease_deadline now_ms lease_ms = Ok until"
    "claim_candidates E (fst (reconcile_expired_in_transaction now_ms d)) now_ms = Ok cands"
    "claim_loop w token until now_ms (fst (reconcile_expired_in_transaction now_ms d)) cands = Ok (d', res)"
  using assms
  by (auto simp: claim_next_queue_item_def result_simps split_beta split: if_splits)

lemma coord_inv_claim_next:
  assumes "coord_inv E d" "claim_next_queue_item E w token lease_ms now_ms d = Ok (d', res)"
  shows "coord_inv E d'"
  using assms(2) by (rule claim_next_Ok) (rule coord_inv_claim_loop [OF coord_inv_reconcile [OF assms(1)]])

section \<open>Renewing\<close>

lemma owned_row_unique:
  assumes inv: "coord_inv E d" and c: "c \<in> set (db_queue_claims d)" "qc_claim_token c = cl_token claim"
  shows "filter (\<lambda>c. owns claim c \<and> now_ms < qc_claimed_until c) (db_queue_claims d)
    = (if owns claim c \<and> now_ms < qc_claimed_until c then [c] else [])"
proof -
  have same: "c' = c" if "c' \<in> set (db_queue_claims d)" "owns claim c'" for c'
    using distinct_map_eq [OF coord_invD(3) [OF inv] that(1) c(1)] that(2) c(2) by (simp add: owns_def)
  have d: "distinct (db_queue_claims d)" using coord_invD(3) [OF inv] by (simp add: distinct_map)
  show ?thesis
  proof (cases "owns claim c \<and> now_ms < qc_claimed_until c")
    case True
    let ?f = "filter (\<lambda>c. owns claim c \<and> now_ms < qc_claimed_until c) (db_queue_claims d)"
    have "x \<in> set ?f \<longleftrightarrow> x = c" for x using True c(1) same [of x] by auto
    then have "set ?f = {c}" by blast
    moreover from this have "length ?f = 1" using distinct_card [of ?f] d by simp
    then obtain x where "?f = [x]" by (cases ?f) simp_all
    ultimately show ?thesis using True by simp
  next
    case False
    then have "\<not> (owns claim x \<and> now_ms < qc_claimed_until x)" if "x \<in> set (db_queue_claims d)" for x
      using same [OF that] by blast
    with False show ?thesis by (simp add: filter_empty_conv)
  qed
qed

definition extend :: "claim_token \<Rightarrow> int \<Rightarrow> db \<Rightarrow> db" where
  "extend token until d = d\<lparr>
     db_queue_claims := sql_update (\<lambda>c. qc_claim_token c = token) (\<lambda>c. c\<lparr>qc_claimed_until := until\<rparr>) (db_queue_claims d),
     db_locks := sql_update (\<lambda>l. lk_owner l = token) (\<lambda>l. l\<lparr>lk_expires_at := until\<rparr>) (db_locks d)\<rparr>"

lemma coord_inv_extend:
  assumes inv: "coord_inv E d" and c: "\<forall>c \<in> set (db_queue_claims d). qc_claim_token c = token \<longrightarrow> qc_claimed_at c < until"
  shows "coord_inv E (extend token until d)"
proof -
  let ?d = "extend token until d"
  have maps: "map qc_queue_item_id (db_queue_claims ?d) = map qc_queue_item_id (db_queue_claims d)"
    "map qc_claim_token (db_queue_claims ?d) = map qc_claim_token (db_queue_claims d)"
    "map lk_key (db_locks ?d) = map lk_key (db_locks d)"
    by (simp_all add: extend_def sql_update_map)
  have items [simp]: "db_queue_items ?d = db_queue_items d" by (simp add: extend_def)
  have "backed ?d l" if "l \<in> set (db_locks ?d)" for l
  proof -
    from that obtain l0 where l0: "l0 \<in> set (db_locks d)"
      "l = (if lk_owner l0 = token then l0\<lparr>lk_expires_at := until\<rparr> else l0)"
      by (auto simp: extend_def in_sql_update)
    obtain c where c: "c \<in> set (db_queue_claims d)" "lk_owner l0 = qc_claim_token c"
      "lk_acquired_at l0 = qc_claimed_at c" "lk_expires_at l0 = qc_claimed_until c"
      using coord_invD(7) [OF inv l0(1)] by (auto simp: backed_def)
    let ?c = "if qc_claim_token c = token then c\<lparr>qc_claimed_until := until\<rparr> else c"
    have "?c \<in> set (db_queue_claims ?d)" using c(1) by (auto simp: extend_def in_sql_update)
    moreover have "lk_owner l = qc_claim_token ?c \<and> lk_acquired_at l = qc_claimed_at ?c \<and> lk_expires_at l = qc_claimed_until ?c"
      using c l0(2) by simp
    ultimately show ?thesis unfolding backed_def by blast
  qed
  moreover have "working E ?d c r"
    if "c \<in> set (db_queue_claims ?d)" "r \<in> set (db_queue_items d)" "qi_id r = qc_queue_item_id c" for c r
  proof -
    from that(1) obtain c0 where c0: "c0 \<in> set (db_queue_claims d)" "qc_queue_item_id c = qc_queue_item_id c0"
      "qc_claim_token c = qc_claim_token c0"
      by (auto simp: extend_def in_sql_update)
    have "\<exists>l' \<in> set (db_locks ?d). lk_key l' = lk_key l \<and> lk_owner l' = lk_owner l" if "l \<in> set (db_locks d)" for l
      using that
      by (intro bexI [of _ "if lk_owner l = token then l\<lparr>lk_expires_at := until\<rparr> else l"]) (auto simp: extend_def in_sql_update)
    then show ?thesis using coord_invD(8) [OF inv c0(1) that(2)] that(3) c0(2,3)
      unfolding working_def holds_locks_def items by metis
  qed
  moreover have "qc_claimed_at c < qc_claimed_until c \<and> qc_queue_item_id c \<in> qi_id ` set (db_queue_items d)"
    if "c \<in> set (db_queue_claims ?d)" for c
    using that coord_invD(5,6) [OF inv] assms(2) by (auto simp: extend_def in_sql_update)
  ultimately show ?thesis using coord_invD(1-4) [OF inv] by (simp add: coord_inv_def maps)
qed

lemma renew_claim_cases:
  assumes inv: "coord_inv E d" and ok: "renew_claim claim lease_ms now_ms d = Ok (d', renewed)"
  obtains (renewed) c until where "renewed" "claim_is_current claim now_ms d" "c \<in> set (db_queue_claims d)"
      "qc_claim_token c = cl_token claim" "qc_claimed_at c < until" "lease_deadline now_ms lease_ms = Ok until"
      "d' = extend (cl_token claim) until d"
  | (lost) "\<not> renewed" "\<not> claim_is_current claim now_ms d" "d' = d"
proof (cases "claim_is_current claim now_ms d")
  case True
  then obtain c where c: "c \<in> set (db_queue_claims d)" "owns claim c" "now_ms < qc_claimed_until c"
    by (auto simp: claim_is_current_def list_ex_iff)
  then have t: "qc_claim_token c = cl_token claim" by (simp add: owns_def)
  have one: "sql_count (\<lambda>c. owns claim c \<and> now_ms < qc_claimed_until c) (db_queue_claims d) = 1"
    using owned_row_unique [OF inv c(1) t, of now_ms] c by (simp add: sql_count_def)
  have same: "(owns claim x \<and> now_ms < qc_claimed_until x) \<longleftrightarrow> qc_claim_token x = cl_token claim"
    if "x \<in> set (db_queue_claims d)" for x
    using distinct_map_eq [OF coord_invD(3) [OF inv] that c(1)] c t by (auto simp: owns_def)
  then have upd: "sql_update (\<lambda>c. owns claim c \<and> now_ms < qc_claimed_until c) f (db_queue_claims d)
      = sql_update (\<lambda>c. qc_claim_token c = cl_token claim) f (db_queue_claims d)" for f
    by (auto simp: sql_update_def)
  from ok one upd obtain until where "renewed" "lease_deadline now_ms lease_ms = Ok until"
    "d' = extend (cl_token claim) until d" "\<not> until \<le> qc_claimed_at c"
    using c by (auto simp: renew_claim_def result_simps Let_def extend_def list_ex_iff split: if_splits)
  then show thesis using renewed True c(1) t by (simp add: not_le)
next
  case False
  then have none: "\<not> (owns claim c \<and> now_ms < qc_claimed_until c)" if "c \<in> set (db_queue_claims d)" for c
    using that by (auto simp: claim_is_current_def list_ex_iff)
  then have "sql_count (\<lambda>c. owns claim c \<and> now_ms < qc_claimed_until c) (db_queue_claims d) = 0"
    "sql_update (\<lambda>c. owns claim c \<and> now_ms < qc_claimed_until c) f (db_queue_claims d) = db_queue_claims d" for f
    by (simp_all add: sql_count_none sql_update_none)
  with ok have "\<not> renewed" "d' = d"
    by (auto simp: renew_claim_def result_simps Let_def split: if_splits)
  then show thesis using lost False by blast
qed

lemma coord_inv_renew:
  assumes "coord_inv E d" "renew_claim claim lease_ms now_ms d = Ok (d', renewed)"
  shows "coord_inv E d'"
  using assms
proof (cases rule: renew_claim_cases)
  case (renewed c until)
  have "qc_claimed_at x < until" if "x \<in> set (db_queue_claims d)" "qc_claim_token x = cl_token claim" for x
    using distinct_map_eq [OF coord_invD(3) [OF assms(1)] that(1) renewed(3)] that(2) renewed(4,5) by simp
  then show ?thesis unfolding renewed(7) by (intro coord_inv_extend [OF assms(1)]) blast
qed (use assms(1) in simp)

section \<open>Runs\<close>

inductive coord_step :: "env \<Rightarrow> db \<Rightarrow> db \<Rightarrow> bool" for E where
  step_claim: "claim_next_queue_item E w token lease_ms now_ms d = Ok (d', res) \<Longrightarrow> coord_step E d d'"
| step_renew: "renew_claim claim lease_ms now_ms d = Ok (d', renewed) \<Longrightarrow> coord_step E d d'"
| step_release: "release_claim claim now_ms d = (d', released) \<Longrightarrow> coord_step E d d'"
| step_reconcile: "reconcile_expired_claims now_ms d = (d', n) \<Longrightarrow> coord_step E d d'"

lemma coord_step_inv: "coord_step E d d' \<Longrightarrow> coord_inv E d \<Longrightarrow> coord_inv E d'"
proof (induction rule: coord_step.induct)
  case (step_release claim now_ms d d' released)
  then show ?case using coord_inv_release [of E d claim now_ms] by simp
next
  case (step_reconcile now_ms d d' n)
  then show ?case using coord_inv_reconcile [of E d now_ms] by (simp add: reconcile_expired_claims_def)
qed (rule coord_inv_claim_next coord_inv_renew; assumption)+

lemma coord_run_inv: "(coord_step E)\<^sup>*\<^sup>* d d' \<Longrightarrow> coord_inv E d \<Longrightarrow> coord_inv E d'"
  by (induction rule: rtranclp_induct) (simp_all add: coord_step_inv)

lemma coord_inv_exclusive:
  assumes inv: "coord_inv E d" and c: "c1 \<in> set (db_queue_claims d)" "c2 \<in> set (db_queue_claims d)" "c1 \<noteq> c2"
    and r: "r1 \<in> set (db_queue_items d)" "qi_id r1 = qc_queue_item_id c1"
      "r2 \<in> set (db_queue_items d)" "qi_id r2 = qc_queue_item_id c2"
    and ks: "parse_string_list E (qi_lock_keys_json r1) = Some ks1" "parse_string_list E (qi_lock_keys_json r2) = Some ks2"
  shows "set ks1 \<inter> set ks2 = {}"
proof (rule ccontr)
  assume "set ks1 \<inter> set ks2 \<noteq> {}"
  then obtain k where "k \<in> set ks1" "k \<in> set ks2" by blast
  then obtain l1 l2 where l: "l1 \<in> set (db_locks d)" "l2 \<in> set (db_locks d)" "lk_key l1 = k" "lk_key l2 = k"
    "lk_owner l1 = qc_claim_token c1" "lk_owner l2 = qc_claim_token c2"
    using coord_invD(8) [OF inv c(1) r(1,2)] coord_invD(8) [OF inv c(2) r(3,4)] ks
    unfolding working_def holds_locks_def by metis
  have "l1 = l2" by (rule distinct_map_eq [OF coord_invD(4) [OF inv] l(1,2)]) (simp add: l)
  with l c show False using distinct_map_eq [OF coord_invD(3) [OF inv] c(1,2)] by simp
qed

lemma coord_inv_session_order:
  assumes inv: "coord_inv E d" and c: "c1 \<in> set (db_queue_claims d)" "c2 \<in> set (db_queue_claims d)"
    and r: "r1 \<in> set (db_queue_items d)" "qi_id r1 = qc_queue_item_id c1"
      "r2 \<in> set (db_queue_items d)" "qi_id r2 = qc_queue_item_id c2"
    and s: "qi_session_id r1 \<noteq> None" "qi_session_id r1 = qi_session_id r2"
  shows "qi_input_cursor r1 = qi_input_cursor r2"
proof (rule ccontr)
  assume "qi_input_cursor r1 \<noteq> qi_input_cursor r2"
  then have "finished r1 \<or> finished r2"
    using coord_invD(8) [OF inv c(1) r(1,2)] coord_invD(8) [OF inv c(2) r(3,4)] r(1,3) s
    unfolding working_def first_in_line_def by (metis linorder_neqE_linordered_idom)
  moreover have "qi_status r1 \<in> {''available'', ''claimed''}" "qi_status r2 \<in> {''available'', ''claimed''}"
    using coord_invD(8) [OF inv c(1) r(1,2)] coord_invD(8) [OF inv c(2) r(3,4)]
    by (simp_all add: working_def first_in_line_def)
  ultimately show False by (auto simp: finished_def)
qed

section \<open>Progress\<close>

lemma reconciled_claims:
  "c \<in> set (db_queue_claims (fst (reconcile_expired_in_transaction now_ms d))) \<longleftrightarrow>
     c \<in> set (db_queue_claims d) \<and> now_ms < qc_claimed_until c"
  by (auto simp: reconcile_reopen delete_queue_claims_def Let_def)

lemma reconciled_locks_live:
  assumes "coord_inv E d" "l \<in> set (db_locks (fst (reconcile_expired_in_transaction now_ms d)))"
  shows "now_ms < lk_expires_at l"
  using coord_invD(7) [OF coord_inv_reconcile [OF assms(1)] assms(2)] by (auto simp: backed_def reconciled_claims)

lemma reconciled_locks_available:
  assumes "coord_inv E d" "d1 = fst (reconcile_expired_in_transaction now_ms d)"
  shows "locks_are_available d1 ks now_ms \<longleftrightarrow> set ks \<inter> lk_key ` set (db_locks d1) = {}"
  using reconciled_locks_live [OF assms(1), of _ now_ms] assms(2)
  by (auto simp: locks_are_available_def list_all_iff list_ex_iff)

lemma candidates_sorted: "sorted (map (\<lambda>r. (qi_input_cursor r, qi_id r)) (candidate_rows now_ms d))"
  by (simp add: candidate_rows_def)

lemma in_candidate_rows: "r \<in> set (candidate_rows now_ms d) \<longleftrightarrow> r \<in> set (db_queue_items d) \<and> claimable d now_ms r"
  by (simp add: candidate_rows_def)

lemma first_candidate_row:
  assumes "claim_candidates E d now_ms = Ok (pre @ cand # post)"
  obtains r where "r \<in> set (candidate_rows now_ms d)" "read_candidate E r = Ok cand"
    "\<And>r'. r' \<in> set (candidate_rows now_ms d) \<Longrightarrow> (qi_input_cursor r', qi_id r') < (qi_input_cursor r, qi_id r) \<Longrightarrow>
       \<exists>c \<in> set pre. read_candidate E r' = Ok c"
proof -
  from assms obtain us r vs where rows: "candidate_rows now_ms d = us @ r # vs" "read_candidate E r = Ok cand"
    "list_all2 (\<lambda>r x. read_candidate E r = Ok x) us pre"
    by (auto simp: claim_candidates_def try_collect_Ok_iff list_all2_append2 list_all2_Cons2)
  have "\<exists>c \<in> set pre. read_candidate E r' = Ok c"
    if "r' \<in> set (candidate_rows now_ms d)" "(qi_input_cursor r', qi_id r') < (qi_input_cursor r, qi_id r)" for r'
  proof -
    have "\<forall>v \<in> set (r # vs). (qi_input_cursor r, qi_id r) \<le> (qi_input_cursor v, qi_id v)"
      using candidates_sorted [of now_ms d] unfolding rows(1) by (auto simp: sorted_append)
    with that have "r' \<in> set us" unfolding rows(1) by (auto simp: not_le [symmetric])
    then show ?thesis using rows(3) by (auto simp: list_all2_conv_all_nth in_set_conv_nth)
  qed
  with rows show thesis using that by (metis in_set_conv_decomp)
qed

lemma try_collect_total: "(\<And>r. r \<in> set rs \<Longrightarrow> \<exists>x. f r = Ok x) \<Longrightarrow> \<exists>xs. try_collect f rs = Ok xs"
  by (induction rs) (auto simp: result_simps)

lemma candidate_exists:
  assumes "list_all2 (\<lambda>r x. read_candidate E r = Ok x) rows cands"
  shows "(\<exists>cand \<in> set cands. P (cc_lock_keys cand)) \<longleftrightarrow>
    (\<exists>r \<in> set rows. \<exists>ks. parse_string_list E (qi_lock_keys_json r) = Some ks \<and> P ks)"
  using assms by (induction rule: list_all2_induct) (auto simp: read_candidate_Ok)

lemma lease_deadline_after: "lease_deadline now_ms lease_ms = Ok until \<Longrightarrow> now_ms < until"
  by (auto simp: lease_deadline_def split: if_splits)

lemma claim_loop_total:
  assumes inv: "coord_inv E d" and cands: "claim_candidates E d now_ms = Ok cands"
    and some: "\<exists>cand \<in> set cands. locks_are_available d (cc_lock_keys cand) now_ms"
    and input: "sql_nonempty w" "sql_nonempty token" "now_ms < until" "\<not> claim_token_exists d token"
    and rows: "\<forall>r \<in> set (db_queue_items d). claimable d now_ms r \<longrightarrow> sql_nonempty (qi_id r)
      \<and> (\<exists>ks. parse_string_list E (qi_lock_keys_json r) = Some ks \<and> distinct ks \<and> list_all sql_nonempty ks)"
    and free: "\<And>ks. locks_are_available d ks now_ms \<longleftrightarrow> set ks \<inter> lk_key ` set (db_locks d) = {}"
  shows "\<exists>claim d'. claim_loop w token until now_ms d cands = Ok (d', Some claim)"
proof -
  obtain pre cand post where c: "cands = pre @ cand # post"
    "\<forall>c \<in> set pre. \<not> locks_are_available d (cc_lock_keys c) now_ms" "locks_are_available d (cc_lock_keys cand) now_ms"
    using split_list_first_prop [OF some] by metis
  define claim where "claim = \<lparr>cl_queue_item_id = cc_queue_item_id cand, cl_worker_name = w, cl_token = token, cl_claimed_until = until\<rparr>"
  obtain r where r: "r \<in> set (db_queue_items d)" "claimable d now_ms r" "read_candidate E r = Ok cand"
    using first_candidate_row [OF cands [unfolded c(1)]] by (metis in_candidate_rows)
  have keys: "qi_id r = cc_queue_item_id cand" "distinct (cc_lock_keys cand)"
      "parse_string_list E (qi_lock_keys_json r) = Some (cc_lock_keys cand)"
    using r(3) by (simp_all add: read_candidate_Ok)
  have "list_all sql_nonempty (cc_lock_keys cand)" "sql_nonempty (cc_queue_item_id cand)"
    using rows r(1,2) keys by auto
  moreover have "cc_queue_item_id cand \<notin> qc_queue_item_id ` set (db_queue_claims d)"
    using claimable_first_in_line(2) [OF r(2)] keys(1) by simp
  moreover have "cc_queue_item_id cand \<in> qi_id ` set (db_queue_items d)" using r(1) keys(1) by force
  moreover have "\<forall>k \<in> set (cc_lock_keys cand). k \<notin> lk_key ` set (db_locks d)" using c(3) free by blast
  ultimately have "claim_loop w token until now_ms d cands
      = Ok (claimed_db (claim_row claim now_ms) (cc_lock_keys cand) d, Some claim)"
    unfolding c(1) claim_loop_first [OF c(2,3) claim_def] take_candidate_Ok_iff
    using input keys(2) by (simp add: claim_def list_all_iff)
  then show ?thesis by blast
qed

section \<open>Samples\<close>

definition sample_keys_json :: string where
  "sample_keys_json = ''['' @ [CHR 0x22] @ ''repo'' @ [CHR 0x22] @ '']''"

definition lock_env :: env where
  "lock_env = sample_env\<lparr>json_parse := (\<lambda>t. if t = ''[]'' then Some (JArray [])
     else if t = sample_keys_json then Some (JArray [JString ''repo'']) else None)\<rparr>"

definition sample_item :: "string \<Rightarrow> int \<Rightarrow> string \<Rightarrow> string \<Rightarrow> queue_item_row" where
  "sample_item item cursor session keys =
     \<lparr>qi_id = item, qi_event_id = item, qi_target_agent = ''a'', qi_project_revision = None, qi_session_id = Some session,
      qi_lock_keys_json = keys, qi_input_cursor = cursor, qi_status = ''available'', qi_available_at = None,
      qi_cancel_requested_event_id = None, qi_cancel_requested_at = None, qi_cancel_reason = None,
      qi_attempt_count = 0, qi_last_error = None, qi_updated_at = 0\<rparr>"

text \<open>Three items: two need the same lock, and two are in one session.\<close>

definition sample_queue :: db where
  "sample_queue = db_empty\<lparr>db_queue_items :=
     [sample_item ''q3'' 3 ''t'' ''[]'', sample_item ''q1'' 1 ''s'' sample_keys_json, sample_item ''q2'' 2 ''u'' sample_keys_json]\<rparr>"

definition sample_claim :: "string \<Rightarrow> claim_token \<Rightarrow> int \<Rightarrow> queue_claim" where
  "sample_claim item token until = \<lparr>cl_queue_item_id = item, cl_worker_name = ''w'', cl_token = token, cl_claimed_until = until\<rparr>"

lemma sample_queue_inv: "coord_inv lock_env sample_queue"
  by (rule coord_inv_claim_free) (simp_all add: sample_queue_def db_empty_def sample_item_def)

lemmas sample_queue_simps = claim_next_queue_item_def lease_deadline_def is_i64_def reconcile_expired_in_transaction_def
  delete_queue_claims_def sql_update_def sql_count_def claim_token_exists_def claim_candidates_def candidate_rows_def
  claimable_def read_candidate_def parse_runtime_id_def parse_string_list_def ok_or_def locks_are_available_def
  insert_queue_claim_def insert_lock_def sql_insert_def sql_nonempty_def lock_env_def sample_keys_json_def
  sample_item_def sample_queue_def db_empty_def sample_claim_def Let_def

definition queue_after_claim :: db where
  "queue_after_claim = claimed_db (claim_row (sample_claim ''q1'' ''t1'' 60) 10) [''repo''] sample_queue"

definition queue_after_claims :: db where
  "queue_after_claims = claimed_db (claim_row (sample_claim ''q3'' ''t2'' 70) 20) [] queue_after_claim"

lemma sample_claim_1:
  "claim_next_queue_item lock_env ''w'' ''t1'' 50 10 sample_queue = Ok (queue_after_claim, Some (sample_claim ''q1'' ''t1'' 60))"
  by (simp add: sample_queue_simps queue_after_claim_def claimed_db_def claim_row_def lock_for_def)

lemma sample_claim_2:
  "claim_next_queue_item lock_env ''w'' ''t2'' 50 20 queue_after_claim = Ok (queue_after_claims, Some (sample_claim ''q3'' ''t2'' 70))"
  by (simp add: sample_queue_simps queue_after_claim_def queue_after_claims_def claimed_db_def claim_row_def lock_for_def
      cong: conj_cong)

section \<open>Properties\<close>

text \<open>C2: however claims are taken, renewed, released and expired, two live claims are on different items
  with different tokens, their items share no lock key, and if they are in one session they come from the
  same input.\<close>

theorem live_claims_exclusive:
  assumes "coord_inv E d" "(coord_step E)\<^sup>*\<^sup>* d d'"
    and "c1 \<in> set (db_queue_claims d')" "c2 \<in> set (db_queue_claims d')" "c1 \<noteq> c2"
    and "r1 \<in> set (db_queue_items d')" "qi_id r1 = qc_queue_item_id c1"
    and "r2 \<in> set (db_queue_items d')" "qi_id r2 = qc_queue_item_id c2"
  shows "qi_id r1 \<noteq> qi_id r2 \<and> qc_claim_token c1 \<noteq> qc_claim_token c2
    \<and> (\<forall>ks1 ks2. parse_string_list E (qi_lock_keys_json r1) = Some ks1 \<longrightarrow>
         parse_string_list E (qi_lock_keys_json r2) = Some ks2 \<longrightarrow> set ks1 \<inter> set ks2 = {})
    \<and> (qi_session_id r1 \<noteq> None \<longrightarrow> qi_session_id r1 = qi_session_id r2 \<longrightarrow> qi_input_cursor r1 = qi_input_cursor r2)"
proof -
  have inv: "coord_inv E d'" using coord_run_inv assms(1,2) by blast
  have "qi_id r1 \<noteq> qi_id r2" "qc_claim_token c1 \<noteq> qc_claim_token c2"
    using distinct_map_eq [OF coord_invD(2) [OF inv] assms(3,4)] distinct_map_eq [OF coord_invD(3) [OF inv] assms(3,4)]
      assms(5,7,9) by auto
  then show ?thesis
    using coord_inv_exclusive [OF inv assms(3-9)] coord_inv_session_order [OF inv assms(3,4,6-9)] by blast
qed

theorem live_claims_exclusive_witness:
  "(coord_step lock_env)\<^sup>*\<^sup>* sample_queue queue_after_claims
   \<and> length (db_queue_claims queue_after_claims) = 2 \<and> ''q1'' \<noteq> ''q3''"
proof -
  have run: "(coord_step lock_env)\<^sup>*\<^sup>* sample_queue queue_after_claims"
    using step_claim [OF sample_claim_1] step_claim [OF sample_claim_2] by auto
  let ?c1 = "claim_row (sample_claim ''q1'' ''t1'' 60) 10" and ?c2 = "claim_row (sample_claim ''q3'' ''t2'' 70) 20"
  have m: "?c1 \<in> set (db_queue_claims queue_after_claims)" "?c2 \<in> set (db_queue_claims queue_after_claims)" "?c1 \<noteq> ?c2"
    "sample_item ''q1'' 1 ''s'' sample_keys_json \<in> set (db_queue_items queue_after_claims)"
    "qi_id (sample_item ''q1'' 1 ''s'' sample_keys_json) = qc_queue_item_id ?c1"
    "sample_item ''q3'' 3 ''t'' ''[]'' \<in> set (db_queue_items queue_after_claims)"
    "qi_id (sample_item ''q3'' 3 ''t'' ''[]'') = qc_queue_item_id ?c2"
    by (simp_all add: queue_after_claims_def queue_after_claim_def claimed_db_def claim_row_def sample_claim_def sample_queue_def sample_item_def)
  have "length (db_queue_claims queue_after_claims) = 2"
    by (simp add: queue_after_claims_def queue_after_claim_def claimed_db_def sample_queue_def db_empty_def)
  with run live_claims_exclusive [OF sample_queue_inv run m] show ?thesis by (simp add: sample_item_def)
qed

text \<open>C4: a claim takes the oldest item that may run: the item is due, not cancelled, not claimed, behind no
  unrouted input and no unfinished work of its session, its locks are free, and every earlier item that may
  run waits for a lock.  The new state differs by that claim and its locks alone.\<close>

theorem claim_takes_oldest:
  assumes "claim_next_queue_item E w token lease_ms now_ms d = Ok (d', Some claim)"
    and "d1 = fst (reconcile_expired_in_transaction now_ms d)"
  shows "cl_worker_name claim = w \<and> cl_token claim = token \<and> lease_deadline now_ms lease_ms = Ok (cl_claimed_until claim)
    \<and> (\<exists>r ks. r \<in> set (db_queue_items d1) \<and> qi_id r = cl_queue_item_id claim \<and> claimable d1 now_ms r
        \<and> parse_string_list E (qi_lock_keys_json r) = Some ks \<and> locks_are_available d1 ks now_ms
        \<and> d' = claimed_db (claim_row claim now_ms) ks d1
        \<and> (\<forall>r' \<in> set (db_queue_items d1). claimable d1 now_ms r' \<longrightarrow>
             (qi_input_cursor r', qi_id r') < (qi_input_cursor r, qi_id r) \<longrightarrow>
             (\<exists>ks'. parse_string_list E (qi_lock_keys_json r') = Some ks' \<and> \<not> locks_are_available d1 ks' now_ms)))"
  using assms(1)
proof (rule claim_next_Ok)
  fix until cands
  assume until: "lease_deadline now_ms lease_ms = Ok until"
    and "claim_candidates E (fst (reconcile_expired_in_transaction now_ms d)) now_ms = Ok cands"
    and "claim_loop w token until now_ms (fst (reconcile_expired_in_transaction now_ms d)) cands = Ok (d', Some claim)"
  then have cands: "claim_candidates E d1 now_ms = Ok cands"
    and loop: "claim_loop w token until now_ms d1 cands = Ok (d', Some claim)" by (simp_all add: assms(2))
  from loop show ?thesis
  proof (cases rule: claim_loop_cases)
    case (first pre cand post claim')
    obtain r where r: "r \<in> set (candidate_rows now_ms d1)" "read_candidate E r = Ok cand"
      and earlier: "\<And>r'. r' \<in> set (candidate_rows now_ms d1) \<Longrightarrow>
        (qi_input_cursor r', qi_id r') < (qi_input_cursor r, qi_id r) \<Longrightarrow> \<exists>c \<in> set pre. read_candidate E r' = Ok c"
      using first_candidate_row [OF cands [unfolded first(2)]] by blast
    have "\<exists>ks'. parse_string_list E (qi_lock_keys_json r') = Some ks' \<and> \<not> locks_are_available d1 ks' now_ms"
      if "r' \<in> set (db_queue_items d1)" "claimable d1 now_ms r'"
        "(qi_input_cursor r', qi_id r') < (qi_input_cursor r, qi_id r)" for r'
      using earlier [of r'] that first(3) by (auto simp: in_candidate_rows read_candidate_Ok)
    then show ?thesis using first r until
      by (intro conjI exI [of _ r] exI [of _ "cc_lock_keys cand"]) (auto simp: in_candidate_rows read_candidate_Ok)
  qed simp
qed

theorem claim_takes_oldest_witness:
  "\<exists>r ks. claimable (fst (reconcile_expired_in_transaction 10 sample_queue)) 10 r \<and> qi_id r = ''q1'' \<and> queue_after_claim = claimed_db (claim_row (sample_claim ''q1'' ''t1'' 60) 10) ks
     (fst (reconcile_expired_in_transaction 10 sample_queue))"
proof -
  have item: "cl_queue_item_id (sample_claim ''q1'' ''t1'' 60) = ''q1''" by (simp add: sample_claim_def)
  show ?thesis
    using claim_takes_oldest [OF sample_claim_1 refl] unfolding item by (elim conjE exE) (intro exI conjI; assumption)
qed

text \<open>C6: a worker with a fresh token and a valid lease is never refused: it gets a claim exactly when
  some item may run and its lock keys are all free, and otherwise is told that there is none.\<close>

theorem claim_progress:
  assumes inv: "coord_inv E d" and d1: "d1 = fst (reconcile_expired_in_transaction now_ms d)"
    and input: "sql_nonempty w" "sql_nonempty token" "lease_deadline now_ms lease_ms = Ok until" "\<not> claim_token_exists d1 token"
    and rows: "\<forall>r \<in> set (db_queue_items d1). claimable d1 now_ms r \<longrightarrow> sql_nonempty (qi_id r)
      \<and> (\<exists>ks. parse_string_list E (qi_lock_keys_json r) = Some ks \<and> distinct ks \<and> list_all sql_nonempty ks)"
  shows "\<exists>d' res. claim_next_queue_item E w token lease_ms now_ms d = Ok (d', res)
    \<and> (res = None \<longleftrightarrow> \<not> (\<exists>r \<in> set (db_queue_items d1). claimable d1 now_ms r
         \<and> (\<exists>ks. parse_string_list E (qi_lock_keys_json r) = Some ks \<and> set ks \<inter> lk_key ` set (db_locks d1) = {})))"
proof -
  note free = reconciled_locks_available [OF inv d1]
  have "\<exists>cand. read_candidate E r = Ok cand" if "r \<in> set (candidate_rows now_ms d1)" for r
  proof -
    from that rows obtain ks where "sql_nonempty (qi_id r)" "parse_string_list E (qi_lock_keys_json r) = Some ks"
      "distinct ks" "list_all sql_nonempty ks" by (auto simp: in_candidate_rows)
    then have "read_candidate E r = Ok \<lparr>cc_queue_item_id = qi_id r, cc_lock_keys = ks\<rparr>"
      by (auto simp: read_candidate_Ok sql_nonempty_def list_all_iff)
    then show ?thesis ..
  qed
  then obtain cands where cands: "claim_candidates E d1 now_ms = Ok cands"
    unfolding claim_candidates_def by (metis try_collect_total)
  have all: "list_all2 (\<lambda>r x. read_candidate E r = Ok x) (candidate_rows now_ms d1) cands"
    using cands by (simp add: claim_candidates_def try_collect_Ok_iff)
  have taken: "claim_next_queue_item E w token lease_ms now_ms d = claim_loop w token until now_ms d1 cands"
    using input cands d1 by (auto simp: claim_next_queue_item_def sql_nonempty_def split_beta)
  have some: "(\<exists>cand \<in> set cands. locks_are_available d1 (cc_lock_keys cand) now_ms) \<longleftrightarrow>
      (\<exists>r \<in> set (db_queue_items d1). claimable d1 now_ms r
         \<and> (\<exists>ks. parse_string_list E (qi_lock_keys_json r) = Some ks \<and> set ks \<inter> lk_key ` set (db_locks d1) = {}))"
    using candidate_exists [OF all, of "\<lambda>ks. set ks \<inter> lk_key ` set (db_locks d1) = {}"]
    by (simp add: free in_candidate_rows Bex_def conj_assoc)
  show ?thesis
  proof (cases "\<exists>cand \<in> set cands. locks_are_available d1 (cc_lock_keys cand) now_ms")
    case False
    then obtain e where "claim_loop w token until now_ms d1 cands = Ok (e, None)"
      using claim_loop_None_iff [of w token until now_ms d1 cands] by auto
    with False taken some show ?thesis by auto
  next
    case True
    obtain claim e where "claim_loop w token until now_ms d1 cands = Ok (e, Some claim)"
      using claim_loop_total [OF coord_inv_reconcile [OF inv, of now_ms, folded d1] cands True input(1,2) lease_deadline_after [OF input(3)] input(4) rows free] by blast
    with True taken some show ?thesis by auto
  qed
qed

theorem claim_progress_witness:
  "\<exists>d' claim. claim_next_queue_item lock_env ''w'' ''t1'' 50 10 sample_queue = Ok (d', Some claim)"
proof -
  have same: "fst (reconcile_expired_in_transaction 10 sample_queue) = sample_queue" by (simp add: sample_queue_simps)
  have rows: "\<forall>r \<in> set (db_queue_items sample_queue). claimable sample_queue 10 r \<longrightarrow> sql_nonempty (qi_id r)
      \<and> (\<exists>ks. parse_string_list lock_env (qi_lock_keys_json r) = Some ks \<and> distinct ks \<and> list_all sql_nonempty ks)"
    by (simp add: sample_queue_simps)
  have lease: "lease_deadline 10 50 = Ok 60" by (simp add: lease_deadline_def is_i64_def)
  have fresh: "\<not> claim_token_exists sample_queue ''t1''" by (simp add: sample_queue_simps)
  have "\<exists>r \<in> set (db_queue_items sample_queue). claimable sample_queue 10 r
      \<and> (\<exists>ks. parse_string_list lock_env (qi_lock_keys_json r) = Some ks \<and> set ks \<inter> lk_key ` set (db_locks sample_queue) = {})"
    by (simp add: sample_queue_simps)
  then show ?thesis
    using claim_progress [OF sample_queue_inv same [symmetric] _ _ lease fresh rows, of "''w''"]
    by (auto simp: sql_nonempty_def)
qed

text \<open>C9: a claim that is no longer current changes nothing: renewing and releasing it leave the database as
  it is and report the loss; and of the claims that are current on an item, there is one worker and token.\<close>

theorem lost_claim_is_powerless:
  assumes inv: "coord_inv E d" and lost: "\<not> claim_is_current claim now_ms d"
  shows "release_claim claim now_ms d = (d, False)
    \<and> (\<forall>until. lease_deadline now_ms lease_ms = Ok until \<longrightarrow> renew_claim claim lease_ms now_ms d = Ok (d, False))
    \<and> (\<forall>a b. claim_is_current a now_ms d \<longrightarrow> claim_is_current b now_ms d \<longrightarrow> cl_queue_item_id a = cl_queue_item_id b \<longrightarrow>
         cl_worker_name a = cl_worker_name b \<and> cl_token a = cl_token b)"
proof -
  have none: "\<not> (owns claim c \<and> now_ms < qc_claimed_until c)" if "c \<in> set (db_queue_claims d)" for c
    using that lost by (auto simp: claim_is_current_def list_ex_iff)
  then have count: "sql_count (\<lambda>c. owns claim c \<and> now_ms < qc_claimed_until c) (db_queue_claims d) = 0"
    and kept: "filter (\<lambda>c. \<not> (owns claim c \<and> now_ms < qc_claimed_until c)) (db_queue_claims d) = db_queue_claims d"
    and empty: "filter (\<lambda>c. owns claim c \<and> now_ms < qc_claimed_until c) (db_queue_claims d) = []"
    by (simp_all add: sql_count_none filter_id_conv filter_empty_conv)
  have release: "release_claim claim now_ms d = (d, False)"
    unfolding release_claim_def Let_def delete_queue_claims_def count kept empty by simp
  have renew: "renew_claim claim lease_ms now_ms d = Ok (d, False)" if "lease_deadline now_ms lease_ms = Ok until" for until
    using none that by (auto simp: renew_claim_def Let_def count sql_update_none list_ex_iff)
  have "cl_worker_name a = cl_worker_name b \<and> cl_token a = cl_token b"
    if "claim_is_current a now_ms d" "claim_is_current b now_ms d" "cl_queue_item_id a = cl_queue_item_id b" for a b
  proof -
    note current = that(1,2)
    obtain x y where "x \<in> set (db_queue_claims d)" "owns a x" "y \<in> set (db_queue_claims d)" "owns b y"
      using current unfolding claim_is_current_def list_ex_iff by blast
    with distinct_map_eq [OF coord_invD(2) [OF inv], of x y] that(3) show ?thesis by (auto simp: owns_def)
  qed
  with release renew show ?thesis by blast
qed

theorem lost_claim_is_powerless_witness:
  "\<not> claim_is_current (sample_claim ''q1'' ''stale'' 60) 20 queue_after_claim
   \<and> release_claim (sample_claim ''q1'' ''stale'' 60) 20 queue_after_claim = (queue_after_claim, False)"
proof -
  have inv: "coord_inv lock_env queue_after_claim" using coord_inv_claim_next [OF sample_queue_inv sample_claim_1] .
  have lost: "\<not> claim_is_current (sample_claim ''q1'' ''stale'' 60) 20 queue_after_claim"
    by (simp add: claim_is_current_def owns_def sample_claim_def queue_after_claim_def claimed_db_def claim_row_def
        sample_queue_def db_empty_def)
  show ?thesis using lost_claim_is_powerless [OF inv lost, of 1] lost by simp
qed

text \<open>C26: when a lease runs out, the next claim finds the item again: it is available and unclaimed, and
  may run if it is due and not cancelled.\<close>

theorem expired_claim_is_claimable:
  assumes inv: "coord_inv E d" and c: "c \<in> set (db_queue_claims d)" "qc_claimed_until c \<le> now_ms"
    and r: "r \<in> set (db_queue_items d)" "qi_id r = qc_queue_item_id c" "qi_cancel_requested_event_id r = None"
      "case qi_available_at r of Some t \<Rightarrow> t \<le> now_ms | None \<Rightarrow> qi_updated_at r \<le> now_ms"
    and d1: "d1 = fst (reconcile_expired_claims now_ms d)"
  shows "r\<lparr>qi_status := ''available''\<rparr> \<in> set (db_queue_items d1) \<and> claimable d1 now_ms (r\<lparr>qi_status := ''available''\<rparr>)
    \<and> (\<forall>claim t. cl_token claim = qc_claim_token c \<longrightarrow> \<not> claim_is_current claim t d1)"
proof -
  let ?P = "\<lambda>r. qi_id r \<in> qc_queue_item_id ` {c \<in> set (db_queue_claims d). qc_claimed_until c \<le> now_ms}"
  let ?r = "r\<lparr>qi_status := ''available''\<rparr>"
  have items: "db_queue_items d1 = reopen ?P (db_queue_items d)"
    by (simp add: d1 reconcile_expired_claims_def reconcile_reopen delete_queue_claims_def Let_def)
  have claims: "x \<in> set (db_queue_claims d1) \<longleftrightarrow> x \<in> set (db_queue_claims d) \<and> now_ms < qc_claimed_until x" for x
    by (simp add: d1 reconcile_expired_claims_def reconciled_claims)
  have line: "first_in_line (db_queue_items d) r" using coord_invD(8) [OF inv c(1) r(1,2)] by (simp add: working_def)
  then have "qi_status r = ''available'' \<or> qi_status r = ''claimed''" by (simp add: first_in_line_def)
  then have row: "?r \<in> set (db_queue_items d1)"
    using r(1,2) c unfolding items reopen_def in_sql_update by (intro bexI [of _ r]) auto
  have gone: "x \<noteq> c" if "x \<in> set (db_queue_claims d1)" for x using that c(2) claims by auto
  have "first_in_line (db_queue_items d1) ?r"
    unfolding items by (rule first_in_line_reopen [OF line]) (use line in \<open>simp_all add: first_in_line_def\<close>)
  moreover have "qi_id r \<notin> qc_queue_item_id ` set (db_queue_claims d1)"
  proof
    assume "qi_id r \<in> qc_queue_item_id ` set (db_queue_claims d1)"
    then obtain x where x: "x \<in> set (db_queue_claims d1)" "qc_queue_item_id x = qc_queue_item_id c" using r(2) by auto
    then have "x = c" using distinct_map_eq [OF coord_invD(2) [OF inv] _ c(1)] claims by blast
    with gone [OF x(1)] show False by simp
  qed
  ultimately have "claimable d1 now_ms ?r"
    using r(3,4)
    by (simp add: claimable_def first_in_line_def unbound_def finished_def list_ex_image split: option.split_asm)
      (auto simp: list_ex_iff)
  moreover have "\<not> claim_is_current claim t d1" if token: "cl_token claim = qc_claim_token c" for claim t
  proof
    assume "claim_is_current claim t d1"
    then obtain x where x: "x \<in> set (db_queue_claims d1)" "qc_claim_token x = qc_claim_token c"
      using token unfolding claim_is_current_def list_ex_iff owns_def by auto
    then have "x = c" using distinct_map_eq [OF coord_invD(3) [OF inv] _ c(1)] claims by blast
    with gone [OF x(1)] show False by simp
  qed
  ultimately show ?thesis using row by blast
qed

theorem expired_claim_is_claimable_witness:
  "claimable (fst (reconcile_expired_claims 60 queue_after_claim)) 60 (sample_item ''q1'' 1 ''s'' sample_keys_json)"
proof -
  have inv: "coord_inv lock_env queue_after_claim" using coord_inv_claim_next [OF sample_queue_inv sample_claim_1] .
  let ?c = "claim_row (sample_claim ''q1'' ''t1'' 60) 10" and ?r = "sample_item ''q1'' 1 ''s'' sample_keys_json"
  have m: "?c \<in> set (db_queue_claims queue_after_claim)" "qc_claimed_until ?c \<le> 60"
    "?r \<in> set (db_queue_items queue_after_claim)" "qi_id ?r = qc_queue_item_id ?c" "qi_cancel_requested_event_id ?r = None"
    "case qi_available_at ?r of Some t \<Rightarrow> t \<le> 60 | None \<Rightarrow> qi_updated_at ?r \<le> 60"
    by (simp_all add: queue_after_claim_def claimed_db_def claim_row_def sample_claim_def sample_queue_def sample_item_def)
  have "?r\<lparr>qi_status := ''available''\<rparr> = ?r" by (simp add: sample_item_def)
  with expired_claim_is_claimable [OF inv m refl] show ?thesis by simp
qed

end
