(* ===== verification/Memory_Journal.thy ===== *)
theory Memory_Journal
  imports Chain
begin

text \<open>
  \<open>crates/zeta-journal/src/memory.rs\<close>: the in-memory reference journal, its append and its
  queries.  The two \<open>HashMap\<close> indexes are finite association lists.  \<open>journal_append\<close> returns the next
  state with the outcome; on every error path the state is the old one.

  The locale \<open>event_log\<close> is the contract that clients of a journal rely on, whatever stores it;
  the in-memory journal is interpreted against it.
\<close>

section \<open>State and append\<close>

record memory_journal =
  mj_entries :: "journal_entry list"
  mj_by_id :: "(string \<times> nat) list"
  mj_by_idempotency_key :: "(string \<times> nat) list"
  mj_next_cursor :: nat
  mj_head :: "hash option"

definition memory_journal_new :: memory_journal where
  "memory_journal_new =
     \<lparr>mj_entries = [], mj_by_id = [], mj_by_idempotency_key = [], mj_next_cursor = 1, mj_head = None\<rparr>"

text \<open>The end of \<open>append\<close>, once no duplicate is found.\<close>

definition append_insert ::
  "env \<Rightarrow> memory_journal \<Rightarrow> event \<Rightarrow> memory_journal \<times> (append_error, append_outcome) result" where
  "append_insert E j ev =
     (let cursor = mj_next_cursor j in
      if cursor = u64_max then (j, Err CursorExhausted)
      else let next_cursor = cursor + 1 in
        case journal_entry_new E ev cursor (mj_head j) of
          Inl e \<Rightarrow> (j, Err e)
        | Inr entry \<Rightarrow>
            let index = length (mj_entries j) in
            (\<lparr>mj_entries = mj_entries j @ [entry],
              mj_by_id = map_insert (ev_id (je_event entry)) index (mj_by_id j),
              mj_by_idempotency_key =
                (case ev_idempotency_key (je_event entry) of
                   Some key \<Rightarrow> map_insert key index (mj_by_idempotency_key j)
                 | None \<Rightarrow> mj_by_idempotency_key j),
              mj_next_cursor = next_cursor,
              mj_head = Some (je_entry_address entry)\<rparr>,
             Ok \<lparr>out_event = je_event entry, out_inserted = True\<rparr>))"

definition journal_append ::
  "env \<Rightarrow> memory_journal \<Rightarrow> event \<Rightarrow> memory_journal \<times> (append_error, append_outcome) result" where
  "journal_append E j ev =
     (case validate_identity_fields ev of
        Inl e \<Rightarrow> (j, Err e)
      | Inr _ \<Rightarrow>
          (case map_get (mj_by_id j) (ev_id ev) of
             Some duplicate_index \<Rightarrow>
               (let duplicate = mj_entries j ! duplicate_index in
                case canonical_payload E (ev_payload ev) of
                  Inl e \<Rightarrow> (j, Err (PayloadEncoding e))
                | Inr payload \<Rightarrow>
                    if payload_address E payload \<noteq> je_payload_address duplicate
                    then (j, Err DuplicateIdPayloadMismatch)
                    else (j, Ok \<lparr>out_event = je_event duplicate, out_inserted = False\<rparr>))
           | None \<Rightarrow>
               (case Option.bind (ev_idempotency_key ev) (map_get (mj_by_idempotency_key j)) of
                  Some duplicate_index \<Rightarrow>
                    (j, Ok \<lparr>out_event = je_event (mj_entries j ! duplicate_index), out_inserted = False\<rparr>)
                | None \<Rightarrow> append_insert E j ev)))"

section \<open>Queries\<close>

definition get_event :: "memory_journal \<Rightarrow> string \<Rightarrow> event option" where
  "get_event j event_id =
     (case map_get (mj_by_id j) event_id of
        None \<Rightarrow> None
      | Some index \<Rightarrow> Some (je_event (mj_entries j ! index)))"

definition event_matches :: "event \<Rightarrow> event_filter \<Rightarrow> bool" where
  "event_matches ev f \<longleftrightarrow>
     (case f_event_type f of Some t \<Rightarrow> ev_event_type ev = t | None \<Rightarrow> True)
     \<and> (case f_event_type_prefix f of Some p \<Rightarrow> prefix p (ev_event_type ev) | None \<Rightarrow> True)
     \<and> (case f_session_id f of Some s \<Rightarrow> ev_session_id ev = Some s | None \<Rightarrow> True)
     \<and> (case f_run_id f of Some r \<Rightarrow> ev_run_id ev = Some r | None \<Rightarrow> True)
     \<and> (case f_turn_id f of Some t \<Rightarrow> ev_turn_id ev = Some t | None \<Rightarrow> True)
     \<and> (case f_caused_by f of Some c \<Rightarrow> ev_caused_by ev = Some c | None \<Rightarrow> True)
     \<and> (case f_after_cursor f of
          Some after \<Rightarrow> (case ev_cursor ev of None \<Rightarrow> False | Some c \<Rightarrow> after < c)
        | None \<Rightarrow> True)"

definition truncate_events :: "nat option \<Rightarrow> event list \<Rightarrow> event list" where
  "truncate_events limit events = (case limit of Some n \<Rightarrow> take n events | None \<Rightarrow> events)"

definition list_events :: "memory_journal \<Rightarrow> event_filter \<Rightarrow> event list" where
  "list_events j f =
     (let entries = (if f_newest_first f then rev (mj_entries j) else mj_entries j);
          events = filter (\<lambda>ev. event_matches ev f) (map je_event entries)
      in truncate_events (f_limit f) events)"

definition children :: "memory_journal \<Rightarrow> string \<Rightarrow> nat option \<Rightarrow> event list" where
  "children j event_id limit =
     list_events j (event_filter_default\<lparr>f_caused_by := Some event_id, f_limit := limit\<rparr>)"

definition events_for_turn :: "memory_journal \<Rightarrow> string \<Rightarrow> event list" where
  "events_for_turn j turn_id = list_events j (event_filter_default\<lparr>f_turn_id := Some turn_id\<rparr>)"

definition events_for_run :: "memory_journal \<Rightarrow> string \<Rightarrow> event list" where
  "events_for_run j run_id = list_events j (event_filter_default\<lparr>f_run_id := Some run_id\<rparr>)"

text \<open>
  The loop of \<open>causal_chain\<close>: \<open>seen\<close> are the ids visited, \<open>chain\<close> the events pushed so far.  Each
  round adds the id of an event that the index can reach, and there are finitely many.
\<close>

definition reachable_ids :: "memory_journal \<Rightarrow> string set" where
  "reachable_ids j = (\<lambda>i. ev_id (je_event (mj_entries j ! i))) ` snd ` set (mj_by_id j)"

lemma finite_reachable_ids [simp]: "finite (reachable_ids j)"
  by (simp add: reachable_ids_def)

lemma get_event_reachable: "get_event j i = Some ev \<Longrightarrow> ev_id ev \<in> reachable_ids j"
  unfolding get_event_def reachable_ids_def
  by (auto split: option.splits dest!: map_of_SomeD intro!: image_eqI)

function causal_walk :: "memory_journal \<Rightarrow> string set \<Rightarrow> event list \<Rightarrow> event option \<Rightarrow> event list" where
  "causal_walk j seen chain current =
     (case current of
        None \<Rightarrow> chain
      | Some ev \<Rightarrow>
          if ev_id ev \<in> seen then chain
          else case ev_caused_by ev of
            None \<Rightarrow> chain @ [ev]
          | Some caused_by \<Rightarrow>
              causal_walk j (insert (ev_id ev) seen) (chain @ [ev]) (get_event j caused_by))"
  by pat_completeness auto

definition walk_room :: "memory_journal \<Rightarrow> string set \<Rightarrow> event option \<Rightarrow> string set" where
  "walk_room j seen current = (reachable_ids j \<union> ev_id ` set_option current) - seen"

termination causal_walk
proof (relation "measure (\<lambda>(j, seen, chain, current). card (walk_room j seen current))", simp)
  fix j seen chain and current :: "event option" and ev :: event and caused_by
  assume c: "current = Some ev" "ev_id ev \<notin> seen"
  have "ev_id ` set_option (get_event j caused_by) \<subseteq> reachable_ids j"
    by (auto intro: get_event_reachable)
  then have "walk_room j (insert (ev_id ev) seen) (get_event j caused_by) \<subset> walk_room j seen current"
    using c by (auto simp: walk_room_def)
  moreover have "finite (walk_room j seen current)" by (simp add: walk_room_def)
  ultimately show "((j, insert (ev_id ev) seen, chain @ [ev], get_event j caused_by), j, seen, chain, current)
      \<in> measure (\<lambda>(j, seen, chain, current). card (walk_room j seen current))"
    by (simp add: psubset_card_mono)
qed

declare causal_walk.simps [simp del]

definition causal_chain :: "memory_journal \<Rightarrow> string \<Rightarrow> event list" where
  "causal_chain j event_id = rev (causal_walk j {} [] (get_event j event_id))"

section \<open>Invariant\<close>

definition mj_inv :: "env \<Rightarrow> memory_journal \<Rightarrow> bool" where
  "mj_inv E j \<longleftrightarrow>
     journal_ok E (mj_entries j)
     \<and> map je_cursor (mj_entries j) = map Some [1..<Suc (length (mj_entries j))]
     \<and> mj_next_cursor j = Suc (length (mj_entries j))
     \<and> mj_next_cursor j \<le> u64_max
     \<and> mj_head j = journal_head (mj_entries j)
     \<and> (\<forall>k i. map_get (mj_by_id j) k = Some i \<longleftrightarrow>
          i < length (mj_entries j) \<and> ev_id (je_event (mj_entries j ! i)) = k)
     \<and> (\<forall>k i. map_get (mj_by_idempotency_key j) k = Some i \<longleftrightarrow>
          i < length (mj_entries j) \<and> ev_idempotency_key (je_event (mj_entries j ! i)) = Some k)"

lemma mj_invD:
  assumes "mj_inv E j"
  shows "journal_ok E (mj_entries j)"
    and "map je_cursor (mj_entries j) = map Some [1..<Suc (length (mj_entries j))]"
    and "mj_next_cursor j = Suc (length (mj_entries j))"
    and "mj_next_cursor j \<le> u64_max"
    and "mj_head j = journal_head (mj_entries j)"
    and "map_get (mj_by_id j) k = Some i \<longleftrightarrow>
          i < length (mj_entries j) \<and> ev_id (je_event (mj_entries j ! i)) = k"
    and "map_get (mj_by_idempotency_key j) k = Some i \<longleftrightarrow>
          i < length (mj_entries j) \<and> ev_idempotency_key (je_event (mj_entries j ! i)) = Some k"
  using assms by (simp_all add: mj_inv_def)

lemma mj_inv_new [simp]: "mj_inv E memory_journal_new"
  by (simp add: mj_inv_def memory_journal_new_def u64_max_def)

lemma by_id_None:
  assumes "mj_inv E j"
  shows "map_get (mj_by_id j) k = None \<longleftrightarrow> k \<notin> set (je_ids (mj_entries j))"
proof -
  have "(\<exists>i. map_get (mj_by_id j) k = Some i) \<longleftrightarrow> k \<in> set (je_ids (mj_entries j))"
    unfolding mj_invD(6) [OF assms] je_ids_def set_map by (metis (no_types, lifting) image_iff in_set_conv_nth)
  then show ?thesis by auto
qed

lemma set_je_keys: "k \<in> set (je_keys es) \<longleftrightarrow> (\<exists>e \<in> set es. ev_idempotency_key (je_event e) = Some k)"
  by (induction es rule: rev_induct) (auto split: option.splits)

lemma by_key_None:
  assumes "mj_inv E j"
  shows "map_get (mj_by_idempotency_key j) k = None \<longleftrightarrow> k \<notin> set (je_keys (mj_entries j))"
proof -
  have "(\<exists>i. map_get (mj_by_idempotency_key j) k = Some i) \<longleftrightarrow> k \<in> set (je_keys (mj_entries j))"
    unfolding mj_invD(7) [OF assms] set_je_keys by (metis in_set_conv_nth)
  then show ?thesis by auto
qed

lemma last_cursor_inv:
  assumes "mj_inv E j"
  shows "last_cursor (mj_entries j) = (if mj_entries j = [] then None else Some (length (mj_entries j)))"
proof (cases "mj_entries j = []")
  case False
  then have "je_cursor (last (mj_entries j)) = last (map je_cursor (mj_entries j))" by (simp add: last_map)
  also have "\<dots> = Some (length (mj_entries j))" using False by (simp add: mj_invD(2) [OF assms] Suc_le_eq)
  finally show ?thesis using False by (simp add: last_cursor_def)
qed (simp add: last_cursor_def)

lemma journal_ok_push:
  assumes inv: "mj_inv E j" and entry: "journal_entry_new E ev (mj_next_cursor j) (mj_head j) = Ok entry"
    and fresh: "ev_id ev \<notin> set (je_ids (mj_entries j))"
      "\<forall>k. ev_idempotency_key ev = Some k \<longrightarrow> k \<notin> set (je_keys (mj_entries j))"
  shows "journal_ok E (mj_entries j @ [entry])"
proof -
  have e: "entry_ok E (journal_head (mj_entries j)) entry" "je_event entry = ev\<lparr>ev_cursor := Some (mj_next_cursor j)\<rparr>"
    using journal_entry_new_entry_ok [OF entry] mj_invD(5) [OF inv] by simp_all
  have "cursor_is_valid (last_cursor (mj_entries j)) (je_cursor entry)"
    using last_cursor_inv [OF inv] mj_invD(3) [OF inv] e(2) by (simp add: cursor_is_valid_def je_cursor_def)
  with e fresh mj_invD(1) [OF inv] show ?thesis
    by (auto simp: journal_ok_snoc split: option.splits)
qed

lemma append_insert_inv:
  assumes inv: "mj_inv E j"
    and fresh: "ev_id ev \<notin> set (je_ids (mj_entries j))"
      "\<forall>k. ev_idempotency_key ev = Some k \<longrightarrow> k \<notin> set (je_keys (mj_entries j))"
  shows "mj_inv E (fst (append_insert E j ev))"
proof (cases "mj_next_cursor j = u64_max \<or> (\<exists>e. journal_entry_new E ev (mj_next_cursor j) (mj_head j) = Err e)")
  case True
  then show ?thesis using inv by (auto simp: append_insert_def Let_def)
next
  case False
  then obtain entry where entry: "journal_entry_new E ev (mj_next_cursor j) (mj_head j) = Ok entry"
    by (cases "journal_entry_new E ev (mj_next_cursor j) (mj_head j)") auto
  have e: "je_event entry = ev\<lparr>ev_cursor := Some (mj_next_cursor j)\<rparr>"
    using journal_entry_new_entry_ok [OF entry] by simp
  have ids: "map_get (mj_by_id j) (ev_id ev) = None" using fresh(1) by (simp add: by_id_None [OF inv])
  have keys: "map_get (mj_by_idempotency_key j) k = None" if "ev_idempotency_key ev = Some k" for k
    using fresh(2) that by (simp add: by_key_None [OF inv])
  let ?es = "mj_entries j @ [entry]"
  have "map je_cursor ?es = map Some [1..<Suc (length ?es)]"
    using mj_invD(2,3) [OF inv] e by (simp add: je_cursor_def)
  moreover have "(map_get (map_insert (ev_id ev) (length (mj_entries j)) (mj_by_id j)) k = Some i) \<longleftrightarrow>
      i < length ?es \<and> ev_id (je_event (?es ! i)) = k" for k i
    using ids mj_invD(6) [OF inv, of k i] mj_invD(6) [OF inv, of "ev_id ev" i] e
    by (auto simp: update_conv nth_append less_Suc_eq)
  moreover have "(map_get (case ev_idempotency_key ev of
        Some key \<Rightarrow> map_insert key (length (mj_entries j)) (mj_by_idempotency_key j)
      | None \<Rightarrow> mj_by_idempotency_key j) k = Some i) \<longleftrightarrow>
      i < length ?es \<and> ev_idempotency_key (je_event (?es ! i)) = Some k" for k i
    using keys mj_invD(7) [OF inv, of k i] e
    by (cases "ev_idempotency_key ev") (auto simp: update_conv nth_append less_Suc_eq)
  ultimately show ?thesis
    using False entry e journal_ok_push [OF inv entry fresh] mj_invD(3,4) [OF inv]
    by (simp add: append_insert_def Let_def mj_inv_def)
qed

lemma bind_None_keys:
  assumes "mj_inv E j" "Option.bind (ev_idempotency_key ev) (map_get (mj_by_idempotency_key j)) = None"
  shows "\<forall>k. ev_idempotency_key ev = Some k \<longrightarrow> k \<notin> set (je_keys (mj_entries j))"
  using assms(2) by_key_None [OF assms(1)] by (auto simp: bind_eq_None_conv)

text \<open>Every way an append can go, with what it leaves.\<close>

lemma journal_append_cases:
  assumes inv: "mj_inv E j" and app: "journal_append E j ev = (j', r)"
  obtains (error) e where "j' = j" "r = Err e"
  | (duplicate) i where "j' = j" "i < length (mj_entries j)"
      "r = Ok \<lparr>out_event = je_event (mj_entries j ! i), out_inserted = False\<rparr>"
  | (inserted) entry where "ev_id ev \<notin> set (je_ids (mj_entries j))"
      "\<forall>k. ev_idempotency_key ev = Some k \<longrightarrow> k \<notin> set (je_keys (mj_entries j))"
      "journal_append E j ev = append_insert E j ev"
      "journal_entry_new E ev (mj_next_cursor j) (mj_head j) = Ok entry"
      "mj_entries j' = mj_entries j @ [entry]"
      "r = Ok \<lparr>out_event = je_event entry, out_inserted = True\<rparr>"
proof (cases "validate_identity_fields ev")
  case (Inl e)
  with app error show thesis by (auto simp: journal_append_def)
next
  case (Inr u)
  show thesis
  proof (cases "map_get (mj_by_id j) (ev_id ev)")
    case (Some i)
    then have "i < length (mj_entries j)" by (simp add: mj_invD(6) [OF inv])
    then show thesis
      using app Inr Some error duplicate
      by (auto simp: journal_append_def Let_def split: sum.splits if_splits)
  next
    case None
    show thesis
    proof (cases "Option.bind (ev_idempotency_key ev) (map_get (mj_by_idempotency_key j))")
      case (Some i)
      then have "i < length (mj_entries j)" by (auto simp: bind_eq_Some_conv mj_invD(7) [OF inv])
      then show thesis using app Inr None Some duplicate by (auto simp: journal_append_def)
    next
      case key: None
      have ins: "journal_append E j ev = append_insert E j ev"
        using Inr None key by (simp add: journal_append_def)
      show thesis
      proof (cases "\<exists>e. snd (append_insert E j ev) = Err e")
        case True
        then show thesis
          using app ins error
          by (auto simp: append_insert_def Let_def split: if_splits sum.splits)
      next
        case False
        then obtain entry where "journal_entry_new E ev (mj_next_cursor j) (mj_head j) = Ok entry"
          "mj_next_cursor j \<noteq> u64_max"
          by (auto simp: append_insert_def Let_def split: if_splits sum.splits)
        then show thesis
          using inserted [OF _ bind_None_keys [OF inv key] ins] app ins None by_id_None [OF inv]
          by (auto simp: append_insert_def Let_def)
      qed
    qed
  qed
qed

lemma journal_append_inv: "mj_inv E j \<Longrightarrow> mj_inv E (fst (journal_append E j ev))"
proof -
  assume inv: "mj_inv E j"
  obtain j' r where app: "journal_append E j ev = (j', r)" by (rule prod.exhaust)
  from inv app show ?thesis
  proof (cases rule: journal_append_cases)
    case (inserted entry)
    then show ?thesis using append_insert_inv [OF inv inserted(1,2)] by (simp only: inserted(3))
  qed (use inv app in simp_all)
qed

lemma journal_append_retry:
  assumes inv: "mj_inv E j" and i: "i < length (mj_entries j)"
    and id: "ev_id ev = ev_id (je_event (mj_entries j ! i))" and valid: "validate_identity_fields ev = Ok ()"
    and payload: "canonical_payload E (ev_payload ev) = Ok b"
      "payload_address E b = je_payload_address (mj_entries j ! i)"
  shows "journal_append E j ev = (j, Ok \<lparr>out_event = je_event (mj_entries j ! i), out_inserted = False\<rparr>)"
proof -
  have "map_get (mj_by_id j) (ev_id ev) = Some i" using i id by (simp add: mj_invD(6) [OF inv])
  then show ?thesis using valid payload by (simp add: journal_append_def)
qed

section \<open>The contract of an event log\<close>

locale event_log =
  fixes E :: env
    and inv :: "'j \<Rightarrow> bool"
    and entries :: "'j \<Rightarrow> journal_entry list"
    and append_event :: "'j \<Rightarrow> event \<Rightarrow> 'j \<times> (append_error, append_outcome) result"
  assumes entries_ok: "inv j \<Longrightarrow> journal_ok E (entries j)"
    and append_inv: "inv j \<Longrightarrow> inv (fst (append_event j ev))"
    and append_grows: "inv j \<Longrightarrow> append_event j ev = (j', r) \<Longrightarrow>
      (entries j' = entries j \<and> (\<forall>out. r = Ok out \<longrightarrow> \<not> out_inserted out \<and> out_event out \<in> je_event ` set (entries j)))
      \<or> (\<exists>e c. entries j' = entries j @ [e] \<and> je_event e = ev\<lparr>ev_cursor := Some c\<rparr>
           \<and> r = Ok \<lparr>out_event = je_event e, out_inserted = True\<rparr>)"
    and append_again: "inv j \<Longrightarrow> e \<in> set (entries j) \<Longrightarrow> ev_id ev = ev_id (je_event e) \<Longrightarrow>
      validate_identity_fields ev = Ok () \<Longrightarrow> canonical_payload E (ev_payload ev) = Ok b \<Longrightarrow>
      payload_address E b = je_payload_address e \<Longrightarrow>
      append_event j ev = (j, Ok \<lparr>out_event = je_event e, out_inserted = False\<rparr>)"
begin

lemma run_inv: "inv j \<Longrightarrow> inv (foldl (\<lambda>j ev. fst (append_event j ev)) j evs)"
  by (induction evs arbitrary: j) (simp_all add: append_inv)

lemma append_prefix: "inv j \<Longrightarrow> prefix (entries j) (entries (fst (append_event j ev)))"
  using append_grows [of j ev "fst (append_event j ev)" "snd (append_event j ev)"] by auto

lemma run_prefix: "inv j \<Longrightarrow> prefix (entries j) (entries (foldl (\<lambda>j ev. fst (append_event j ev)) j evs))"
proof (induction evs arbitrary: j)
  case (Cons ev evs)
  then have "prefix (entries (fst (append_event j ev))) (entries (foldl (\<lambda>j ev. fst (append_event j ev)) j (ev # evs)))"
    using append_inv by simp
  with append_prefix [OF Cons.prems] show ?case by (rule prefix_order.trans)
qed simp

lemma run_verifies:
  assumes "inv j" "k = foldl (\<lambda>j ev. fst (append_event j ev)) j evs"
  shows "verify E (entries k) (Exact (journal_head (entries k)))
    = Ok \<lparr>rep_entries_checked = length (entries k), rep_head = journal_head (entries k)\<rparr>"
  using entries_ok [OF run_inv [OF assms(1)]] by (simp add: verify_exact_iff assms(2))

lemma retry_is_absorbed:
  assumes j: "inv j" and app: "append_event j ev = (j', Ok out)" "out_inserted out"
    and k: "k = foldl (\<lambda>j ev. fst (append_event j ev)) j' evs"
  shows "append_event k ev = (k, Ok \<lparr>out_event = out_event out, out_inserted = False\<rparr>)"
proof -
  from append_grows [OF j app(1)] app(2) obtain e c where
    e: "entries j' = entries j @ [e]" "je_event e = ev\<lparr>ev_cursor := Some c\<rparr>" "out_event out = je_event e"
    by auto
  have j': "inv j'" using append_inv [OF j, of ev] app(1) by simp
  from entries_ok [OF j'] e(1) have ok: "entry_ok E (journal_head (entries j)) e"
    by (simp add: journal_ok_snoc)
  then obtain b where "canonical_chain_bytes E (je_event e) (je_payload_address e) (journal_head (entries j)) = Ok b"
    by (rule entry_ok_chain_bytes)
  then have valid: "validate_identity_fields ev = Ok ()"
    using e(2) by (auto simp: canonical_chain_bytes_def and_then_Ok_iff)
  have payload: "canonical_payload E (ev_payload ev) = Ok (je_payload_bytes e)"
    "payload_address E (je_payload_bytes e) = je_payload_address e"
    using ok e(2) by (simp_all add: entry_ok_def)
  have "e \<in> set (entries k)"
    using run_prefix [OF j', of evs] e(1) k by (auto simp: prefix_def)
  moreover have "inv k" unfolding k by (rule run_inv [OF j'])
  ultimately show ?thesis
    using append_again [of k e ev] valid payload e(2,3) by simp
qed

end

lemma memory_append_grows:
  assumes "mj_inv E j" "journal_append E j ev = (j', r)"
  shows "(mj_entries j' = mj_entries j
      \<and> (\<forall>out. r = Ok out \<longrightarrow> \<not> out_inserted out \<and> out_event out \<in> je_event ` set (mj_entries j)))
    \<or> (\<exists>e c. mj_entries j' = mj_entries j @ [e] \<and> je_event e = ev\<lparr>ev_cursor := Some c\<rparr>
        \<and> r = Ok \<lparr>out_event = je_event e, out_inserted = True\<rparr>)"
  using assms
proof (cases rule: journal_append_cases)
  case (inserted entry)
  then show ?thesis using journal_entry_new_entry_ok [OF inserted(4)] by blast
qed auto

interpretation memory_log: event_log E "mj_inv E" mj_entries "journal_append E" for E
proof unfold_locales
  fix j :: memory_journal and e ev b
  assume *: "mj_inv E j" "e \<in> set (mj_entries j)" "ev_id ev = ev_id (je_event e)"
    "validate_identity_fields ev = Ok ()" "canonical_payload E (ev_payload ev) = Ok b"
    "payload_address E b = je_payload_address e"
  from *(2) obtain i where "i < length (mj_entries j)" "mj_entries j ! i = e" by (auto simp: in_set_conv_nth)
  with journal_append_retry [OF *(1), of i ev b] *
  show "journal_append E j ev = (j, Ok \<lparr>out_event = je_event e, out_inserted = False\<rparr>)" by simp
qed (rule mj_invD(1) journal_append_inv memory_append_grows; assumption)+

section \<open>The abstract journal\<close>

text \<open>
  What \<open>append\<close> promises, on the list of stored events alone: no index, no addresses, no head.
\<close>

definition address_of_payload :: "env \<Rightarrow> json_map \<Rightarrow> (canonical_json_error, hash) result" where
  "address_of_payload E payload = and_then (canonical_payload E payload) (\<lambda>b. Ok (payload_address E b))"

definition spec_append :: "env \<Rightarrow> event list \<Rightarrow> event \<Rightarrow> event list \<times> (append_error, append_outcome) result" where
  "spec_append E evs ev =
     (case validate_identity_fields ev of
        Inl e \<Rightarrow> (evs, Err e)
      | Inr _ \<Rightarrow>
          (case find (\<lambda>d. ev_id d = ev_id ev) evs of
             Some d \<Rightarrow>
               (evs, case address_of_payload E (ev_payload ev) of
                  Inl e \<Rightarrow> Err (PayloadEncoding e)
                | Inr a \<Rightarrow>
                    if Ok a = address_of_payload E (ev_payload d)
                    then Ok \<lparr>out_event = d, out_inserted = False\<rparr>
                    else Err DuplicateIdPayloadMismatch)
           | None \<Rightarrow>
               (case find (\<lambda>d. ev_idempotency_key ev \<noteq> None \<and> ev_idempotency_key d = ev_idempotency_key ev) evs of
                  Some d \<Rightarrow> (evs, Ok \<lparr>out_event = d, out_inserted = False\<rparr>)
                | None \<Rightarrow>
                    if Suc (length evs) = u64_max then (evs, Err CursorExhausted)
                    else case canonical_payload E (ev_payload ev) of
                      Inl e \<Rightarrow> (evs, Err (PayloadEncoding e))
                    | Inr _ \<Rightarrow>
                        (let stored = ev\<lparr>ev_cursor := Some (Suc (length evs))\<rparr> in
                         (evs @ [stored], Ok \<lparr>out_event = stored, out_inserted = True\<rparr>)))))"

lemma find_index:
  "i < length xs \<Longrightarrow> P (xs ! i) \<Longrightarrow> (\<And>k. k < i \<Longrightarrow> \<not> P (xs ! k)) \<Longrightarrow> find P xs = Some (xs ! i)"
  by (auto simp: find_Some_iff)

lemma find_by_id:
  assumes "mj_inv E j"
  shows "find (\<lambda>d. ev_id d = k) (map je_event (mj_entries j))
    = map_option (\<lambda>i. je_event (mj_entries j ! i)) (map_get (mj_by_id j) k)"
proof (cases "map_get (mj_by_id j) k")
  case None
  then show ?thesis
    using by_id_None [OF assms, of k] by (auto simp: find_None_iff je_ids_def)
next
  case (Some i)
  then have i: "i < length (mj_entries j)" "ev_id (je_event (mj_entries j ! i)) = k"
    by (simp_all add: mj_invD(6) [OF assms])
  have "ev_id (je_event (mj_entries j ! n)) \<noteq> k" if "n < i" for n
    using mj_invD(6) [OF assms, of k n] that i(1) Some by auto
  then have "find (\<lambda>d. ev_id d = k) (map je_event (mj_entries j)) = Some (map je_event (mj_entries j) ! i)"
    using i by (intro find_index) auto
  then show ?thesis using Some i by simp
qed

lemma find_by_key:
  assumes "mj_inv E j"
  shows "find (\<lambda>d. key \<noteq> None \<and> ev_idempotency_key d = key) (map je_event (mj_entries j))
    = map_option (\<lambda>i. je_event (mj_entries j ! i)) (Option.bind key (map_get (mj_by_idempotency_key j)))"
proof (cases key)
  case None
  then show ?thesis by (simp add: find_None_iff)
next
  case key: (Some k)
  show ?thesis
  proof (cases "map_get (mj_by_idempotency_key j) k")
    case None
    then show ?thesis
      using by_key_None [OF assms, of k] key by (auto simp: find_None_iff set_je_keys)
  next
    case (Some i)
    then have i: "i < length (mj_entries j)" "ev_idempotency_key (je_event (mj_entries j ! i)) = key"
      by (simp_all add: mj_invD(7) [OF assms] key)
    have "ev_idempotency_key (je_event (mj_entries j ! n)) \<noteq> key" if "n < i" for n
      using mj_invD(7) [OF assms, of k n] that i(1) Some key by auto
    then have "find (\<lambda>d. key \<noteq> None \<and> ev_idempotency_key d = key) (map je_event (mj_entries j))
        = Some (map je_event (mj_entries j) ! i)"
      using i key by (intro find_index) auto
    then show ?thesis using Some i key by simp
  qed
qed

lemma stored_payload_address:
  assumes "mj_inv E j" "i < length (mj_entries j)"
  shows "address_of_payload E (ev_payload (je_event (mj_entries j ! i))) = Ok (je_payload_address (mj_entries j ! i))"
proof -
  have "entry_ok E (journal_head (take i (mj_entries j))) (mj_entries j ! i)"
    using mj_invD(1) [OF assms(1)] assms(2) by (simp add: journal_ok_def linked_def)
  then show ?thesis by (simp add: address_of_payload_def entry_ok_def)
qed

lemma append_insert_spec:
  assumes "mj_inv E j" "integer_printing E" "is_i64 (ev_timestamp_ms ev)" "validate_identity_fields ev = Ok ()"
  shows "(map je_event (mj_entries (fst (append_insert E j ev))), snd (append_insert E j ev)) =
    (let evs = map je_event (mj_entries j) in
     if Suc (length evs) = u64_max then (evs, Err CursorExhausted)
     else case canonical_payload E (ev_payload ev) of
       Inl e \<Rightarrow> (evs, Err (PayloadEncoding e))
     | Inr _ \<Rightarrow>
         (let stored = ev\<lparr>ev_cursor := Some (Suc (length evs))\<rparr> in
          (evs @ [stored], Ok \<lparr>out_event = stored, out_inserted = True\<rparr>)))"
proof (cases "canonical_payload E (ev_payload ev)")
  case (Inl e)
  then have "journal_entry_new E ev (mj_next_cursor j) (mj_head j) = Err (PayloadEncoding e)"
    using assms(4) mj_invD(3) [OF assms(1)] by (simp add: journal_entry_new_def append_error_from_def)
  with Inl show ?thesis using mj_invD(3) [OF assms(1)] by (simp add: append_insert_def Let_def)
next
  case (Inr b)
  have "mj_next_cursor j \<noteq> 0" using mj_invD(3) [OF assms(1)] by simp
  with journal_entry_new_total [OF assms(2-4) Inr] Inr mj_invD(3) [OF assms(1)]
  show ?thesis by (simp add: append_insert_def Let_def)
qed

lemma journal_append_spec:
  assumes inv: "mj_inv E j" and laws: "integer_printing E" "is_i64 (ev_timestamp_ms ev)"
  shows "(map je_event (mj_entries (fst (journal_append E j ev))), snd (journal_append E j ev))
    = spec_append E (map je_event (mj_entries j)) ev"
proof (cases "validate_identity_fields ev")
  case (Inl e)
  then show ?thesis by (simp add: journal_append_def spec_append_def)
next
  case (Inr u)
  show ?thesis
  proof (cases "map_get (mj_by_id j) (ev_id ev)")
    case (Some i)
    then have "i < length (mj_entries j)" by (simp add: mj_invD(6) [OF inv])
    from stored_payload_address [OF inv this] Some Inr show ?thesis
      by (cases "canonical_payload E (ev_payload ev)")
        (simp_all add: journal_append_def spec_append_def find_by_id [OF inv] Let_def,
         simp_all add: address_of_payload_def)
  next
    case None
    then show ?thesis
      using Inr append_insert_spec [OF inv laws]
      by (cases "Option.bind (ev_idempotency_key ev) (map_get (mj_by_idempotency_key j))")
        (simp_all add: journal_append_def spec_append_def find_by_id [OF inv] find_by_key [OF inv] Let_def
          del: not_None_eq)
  qed
qed

text \<open>C8: appending implements the abstract journal.  On the list of stored events, every append
  acts as the index-free specification: identity checks first, then id duplicates, then
  idempotency-key duplicates, then exhaustion and payload errors, else the event is stored under
  the next cursor; the outcome is the same value.\<close>

theorem journal_append_refines:
  assumes inv: "mj_inv E j" and laws: "integer_printing E" "is_i64 (ev_timestamp_ms ev)"
  shows "(map je_event (mj_entries (fst (journal_append E j ev))), snd (journal_append E j ev))
    = spec_append E (map je_event (mj_entries j)) ev"
  by (rule journal_append_spec [OF assms])

theorem journal_append_refines_witness:
  "(map je_event (mj_entries (fst (journal_append sample_env memory_journal_new sample_event))),
    snd (journal_append sample_env memory_journal_new sample_event))
   = ([sample_event\<lparr>ev_cursor := Some 1\<rparr>],
      Ok \<lparr>out_event = sample_event\<lparr>ev_cursor := Some 1\<rparr>, out_inserted = True\<rparr>)"
proof -
  have "is_i64 (ev_timestamp_ms sample_event)" by (simp add: sample_event_def is_i64_def)
  from journal_append_refines [OF mj_inv_new sample_integer_printing this]
  show ?thesis
    by (simp add: memory_journal_new_def spec_append_def validate_identity_fields_def sample_event_def u64_max_def Let_def)
qed

section \<open>Histories\<close>

definition append_all :: "env \<Rightarrow> memory_journal \<Rightarrow> event list \<Rightarrow> memory_journal" where
  "append_all E j evs = foldl (\<lambda>j ev. fst (journal_append E j ev)) j evs"

lemma append_all_inv [simp]: "mj_inv E (append_all E memory_journal_new evs)"
  unfolding append_all_def by (rule memory_log.run_inv) simp

text \<open>C3: every journal that appends can build verifies.  Whatever sequence of events is offered to
  a new journal, accepted, rejected or absorbed, its entries pass verification anchored at the
  head it reports, and the report counts them.\<close>

theorem appended_journal_verifies:
  "verify E (mj_entries (append_all E memory_journal_new evs))
     (Exact (mj_head (append_all E memory_journal_new evs)))
   = Ok \<lparr>rep_entries_checked = length (mj_entries (append_all E memory_journal_new evs)),
         rep_head = mj_head (append_all E memory_journal_new evs)\<rparr>"
  using memory_log.run_verifies [OF mj_inv_new append_all_def]
    mj_invD(5) [OF append_all_inv [of E evs]] by simp

text \<open>A retried append is absorbed.  After an event is inserted into any journal built by
  appends, and after any further appends, offering the same event again leaves the journal as it
  is and returns the stored event, not inserted.\<close>

theorem retry_absorbed:
  assumes "journal_append E (append_all E memory_journal_new before) ev = (j, Ok out)" "out_inserted out"
  shows "journal_append E (append_all E j after) ev
    = (append_all E j after, Ok \<lparr>out_event = out_event out, out_inserted = False\<rparr>)"
  by (rule memory_log.retry_is_absorbed [OF append_all_inv assms append_all_def])

theorem retry_absorbed_witness:
  "\<exists>j. journal_append sample_env memory_journal_new sample_event
       = (j, Ok \<lparr>out_event = sample_event\<lparr>ev_cursor := Some 1\<rparr>, out_inserted = True\<rparr>)
     \<and> journal_append sample_env j sample_event
       = (j, Ok \<lparr>out_event = sample_event\<lparr>ev_cursor := Some 1\<rparr>, out_inserted = False\<rparr>)"
proof -
  obtain j where j: "journal_append sample_env (append_all sample_env memory_journal_new []) sample_event
      = (j, Ok \<lparr>out_event = sample_event\<lparr>ev_cursor := Some 1\<rparr>, out_inserted = True\<rparr>)"
    using sample_entry_new [of 1]
    by (simp add: append_all_def journal_append_def append_insert_def memory_journal_new_def
        validate_identity_fields_def sample_event_def u64_max_def sample_entry_def)
  from retry_absorbed [OF j, of "[]"] j show ?thesis by (auto simp: append_all_def)
qed

section \<open>Queries\<close>

lemma filter_after:
  "sorted_wrt (<) (map g xs) \<Longrightarrow> i < length xs \<Longrightarrow>
    filter (\<lambda>x. g (xs ! i) < (g x :: nat)) xs = drop (Suc i) xs"
proof (induction xs arbitrary: i)
  case (Cons x xs)
  show ?case
  proof (cases i)
    case 0
    have "filter (\<lambda>y. g x < g y) xs = xs" using Cons.prems by (simp add: filter_id_conv)
    then show ?thesis using 0 by simp
  next
    case (Suc k)
    then have "\<not> g (xs ! k) < g x" using Cons.prems by (auto simp: not_less intro: less_imp_le)
    with Suc Cons show ?thesis by simp
  qed
qed simp

lemma event_matches_after:
  assumes "ev_cursor ev = Some c" "\<forall>b. f_after_cursor f = Some b \<longrightarrow> b \<le> a"
  shows "event_matches ev (f\<lparr>f_after_cursor := Some a\<rparr>) \<longleftrightarrow> event_matches ev f \<and> a < c"
  using assms by (auto simp: event_matches_def split: option.splits)

lemma stored_cursors:
  assumes "mj_inv E j"
  shows "sorted_wrt (<) (map (the \<circ> ev_cursor) (map je_event (mj_entries j)))"
    and "ev \<in> je_event ` set (mj_entries j) \<Longrightarrow> ev_cursor ev = Some (the (ev_cursor ev))"
  using mj_invD(1) [OF assms]
  by (auto simp: journal_ok_def cursors_ordered_def je_cursor_def comp_def)

lemma sorted_wrt_map_filter: "sorted_wrt R (map g xs) \<Longrightarrow> sorted_wrt R (map g (filter P xs))"
  by (induction xs) auto

text \<open>Pages of a listing meet without gap or overlap.  In a listing in cursor order, a nonempty
  page of at most \<open>n\<close> events followed by everything after its last cursor is the whole listing.\<close>

theorem list_events_pages:
  assumes inv: "mj_inv E j" and f: "f_limit f = None" "\<not> f_newest_first f"
    and page: "page = list_events j (f\<lparr>f_limit := Some n\<rparr>)" "page \<noteq> []"
  shows "list_events j f
    = page @ list_events j (f\<lparr>f_after_cursor := Some (the (ev_cursor (last page)))\<rparr>)"
proof -
  define evs where "evs = map je_event (mj_entries j)"
  define L where "L = filter (\<lambda>ev. event_matches ev f) evs"
  have L: "list_events j f = L" and pg: "page = take n L"
    using f page(1) by (simp_all add: list_events_def truncate_events_def L_def evs_def event_matches_def)
  define i where "i = length page - 1"
  have len: "length page = Suc i" "length page \<le> length L" "length page \<le> n"
    using page(2) pg by (simp_all add: i_def)
  then have i: "i < length L" "last page = L ! i"
    using page(2) pg by (simp_all add: last_conv_nth)
  have cur: "ev_cursor ev = Some (the (ev_cursor ev))" if "ev \<in> set evs" for ev
    using stored_cursors(2) [OF inv] that by (auto simp: evs_def)
  have lastm: "event_matches (last page) f" "last page \<in> set evs"
    using i nth_mem [OF i(1)] by (auto simp: L_def)
  then have ge: "\<forall>b. f_after_cursor f = Some b \<longrightarrow> b \<le> the (ev_cursor (last page))"
    using cur [OF lastm(2)] by (auto simp: event_matches_def split: option.splits)
  have "list_events j (f\<lparr>f_after_cursor := Some (the (ev_cursor (last page)))\<rparr>)
      = filter (\<lambda>ev. event_matches ev (f\<lparr>f_after_cursor := Some (the (ev_cursor (last page)))\<rparr>)) evs"
    using f by (simp add: list_events_def truncate_events_def evs_def)
  also have "\<dots> = filter (\<lambda>ev. the (ev_cursor (last page)) < the (ev_cursor ev)) L"
    unfolding L_def filter_filter
    by (rule filter_cong [OF refl]) (use event_matches_after [OF cur ge] in auto)
  also have "\<dots> = drop (Suc i) L"
    using filter_after [of "the \<circ> ev_cursor" L i] i(1,2) sorted_wrt_map_filter [OF stored_cursors(1) [OF inv]]
    by (simp add: L_def evs_def)
  finally have "list_events j (f\<lparr>f_after_cursor := Some (the (ev_cursor (last page)))\<rparr>) = drop (length page) L"
    by (simp only: len(1))
  moreover have "page @ drop (length page) L = L" unfolding pg by (cases "n \<le> length L") auto
  ultimately show ?thesis using L by simp
qed

definition sample_journal :: memory_journal where
  "sample_journal = append_all sample_env memory_journal_new [sample_event, sample_event\<lparr>ev_id := ''e2''\<rparr>]"

lemma sample_journal_inv: "mj_inv sample_env sample_journal"
  by (simp add: sample_journal_def)

lemma sample_journal_events:
  "map je_event (mj_entries sample_journal)
     = [sample_event\<lparr>ev_cursor := Some 1\<rparr>, sample_event\<lparr>ev_id := ''e2'', ev_cursor := Some 2\<rparr>]"
proof -
  let ?j = "fst (journal_append sample_env memory_journal_new sample_event)"
  have i64: "is_i64 (ev_timestamp_ms sample_event)" "is_i64 (ev_timestamp_ms (sample_event\<lparr>ev_id := ''e2''\<rparr>))"
    by (simp_all add: sample_event_def is_i64_def)
  have "map je_event (mj_entries ?j) = fst (spec_append sample_env [] sample_event)"
    using journal_append_spec [OF mj_inv_new sample_integer_printing i64(1)]
    by (simp add: memory_journal_new_def prod_eq_iff)
  then have one: "map je_event (mj_entries ?j) = [sample_event\<lparr>ev_cursor := Some 1\<rparr>]"
    by (simp add: spec_append_def validate_identity_fields_def sample_event_def u64_max_def Let_def)
  have "map je_event (mj_entries sample_journal)
      = fst (spec_append sample_env (map je_event (mj_entries ?j)) (sample_event\<lparr>ev_id := ''e2''\<rparr>))"
    using journal_append_spec [OF journal_append_inv [OF mj_inv_new] sample_integer_printing i64(2), of sample_event]
    by (simp add: sample_journal_def append_all_def prod_eq_iff)
  also have "\<dots> = [sample_event\<lparr>ev_cursor := Some 1\<rparr>, sample_event\<lparr>ev_id := ''e2'', ev_cursor := Some 2\<rparr>]"
    unfolding one by (simp add: spec_append_def validate_identity_fields_def sample_event_def u64_max_def Let_def)
  finally show ?thesis .
qed

theorem list_events_pages_witness:
  "list_events sample_journal (event_filter_default\<lparr>f_limit := Some 1\<rparr>) = [sample_event\<lparr>ev_cursor := Some 1\<rparr>]
   \<and> list_events sample_journal event_filter_default
     = [sample_event\<lparr>ev_cursor := Some 1\<rparr>]
       @ list_events sample_journal (event_filter_default\<lparr>f_after_cursor := Some 1\<rparr>)"
proof -
  have page: "[sample_event\<lparr>ev_cursor := Some 1\<rparr>] = list_events sample_journal (event_filter_default\<lparr>f_limit := Some 1\<rparr>)"
    by (simp add: list_events_def sample_journal_events truncate_events_def event_filter_default_def event_matches_def)
  have f: "f_limit event_filter_default = None" "\<not> f_newest_first event_filter_default"
    by (simp_all add: event_filter_default_def)
  from list_events_pages [OF sample_journal_inv f page] page show ?thesis by simp
qed

lemma get_event_find:
  assumes "mj_inv E j"
  shows "get_event j i = find (\<lambda>d. ev_id d = i) (map je_event (mj_entries j))"
  unfolding find_by_id [OF assms] by (simp add: get_event_def split: option.splits)

lemma find_snoc:
  "find P (xs @ [x]) = (case find P xs of Some y \<Rightarrow> Some y | None \<Rightarrow> if P x then Some x else None)"
  by (induction xs) auto

text \<open>An inserted event can be found.  After an event is inserted, looking up its id returns it
  with its cursor, and every event found before is still found unchanged.\<close>

theorem get_event_after_append:
  assumes inv: "mj_inv E j" and app: "journal_append E j ev = (j', Ok out)" "out_inserted out"
  shows "get_event j' k = (if k = ev_id ev then Some (out_event out) else get_event j k)
    \<and> out_event out = ev\<lparr>ev_cursor := Some (mj_next_cursor j)\<rparr>"
  using inv app(1)
proof (cases rule: journal_append_cases)
  case (inserted entry)
  have e: "je_event entry = ev\<lparr>ev_cursor := Some (mj_next_cursor j)\<rparr>"
    using journal_entry_new_entry_ok [OF inserted(4)] by simp
  have inv': "mj_inv E j'" using journal_append_inv [OF inv, of ev] app(1) by simp
  have "find (\<lambda>d. ev_id d = ev_id ev) (map je_event (mj_entries j)) = None"
    using inserted(1) by (auto simp: find_None_iff je_ids_def image_iff)
  then have "get_event j' k = (if k = ev_id ev then Some (je_event entry) else get_event j k)"
    using e unfolding get_event_find [OF inv] get_event_find [OF inv'] inserted(5) map_append list.map find_snoc
    by (auto split: option.splits)
  then show ?thesis using inserted(6) e by simp
qed (use app in auto)

theorem get_event_after_append_witness:
  "\<exists>j. journal_append sample_env memory_journal_new sample_event
       = (j, Ok \<lparr>out_event = sample_event\<lparr>ev_cursor := Some 1\<rparr>, out_inserted = True\<rparr>)
     \<and> get_event j ''e1'' = Some (sample_event\<lparr>ev_cursor := Some 1\<rparr>)"
proof -
  obtain j where j: "journal_append sample_env memory_journal_new sample_event
      = (j, Ok \<lparr>out_event = sample_event\<lparr>ev_cursor := Some 1\<rparr>, out_inserted = True\<rparr>)"
    using sample_entry_new [of 1]
    by (simp add: journal_append_def append_insert_def memory_journal_new_def
        validate_identity_fields_def sample_event_def u64_max_def sample_entry_def)
  from get_event_after_append [OF mj_inv_new j, of "''e1''"] j show ?thesis
    by (auto simp: sample_event_def)
qed

section \<open>Causal chains\<close>

text \<open>A walk from child to parent: each event names the next as its cause.\<close>

definition cause_step :: "memory_journal \<Rightarrow> event \<Rightarrow> event \<Rightarrow> bool" where
  "cause_step j ev parent \<longleftrightarrow> (\<exists>c. ev_caused_by ev = Some c \<and> get_event j c = Some parent)"

fun cause_path :: "memory_journal \<Rightarrow> event list \<Rightarrow> bool" where
  "cause_path j [] = True"
| "cause_path j [ev] = True"
| "cause_path j (ev # parent # rest) = (cause_step j ev parent \<and> cause_path j (parent # rest))"

lemma causal_walk_path:
  "\<exists>p. causal_walk j seen chain current = chain @ p \<and> cause_path j p
     \<and> (case current of
          None \<Rightarrow> p = []
        | Some ev \<Rightarrow> if ev_id ev \<in> seen then p = [] else (\<exists>rest. p = ev # rest))
     \<and> distinct (map ev_id p) \<and> set (map ev_id p) \<inter> seen = {}
     \<and> (p \<noteq> [] \<longrightarrow> (\<forall>parent. cause_step j (last p) parent \<longrightarrow> ev_id parent \<in> seen \<union> set (map ev_id p)))"
proof (induction j seen chain current rule: causal_walk.induct)
  case (1 j seen chain current)
  show ?case
  proof (cases current)
    case None
    then show ?thesis by (simp add: causal_walk.simps)
  next
    case (Some ev)
    show ?thesis
    proof (cases "ev_id ev \<in> seen")
      case True
      then show ?thesis using Some by (simp add: causal_walk.simps)
    next
      case fresh: False
      show ?thesis
      proof (cases "ev_caused_by ev")
        case None
        with Some fresh show ?thesis
          by (intro exI [of _ "[ev]"]) (simp add: causal_walk.simps [of j seen chain "Some ev"] cause_step_def)
      next
        case cause: (Some c)
        let ?seen = "insert (ev_id ev) seen"
        obtain p where p: "causal_walk j ?seen (chain @ [ev]) (get_event j c) = (chain @ [ev]) @ p"
          "cause_path j p"
          "case get_event j c of None \<Rightarrow> p = []
            | Some ev \<Rightarrow> if ev_id ev \<in> ?seen then p = [] else (\<exists>rest. p = ev # rest)"
          "distinct (map ev_id p)" "set (map ev_id p) \<inter> ?seen = {}"
          "p \<noteq> [] \<longrightarrow> (\<forall>parent. cause_step j (last p) parent \<longrightarrow> ev_id parent \<in> ?seen \<union> set (map ev_id p))"
          using 1 [OF Some fresh cause] by blast
        have "causal_walk j seen chain current = chain @ (ev # p)"
          using p(1) Some fresh cause by (simp add: causal_walk.simps [of j seen chain "Some ev"])
        moreover have "cause_path j (ev # p)"
          using p(2,3) cause by (cases p) (auto simp: cause_step_def split: option.splits if_splits)
        moreover have "\<forall>parent. cause_step j (last (ev # p)) parent \<longrightarrow> ev_id parent \<in> seen \<union> set (map ev_id (ev # p))"
        proof (cases "p = []")
          case True
          then show ?thesis
            using p(3) cause by (auto simp: cause_step_def split: option.splits if_splits)
        qed (use p(6) in auto)
        ultimately show ?thesis
          using p(4,5) Some fresh by (intro exI [of _ "ev # p"]) auto
      qed
    qed
  qed
qed

text \<open>C36: a causal chain is the ancestry of an event, oldest first.  It is empty exactly for an
  unknown id and else ends in the event; read backwards, every event is followed by the stored event
  it names as its cause; no id repeats; and it goes back as far as it can: the cause of its oldest
  event is absent, not stored, or already in the chain.\<close>

theorem causal_chain_ancestry:
  "(causal_chain j i = [] \<longleftrightarrow> get_event j i = None)
   \<and> cause_path j (rev (causal_chain j i))
   \<and> distinct (map ev_id (causal_chain j i))
   \<and> (case get_event j i of
        None \<Rightarrow> True
      | Some ev \<Rightarrow> last (causal_chain j i) = ev
          \<and> (case Option.bind (ev_caused_by (hd (causal_chain j i))) (get_event j) of
               None \<Rightarrow> True
             | Some parent \<Rightarrow> ev_id parent \<in> set (map ev_id (causal_chain j i))))"
proof (cases "get_event j i")
  case None
  then show ?thesis by (simp add: causal_chain_def causal_walk.simps)
next
  case (Some ev)
  from causal_walk_path [of j "{}" "[]" "Some ev"] obtain rest where
    p: "causal_walk j {} [] (Some ev) = ev # rest" "cause_path j (ev # rest)" "distinct (map ev_id (ev # rest))"
    "\<forall>parent. cause_step j (last (ev # rest)) parent \<longrightarrow> ev_id parent \<in> set (map ev_id (ev # rest))"
    by auto
  have chain: "causal_chain j i = rev (ev # rest)" by (simp add: causal_chain_def p(1) Some)
  have "hd (rev (ev # rest)) = last (ev # rest)" "last (rev (ev # rest)) = ev"
    by (simp_all only: hd_rev last_rev list.sel)
  then show ?thesis
    using p(2-4) Some unfolding chain
    by (auto simp: cause_step_def bind_eq_Some_conv rev_map [symmetric] split: option.splits simp del: rev.simps)
qed

end
