(* ===== verification/Sql_Journal.thy ===== *)
theory Sql_Journal
  imports Coordination Memory_Journal
begin

text \<open>
  \<open>crates/zeta-dispatch/src/sqlite/journal.rs\<close>: the journal table of a Dispatch database.

  A row holds the canonical payload bytes; reading it back parses them, so a stored event has the payload
  that the parser returns, which encodes to the same bytes.  \<open>readable\<close> is that behaviour of the parser, for
  one event.  The locale \<open>durable_log\<close> is what clients of a journal rely on when stored payloads may be spelled
  differently from what was appended; the exact contract \<open>event_log\<close> of the in-memory journal implies it.
\<close>

section \<open>Rows\<close>

definition decode_cursor :: "int \<Rightarrow> (dispatch_error, nat) result" where
  "decode_cursor cursor = (if cursor \<le> 0 then Err (CorruptJournal None ''cursor'') else Ok (nat cursor))"

definition decode_hash :: "nat option \<Rightarrow> string \<Rightarrow> u8 list \<Rightarrow> (dispatch_error, hash) result" where
  "decode_hash cursor field bytes =
     (if length bytes = 32 then Ok (hash_from_bytes bytes) else Err (CorruptJournal cursor field))"

definition into_entry :: "env \<Rightarrow> stored_entry \<Rightarrow> (dispatch_error, journal_entry) result" where
  "into_entry E s =
     and_then (decode_cursor (se_cursor s)) (\<lambda>cursor.
     and_then (case json_parse E (se_payload_bytes s) of
         Some (JObject payload) \<Rightarrow> Ok payload
       | _ \<Rightarrow> Err (CorruptJournal (Some cursor) ''payload_bytes'')) (\<lambda>payload.
     and_then (decode_hash (Some cursor) ''payload_address'' (se_payload_address s)) (\<lambda>pa.
     and_then (case se_previous_address s of
         Some address \<Rightarrow> and_then (decode_hash (Some cursor) ''previous_address'' address) (\<lambda>h. Ok (Some h))
       | None \<Rightarrow> Ok None) (\<lambda>prev.
     and_then (decode_hash (Some cursor) ''entry_address'' (se_entry_address s)) (\<lambda>ea.
       Ok \<lparr>je_event = \<lparr>ev_id = se_event_id s, ev_event_type = se_event_type s, ev_source = se_source s,
              ev_payload = payload, ev_idempotency_key = se_idempotency_key s, ev_caused_by = se_caused_by s,
              ev_session_id = se_session_id s, ev_run_id = se_run_id s, ev_turn_id = se_turn_id s,
              ev_timestamp_ms = se_timestamp_ms s, ev_cursor = Some cursor\<rparr>,
           je_payload_bytes = se_payload_bytes s, je_payload_address = pa,
           je_previous_address = prev, je_entry_address = ea\<rparr>)))))"

definition entry_row :: "nat \<Rightarrow> journal_entry \<Rightarrow> stored_entry" where
  "entry_row cursor entry =
     (let ev = je_event entry in
      \<lparr>se_cursor = int cursor, se_event_id = ev_id ev, se_event_type = ev_event_type ev, se_source = ev_source ev,
       se_payload_bytes = je_payload_bytes entry, se_payload_address = hash_as_bytes (je_payload_address entry),
       se_idempotency_key = ev_idempotency_key ev, se_caused_by = ev_caused_by ev, se_session_id = ev_session_id ev,
       se_run_id = ev_run_id ev, se_turn_id = ev_turn_id ev, se_timestamp_ms = ev_timestamp_ms ev,
       se_previous_address = map_option hash_as_bytes (je_previous_address entry),
       se_entry_address = hash_as_bytes (je_entry_address entry)\<rparr>)"

definition insert_journal_entry :: "stored_entry \<Rightarrow> db \<Rightarrow> (dispatch_error, db) result" where
  "insert_journal_entry s d =
     and_then (sql_insert ''insert journal entry''
       (0 < se_cursor s \<and> sql_nonempty (se_event_id s) \<and> sql_nonempty (se_event_type s) \<and> sql_nonempty (se_source s)
        \<and> length (se_payload_address s) = 32 \<and> length (se_entry_address s) = 32
        \<and> (case se_previous_address s of Some a \<Rightarrow> length a = 32 | None \<Rightarrow> True)
        \<and> list_all (\<lambda>r. se_cursor r \<noteq> se_cursor s \<and> se_event_id r \<noteq> se_event_id s
             \<and> (se_idempotency_key s = None \<or> se_idempotency_key r \<noteq> se_idempotency_key s)) (db_journal d))
       s (db_journal d)) (\<lambda>rows. Ok (d\<lparr>db_journal := rows\<rparr>))"

section \<open>Operations\<close>

definition read_first :: "env \<Rightarrow> (stored_entry \<Rightarrow> bool) \<Rightarrow> db \<Rightarrow> (dispatch_error, journal_entry option) result" where
  "read_first E condition d = (case find condition (db_journal d) of
     None \<Rightarrow> Ok None
   | Some s \<Rightarrow> and_then (into_entry E s) (\<lambda>e. Ok (Some e)))"

definition entry_by_field :: "env \<Rightarrow> string \<Rightarrow> string \<Rightarrow> db \<Rightarrow> (dispatch_error, journal_entry option) result" where
  "entry_by_field E field v d =
     (if field = ''event_id'' then read_first E (\<lambda>s. se_event_id s = v) d
      else if field = ''idempotency_key'' then read_first E (\<lambda>s. se_idempotency_key s = Some v) d
      else Err (Database ''select journal entry''))"

definition last_entry_anchor :: "db \<Rightarrow> (dispatch_error, (nat \<times> hash) option) result" where
  "last_entry_anchor d = (case rev (sort_key se_cursor (db_journal d)) of
     [] \<Rightarrow> Ok None
   | s # _ \<Rightarrow>
       and_then (decode_cursor (se_cursor s)) (\<lambda>cursor.
       and_then (decode_hash (Some cursor) ''entry_address'' (se_entry_address s)) (\<lambda>address.
         Ok (Some (cursor, address)))))"

definition load_entries :: "env \<Rightarrow> bool \<Rightarrow> db \<Rightarrow> (dispatch_error, journal_entry list) result" where
  "load_entries E newest_first d =
     (let rows = sort_key se_cursor (db_journal d)
      in try_collect (into_entry E) (if newest_first then rev rows else rows))"

definition validate_event_identity :: "event \<Rightarrow> (dispatch_error, unit) result" where
  "validate_event_identity ev =
     (if ev_id ev = [] then Err (Append EmptyId)
      else if ev_event_type ev = [] then Err (Append EmptyEventType)
      else if ev_source ev = [] then Err (Append EmptySource)
      else Ok ())"

text \<open>The end of \<open>append_in_transaction\<close>, once no duplicate is found.\<close>

definition append_new_entry :: "env \<Rightarrow> event \<Rightarrow> db \<Rightarrow> (dispatch_error, db \<times> append_outcome) result" where
  "append_new_entry E ev d =
     and_then (last_entry_anchor d) (\<lambda>anchor.
     and_then (case anchor of
         Some (cursor, address) \<Rightarrow>
           if cursor = u64_max then Err (Append CursorExhausted) else Ok (cursor + 1, Some address)
       | None \<Rightarrow> Ok (1, None)) (\<lambda>(cursor, previous_address).
     if 2 ^ 63 - 1 < cursor then Err (Append CursorExhausted)
     else and_then (map_err Append (journal_entry_new E ev cursor previous_address)) (\<lambda>entry.
       and_then (insert_journal_entry (entry_row cursor entry) d) (\<lambda>d.
         Ok (d, \<lparr>out_event = je_event entry, out_inserted = True\<rparr>)))))"

definition append_in_transaction :: "env \<Rightarrow> event \<Rightarrow> db \<Rightarrow> (dispatch_error, db \<times> append_outcome) result" where
  "append_in_transaction E ev d =
     and_then (entry_by_field E ''event_id'' (ev_id ev) d) (\<lambda>by_id.
       case by_id of
         Some entry \<Rightarrow>
           and_then (map_err (\<lambda>e. Append (PayloadEncoding e)) (canonical_payload E (ev_payload ev))) (\<lambda>payload.
             if payload_address E payload \<noteq> je_payload_address entry then Err (Append DuplicateIdPayloadMismatch)
             else Ok (d, \<lparr>out_event = je_event entry, out_inserted = False\<rparr>))
       | None \<Rightarrow>
           and_then (case ev_idempotency_key ev of
               Some key \<Rightarrow> entry_by_field E ''idempotency_key'' key d
             | None \<Rightarrow> Ok None) (\<lambda>by_key.
             case by_key of
               Some entry \<Rightarrow> Ok (d, \<lparr>out_event = je_event entry, out_inserted = False\<rparr>)
             | None \<Rightarrow> append_new_entry E ev d))"

definition append_lifecycle_candidate :: "env \<Rightarrow> event \<Rightarrow> db \<Rightarrow> (dispatch_error, db \<times> append_outcome) result" where
  "append_lifecycle_candidate E ev d = (case append_in_transaction E ev d of
     Inr x \<Rightarrow> Ok x
   | Inl (Append DuplicateIdPayloadMismatch) \<Rightarrow> Err (RuntimeEventIdentityCollision (ev_id ev))
   | Inl e \<Rightarrow> Err e)"

record runtime_event_identity =
  ri_id :: string
  ri_timestamp_ms :: int

definition runtime_event_identity_new :: "string \<Rightarrow> int \<Rightarrow> (runtime_id_parse_error, runtime_event_identity) result" where
  "runtime_event_identity_new event_id timestamp_ms =
     (if event_id = [] then Err (RuntimeIdParseError ''runtime event'')
      else Ok \<lparr>ri_id = event_id, ri_timestamp_ms = timestamp_ms\<rparr>)"

fun distinct_identities :: "string list \<Rightarrow> runtime_event_identity list \<Rightarrow> (dispatch_error, unit) result" where
  "distinct_identities seen [] = Ok ()"
| "distinct_identities seen (i # rest) =
     (if ri_id i \<in> set seen then Err (DuplicateRuntimeEventIdentity (ri_id i))
      else distinct_identities (ri_id i # seen) rest)"

definition validate_distinct_runtime_identities :: "runtime_event_identity list \<Rightarrow> (dispatch_error, unit) result" where
  "validate_distinct_runtime_identities identities = distinct_identities [] identities"

text \<open>Equality of values: the order of an object's members does not count.\<close>

primrec json_same :: "json \<Rightarrow> json \<Rightarrow> bool" where
  "json_same JNull = (\<lambda>w. w = JNull)"
| "json_same (JBool b) = (\<lambda>w. w = JBool b)"
| "json_same (JNumber n) = (\<lambda>w. w = JNumber n)"
| "json_same (JString s) = (\<lambda>w. w = JString s)"
| "json_same (JArray vs) = (\<lambda>w. case w of
     JArray ws \<Rightarrow> length vs = length ws \<and> list_all (\<lambda>(f, x). f x) (zip (map json_same vs) ws)
   | _ \<Rightarrow> False)"
| "json_same (JObject kvs) = (\<lambda>w. case w of
     JObject kws \<Rightarrow> length kvs = length kws
       \<and> list_all (\<lambda>(k, f). case map_get kws k of Some x \<Rightarrow> f x | None \<Rightarrow> False) (map (map_prod id json_same) kvs)
   | _ \<Rightarrow> False)"

definition same_lifecycle_intention :: "event \<Rightarrow> event \<Rightarrow> bool" where
  "same_lifecycle_intention candidate retained \<longleftrightarrow>
     ev_event_type candidate = ev_event_type retained \<and> ev_source candidate = ev_source retained
     \<and> json_same (JObject (ev_payload candidate)) (JObject (ev_payload retained))
     \<and> ev_idempotency_key candidate = ev_idempotency_key retained \<and> ev_caused_by candidate = ev_caused_by retained
     \<and> ev_session_id candidate = ev_session_id retained \<and> ev_run_id candidate = ev_run_id retained
     \<and> ev_turn_id candidate = ev_turn_id retained"

definition same_logical_event :: "event \<Rightarrow> event \<Rightarrow> bool" where
  "same_logical_event candidate retained \<longleftrightarrow>
     ev_id candidate = ev_id retained \<and> same_lifecycle_intention candidate retained
     \<and> ev_timestamp_ms candidate = ev_timestamp_ms retained"

section \<open>Queries\<close>

definition sql_head :: "db \<Rightarrow> (dispatch_error, hash option) result" where
  "sql_head d = and_then (last_entry_anchor d) (\<lambda>anchor. Ok (map_option snd anchor))"

definition sql_get_event :: "env \<Rightarrow> string \<Rightarrow> db \<Rightarrow> (dispatch_error, event option) result" where
  "sql_get_event E event_id d = and_then (entry_by_field E ''event_id'' event_id d) (\<lambda>e. Ok (map_option je_event e))"

definition sql_event_matches :: "event \<Rightarrow> event_filter \<Rightarrow> bool" where
  "sql_event_matches ev f =
     (if (case f_event_type f of Some expected \<Rightarrow> ev_event_type ev \<noteq> expected | None \<Rightarrow> False) then False
      else if (case f_event_type_prefix f of Some p \<Rightarrow> \<not> prefix p (ev_event_type ev) | None \<Rightarrow> False) then False
      else if (case f_session_id f of Some expected \<Rightarrow> ev_session_id ev \<noteq> Some expected | None \<Rightarrow> False) then False
      else if (case f_run_id f of Some expected \<Rightarrow> ev_run_id ev \<noteq> Some expected | None \<Rightarrow> False) then False
      else if (case f_turn_id f of Some expected \<Rightarrow> ev_turn_id ev \<noteq> Some expected | None \<Rightarrow> False) then False
      else if (case f_caused_by f of Some expected \<Rightarrow> ev_caused_by ev \<noteq> Some expected | None \<Rightarrow> False) then False
      else case f_after_cursor f of
        Some after_cursor \<Rightarrow> (case ev_cursor ev of None \<Rightarrow> False | Some cursor \<Rightarrow> \<not> cursor \<le> after_cursor)
      | None \<Rightarrow> True)"

text \<open>The loop of \<open>list_events\<close>: it stops once the limit is reached.\<close>

fun take_matching :: "event_filter \<Rightarrow> event list \<Rightarrow> journal_entry list \<Rightarrow> event list" where
  "take_matching f events [] = events"
| "take_matching f events (entry # entries) =
     (if \<not> sql_event_matches (je_event entry) f then take_matching f events entries
      else let events = events @ [je_event entry] in
        if f_limit f = Some (length events) then events else take_matching f events entries)"

definition sql_list_events :: "env \<Rightarrow> event_filter \<Rightarrow> db \<Rightarrow> (dispatch_error, event list) result" where
  "sql_list_events E f d =
     (if f_limit f = Some 0 then Ok []
      else and_then (load_entries E (f_newest_first f) d) (\<lambda>entries. Ok (take_matching f [] entries)))"

definition sql_children :: "env \<Rightarrow> string \<Rightarrow> nat option \<Rightarrow> db \<Rightarrow> (dispatch_error, event list) result" where
  "sql_children E event_id limit d =
     sql_list_events E (event_filter_default\<lparr>f_caused_by := Some event_id, f_limit := limit\<rparr>) d"

definition verify_journal :: "env \<Rightarrow> head_expectation \<Rightarrow> db \<Rightarrow> (dispatch_error, verification_report) result" where
  "verify_journal E expectation d =
     and_then (load_entries E False d) (\<lambda>entries. map_err Verification (verify E entries expectation))"

text \<open>The loop of \<open>causal_chain\<close>: every round adds the id of a stored event, and there are finitely many.\<close>

lemma into_entry_id: "into_entry E s = Ok e \<Longrightarrow> ev_id (je_event e) = se_event_id s"
  by (auto simp: into_entry_def result_simps)

lemma sql_get_event_stored: "sql_get_event E i d = Ok (Some ev) \<Longrightarrow> ev_id ev \<in> se_event_id ` set (db_journal d)"
  by (auto simp: sql_get_event_def entry_by_field_def read_first_def result_simps find_Some_iff
      dest!: into_entry_id split: option.splits)

function sql_causal_walk ::
  "env \<Rightarrow> db \<Rightarrow> string set \<Rightarrow> event list \<Rightarrow> event option \<Rightarrow> (dispatch_error, event list) result" where
  "sql_causal_walk E d seen chain current =
     (case current of
        None \<Rightarrow> Ok chain
      | Some ev \<Rightarrow>
          if ev_id ev \<in> seen then Ok chain
          else case ev_caused_by ev of
            None \<Rightarrow> Ok (chain @ [ev])
          | Some caused_by \<Rightarrow>
              (case sql_get_event E caused_by d of
                 Inl e \<Rightarrow> Err e
               | Inr current \<Rightarrow> sql_causal_walk E d (insert (ev_id ev) seen) (chain @ [ev]) current))"
  by pat_completeness auto

termination sql_causal_walk
proof (relation "measure (\<lambda>(E, d, seen, chain, current).
    card ((se_event_id ` set (db_journal d) \<union> ev_id ` set_option current) - seen))", simp)
  fix E d seen chain and current :: "event option" and ev :: event and caused_by "next"
  assume c: "current = Some ev" "ev_id ev \<notin> seen" "sql_get_event E caused_by d = Inr next"
  let ?S = "se_event_id ` set (db_journal d)"
  have "ev_id ` set_option next \<subseteq> ?S"
    using c(3) by (cases "next") (auto dest: sql_get_event_stored)
  then have "(?S \<union> ev_id ` set_option next) - insert (ev_id ev) seen \<subset> (?S \<union> ev_id ` set_option current) - seen"
    using c by auto
  then have "card ((?S \<union> ev_id ` set_option next) - insert (ev_id ev) seen) < card ((?S \<union> ev_id ` set_option current) - seen)"
    by (intro psubset_card_mono) auto
  then show "((E, d, insert (ev_id ev) seen, chain @ [ev], next), E, d, seen, chain, current)
      \<in> measure (\<lambda>(E, d, seen, chain, current).
        card ((se_event_id ` set (db_journal d) \<union> ev_id ` set_option current) - seen))"
    by simp
qed

declare sql_causal_walk.simps [simp del]

definition sql_causal_chain :: "env \<Rightarrow> string \<Rightarrow> db \<Rightarrow> (dispatch_error, event list) result" where
  "sql_causal_chain E event_id d =
     and_then (sql_get_event E event_id d) (\<lambda>current.
     and_then (sql_causal_walk E d {} [] current) (\<lambda>chain. Ok (rev chain)))"

section \<open>Invariant\<close>

text \<open>A payload that the parser reads back to one with the same canonical bytes.\<close>

definition readable :: "env \<Rightarrow> event \<Rightarrow> bool" where
  "readable E ev \<longleftrightarrow> (\<forall>b. canonical_payload E (ev_payload ev) = Ok b \<longrightarrow>
     (\<exists>m. json_parse E b = Some (JObject m) \<and> canonical_payload E m = Ok b))"

definition stored_as :: "env \<Rightarrow> event \<Rightarrow> event \<Rightarrow> bool" where
  "stored_as E ev ev' \<longleftrightarrow> ev'\<lparr>ev_payload := ev_payload ev\<rparr> = ev
     \<and> canonical_payload E (ev_payload ev') = canonical_payload E (ev_payload ev)"

definition sql_entries :: "env \<Rightarrow> db \<Rightarrow> journal_entry list" where
  "sql_entries E d = (case load_entries E False d of Inr es \<Rightarrow> es | Inl _ \<Rightarrow> [])"

definition sql_inv :: "env \<Rightarrow> db \<Rightarrow> bool" where
  "sql_inv E d \<longleftrightarrow> digest_law E
     \<and> map se_cursor (db_journal d) = map int [1..<Suc (length (db_journal d))]
     \<and> (\<exists>es. load_entries E False d = Ok es \<and> journal_ok E es)"

lemma sorted_cursors: "map se_cursor rows = map int [1..<Suc n] \<Longrightarrow> sort_key se_cursor rows = rows"
  by (rule sort_key_id_if_sorted) (simp add: sorted_map sorted_wrt_map del: upt_Suc)

lemma sql_invD:
  assumes "sql_inv E d"
  shows "digest_law E" "journal_ok E (sql_entries E d)" "load_entries E False d = Ok (sql_entries E d)"
    "list_all2 (\<lambda>s e. into_entry E s = Ok e) (db_journal d) (sql_entries E d)"
    "sort_key se_cursor (db_journal d) = db_journal d"
proof -
  from assms obtain es where es: "load_entries E False d = Ok es" "journal_ok E es" and "digest_law E"
    and c: "map se_cursor (db_journal d) = map int [1..<Suc (length (db_journal d))]"
    by (auto simp: sql_inv_def)
  show "sort_key se_cursor (db_journal d) = db_journal d" using sorted_cursors [OF c] .
  moreover have "sql_entries E d = es" by (simp add: sql_entries_def es(1))
  ultimately show "digest_law E" "journal_ok E (sql_entries E d)" "load_entries E False d = Ok (sql_entries E d)"
      "list_all2 (\<lambda>s e. into_entry E s = Ok e) (db_journal d) (sql_entries E d)"
    using es \<open>digest_law E\<close> by (simp_all add: load_entries_def try_collect_Ok_iff Let_def)
qed

lemma sql_inv_empty: "digest_law E \<Longrightarrow> db_journal d = [] \<Longrightarrow> sql_inv E d"
  by (simp add: sql_inv_def load_entries_def)

section \<open>Appending keeps the chain\<close>

lemma hash_bytes_id [simp]: "hash_from_bytes (hash_as_bytes h) = h"
  by (cases h) (simp add: hash_from_bytes_def)

lemma into_entry_row:
  assumes e: "journal_entry_new E ev cursor prev = Ok entry" and law: "digest_law E"
    and prev: "\<forall>h. prev = Some h \<longrightarrow> wf_hash h"
    and m: "json_parse E (je_payload_bytes entry) = Some (JObject m)"
  shows "into_entry E (entry_row cursor entry) = Ok (entry\<lparr>je_event := (je_event entry)\<lparr>ev_payload := m\<rparr>\<rparr>)"
proof -
  have ok: "entry_ok E prev entry" "je_event entry = ev\<lparr>ev_cursor := Some cursor\<rparr>" "cursor \<noteq> 0"
    using journal_entry_new_entry_ok [OF e] by simp_all
  then have "wf_hash (je_payload_address entry)" "wf_hash (je_entry_address entry)" "je_previous_address entry = prev"
    using entry_ok_wf [OF law ok(1)] by (simp_all add: entry_ok_def)
  then show ?thesis
    using ok(2,3) m prev
    by (cases prev) (simp_all add: into_entry_def entry_row_def decode_cursor_def decode_hash_def wf_hash_def Let_def)
qed

lemma entry_ok_payload:
  assumes "entry_ok E prev e" "canonical_payload E m = Ok (je_payload_bytes e)"
  shows "entry_ok E prev (e\<lparr>je_event := (je_event e)\<lparr>ev_payload := m\<rparr>\<rparr>)"
proof -
  have "entry_address E (ev\<lparr>ev_payload := m\<rparr>) pa prev = entry_address E ev pa prev" for ev pa
    by (simp add: entry_address_def canonical_chain_bytes_def chain_value_def validate_identity_fields_def)
  then show ?thesis using assms by (auto simp: entry_ok_def)
qed

lemma find_entry:
  assumes "list_all2 (\<lambda>s e. into_entry E s = Ok e) rows es" "\<And>s e. into_entry E s = Ok e \<Longrightarrow> P s \<longleftrightarrow> Q e"
  shows "(case find P rows of None \<Rightarrow> Ok None | Some s \<Rightarrow> and_then (into_entry E s) (\<lambda>e. Ok (Some e))) = Ok (find Q es)"
  using assms(1) by (induction rule: list_all2_induct) (auto simp: assms(2))

lemma into_entry_key: "into_entry E s = Ok e \<Longrightarrow> ev_idempotency_key (je_event e) = se_idempotency_key s"
  by (auto simp: into_entry_def result_simps)

lemma entry_by_id:
  "sql_inv E d \<Longrightarrow> entry_by_field E ''event_id'' i d = Ok (find (\<lambda>e. ev_id (je_event e) = i) (sql_entries E d))"
  unfolding entry_by_field_def read_first_def if_True simp_thms
  by (rule find_entry [OF sql_invD(4)]) (simp_all add: into_entry_id)

lemma entry_by_key:
  "sql_inv E d \<Longrightarrow> entry_by_field E ''idempotency_key'' k d
     = Ok (find (\<lambda>e. ev_idempotency_key (je_event e) = Some k) (sql_entries E d))"
  unfolding entry_by_field_def read_first_def
  by (simp, rule find_entry [OF sql_invD(4)]) (simp_all add: into_entry_key)

lemma into_entry_anchor:
  "into_entry E s = Ok e \<Longrightarrow> decode_cursor (se_cursor s) = Ok (the (je_cursor e)) \<and> je_cursor e \<noteq> None
     \<and> decode_hash c f (se_entry_address s) = Ok (je_entry_address e)"
  by (auto simp: into_entry_def result_simps je_cursor_def decode_hash_def split: if_splits)

lemma last_row:
  assumes inv: "sql_inv E d" and rows: "db_journal d = rows @ [s]"
  obtains es e where "sql_entries E d = es @ [e]" "into_entry E s = Ok e" "je_cursor e = Some (length es + 1)"
proof -
  from sql_invD(4) [OF inv] rows obtain es e where e: "sql_entries E d = es @ [e]" "into_entry E s = Ok e" "length es = length rows"
    by (auto simp: list_all2_append1 list_all2_Cons1)
  have "map se_cursor (db_journal d) = map int [1..<Suc (length (db_journal d))]" using inv by (simp add: sql_inv_def)
  then have c: "se_cursor s = int (length es + 1)" using rows e(3) by simp
  then have "decode_cursor (se_cursor s) = Ok (length es + 1)" unfolding decode_cursor_def by (simp only: nat_int) simp
  then show thesis using into_entry_anchor [OF e(2), of None "[]"] that [OF e(1,2)] by auto
qed

lemma last_anchor:
  assumes inv: "sql_inv E d"
  shows "last_entry_anchor d = Ok (if sql_entries E d = [] then None
    else Some (length (sql_entries E d), je_entry_address (last (sql_entries E d))))"
proof (cases "db_journal d" rule: rev_cases)
  case Nil
  then show ?thesis using sql_invD(4,5) [OF inv] by (simp add: last_entry_anchor_def)
next
  case (snoc rows s)
  then obtain es e where "sql_entries E d = es @ [e]" "into_entry E s = Ok e" "je_cursor e = Some (length es + 1)"
    by (rule last_row [OF inv])
  then show ?thesis using into_entry_anchor [of E s e] sql_invD(5) [OF inv] snoc by (simp add: last_entry_anchor_def)
qed

lemma last_cursor_sql:
  assumes inv: "sql_inv E d"
  shows "last_cursor (sql_entries E d) = (if sql_entries E d = [] then None else Some (length (sql_entries E d)))"
proof (cases "db_journal d" rule: rev_cases)
  case Nil
  then show ?thesis using sql_invD(4) [OF inv] by (simp add: last_cursor_def)
next
  case (snoc rows s)
  then obtain es e where "sql_entries E d = es @ [e]" "je_cursor e = Some (length es + 1)"
    by (rule last_row [OF inv]) blast
  then show ?thesis by (simp add: last_cursor_def)
qed

lemma append_new_entry_cases:
  assumes inv: "sql_inv E d" and ev: "readable E ev" and ok: "append_new_entry E ev d = Ok (d', out)"
    and fresh: "ev_id ev \<notin> set (je_ids (sql_entries E d))"
      "\<forall>k. ev_idempotency_key ev = Some k \<longrightarrow> k \<notin> set (je_keys (sql_entries E d))"
  obtains e rows where "out_inserted out" "sql_inv E d'" "sql_entries E d' = sql_entries E d @ [e]"
    "d' = d\<lparr>db_journal := rows\<rparr>" "out_event out = ev\<lparr>ev_cursor := je_cursor e\<rparr>" "stored_as E (out_event out) (je_event e)"
proof -
  let ?es = "sql_entries E d" and ?n = "Suc (length (sql_entries E d))"
  note len = list_all2_lengthD [OF sql_invD(4) [OF inv]]
  have anchor: "(case (if ?es = [] then None else Some (length ?es, je_entry_address (last ?es))) of
      Some (cursor, address) \<Rightarrow> if cursor = u64_max then Err (Append CursorExhausted) else Ok (cursor + 1, Some address)
    | None \<Rightarrow> Ok (1, None)) = Ok (cursor, prev) \<Longrightarrow> cursor = ?n \<and> prev = journal_head ?es" for cursor prev
    by (auto simp: journal_head_def split: if_splits)
  from ok obtain entry where entry: "journal_entry_new E ev ?n (journal_head ?es) = Ok entry"
    and ins: "insert_journal_entry (entry_row ?n entry) d = Ok d'" and out: "out = \<lparr>out_event = je_event entry, out_inserted = True\<rparr>"
    unfolding append_new_entry_def last_anchor [OF inv] by (auto simp: result_simps journal_head_def split: if_splits dest!: anchor)
  from ins have d': "d' = d\<lparr>db_journal := db_journal d @ [entry_row ?n entry]\<rparr>"
    by (auto simp: insert_journal_entry_def result_simps)
  have ok: "entry_ok E (journal_head ?es) entry" "je_event entry = ev\<lparr>ev_cursor := Some ?n\<rparr>"
    using journal_entry_new_entry_ok [OF entry] by simp_all
  then have "canonical_payload E (ev_payload ev) = Ok (je_payload_bytes entry)" by (simp add: entry_ok_def)
  with ev obtain m where m: "json_parse E (je_payload_bytes entry) = Some (JObject m)" "canonical_payload E m = Ok (je_payload_bytes entry)"
    unfolding readable_def by blast
  define e where "e = entry\<lparr>je_event := (je_event entry)\<lparr>ev_payload := m\<rparr>\<rparr>"
  have row: "into_entry E (entry_row ?n entry) = Ok e"
    unfolding e_def by (rule into_entry_row [OF entry sql_invD(1) [OF inv] _ m(1)])
      (use journal_head_wf [OF sql_invD(1) [OF inv] sql_invD(2) [OF inv]] in simp)
  have c: "map se_cursor (db_journal d') = map int [1..<Suc (length (db_journal d'))]"
    using inv len by (simp add: d' sql_inv_def entry_row_def Let_def)
  have es: "load_entries E False d' = Ok (?es @ [e])"
    using sql_invD(4) [OF inv] row sorted_cursors [OF c]
    by (simp add: load_entries_def try_collect_Ok_iff d' list_all2_appendI)
  have cur: "je_cursor e = Some ?n" using ok(2) by (simp add: e_def je_cursor_def)
  have eok: "entry_ok E (journal_head ?es) e" unfolding e_def by (rule entry_ok_payload [OF ok(1) m(2)])
  have "journal_ok E (?es @ [e])"
    unfolding journal_ok_snoc using sql_invD(2) [OF inv] eok fresh ok(2) cur last_cursor_sql [OF inv]
    by (auto simp: e_def cursor_is_valid_def split: option.splits)
  then have "sql_inv E d'" using es c sql_invD(1) [OF inv] by (simp add: sql_inv_def)
  moreover have "sql_entries E d' = ?es @ [e]" by (simp add: sql_entries_def es)
  moreover have "stored_as E (out_event out) (je_event e)"
    using ok m(2) by (simp add: stored_as_def out e_def entry_ok_def)
  moreover have "out_event out = ev\<lparr>ev_cursor := je_cursor e\<rparr>" using ok(2) cur by (simp add: out)
  ultimately show thesis using that d' out by simp
qed

lemma append_cases:
  assumes inv: "sql_inv E d" and ev: "readable E ev" and ok: "append_in_transaction E ev d = Ok (d', out)"
  obtains (duplicate) "d' = d" "\<not> out_inserted out" "out_event out \<in> je_event ` set (sql_entries E d)"
  | (inserted) e rows where "out_inserted out" "sql_inv E d'" "sql_entries E d' = sql_entries E d @ [e]"
    "d' = d\<lparr>db_journal := rows\<rparr>" "out_event out = ev\<lparr>ev_cursor := je_cursor e\<rparr>" "stored_as E (out_event out) (je_event e)"
proof (cases "find (\<lambda>e. ev_id (je_event e) = ev_id ev) (sql_entries E d)")
  case (Some e)
  then have "e \<in> set (sql_entries E d)" by (auto simp: find_Some_iff)
  then show thesis
    using ok Some duplicate by (auto simp: append_in_transaction_def entry_by_id [OF inv] result_simps split: if_splits)
next
  case None
  let ?by_key = "case ev_idempotency_key ev of
      Some k \<Rightarrow> find (\<lambda>e. ev_idempotency_key (je_event e) = Some k) (sql_entries E d) | None \<Rightarrow> None"
  have key: "(case ev_idempotency_key ev of Some key \<Rightarrow> entry_by_field E ''idempotency_key'' key d | None \<Rightarrow> Ok None) = Ok ?by_key"
    by (simp add: entry_by_key [OF inv] split: option.split)
  show thesis
  proof (cases ?by_key)
    case (Some e)
    then have "e \<in> set (sql_entries E d)" by (auto simp: find_Some_iff split: option.splits)
    then show thesis
      using ok None Some duplicate by (auto simp: append_in_transaction_def entry_by_id [OF inv] key)
  next
    case fresh: None
    have "ev_id ev \<notin> set (je_ids (sql_entries E d))" using None by (auto simp: find_None_iff je_ids_def)
    moreover have "\<forall>k. ev_idempotency_key ev = Some k \<longrightarrow> k \<notin> set (je_keys (sql_entries E d))"
      using fresh by (auto simp: find_None_iff set_je_keys)
    moreover have "append_new_entry E ev d = Ok (d', out)"
      using ok None fresh by (simp add: append_in_transaction_def entry_by_id [OF inv] key)
    ultimately show thesis using append_new_entry_cases [OF inv ev] inserted by metis
  qed
qed

section \<open>The queries are those of the in-memory journal\<close>

lemma sql_event_matches_eq: "sql_event_matches ev f \<longleftrightarrow> event_matches ev f"
  by (auto simp: sql_event_matches_def event_matches_def split: option.splits)

lemma take_matching_eq:
  "(case f_limit f of Some n \<Rightarrow> length acc < n | None \<Rightarrow> True) \<Longrightarrow>
     take_matching f acc es = acc @ (case f_limit f of
         Some n \<Rightarrow> take (n - length acc) (filter (\<lambda>ev. event_matches ev f) (map je_event es))
       | None \<Rightarrow> filter (\<lambda>ev. event_matches ev f) (map je_event es))"
proof (induction es arbitrary: acc)
  case (Cons e es)
  show ?case
  proof (cases "event_matches (je_event e) f")
    case True
    show ?thesis
    proof (cases "f_limit f")
      case None
      then show ?thesis using True Cons.IH [of "acc @ [je_event e]"] by (simp add: sql_event_matches_eq)
    next
      case (Some n)
      then have "length acc < n" using Cons.prems by simp
      then have "n - length acc = Suc (n - Suc (length acc))" by simp
      then show ?thesis
        using Some True Cons.IH [of "acc @ [je_event e]"] \<open>length acc < n\<close>
        by (auto simp: sql_event_matches_eq Let_def)
    qed
  qed (use Cons in \<open>simp add: sql_event_matches_eq split: option.split\<close>)
qed (simp split: option.split)

lemma sql_list_events_eq:
  assumes inv: "sql_inv E d" and j: "mj_entries j = sql_entries E d"
  shows "sql_list_events E f d = Ok (list_events j f)"
proof -
  have "try_collect (into_entry E) (rev (db_journal d)) = Ok (rev (sql_entries E d))"
    using sql_invD(4) [OF inv] by (simp add: try_collect_Ok_iff list_all2_rev)
  then have load: "load_entries E b d = Ok (if b then rev (sql_entries E d) else sql_entries E d)" for b
    using sql_invD(3,5) [OF inv] by (cases b) (simp_all add: load_entries_def)
  show ?thesis
    by (cases "f_limit f = Some 0")
      (auto simp: sql_list_events_def load list_events_def truncate_events_def j Let_def take_matching_eq split: option.splits)
qed

lemma sql_get_event_eq:
  assumes inv: "sql_inv E d" and j: "mj_inv E j" "mj_entries j = sql_entries E d"
  shows "sql_get_event E i d = Ok (get_event j i)"
proof -
  have "map_option je_event (find (\<lambda>e. ev_id (je_event e) = i) es) = find (\<lambda>ev. ev_id ev = i) (map je_event es)" for es
    by (induction es) simp_all
  then show ?thesis using get_event_find [OF j(1)] j(2) by (simp add: sql_get_event_def entry_by_id [OF inv])
qed

lemma sql_causal_walk_eq:
  assumes inv: "sql_inv E d" and j: "mj_inv E j" "mj_entries j = sql_entries E d"
  shows "sql_causal_walk E d seen chain current = Ok (causal_walk j seen chain current)"
  using assms
proof (induction E d seen chain current rule: sql_causal_walk.induct)
  case (1 E d seen chain current)
  note get = sql_get_event_eq [OF 1(2,3,4)]
  show ?case
  proof (cases "\<exists>ev c. current = Some ev \<and> ev_id ev \<notin> seen \<and> ev_caused_by ev = Some c")
    case True
    then obtain ev c where ev: "current = Some ev" "ev_id ev \<notin> seen" "ev_caused_by ev = Some c" by blast
    from 1(1) [OF ev get 1(2,3,4)] ev show ?thesis
      by (subst sql_causal_walk.simps, subst causal_walk.simps) (simp add: get)
  next
    case False
    then show ?thesis
      by (subst sql_causal_walk.simps, subst causal_walk.simps) (auto split: option.split)
  qed
qed

section \<open>The contract of a durable log\<close>

locale durable_log =
  fixes E :: env
    and inv :: "'j \<Rightarrow> bool"
    and entries :: "'j \<Rightarrow> journal_entry list"
    and append_event :: "'j \<Rightarrow> event \<Rightarrow> 'j \<times> ('err, append_outcome) result"
    and admissible :: "event \<Rightarrow> bool"
  assumes log_ok: "inv j \<Longrightarrow> journal_ok E (entries j)"
    and log_inv: "inv j \<Longrightarrow> admissible ev \<Longrightarrow> inv (fst (append_event j ev))"
    and log_grows: "inv j \<Longrightarrow> admissible ev \<Longrightarrow> append_event j ev = (j', r) \<Longrightarrow>
      (entries j' = entries j \<and> (\<forall>out. r = Ok out \<longrightarrow> \<not> out_inserted out \<and> out_event out \<in> je_event ` set (entries j)))
      \<or> (\<exists>e out. entries j' = entries j @ [e] \<and> r = Ok out \<and> out_inserted out
           \<and> out_event out = ev\<lparr>ev_cursor := je_cursor e\<rparr> \<and> stored_as E (out_event out) (je_event e))"
    and log_again: "inv j \<Longrightarrow> e \<in> set (entries j) \<Longrightarrow> ev_id ev = ev_id (je_event e) \<Longrightarrow>
      validate_identity_fields ev = Ok () \<Longrightarrow> canonical_payload E (ev_payload ev) = Ok b \<Longrightarrow>
      payload_address E b = je_payload_address e \<Longrightarrow>
      append_event j ev = (j, Ok \<lparr>out_event = je_event e, out_inserted = False\<rparr>)"
begin

lemma log_run_inv: "inv j \<Longrightarrow> list_all admissible evs \<Longrightarrow> inv (foldl (\<lambda>j ev. fst (append_event j ev)) j evs)"
  by (induction evs arbitrary: j) (simp_all add: log_inv)

lemma log_prefix: "inv j \<Longrightarrow> admissible ev \<Longrightarrow> prefix (entries j) (entries (fst (append_event j ev)))"
  using log_grows [of j ev "fst (append_event j ev)" "snd (append_event j ev)"] by auto

lemma log_run_prefix:
  "inv j \<Longrightarrow> list_all admissible evs \<Longrightarrow> prefix (entries j) (entries (foldl (\<lambda>j ev. fst (append_event j ev)) j evs))"
proof (induction evs arbitrary: j)
  case (Cons ev evs)
  then have "prefix (entries (fst (append_event j ev))) (entries (foldl (\<lambda>j ev. fst (append_event j ev)) j (ev # evs)))"
    using log_inv by simp
  with log_prefix [of j ev] Cons.prems show ?case by (auto intro: prefix_order.trans)
qed simp

lemma log_run_verifies:
  assumes "inv j" "list_all admissible evs" "k = foldl (\<lambda>j ev. fst (append_event j ev)) j evs"
  shows "verify E (entries k) (Exact (journal_head (entries k)))
    = Ok \<lparr>rep_entries_checked = length (entries k), rep_head = journal_head (entries k)\<rparr>"
  using log_ok [OF log_run_inv [OF assms(1,2)]] by (simp add: verify_exact_iff assms(3))

lemma log_retry:
  assumes j: "inv j" and ev: "admissible ev" and app: "append_event j ev = (j', Ok out)" "out_inserted out"
    and k: "list_all admissible evs" "k = foldl (\<lambda>j ev. fst (append_event j ev)) j' evs"
  shows "\<exists>out'. append_event k ev = (k, Ok out') \<and> \<not> out_inserted out' \<and> stored_as E (out_event out) (out_event out')"
proof -
  from log_grows [OF j ev app(1)] app(2) obtain e where e: "entries j' = entries j @ [e]"
    "out_event out = ev\<lparr>ev_cursor := je_cursor e\<rparr>" "stored_as E (out_event out) (je_event e)" by auto
  have j': "inv j'" using log_inv [OF j ev] app(1) by simp
  from log_ok [OF j'] e(1) have ok: "entry_ok E (journal_head (entries j)) e" by (simp add: journal_ok_snoc)
  have same: "ev_id (je_event e) = ev_id ev" "ev_event_type (je_event e) = ev_event_type ev" "ev_source (je_event e) = ev_source ev"
    "canonical_payload E (ev_payload ev) = canonical_payload E (ev_payload (je_event e))"
    using e(2,3) unfolding stored_as_def by (cases "je_event e"; cases ev; simp)+
  obtain b where "canonical_chain_bytes E (je_event e) (je_payload_address e) (journal_head (entries j)) = Ok b"
    using ok by (rule entry_ok_chain_bytes)
  then have "validate_identity_fields (je_event e) = Ok ()" by (auto simp: canonical_chain_bytes_def and_then_Ok_iff)
  then have valid: "validate_identity_fields ev = Ok ()" using same by (auto simp: validate_identity_fields_def split: if_splits)
  have payload: "canonical_payload E (ev_payload ev) = Ok (je_payload_bytes e)"
    "payload_address E (je_payload_bytes e) = je_payload_address e"
    using ok same(4) by (simp_all add: entry_ok_def)
  have "e \<in> set (entries k)" using log_run_prefix [OF j' k(1)] e(1) k(2) by (auto simp: prefix_def)
  moreover have "inv k" unfolding k(2) by (rule log_run_inv [OF j' k(1)])
  ultimately show ?thesis using log_again [of k e ev] valid payload same(1) e(3) by auto
qed

end

lemma stored_as_refl: "stored_as E ev ev"
  by (simp add: stored_as_def)

sublocale event_log \<subseteq> durable_log E inv entries append_event "\<lambda>_. True"
proof
  fix j ev j' r
  assume "inv j" "append_event j ev = (j', r)"
  from append_grows [OF this]
  show "(entries j' = entries j \<and> (\<forall>out. r = Ok out \<longrightarrow> \<not> out_inserted out \<and> out_event out \<in> je_event ` set (entries j)))
      \<or> (\<exists>e out. entries j' = entries j @ [e] \<and> r = Ok out \<and> out_inserted out
           \<and> out_event out = ev\<lparr>ev_cursor := je_cursor e\<rparr> \<and> stored_as E (out_event out) (je_event e))"
    by (auto simp: stored_as_refl je_cursor_def)
qed (rule entries_ok append_inv append_again; assumption)+

section \<open>Properties\<close>

text \<open>C22: on the same entries, the SQLite journal answers every query as the in-memory reference does: lookups,
  filtered lists in both orders, children, causal chains, the head and verification.\<close>

theorem sqlite_queries_agree:
  assumes inv: "sql_inv E d" and j: "mj_inv E j" "mj_entries j = sql_entries E d"
  shows "sql_get_event E i d = Ok (get_event j i) \<and> sql_list_events E f d = Ok (list_events j f)
    \<and> sql_children E i limit d = Ok (children j i limit) \<and> sql_causal_chain E i d = Ok (causal_chain j i)
    \<and> sql_head d = Ok (mj_head j) \<and> verify_journal E x d = map_err Verification (verify E (mj_entries j) x)"
proof -
  have "sql_head d = Ok (mj_head j)"
    using mj_invD(5) [OF j(1)] j(2) by (simp add: sql_head_def last_anchor [OF inv] journal_head_def)
  moreover have "sql_causal_chain E i d = Ok (causal_chain j i)"
    by (simp add: sql_causal_chain_def causal_chain_def sql_get_event_eq [OF assms] sql_causal_walk_eq [OF assms])
  ultimately show ?thesis
    using sql_get_event_eq [OF assms] sql_list_events_eq [OF inv j(2)] sql_invD(3) [OF inv] j(2)
    by (simp add: sql_children_def children_def verify_journal_def)
qed

definition journal_env :: env where
  "journal_env = sample_env\<lparr>json_parse := (\<lambda>t. if t = ''{}'' then Some (JObject []) else None)\<rparr>"

lemma journal_env_laws: "digest_law journal_env" "integer_printing journal_env" "canonical_payload journal_env [] = Ok ''{}''"
proof -
  show "digest_law journal_env" using sample_digest_law by (simp add: digest_law_def journal_env_def)
  have "python_number journal_env = python_number sample_env"
    by (rule ext) (simp add: python_number_def journal_env_def)
  then show "integer_printing journal_env"
    using sample_integer_printing by (simp add: integer_printing_def journal_env_def)
  show "canonical_payload journal_env [] = Ok ''{}''" by (simp add: canonical_payload_def canonical_json_def)
qed

lemma journal_env_readable: "readable journal_env sample_event"
  using journal_env_laws(3) by (simp add: readable_def sample_event_def journal_env_def)

lemma sample_entry_journal: obtains e where "journal_entry_new journal_env sample_event 1 None = Ok e"
    "je_event e = sample_event\<lparr>ev_cursor := Some 1\<rparr>" "je_payload_bytes e = ''{}''"
  using journal_entry_new_total [OF journal_env_laws(2) _ _ _, of sample_event "''{}''" 1 None] journal_env_laws(3)
  by (simp add: sample_event_def is_i64_def validate_identity_fields_def)

lemma sample_append:
  obtains e where "journal_entry_new journal_env sample_event 1 None = Ok e" "je_event e = sample_event\<lparr>ev_cursor := Some 1\<rparr>"
    "append_new_entry journal_env sample_event db_empty = Ok (db_empty\<lparr>db_journal := [entry_row 1 e]\<rparr>,
      \<lparr>out_event = je_event e, out_inserted = True\<rparr>)"
    "into_entry journal_env (entry_row 1 e) = Ok e"
proof -
  obtain e where e: "journal_entry_new journal_env sample_event 1 None = Ok e"
    "je_event e = sample_event\<lparr>ev_cursor := Some 1\<rparr>" "je_payload_bytes e = ''{}''" by (rule sample_entry_journal)
  have eok: "entry_ok journal_env None e" using journal_entry_new_entry_ok [OF e(1)] by simp
  have wf: "length (hash_as_bytes (je_payload_address e)) = 32" "length (hash_as_bytes (je_entry_address e)) = 32"
    using entry_ok_wf [OF journal_env_laws(1) eok] by (simp_all add: wf_hash_def)
  have prev: "je_previous_address e = None" using eok by (simp add: entry_ok_def)
  have "append_new_entry journal_env sample_event db_empty = Ok (db_empty\<lparr>db_journal := [entry_row 1 e]\<rparr>,
      \<lparr>out_event = je_event e, out_inserted = True\<rparr>)"
    using e wf prev
    by (simp add: append_new_entry_def last_entry_anchor_def db_empty_def insert_journal_entry_def entry_row_def Let_def
        sample_event_def sql_nonempty_def sql_insert_def)
  moreover have "into_entry journal_env (entry_row 1 e) = Ok (e\<lparr>je_event := (je_event e)\<lparr>ev_payload := []\<rparr>\<rparr>)"
    by (rule into_entry_row [OF e(1) journal_env_laws(1)]) (simp_all add: e(3) journal_env_def)
  moreover have "e\<lparr>je_event := (je_event e)\<lparr>ev_payload := []\<rparr>\<rparr> = e" using e(2) by (cases e) (simp add: sample_event_def)
  ultimately show thesis using that e(1,2) by simp
qed

lemma db_empty_inv: "sql_inv journal_env db_empty" "sql_entries journal_env db_empty = []"
proof -
  show inv: "sql_inv journal_env db_empty" by (rule sql_inv_empty [OF journal_env_laws(1)]) (simp add: db_empty_def)
  show "sql_entries journal_env db_empty = []" using sql_invD(4) [OF inv] by (simp add: db_empty_def)
qed

theorem sqlite_queries_agree_witness:
  "\<exists>d j. db_journal d \<noteq> [] \<and> sql_get_event journal_env ''e1'' d = Ok (get_event j ''e1'')"
proof -
  obtain e where e: "journal_entry_new journal_env sample_event 1 None = Ok e"
    and d: "append_new_entry journal_env sample_event db_empty = Ok (db_empty\<lparr>db_journal := [entry_row 1 e]\<rparr>,
      \<lparr>out_event = je_event e, out_inserted = True\<rparr>)" "into_entry journal_env (entry_row 1 e) = Ok e"
    by (rule sample_append)
  obtain j out where j: "journal_append journal_env memory_journal_new sample_event = (j, Ok out)" "mj_entries j = [e]"
    using e by (simp add: journal_append_def append_insert_def memory_journal_new_def u64_max_def Let_def sample_event_def
        validate_identity_fields_def)
  obtain x where x: "sql_inv journal_env (db_empty\<lparr>db_journal := [entry_row 1 e]\<rparr>)"
    "sql_entries journal_env (db_empty\<lparr>db_journal := [entry_row 1 e]\<rparr>) = [x]"
    using append_new_entry_cases [OF db_empty_inv(1) journal_env_readable d(1)] db_empty_inv(2)
    by (metis (no_types, lifting) append_Nil empty_iff je_ids_simps(1) je_keys_Nil list.set(1))
  then have "x = e" using sql_invD(4) [OF x(1)] d(2) by simp
  moreover have "mj_inv journal_env j" using journal_append_inv [OF mj_inv_new, of journal_env sample_event] j(1) by simp
  ultimately have "sql_get_event journal_env ''e1'' (db_empty\<lparr>db_journal := [entry_row 1 e]\<rparr>) = Ok (get_event j ''e1'')"
    using sqlite_queries_agree [OF x(1), of j] j(2) x(2) by simp
  moreover have "db_journal (db_empty\<lparr>db_journal := [entry_row 1 e]\<rparr>) \<noteq> []" by simp
  ultimately show ?thesis by blast
qed

end
