(* ===== verification/Queue_Projection.thy ===== *)
theory Queue_Projection
  imports Sql_Journal
begin

text \<open>
  The queue part of \<open>crates/zeta-dispatch/src/sqlite/routing.rs\<close>: how lifecycle events of queue items and
  ingress events change the \<open>queue_items\<close> table, and how its rows are read.
\<close>

section \<open>Payload fields\<close>

text \<open>\<open>event_type.rsplit('.').next()\<close>: the text after the last full stop.\<close>

definition type_suffix :: "string \<Rightarrow> string" where
  "type_suffix t = rev (takeWhile (\<lambda>c. c \<noteq> CHR ''.'') (rev t))"

definition lifecycle_queue_status :: "event \<Rightarrow> (dispatch_error, queue_item_status) result" where
  "lifecycle_queue_status ev =
     and_then (map_err (\<lambda>_. invalid_lifecycle ev ''event_type'') (queue_status_from_str (type_suffix (ev_event_type ev)))) (\<lambda>expected.
     and_then (case map_get (ev_payload ev) ''status'' of
         Some (JString status) \<Rightarrow> map_err (\<lambda>_. invalid_lifecycle ev ''status'') (queue_status_from_str status)
       | Some _ \<Rightarrow> Err (invalid_lifecycle ev ''status'')
       | None \<Rightarrow> Ok expected) (\<lambda>actual.
     if actual \<noteq> expected then Err (invalid_lifecycle ev ''status'') else Ok actual))"

fun string_array :: "dispatch_error \<Rightarrow> string list \<Rightarrow> json list \<Rightarrow> (dispatch_error, string list) result" where
  "string_array e seen [] = Ok []"
| "string_array e seen (JString s # vs) =
     (if s = [] \<or> s \<in> set seen then Err e
      else and_then (string_array e (s # seen) vs) (\<lambda>r. Ok (s # r)))"
| "string_array e seen (v # vs) = Err e"

definition optional_payload_string_array :: "event \<Rightarrow> string \<Rightarrow> (dispatch_error, string list option) result" where
  "optional_payload_string_array ev field = (case map_get (ev_payload ev) field of
     None \<Rightarrow> Ok None
   | Some (JArray vs) \<Rightarrow> and_then (string_array (invalid_lifecycle ev field) [] vs) (\<lambda>r. Ok (Some r))
   | Some _ \<Rightarrow> Err (invalid_lifecycle ev field))"

definition queue_last_error :: "event \<Rightarrow> (dispatch_error, string option) result" where
  "queue_last_error ev =
     and_then (optional_payload_string ev ''error'') (\<lambda>error. case error of
       Some error \<Rightarrow> Ok (Some error)
     | None \<Rightarrow>
         (case map_get (ev_payload ev) ''last_error'' of
            None \<Rightarrow> Ok None
          | Some (JObject last_error) \<Rightarrow>
              (case map_get last_error ''message'' of
                 Some (JString message) \<Rightarrow> Ok (Some message)
               | _ \<Rightarrow> Err (invalid_lifecycle ev ''last_error''))
          | Some _ \<Rightarrow> Err (invalid_lifecycle ev ''last_error'')))"

definition queue_available_at :: "env \<Rightarrow> event \<Rightarrow> (dispatch_error, int) result" where
  "queue_available_at E ev = (case map_get (ev_payload ev) ''not_before'' of
     None \<Rightarrow> Ok (ev_timestamp_ms ev)
   | Some (JNumber number) \<Rightarrow>
       (case num_as_i64 E number of
          Some v \<Rightarrow> Ok v
        | None \<Rightarrow>
            (case num_as_f64 E number of
               None \<Rightarrow> Err (invalid_lifecycle ev ''not_before'')
             | Some v \<Rightarrow>
                 if v < - (2 ^ 63) \<or> 2 ^ 63 \<le> v then Err (invalid_lifecycle ev ''not_before'')
                 else Ok (truncate_rat v)))
   | Some _ \<Rightarrow> Err (invalid_lifecycle ev ''not_before''))"

definition input_event_cursor :: "db \<Rightarrow> string \<Rightarrow> event \<Rightarrow> (dispatch_error, int) result" where
  "input_event_cursor d event_id lifecycle_event =
     (case find (\<lambda>s. se_event_id s = event_id) (db_journal d) of
        None \<Rightarrow> Err (invalid_lifecycle lifecycle_event ''event_id'')
      | Some s \<Rightarrow> if se_cursor s \<le> 0 then Err (CorruptJournal None ''cursor'') else Ok (se_cursor s))"

section \<open>Statements\<close>

definition coalesce :: "'a option \<Rightarrow> 'a option \<Rightarrow> 'a option" where
  "coalesce a b = (case a of Some v \<Rightarrow> Some v | None \<Rightarrow> b)"

text \<open>An attempt keeps its queue item; claims on a deleted item go with it.\<close>

definition delete_queue_items :: "string \<Rightarrow> (queue_item_row \<Rightarrow> bool) \<Rightarrow> db \<Rightarrow> (dispatch_error, db) result" where
  "delete_queue_items operation condition d =
     (let gone = map qi_id (filter condition (db_queue_items d)) in
      if list_ex (\<lambda>a. at_queue_item_id a \<in> set gone) (db_attempts d) then Err (Database operation)
      else Ok ((delete_queue_claims (\<lambda>c. qc_queue_item_id c \<in> set gone) d)
        \<lparr>db_queue_items := filter (\<lambda>r. \<not> condition r) (db_queue_items d)\<rparr>))"

definition queue_item_fits :: "db \<Rightarrow> queue_item_row list \<Rightarrow> queue_item_row \<Rightarrow> bool" where
  "queue_item_fits d others r \<longleftrightarrow>
     sql_nonempty (qi_id r) \<and> sql_nonempty (qi_event_id r) \<and> 0 < qi_input_cursor r \<and> journal_has d (qi_event_id r)
     \<and> list_all (\<lambda>s. (qi_event_id s, qi_target_agent s) \<noteq> (qi_event_id r, qi_target_agent r)) others"

definition insert_pending_item :: "queue_item_row \<Rightarrow> db \<Rightarrow> (dispatch_error, db) result" where
  "insert_pending_item r d =
     (if list_ex (\<lambda>s. qi_id s = qi_id r) (db_queue_items d) then Ok d
      else if queue_item_fits d (db_queue_items d) r then Ok (d\<lparr>db_queue_items := db_queue_items d @ [r]\<rparr>)
      else Err (Database ''project pending queue item''))"

text \<open>What the upsert keeps of the stored row when the new one does not say.\<close>

definition merge_queue_item :: "string option \<Rightarrow> queue_item_row \<Rightarrow> queue_item_row \<Rightarrow> queue_item_row" where
  "merge_queue_item lock_keys_json new old = old\<lparr>
     qi_event_id := qi_event_id new,
     qi_target_agent := qi_target_agent new,
     qi_project_revision := coalesce (qi_project_revision new) (qi_project_revision old),
     qi_session_id := coalesce (qi_session_id new) (qi_session_id old),
     qi_lock_keys_json := (case lock_keys_json of Some v \<Rightarrow> v | None \<Rightarrow> qi_lock_keys_json old),
     qi_input_cursor := qi_input_cursor new,
     qi_status := qi_status new,
     qi_available_at := (if qi_status new = ''available'' then qi_available_at new else qi_available_at old),
     qi_last_error := qi_last_error new,
     qi_updated_at := qi_updated_at new\<rparr>"

definition upsert_queue_item :: "string option \<Rightarrow> queue_item_row \<Rightarrow> db \<Rightarrow> (dispatch_error, db) result" where
  "upsert_queue_item lock_keys_json new d =
     (let same = (\<lambda>r. qi_id r = qi_id new); others = filter (\<lambda>r. \<not> same r) (db_queue_items d) in
      case find same (db_queue_items d) of
        None \<Rightarrow>
          if queue_item_fits d others new then Ok (d\<lparr>db_queue_items := db_queue_items d @ [new]\<rparr>)
          else Err (Database ''project queue lifecycle'')
      | Some old \<Rightarrow>
          if queue_item_fits d others (merge_queue_item lock_keys_json new old)
          then Ok (d\<lparr>db_queue_items := sql_update same (merge_queue_item lock_keys_json new) (db_queue_items d)\<rparr>)
          else Err (Database ''project queue lifecycle''))"

section \<open>Indexing\<close>

definition index_pending_queue_item :: "event \<Rightarrow> db \<Rightarrow> (dispatch_error, db) result" where
  "index_pending_queue_item ev d = (case ev_cursor ev of
     None \<Rightarrow> Err (invalid_lifecycle ev ''cursor'')
   | Some cursor \<Rightarrow>
       if 2 ^ 63 - 1 < cursor then Err (invalid_lifecycle ev ''cursor'')
       else insert_pending_item
         \<lparr>qi_id = pending_queue_item_id (ev_id ev), qi_event_id = ev_id ev, qi_target_agent = [],
          qi_project_revision = None, qi_session_id = None, qi_lock_keys_json = ''[]'', qi_input_cursor = int cursor,
          qi_status = ''pending'', qi_available_at = Some (ev_timestamp_ms ev), qi_cancel_requested_event_id = None,
          qi_cancel_requested_at = None, qi_cancel_reason = None, qi_attempt_count = 0, qi_last_error = None,
          qi_updated_at = ev_timestamp_ms ev\<rparr> d)"

definition index_queue_item_cancel_requested :: "event \<Rightarrow> db \<Rightarrow> (dispatch_error, db) result" where
  "index_queue_item_cancel_requested ev d =
     and_then (required_runtime_id ev ''queue_item_id'') (\<lambda>item_id.
     and_then (required_runtime_id ev ''event_id'') (\<lambda>input_event_id.
     and_then (required_payload_string ev ''target_agent'' True) (\<lambda>target_agent.
     and_then (required_payload_string ev ''status'' False) (\<lambda>supplied_status.
     and_then (map_err (\<lambda>_. invalid_lifecycle ev ''status'') (queue_status_from_str supplied_status)) (\<lambda>_.
     and_then (optional_payload_string ev ''reason'') (\<lambda>reason.
       let named = (\<lambda>r. qi_id r = item_id \<and> qi_event_id r = input_event_id \<and> qi_target_agent r = target_agent);
           changed = sql_count named (db_queue_items d)
       in if changed \<noteq> 1 then Err (invalid_lifecycle ev ''queue_item_id'')
          else Ok (d\<lparr>db_queue_items := sql_update named (\<lambda>r. r\<lparr>
             qi_cancel_requested_event_id := coalesce (qi_cancel_requested_event_id r) (Some (ev_id ev)),
             qi_cancel_requested_at := coalesce (qi_cancel_requested_at r) (Some (ev_timestamp_ms ev)),
             qi_cancel_reason := coalesce (qi_cancel_reason r) reason\<rparr>) (db_queue_items d)\<rparr>)))))))"

text \<open>The status a queue item had before a lifecycle event, when the event names the same item.\<close>

definition previous_queue_status ::
  "event \<Rightarrow> string \<Rightarrow> string \<Rightarrow> string \<Rightarrow> db \<Rightarrow> (dispatch_error, queue_item_status option) result" where
  "previous_queue_status ev item_id input_event_id target_agent d =
     (case find (\<lambda>r. qi_id r = item_id) (db_queue_items d) of
        None \<Rightarrow> Ok None
      | Some previous \<Rightarrow>
          if qi_event_id previous \<noteq> input_event_id then Err (invalid_lifecycle ev ''event_id'')
          else if qi_target_agent previous \<noteq> target_agent \<and> qi_status previous \<noteq> queue_status_display QPending
          then Err (invalid_lifecycle ev ''target_agent'')
          else and_then (map_err (\<lambda>_. CorruptProjection ''queue_items'' ''status'') (queue_status_from_str (qi_status previous)))
            (\<lambda>s. Ok (Some s)))"

definition queue_transition_ok ::
  "string \<Rightarrow> string \<Rightarrow> string \<Rightarrow> queue_item_status option \<Rightarrow> queue_item_status \<Rightarrow> db \<Rightarrow> (dispatch_error, unit) result" where
  "queue_transition_ok item_id pending_id target_agent previous_status status d =
     (let closes_unbound_barrier =
            previous_status = Some QPending \<and> item_id = pending_id \<and> target_agent = [] \<and> status = QCompleted;
          cancels_pending_item =
            previous_status = Some QPending \<and> status = QCancelled
            \<and> list_ex (\<lambda>r. qi_id r = item_id \<and> qi_cancel_requested_event_id r \<noteq> None) (db_queue_items d)
      in if \<not> closes_unbound_barrier \<and> \<not> cancels_pending_item
         then map_err Transition (queue_validate_transition previous_status status)
         else Ok ())"

text \<open>The row that a lifecycle event writes, and the lock keys it names.\<close>

definition queue_row_of_event ::
  "env \<Rightarrow> event \<Rightarrow> string \<Rightarrow> string \<Rightarrow> string \<Rightarrow> queue_item_status \<Rightarrow> db
     \<Rightarrow> (dispatch_error, string option \<times> queue_item_row) result" where
  "queue_row_of_event E ev item_id input_event_id target_agent status d =
     and_then (input_event_cursor d input_event_id ev) (\<lambda>input_cursor.
     and_then (optional_payload_string ev ''session_id'') (\<lambda>payload_session.
       let session_id = coalesce payload_session (ev_session_id ev) in
     and_then (validate_optional_runtime_id ev ''session_id'' session_id) (\<lambda>_.
     and_then (optional_payload_string ev ''project_revision'') (\<lambda>project_revision.
     and_then (validate_optional_runtime_id ev ''project_revision'' project_revision) (\<lambda>_.
     and_then (optional_payload_string_array ev ''lock_keys'') (\<lambda>lock_keys.
       let lock_keys_json = map_option (\<lambda>keys. json_text E (JArray (map JString keys))) lock_keys in
     and_then (queue_last_error ev) (\<lambda>last_error.
     and_then (if status = QAvailable then and_then (queue_available_at E ev) (\<lambda>t. Ok (Some t)) else Ok None) (\<lambda>available_at.
       Ok (lock_keys_json,
         \<lparr>qi_id = item_id, qi_event_id = input_event_id, qi_target_agent = target_agent,
          qi_project_revision = project_revision, qi_session_id = session_id,
          qi_lock_keys_json = (case lock_keys_json of Some j \<Rightarrow> j | None \<Rightarrow> ''[]''),
          qi_input_cursor = input_cursor, qi_status = queue_status_display status, qi_available_at = available_at,
          qi_cancel_requested_event_id = None, qi_cancel_requested_at = None, qi_cancel_reason = None,
          qi_attempt_count = 0, qi_last_error = last_error, qi_updated_at = ev_timestamp_ms ev\<rparr>)))))))))"

definition index_queue_item :: "env \<Rightarrow> event \<Rightarrow> db \<Rightarrow> (dispatch_error, db) result" where
  "index_queue_item E ev d =
     and_then (required_runtime_id ev ''queue_item_id'') (\<lambda>item_id.
     and_then (required_runtime_id ev ''event_id'') (\<lambda>input_event_id.
     and_then (required_payload_string ev ''target_agent'' True) (\<lambda>target_agent.
     and_then (lifecycle_queue_status ev) (\<lambda>status.
       let pending_id = pending_queue_item_id input_event_id in
     and_then (if item_id \<noteq> pending_id
         then delete_queue_items ''close pending route barrier'' (\<lambda>r. qi_id r = pending_id \<and> qi_target_agent r = []) d
         else Ok d) (\<lambda>d.
     and_then (previous_queue_status ev item_id input_event_id target_agent d) (\<lambda>previous_status.
     and_then (queue_transition_ok item_id pending_id target_agent previous_status status d) (\<lambda>_.
     and_then (queue_row_of_event E ev item_id input_event_id target_agent status d) (\<lambda>(lock_keys_json, row).
       upsert_queue_item lock_keys_json row d))))))))"

section \<open>Reading\<close>

record queue_item =
  q_id :: queue_item_id
  q_event_id :: string
  q_target_agent :: string
  q_project_revision :: "string option"
  q_session_id :: "session_id option"
  q_lock_keys :: "string list"
  q_input_cursor :: nat
  q_status :: queue_item_status
  q_available_at :: "int option"
  q_claimed_by :: "string option"
  q_claimed_until :: "int option"
  q_cancellation_requested_event_id :: "string option"
  q_cancellation_requested_at :: "int option"
  q_cancellation_reason :: "string option"
  q_attempt_count :: nat
  q_last_error :: "string option"
  q_updated_at :: int

definition queue_item_into_model ::
  "env \<Rightarrow> queue_claim_row option \<Rightarrow> queue_item_row \<Rightarrow> (dispatch_error, queue_item) result" where
  "queue_item_into_model E claim r =
     and_then (map_err (\<lambda>_. corrupt_projection ''queue_items'' ''queue_item_id'') (parse_runtime_id ''queue item'' (qi_id r))) (\<lambda>item_id.
     and_then (case qi_session_id r of
         Some s \<Rightarrow> and_then (map_err (\<lambda>_. corrupt_projection ''queue_items'' ''session_id'') (parse_runtime_id ''session'' s)) (\<lambda>s. Ok (Some s))
       | None \<Rightarrow> Ok None) (\<lambda>session_id.
     and_then (map_err (\<lambda>_. corrupt_projection ''queue_items'' ''status'')
         (queue_status_from_str (if claim = None then qi_status r else ''claimed''))) (\<lambda>status.
     and_then (ok_or (corrupt_projection ''queue_items'' ''lock_keys_json'') (parse_string_list E (qi_lock_keys_json r))) (\<lambda>lock_keys.
     if [] \<in> set lock_keys \<or> \<not> all_fresh [] lock_keys then Err (corrupt_projection ''queue_items'' ''lock_keys_json'')
     else
     and_then (positive_u64_projection (qi_input_cursor r) ''queue_items'' ''input_cursor'') (\<lambda>input_cursor.
     and_then (nonnegative_u32_projection (qi_attempt_count r) ''queue_items'' ''attempt_count'') (\<lambda>attempt_count.
       Ok \<lparr>q_id = item_id, q_event_id = qi_event_id r, q_target_agent = qi_target_agent r,
           q_project_revision = qi_project_revision r, q_session_id = session_id, q_lock_keys = lock_keys,
           q_input_cursor = input_cursor, q_status = status, q_available_at = qi_available_at r,
           q_claimed_by = map_option qc_worker_name claim, q_claimed_until = map_option qc_claimed_until claim,
           q_cancellation_requested_event_id = qi_cancel_requested_event_id r,
           q_cancellation_requested_at = qi_cancel_requested_at r, q_cancellation_reason = qi_cancel_reason r,
           q_attempt_count = attempt_count, q_last_error = qi_last_error r, q_updated_at = qi_updated_at r\<rparr>))))))"

definition join_claim :: "db \<Rightarrow> queue_item_row \<Rightarrow> queue_claim_row option" where
  "join_claim d r = find (\<lambda>c. qc_queue_item_id c = qi_id r) (db_queue_claims d)"

definition load_queue_item :: "env \<Rightarrow> string \<Rightarrow> db \<Rightarrow> (dispatch_error, queue_item option) result" where
  "load_queue_item E item_id d = (case find (\<lambda>r. qi_id r = item_id) (db_queue_items d) of
     None \<Rightarrow> Ok None
   | Some r \<Rightarrow> and_then (queue_item_into_model E (join_claim d r) r) (\<lambda>q. Ok (Some q)))"

definition load_queue_items :: "env \<Rightarrow> db \<Rightarrow> (dispatch_error, queue_item list) result" where
  "load_queue_items E d = try_collect (\<lambda>r. queue_item_into_model E (join_claim d r) r)
     (sort_key (\<lambda>r. (qi_input_cursor r, qi_id r)) (db_queue_items d))"

definition queue_status_and_target :: "db \<Rightarrow> string \<Rightarrow> (dispatch_error, (queue_item_status \<times> string) option) result" where
  "queue_status_and_target d item_id = (case find (\<lambda>r. qi_id r = item_id) (db_queue_items d) of
     None \<Rightarrow> Ok None
   | Some r \<Rightarrow>
       and_then (map_err (\<lambda>_. CorruptProjection ''queue_items'' ''status'') (queue_status_from_str (qi_status r)))
         (\<lambda>status. Ok (Some (status, qi_target_agent r))))"

definition unrouted_ingress_events :: "db \<Rightarrow> string list" where
  "unrouted_ingress_events d = map qi_event_id (sort_key qi_input_cursor
     (filter (\<lambda>r. qi_status r = ''pending'' \<and> qi_target_agent r = []) (db_queue_items d)))"

section \<open>What indexing leaves alone\<close>

lemma delete_queue_items_Ok:
  "delete_queue_items operation condition d = Ok d' \<longleftrightarrow>
     (\<forall>a \<in> set (db_attempts d). \<forall>r \<in> set (db_queue_items d). condition r \<longrightarrow> at_queue_item_id a \<noteq> qi_id r)
     \<and> d' = (delete_queue_claims (\<lambda>c. qc_queue_item_id c \<in> qi_id ` {r \<in> set (db_queue_items d). condition r}) d)
        \<lparr>db_queue_items := filter (\<lambda>r. \<not> condition r) (db_queue_items d)\<rparr>"
  by (auto simp: delete_queue_items_def Let_def list_ex_iff)

lemma delete_queue_claims_frame [simp]:
  "db_journal (delete_queue_claims P d) = db_journal d" "db_attempts (delete_queue_claims P d) = db_attempts d"
  "db_queue_items (delete_queue_claims P d) = db_queue_items d" "db_waits (delete_queue_claims P d) = db_waits d"
  "db_deferred (delete_queue_claims P d) = db_deferred d" "db_effects (delete_queue_claims P d) = db_effects d"
  by (simp_all add: delete_queue_claims_def Let_def)

text \<open>The tables that queue events never touch.\<close>

definition apart_from_queue :: "db \<Rightarrow> stored_entry list \<times> attempt_row list \<times> wait_row list \<times> deferred_row list \<times> effect_row list" where
  "apart_from_queue d = (db_journal d, db_attempts d, db_waits d, db_deferred d, db_effects d)"

lemma index_queue_item_frame:
  assumes "index_queue_item E ev d = Ok d'"
  shows "apart_from_queue d' = apart_from_queue d"
proof -
  have up: "upsert_queue_item j r d1 = Ok d2 \<Longrightarrow> apart_from_queue d2 = apart_from_queue d1" for j r d1 d2
    by (auto simp: upsert_queue_item_def Let_def apart_from_queue_def split: option.splits if_splits)
  from assms show ?thesis
    by (auto simp: index_queue_item_def result_simps Let_def delete_queue_items_Ok apart_from_queue_def [of d]
        apart_from_queue_def [of "d\<lparr>db_queue_items := x, db_queue_claims := y, db_locks := z\<rparr>" for x y z]
        apart_from_queue_def [of "delete_queue_claims P d\<lparr>db_queue_items := x\<rparr>" for P x] split: if_splits dest!: up)
qed

lemma index_pending_queue_item_frame:
  "index_pending_queue_item ev d = Ok d' \<Longrightarrow> apart_from_queue d' = apart_from_queue d"
  by (auto simp: index_pending_queue_item_def insert_pending_item_def apart_from_queue_def split: option.splits if_splits)

lemma index_cancel_requested_frame:
  "index_queue_item_cancel_requested ev d = Ok d' \<Longrightarrow> apart_from_queue d' = apart_from_queue d"
  by (auto simp: index_queue_item_cancel_requested_def result_simps Let_def apart_from_queue_def split: if_splits)

end
