(* ===== verification/Attempt_Projection.thy ===== *)
theory Attempt_Projection
  imports Queue_Projection
begin

text \<open>
  The projection part of \<open>crates/zeta-dispatch/src/sqlite/attempts.rs\<close>: how attempt events change the
  \<open>attempts\<close> table and the attempt counts, and how attempts are read.
\<close>

section \<open>Indexing\<close>

definition lifecycle_attempt_status :: "event \<Rightarrow> (dispatch_error, attempt_status) result" where
  "lifecycle_attempt_status ev =
     (let last = type_suffix (ev_event_type ev) in
     and_then (if last = ''started'' then Ok ARunning
         else map_err (\<lambda>_. invalid_lifecycle ev ''event_type'') (attempt_status_from_str last)) (\<lambda>expected.
     and_then (case map_get (ev_payload ev) ''status'' of
         Some (JString status) \<Rightarrow> map_err (\<lambda>_. invalid_lifecycle ev ''status'') (attempt_status_from_str status)
       | Some _ \<Rightarrow> Err (invalid_lifecycle ev ''status'')
       | None \<Rightarrow> Ok expected) (\<lambda>actual.
     if actual \<noteq> expected then Err (invalid_lifecycle ev ''status'') else Ok actual)))"

definition required_positive_u32 :: "env \<Rightarrow> event \<Rightarrow> string \<Rightarrow> (dispatch_error, nat) result" where
  "required_positive_u32 E ev field = (case map_get (ev_payload ev) field of
     Some (JNumber number) \<Rightarrow>
       (case num_as_u64 E number of
          None \<Rightarrow> Err (invalid_lifecycle ev field)
        | Some v \<Rightarrow> if v = 0 \<or> 2 ^ 32 - 1 < v then Err (invalid_lifecycle ev field) else Ok v)
   | _ \<Rightarrow> Err (invalid_lifecycle ev field))"

record attempt_fields =
  af_attempt_id :: string
  af_queue_item_id :: string
  af_event_id :: string
  af_number :: nat
  af_target_agent :: string
  af_status :: attempt_status
  af_started_at :: "string option"
  af_session_id :: "string option"
  af_run_id :: "string option"
  af_project_revision :: "string option"

definition attempt_fields_of_event :: "env \<Rightarrow> event \<Rightarrow> (dispatch_error, attempt_fields) result" where
  "attempt_fields_of_event E ev =
     and_then (required_runtime_id ev ''attempt_id'') (\<lambda>attempt.
     and_then (required_runtime_id ev ''queue_item_id'') (\<lambda>item.
     and_then (required_runtime_id ev ''event_id'') (\<lambda>input_event_id.
     and_then (required_positive_u32 E ev ''attempt_number'') (\<lambda>attempt_number.
     and_then (required_runtime_id ev ''target_agent'') (\<lambda>target_agent.
     and_then (lifecycle_attempt_status ev) (\<lambda>status.
     and_then (optional_payload_string ev ''started_at'') (\<lambda>started_at.
     and_then (optional_payload_string ev ''session_id'') (\<lambda>payload_session.
       let session_id = coalesce payload_session (ev_session_id ev) in
     and_then (validate_optional_runtime_id ev ''session_id'' session_id) (\<lambda>_.
     and_then (optional_payload_string ev ''run_id'') (\<lambda>payload_run.
       let run_id = coalesce payload_run (ev_run_id ev) in
     and_then (validate_optional_runtime_id ev ''run_id'' run_id) (\<lambda>_.
     and_then (optional_payload_string ev ''project_revision'') (\<lambda>project_revision.
     and_then (validate_optional_runtime_id ev ''project_revision'' project_revision) (\<lambda>_.
       Ok \<lparr>af_attempt_id = attempt, af_queue_item_id = item, af_event_id = input_event_id,
           af_number = attempt_number, af_target_agent = target_agent, af_status = status,
           af_started_at = started_at, af_session_id = session_id, af_run_id = run_id,
           af_project_revision = project_revision\<rparr>)))))))))))))"

text \<open>A supplied value that differs from the stored one.\<close>

definition differs :: "string option \<Rightarrow> string option \<Rightarrow> bool" where
  "differs supplied stored \<longleftrightarrow> supplied \<noteq> None \<and> supplied \<noteq> stored"

definition attempt_transition ::
  "event \<Rightarrow> attempt_fields \<Rightarrow> db
     \<Rightarrow> (dispatch_error, attempt_status option \<times> string \<times> string option \<times> string option \<times> string option) result" where
  "attempt_transition ev f d =
     (case find (\<lambda>a. at_id a = af_attempt_id f) (db_attempts d) of
        Some previous \<Rightarrow>
          if at_queue_item_id previous \<noteq> af_queue_item_id f \<or> at_event_id previous \<noteq> af_event_id f
             \<or> at_number previous \<noteq> int (af_number f) \<or> at_target_agent previous \<noteq> af_target_agent f
          then Err (invalid_lifecycle ev ''attempt_identity'')
          else if differs (af_started_at f) (Some (at_started_at previous))
             \<or> differs (af_session_id f) (at_session_id previous) \<or> differs (af_run_id f) (at_run_id previous)
             \<or> differs (af_project_revision f) (at_project_revision previous)
          then Err (invalid_lifecycle ev ''attempt_identity'')
          else and_then (map_err (\<lambda>_. CorruptProjection ''attempts'' ''status'') (attempt_status_from_str (at_status previous)))
            (\<lambda>previous_status. Ok (Some previous_status, at_started_at previous, at_session_id previous,
               at_run_id previous, at_project_revision previous))
      | None \<Rightarrow>
          (case af_started_at f of
             None \<Rightarrow> Err (invalid_lifecycle ev ''started_at'')
           | Some started_at \<Rightarrow> Ok (None, started_at, af_session_id f, af_run_id f, af_project_revision f)))"

definition attempt_fits :: "db \<Rightarrow> attempt_row list \<Rightarrow> attempt_row \<Rightarrow> bool" where
  "attempt_fits d others a \<longleftrightarrow>
     sql_nonempty (at_id a) \<and> sql_nonempty (at_queue_item_id a) \<and> sql_nonempty (at_event_id a) \<and> 0 < at_number a
     \<and> sql_nonempty (at_target_agent a) \<and> sql_nonempty (at_started_at a)
     \<and> list_all (\<lambda>x. (at_queue_item_id x, at_number x) \<noteq> (at_queue_item_id a, at_number a)) others
     \<and> list_ex (\<lambda>r. qi_id r = at_queue_item_id a) (db_queue_items d) \<and> journal_has d (at_event_id a)"

definition merge_attempt :: "attempt_row \<Rightarrow> attempt_row \<Rightarrow> attempt_row" where
  "merge_attempt new old = old\<lparr>
     at_claim_token := (if at_status new = ''running'' then coalesce (at_claim_token old) (at_claim_token new) else None),
     at_status := at_status new,
     at_heartbeat_at := (if at_status new = ''running'' then at_heartbeat_at new else None),
     at_finished_at := at_finished_at new,
     at_error := at_error new,
     at_session_id := at_session_id new,
     at_run_id := at_run_id new,
     at_project_revision := coalesce (at_project_revision new) (at_project_revision old)\<rparr>"

definition upsert_attempt :: "attempt_row \<Rightarrow> db \<Rightarrow> (dispatch_error, db) result" where
  "upsert_attempt new d =
     (let same = (\<lambda>a. at_id a = at_id new); others = filter (\<lambda>a. \<not> same a) (db_attempts d) in
      case find same (db_attempts d) of
        None \<Rightarrow>
          if attempt_fits d others new then Ok (d\<lparr>db_attempts := db_attempts d @ [new]\<rparr>)
          else Err (Database ''project attempt lifecycle'')
      | Some old \<Rightarrow>
          if attempt_fits d others (merge_attempt new old)
          then Ok (d\<lparr>db_attempts := sql_update same (merge_attempt new) (db_attempts d)\<rparr>)
          else Err (Database ''project attempt lifecycle''))"

definition resolve_attempt_claim :: "attempt_status \<Rightarrow> string \<Rightarrow> string option \<Rightarrow> db \<Rightarrow> string option" where
  "resolve_attempt_claim status item worker_name d =
     (if status = ARunning then
        (case worker_name of
           Some worker \<Rightarrow> map_option qc_claim_token
             (find (\<lambda>c. qc_queue_item_id c = item \<and> qc_worker_name c = worker) (db_queue_claims d))
         | None \<Rightarrow> None)
      else None)"

definition index_attempt :: "env \<Rightarrow> event \<Rightarrow> db \<Rightarrow> (dispatch_error, db) result" where
  "index_attempt E ev d =
     and_then (attempt_fields_of_event E ev) (\<lambda>f.
     and_then (attempt_transition ev f d) (\<lambda>(previous_status, started_at, session_id, run_id, project_revision).
     and_then (map_err Transition (attempt_validate_transition previous_status (af_status f))) (\<lambda>_.
     and_then (optional_payload_string ev ''worker_name'') (\<lambda>worker_name.
     and_then (optional_payload_string ev ''finished_at'') (\<lambda>finished_at.
     and_then (optional_payload_string ev ''error'') (\<lambda>error.
     and_then (upsert_attempt
         \<lparr>at_id = af_attempt_id f, at_queue_item_id = af_queue_item_id f, at_event_id = af_event_id f,
          at_number = int (af_number f), at_target_agent = af_target_agent f, at_worker_name = worker_name,
          at_claim_token = resolve_attempt_claim (af_status f) (af_queue_item_id f) worker_name d,
          at_status = attempt_status_display (af_status f), at_started_at = started_at,
          at_heartbeat_at = Some (ev_timestamp_ms ev), at_finished_at = finished_at, at_error = error,
          at_session_id = session_id, at_run_id = run_id, at_project_revision = project_revision\<rparr> d) (\<lambda>d.
       Ok (if af_status f = ARunning
           then d\<lparr>db_queue_items := sql_update (\<lambda>r. qi_id r = af_queue_item_id f)
              (\<lambda>r. r\<lparr>qi_attempt_count := max (qi_attempt_count r) (int (af_number f))\<rparr>) (db_queue_items d)\<rparr>
           else d))))))))"

section \<open>Reading\<close>

record attempt =
  a_id :: attempt_id
  a_queue_item_id :: queue_item_id
  a_event_id :: string
  a_attempt_number :: nat
  a_target_agent :: string
  a_worker_name :: "string option"
  a_status :: attempt_status
  a_started_at :: string
  a_finished_at :: "string option"
  a_error :: "string option"
  a_session_id :: "session_id option"
  a_run_id :: "run_id option"
  a_project_revision :: "string option"

definition parse_optional_id :: "dispatch_error \<Rightarrow> string option \<Rightarrow> (dispatch_error, string option) result" where
  "parse_optional_id e v = (case v of
     Some s \<Rightarrow> and_then (map_err (\<lambda>_. e) (parse_runtime_id [] s)) (\<lambda>s. Ok (Some s))
   | None \<Rightarrow> Ok None)"

definition attempt_into_model :: "attempt_row \<Rightarrow> (dispatch_error, attempt) result" where
  "attempt_into_model a =
     and_then (map_err (\<lambda>_. corrupt_projection ''attempts'' ''attempt_id'') (parse_runtime_id ''attempt'' (at_id a))) (\<lambda>i.
     and_then (map_err (\<lambda>_. corrupt_projection ''attempts'' ''queue_item_id'') (parse_runtime_id ''queue item'' (at_queue_item_id a))) (\<lambda>item.
     and_then (nonnegative_u32_projection (at_number a) ''attempts'' ''attempt_number'') (\<lambda>attempt_number.
     if attempt_number = 0 then Err (corrupt_projection ''attempts'' ''attempt_number'')
     else
     and_then (map_err (\<lambda>_. corrupt_projection ''attempts'' ''status'') (attempt_status_from_str (at_status a))) (\<lambda>status.
     and_then (parse_optional_id (corrupt_projection ''attempts'' ''session_id'') (at_session_id a)) (\<lambda>session_id.
     and_then (parse_optional_id (corrupt_projection ''attempts'' ''run_id'') (at_run_id a)) (\<lambda>run_id.
       Ok \<lparr>a_id = i, a_queue_item_id = item, a_event_id = at_event_id a, a_attempt_number = attempt_number,
           a_target_agent = at_target_agent a, a_worker_name = at_worker_name a, a_status = status,
           a_started_at = at_started_at a, a_finished_at = at_finished_at a, a_error = at_error a,
           a_session_id = session_id, a_run_id = run_id, a_project_revision = at_project_revision a\<rparr>))))))"

text \<open>The input cursor of an attempt's item; the join drops attempts without one.\<close>

definition attempt_cursor :: "db \<Rightarrow> attempt_row \<Rightarrow> int option" where
  "attempt_cursor d a = map_option qi_input_cursor (find (\<lambda>r. qi_id r = at_queue_item_id a) (db_queue_items d))"

definition load_attempts :: "db \<Rightarrow> (dispatch_error, attempt list) result" where
  "load_attempts d = try_collect attempt_into_model
     (sort_key (\<lambda>a. (the (attempt_cursor d a), at_number a, at_id a))
       (filter (\<lambda>a. attempt_cursor d a \<noteq> None) (db_attempts d)))"

definition newest_attempt :: "attempt_row list \<Rightarrow> (dispatch_error, attempt option) result" where
  "newest_attempt rows = (case rev (sort_key at_number rows) of
     [] \<Rightarrow> Ok None
   | a # _ \<Rightarrow> and_then (attempt_into_model a) (\<lambda>m. Ok (Some m)))"

definition load_running_attempt_for_claim :: "queue_claim \<Rightarrow> db \<Rightarrow> (dispatch_error, attempt option) result" where
  "load_running_attempt_for_claim claim d = newest_attempt (filter (\<lambda>a.
     at_queue_item_id a = cl_queue_item_id claim \<and> at_worker_name a = Some (cl_worker_name claim)
     \<and> at_claim_token a = Some (cl_token claim) \<and> at_status a = ''running'') (db_attempts d))"

definition load_latest_running_attempt :: "queue_item_id \<Rightarrow> db \<Rightarrow> (dispatch_error, attempt option) result" where
  "load_latest_running_attempt item d = newest_attempt (filter (\<lambda>a.
     at_queue_item_id a = item \<and> at_status a = ''running'') (db_attempts d))"

section \<open>What indexing leaves alone\<close>

definition apart_from_attempts :: "db \<Rightarrow> stored_entry list \<times> queue_claim_row list \<times> lock_row list \<times> wait_row list
    \<times> deferred_row list \<times> effect_row list" where
  "apart_from_attempts d = (db_journal d, db_queue_claims d, db_locks d, db_waits d, db_deferred d, db_effects d)"

lemma index_attempt_frame: "index_attempt E ev d = Ok d' \<Longrightarrow> apart_from_attempts d' = apart_from_attempts d"
proof -
  have up: "upsert_attempt a d1 = Ok d2 \<Longrightarrow> \<exists>as. d2 = d1\<lparr>db_attempts := as\<rparr>" for a d1 d2
    by (auto simp: upsert_attempt_def Let_def split: option.splits if_splits)
  show "index_attempt E ev d = Ok d' \<Longrightarrow> apart_from_attempts d' = apart_from_attempts d"
    by (auto simp: index_attempt_def result_simps apart_from_attempts_def dest!: up)
qed

end
