(* ===== verification/Resource_Projection.thy ===== *)
theory Resource_Projection
  imports Attempt_Projection
begin

text \<open>
  The projection part of \<open>crates/zeta-dispatch/src/sqlite/resources.rs\<close>: how wait and deferred-publication events
  change their tables, and how the rows are read.  The \<open>time\<close> crate is a parameter: RFC 3339 parsing gives the
  nanoseconds since 1970, and the calendar fields of such a number are what the crate says they are.
\<close>

section \<open>Time\<close>

record time_fields =
  tf_year :: int
  tf_month :: nat
  tf_day :: nat
  tf_hour :: nat
  tf_minute :: nat
  tf_second :: nat
  tf_nanosecond :: nat

record time_lib =
  rfc3339_parse :: "string \<Rightarrow> int option"
  from_unix_nanos :: "int \<Rightarrow> time_fields option"

definition lifecycle_timestamp_ms :: "time_lib \<Rightarrow> event \<Rightarrow> string \<Rightarrow> string \<Rightarrow> (dispatch_error, int) result" where
  "lifecycle_timestamp_ms T ev field v =
     and_then (ok_or (invalid_lifecycle ev field) (rfc3339_parse T v)) (\<lambda>nanos.
       let ms = nanos div 1000000 in
       if - (2 ^ 63) \<le> ms \<and> ms < 2 ^ 63 then Ok ms else Err (invalid_lifecycle ev field))"

definition required_nonnegative_u64 :: "env \<Rightarrow> event \<Rightarrow> string \<Rightarrow> (dispatch_error, nat) result" where
  "required_nonnegative_u64 E ev field = (case map_get (ev_payload ev) field of
     Some (JNumber number) \<Rightarrow> ok_or (invalid_lifecycle ev field) (num_as_u64 E number)
   | _ \<Rightarrow> Err (invalid_lifecycle ev field))"

section \<open>Waits\<close>

datatype wait_status = WaitActive | WaitMatched | WaitTimedOut | WaitCancelled

fun wait_status_str :: "wait_status \<Rightarrow> string" where
  "wait_status_str WaitActive = ''active''"
| "wait_status_str WaitMatched = ''matched''"
| "wait_status_str WaitTimedOut = ''timed_out''"
| "wait_status_str WaitCancelled = ''cancelled''"

definition wait_row_fits :: "db \<Rightarrow> wait_row \<Rightarrow> bool" where
  "wait_row_fits d w \<longleftrightarrow>
     sql_nonempty (wt_handle w) \<and> sql_nonempty (wt_agent_id w) \<and> sql_nonempty (wt_session_id w)
     \<and> sql_nonempty (wt_event_type w) \<and> sql_nonempty (wt_source_queue_item_id w) \<and> sql_nonempty (wt_created_event_id w)
     \<and> list_all (\<lambda>x. wt_handle x \<noteq> wt_handle w \<and> wt_created_event_id x \<noteq> wt_created_event_id w
          \<and> \<not> (wt_session_id x = wt_session_id w \<and> wt_status x = ''active'')) (db_waits d)
     \<and> journal_has d (wt_created_event_id w)"

definition insert_wait :: "wait_row \<Rightarrow> db \<Rightarrow> (dispatch_error, db) result" where
  "insert_wait w d =
     and_then (sql_insert ''project wait creation'' (wait_row_fits d w) w (db_waits d)) (\<lambda>rows.
       Ok (d\<lparr>db_waits := rows\<rparr>))"

definition index_wait_created :: "env \<Rightarrow> time_lib \<Rightarrow> event \<Rightarrow> db \<Rightarrow> (dispatch_error, db) result" where
  "index_wait_created E T ev d =
     and_then (required_runtime_id ev ''handle'') (\<lambda>handle.
     and_then (required_runtime_id ev ''agent_id'') (\<lambda>agent_id.
     and_then (required_runtime_id ev ''session_id'') (\<lambda>session_id.
     if ev_session_id ev \<noteq> Some session_id then Err (invalid_lifecycle ev ''session_id'')
     else
     and_then (required_runtime_id ev ''event_type'') (\<lambda>event_type.
     if prefix ''runtime.'' event_type then Err (invalid_lifecycle ev ''event_type'')
     else
     and_then (required_payload_object ev ''fields'') (\<lambda>fields.
     and_then (optional_payload_string ev ''deadline'') (\<lambda>deadline.
     and_then (case deadline of
         Some t \<Rightarrow> and_then (lifecycle_timestamp_ms T ev ''deadline'' t) (\<lambda>ms. Ok (Some ms))
       | None \<Rightarrow> Ok None) (\<lambda>deadline_ms.
     and_then (required_runtime_id ev ''source_queue_item_id'') (\<lambda>source_queue_item_id.
     and_then (optional_payload_string ev ''project_revision'') (\<lambda>project_revision.
     and_then (validate_optional_runtime_id ev ''project_revision'' project_revision) (\<lambda>_.
       insert_wait
         \<lparr>wt_handle = handle, wt_agent_id = agent_id, wt_session_id = session_id, wt_event_type = event_type,
          wt_fields_json = json_text E (JObject fields), wt_deadline_ms = deadline_ms,
          wt_source_queue_item_id = source_queue_item_id, wt_project_revision = project_revision,
          wt_created_event_id = ev_id ev, wt_status = ''active'', wt_matched_event_id = None,
          wt_terminal_event_id = None, wt_updated_at = ev_timestamp_ms ev\<rparr> d))))))))))"

definition close_wait :: "event \<Rightarrow> string \<Rightarrow> wait_status \<Rightarrow> string option \<Rightarrow> db \<Rightarrow> (dispatch_error, db) result" where
  "close_wait ev handle status matched_event_id d =
     (let named = (\<lambda>w. wt_handle w = handle \<and> wt_status w = ''active'') in
      if sql_count named (db_waits d) \<noteq> 0
         \<and> \<not> (journal_has d (ev_id ev) \<and> (case matched_event_id of Some m \<Rightarrow> journal_has d m | None \<Rightarrow> True))
      then Err (Database ''project wait terminal'')
      else if sql_count named (db_waits d) \<noteq> 1 then Err (invalid_lifecycle ev ''handle'')
      else Ok (d\<lparr>db_waits := sql_update named (\<lambda>w. w\<lparr>wt_status := wait_status_str status,
        wt_matched_event_id := matched_event_id, wt_terminal_event_id := Some (ev_id ev),
        wt_updated_at := ev_timestamp_ms ev\<rparr>) (db_waits d)\<rparr>))"

definition index_wait_terminal :: "event \<Rightarrow> wait_status \<Rightarrow> db \<Rightarrow> (dispatch_error, db) result" where
  "index_wait_terminal ev status d =
     and_then (required_runtime_id ev ''handle'') (\<lambda>handle.
     and_then (if status = WaitMatched then and_then (required_runtime_id ev ''matched_event_id'') (\<lambda>m. Ok (Some m)) else Ok None)
       (\<lambda>matched_event_id.
     if matched_event_id \<noteq> None \<and> ev_caused_by ev \<noteq> matched_event_id then Err (invalid_lifecycle ev ''matched_event_id'')
     else close_wait ev handle status matched_event_id d))"

definition index_wait :: "env \<Rightarrow> time_lib \<Rightarrow> event \<Rightarrow> db \<Rightarrow> (dispatch_error, db) result" where
  "index_wait E T ev d =
     (if ev_event_type ev = ''runtime.wait.created'' then index_wait_created E T ev d
      else if ev_event_type ev = ''runtime.wait.matched'' then index_wait_terminal ev WaitMatched d
      else if ev_event_type ev = ''runtime.wait.timed_out'' then index_wait_terminal ev WaitTimedOut d
      else if ev_event_type ev = ''runtime.wait.cancelled'' then index_wait_terminal ev WaitCancelled d
      else Err (invalid_lifecycle ev ''event_type''))"

section \<open>Deferred publications\<close>

datatype deferred_publication_status = PublicationPending | PublicationClaimed | PublicationPublished | PublicationCancelled

fun deferred_publication_status_str :: "deferred_publication_status \<Rightarrow> string" where
  "deferred_publication_status_str PublicationPending = ''pending''"
| "deferred_publication_status_str PublicationClaimed = ''claimed''"
| "deferred_publication_status_str PublicationPublished = ''published''"
| "deferred_publication_status_str PublicationCancelled = ''cancelled''"

definition deferred_row_fits :: "db \<Rightarrow> deferred_row \<Rightarrow> bool" where
  "deferred_row_fits d p \<longleftrightarrow>
     sql_nonempty (dp_handle p) \<and> sql_nonempty (dp_event_type p) \<and> sql_nonempty (dp_source_agent_id p)
     \<and> sql_nonempty (dp_source_queue_item_id p) \<and> 0 \<le> dp_position p \<and> sql_nonempty (dp_created_event_id p)
     \<and> list_all (\<lambda>x. dp_handle x \<noteq> dp_handle p \<and> dp_created_event_id x \<noteq> dp_created_event_id p) (db_deferred d)
     \<and> journal_has d (dp_created_event_id p)"

definition insert_deferred :: "deferred_row \<Rightarrow> db \<Rightarrow> (dispatch_error, db) result" where
  "insert_deferred p d =
     and_then (sql_insert ''project deferred publication creation'' (deferred_row_fits d p) p (db_deferred d)) (\<lambda>rows.
       Ok (d\<lparr>db_deferred := rows\<rparr>))"

definition index_deferred_publication_created :: "env \<Rightarrow> time_lib \<Rightarrow> event \<Rightarrow> db \<Rightarrow> (dispatch_error, db) result" where
  "index_deferred_publication_created E T ev d =
     and_then (required_runtime_id ev ''handle'') (\<lambda>handle.
     and_then (required_runtime_id ev ''event_type'') (\<lambda>event_type.
     if prefix ''runtime.'' event_type then Err (invalid_lifecycle ev ''event_type'')
     else
     and_then (required_payload_object ev ''payload'') (\<lambda>payload.
     and_then (required_runtime_id ev ''publish_at'') (\<lambda>publish_at.
     and_then (lifecycle_timestamp_ms T ev ''publish_at'' publish_at) (\<lambda>publish_at_ms.
     and_then (required_runtime_id ev ''source_agent_id'') (\<lambda>source_agent_id.
     and_then (required_runtime_id ev ''source_queue_item_id'') (\<lambda>source_queue_item_id.
     and_then (required_nonnegative_u64 E ev ''position'') (\<lambda>position.
     if 2 ^ 63 \<le> position then Err (invalid_lifecycle ev ''position'')
     else
     and_then (optional_payload_string ev ''source_session_id'') (\<lambda>source_session_id.
     if source_session_id \<noteq> ev_session_id ev then Err (invalid_lifecycle ev ''source_session_id'')
     else if source_session_id = Some [] then Err (invalid_lifecycle ev ''source_session_id'')
     else if ev_run_id ev = Some [] then Err (invalid_lifecycle ev ''source_run_id'')
     else insert_deferred
       \<lparr>dp_handle = handle, dp_event_type = event_type, dp_payload_json = json_text E (JObject payload),
        dp_publish_at_ms = publish_at_ms, dp_source_agent_id = source_agent_id, dp_source_session_id = source_session_id,
        dp_source_run_id = ev_run_id ev, dp_source_queue_item_id = source_queue_item_id, dp_position = int position,
        dp_created_event_id = ev_id ev, dp_status = ''pending'', dp_published_event_id = None,
        dp_terminal_event_id = None, dp_updated_at = ev_timestamp_ms ev\<rparr> d)))))))))"

definition close_deferred ::
  "event \<Rightarrow> string \<Rightarrow> deferred_publication_status \<Rightarrow> string option \<Rightarrow> db \<Rightarrow> (dispatch_error, db) result" where
  "close_deferred ev handle status published_event_id d =
     (let named = (\<lambda>p. dp_handle p = handle \<and> dp_status p \<in> {''pending'', ''claimed''}) in
      if sql_count named (db_deferred d) \<noteq> 0
         \<and> \<not> (journal_has d (ev_id ev) \<and> (case published_event_id of Some m \<Rightarrow> journal_has d m | None \<Rightarrow> True))
      then Err (Database ''project deferred publication terminal'')
      else if sql_count named (db_deferred d) \<noteq> 1 then Err (invalid_lifecycle ev ''handle'')
      else Ok (d\<lparr>db_deferred := sql_update named (\<lambda>p. p\<lparr>dp_status := deferred_publication_status_str status,
        dp_published_event_id := published_event_id, dp_terminal_event_id := Some (ev_id ev),
        dp_updated_at := ev_timestamp_ms ev\<rparr>) (db_deferred d)\<rparr>))"

definition index_deferred_publication_terminal ::
  "event \<Rightarrow> deferred_publication_status \<Rightarrow> db \<Rightarrow> (dispatch_error, db) result" where
  "index_deferred_publication_terminal ev status d =
     and_then (required_runtime_id ev ''handle'') (\<lambda>handle.
     and_then (if status = PublicationPublished then and_then (required_runtime_id ev ''published_event_id'') (\<lambda>m. Ok (Some m)) else Ok None)
       (\<lambda>published_event_id.
     if published_event_id \<noteq> None \<and> ev_caused_by ev \<noteq> published_event_id then Err (invalid_lifecycle ev ''published_event_id'')
     else close_deferred ev handle status published_event_id d))"

definition index_deferred_publication :: "env \<Rightarrow> time_lib \<Rightarrow> event \<Rightarrow> db \<Rightarrow> (dispatch_error, db) result" where
  "index_deferred_publication E T ev d =
     (if ev_event_type ev = ''runtime.deferred_publication.created'' then index_deferred_publication_created E T ev d
      else if ev_event_type ev = ''runtime.deferred_publication.published''
      then index_deferred_publication_terminal ev PublicationPublished d
      else if ev_event_type ev = ''runtime.deferred_publication.cancelled''
      then index_deferred_publication_terminal ev PublicationCancelled d
      else Err (invalid_lifecycle ev ''event_type''))"

section \<open>Reading\<close>

record wait =
  w_handle :: string
  w_agent_id :: string
  w_session_id :: session_id
  w_event_type :: string
  w_fields :: json_map
  w_deadline_ms :: "int option"
  w_source_queue_item_id :: queue_item_id
  w_project_revision :: "string option"
  w_created_event_id :: string
  w_status :: wait_status
  w_matched_event_id :: "string option"
  w_terminal_event_id :: "string option"
  w_updated_at :: int

definition wait_status_from_str :: "string \<Rightarrow> wait_status option" where
  "wait_status_from_str s =
     (if s = ''active'' then Some WaitActive else if s = ''matched'' then Some WaitMatched
      else if s = ''timed_out'' then Some WaitTimedOut else if s = ''cancelled'' then Some WaitCancelled else None)"

definition parse_object :: "env \<Rightarrow> string \<Rightarrow> json_map option" where
  "parse_object E s = (case json_parse E s of Some (JObject m) \<Rightarrow> Some m | _ \<Rightarrow> None)"

definition wait_into_model :: "env \<Rightarrow> wait_row \<Rightarrow> (dispatch_error, wait) result" where
  "wait_into_model E w =
     and_then (map_err (\<lambda>_. corrupt_projection ''waits'' ''session_id'') (parse_runtime_id ''session'' (wt_session_id w))) (\<lambda>session_id.
     and_then (map_err (\<lambda>_. corrupt_projection ''waits'' ''source_queue_item_id'')
         (parse_runtime_id ''queue item'' (wt_source_queue_item_id w))) (\<lambda>source_queue_item_id.
     and_then (ok_or (corrupt_projection ''waits'' ''fields_json'') (parse_object E (wt_fields_json w))) (\<lambda>fields.
     and_then (ok_or (corrupt_projection ''waits'' ''status'') (wait_status_from_str (wt_status w))) (\<lambda>status.
       Ok \<lparr>w_handle = wt_handle w, w_agent_id = wt_agent_id w, w_session_id = session_id,
           w_event_type = wt_event_type w, w_fields = fields, w_deadline_ms = wt_deadline_ms w,
           w_source_queue_item_id = source_queue_item_id, w_project_revision = wt_project_revision w,
           w_created_event_id = wt_created_event_id w, w_status = status, w_matched_event_id = wt_matched_event_id w,
           w_terminal_event_id = wt_terminal_event_id w, w_updated_at = wt_updated_at w\<rparr>))))"

record deferred_publication =
  p_handle :: string
  p_event_type :: string
  p_payload :: json_map
  p_publish_at_ms :: int
  p_source_agent_id :: string
  p_source_session_id :: "session_id option"
  p_source_run_id :: "run_id option"
  p_source_queue_item_id :: queue_item_id
  p_position :: nat
  p_created_event_id :: string
  p_status :: deferred_publication_status
  p_published_event_id :: "string option"
  p_terminal_event_id :: "string option"
  p_updated_at :: int

definition deferred_publication_status_from_str :: "string \<Rightarrow> deferred_publication_status option" where
  "deferred_publication_status_from_str s =
     (if s = ''pending'' then Some PublicationPending else if s = ''claimed'' then Some PublicationClaimed
      else if s = ''published'' then Some PublicationPublished
      else if s = ''cancelled'' then Some PublicationCancelled else None)"

definition deferred_into_model :: "env \<Rightarrow> deferred_row \<Rightarrow> (dispatch_error, deferred_publication) result" where
  "deferred_into_model E p =
     (let corrupt = corrupt_projection ''deferred_publications'' in
     and_then (ok_or (corrupt ''payload_json'') (parse_object E (dp_payload_json p))) (\<lambda>payload.
     and_then (parse_optional_id (corrupt ''source_session_id'') (dp_source_session_id p)) (\<lambda>source_session_id.
     and_then (parse_optional_id (corrupt ''source_run_id'') (dp_source_run_id p)) (\<lambda>source_run_id.
     and_then (map_err (\<lambda>_. corrupt ''source_queue_item_id'') (parse_runtime_id ''queue item'' (dp_source_queue_item_id p))) (\<lambda>item.
     if dp_position p < 0 then Err (corrupt ''position'')
     else
     and_then (ok_or (corrupt ''status'') (deferred_publication_status_from_str (dp_status p))) (\<lambda>status.
       Ok \<lparr>p_handle = dp_handle p, p_event_type = dp_event_type p, p_payload = payload,
           p_publish_at_ms = dp_publish_at_ms p, p_source_agent_id = dp_source_agent_id p,
           p_source_session_id = source_session_id, p_source_run_id = source_run_id, p_source_queue_item_id = item,
           p_position = nat (dp_position p), p_created_event_id = dp_created_event_id p, p_status = status,
           p_published_event_id = dp_published_event_id p, p_terminal_event_id = dp_terminal_event_id p,
           p_updated_at = dp_updated_at p\<rparr>))))))"

text \<open>The cursor of a row's creating event; the joins drop rows without one.\<close>

definition event_cursor :: "db \<Rightarrow> string \<Rightarrow> int option" where
  "event_cursor d event_id = map_option se_cursor (find (\<lambda>s. se_event_id s = event_id) (db_journal d))"

definition waits_by_creation :: "(wait_row \<Rightarrow> bool) \<Rightarrow> db \<Rightarrow> wait_row list" where
  "waits_by_creation condition d = sort_key (\<lambda>w. (the (event_cursor d (wt_created_event_id w)), wt_handle w))
     (filter (\<lambda>w. condition w \<and> event_cursor d (wt_created_event_id w) \<noteq> None) (db_waits d))"

definition deferred_by_due :: "(deferred_row \<Rightarrow> bool) \<Rightarrow> db \<Rightarrow> deferred_row list" where
  "deferred_by_due condition d =
     sort_key (\<lambda>p. (dp_publish_at_ms p, the (event_cursor d (dp_created_event_id p)), dp_handle p))
       (filter (\<lambda>p. condition p \<and> event_cursor d (dp_created_event_id p) \<noteq> None) (db_deferred d))"

definition read_head :: "('r \<Rightarrow> (dispatch_error, 'm) result) \<Rightarrow> 'r list \<Rightarrow> (dispatch_error, 'm option) result" where
  "read_head into rows = (case rows of [] \<Rightarrow> Ok None | r # _ \<Rightarrow> and_then (into r) (\<lambda>m. Ok (Some m)))"

definition load_wait :: "env \<Rightarrow> string \<Rightarrow> db \<Rightarrow> (dispatch_error, wait option) result" where
  "load_wait E handle d = read_head (wait_into_model E) (filter (\<lambda>w. wt_handle w = handle) (db_waits d))"

definition load_waits :: "env \<Rightarrow> db \<Rightarrow> (dispatch_error, wait list) result" where
  "load_waits E d = try_collect (wait_into_model E) (waits_by_creation (\<lambda>_. True) d)"

definition load_deferred_publication :: "env \<Rightarrow> string \<Rightarrow> db \<Rightarrow> (dispatch_error, deferred_publication option) result" where
  "load_deferred_publication E handle d = read_head (deferred_into_model E) (filter (\<lambda>p. dp_handle p = handle) (db_deferred d))"

definition load_deferred_publications :: "env \<Rightarrow> db \<Rightarrow> (dispatch_error, deferred_publication list) result" where
  "load_deferred_publications E d = try_collect (deferred_into_model E) (deferred_by_due (\<lambda>_. True) d)"

definition active_wait_for_session :: "env \<Rightarrow> session_id \<Rightarrow> db \<Rightarrow> (dispatch_error, wait option) result" where
  "active_wait_for_session E session_id d = read_head (wait_into_model E)
     (filter (\<lambda>w. wt_session_id w = session_id \<and> wt_status w = ''active'') (db_waits d))"

definition matching_waits :: "env \<Rightarrow> event \<Rightarrow> db \<Rightarrow> (dispatch_error, wait list) result" where
  "matching_waits E ev d =
     and_then (try_collect (wait_into_model E)
       (waits_by_creation (\<lambda>w. wt_status w = ''active'' \<and> wt_event_type w = ev_event_type ev) d)) (\<lambda>waits.
       Ok (filter (\<lambda>w. list_all (\<lambda>(key, v). case map_get (ev_payload ev) key of Some x \<Rightarrow> json_same x v | None \<Rightarrow> False)
         (w_fields w)) waits))"

definition next_due_wait :: "env \<Rightarrow> int \<Rightarrow> db \<Rightarrow> (dispatch_error, wait option) result" where
  "next_due_wait E now_ms d = read_head (wait_into_model E)
     (sort_key (\<lambda>w. the (wt_deadline_ms w)) (waits_by_creation (\<lambda>w. wt_status w = ''active''
        \<and> (case wt_deadline_ms w of Some t \<Rightarrow> t \<le> now_ms | None \<Rightarrow> False)) d))"

definition next_due_deferred_publication :: "env \<Rightarrow> int \<Rightarrow> db \<Rightarrow> (dispatch_error, deferred_publication option) result" where
  "next_due_deferred_publication E now_ms d = read_head (deferred_into_model E)
     (deferred_by_due (\<lambda>p. dp_status p = ''pending'' \<and> dp_publish_at_ms p \<le> now_ms) d)"

section \<open>What indexing leaves alone\<close>

lemma index_wait_frame:
  assumes "index_wait E T ev d = Ok d'"
  obtains ws where "d' = d\<lparr>db_waits := ws\<rparr>"
proof -
  have "\<exists>ws. d' = d\<lparr>db_waits := ws\<rparr>" if "close_wait ev handle status m d = Ok d'" for handle status m
    using that by (auto simp: close_wait_def Let_def split: if_splits)
  moreover have "\<exists>ws. d' = d\<lparr>db_waits := ws\<rparr>" if "insert_wait w d = Ok d'" for w
    using that by (auto simp: insert_wait_def result_simps)
  ultimately have "\<exists>ws. d' = d\<lparr>db_waits := ws\<rparr>"
    using assms unfolding index_wait_def index_wait_created_def index_wait_terminal_def
    by (auto simp: result_simps split: if_splits)
  then show thesis using that by blast
qed

lemma index_deferred_frame:
  assumes "index_deferred_publication E T ev d = Ok d'"
  obtains ps where "d' = d\<lparr>db_deferred := ps\<rparr>"
proof -
  have "\<exists>ps. d' = d\<lparr>db_deferred := ps\<rparr>" if "close_deferred ev handle status m d = Ok d'" for handle status m
    using that by (auto simp: close_deferred_def Let_def split: if_splits)
  moreover have "\<exists>ps. d' = d\<lparr>db_deferred := ps\<rparr>" if "insert_deferred w d = Ok d'" for w
    using that by (auto simp: insert_deferred_def result_simps)
  ultimately have "\<exists>ps. d' = d\<lparr>db_deferred := ps\<rparr>"
    using assms unfolding index_deferred_publication_def index_deferred_publication_created_def index_deferred_publication_terminal_def
    by (auto simp: result_simps split: if_splits)
  then show thesis using that by blast
qed

end
