(* ===== verification/Effect_Projection.thy ===== *)
theory Effect_Projection
  imports Resource_Projection
begin

text \<open>
  The projection part of \<open>crates/zeta-dispatch/src/sqlite/effects.rs\<close>: how effect events change the \<open>effects\<close> table
  and how effects are read.  \<open>effect_step\<close> is the life of one effect: it is planned once, crosses the delivery
  barrier, and an effect that is unsafe to retry never crosses it twice.
\<close>

section \<open>Status and semantics\<close>

datatype effect_delivery_semantics = IdempotentWithKey | ConnectorDeduplicated | AtLeastOnce | UnsafeToRetry

datatype effect_status = EffectPlanned | EffectStarted | EffectCompleted | EffectFailed | EffectAmbiguous

definition parse_effect_status :: "string \<Rightarrow> effect_status option" where
  "parse_effect_status s =
     (if s = ''planned'' then Some EffectPlanned else if s = ''started'' then Some EffectStarted
      else if s = ''completed'' then Some EffectCompleted else if s = ''failed'' then Some EffectFailed
      else if s = ''ambiguous'' then Some EffectAmbiguous else None)"

fun effect_status_str :: "effect_status \<Rightarrow> string" where
  "effect_status_str EffectPlanned = ''planned''"
| "effect_status_str EffectStarted = ''started''"
| "effect_status_str EffectCompleted = ''completed''"
| "effect_status_str EffectFailed = ''failed''"
| "effect_status_str EffectAmbiguous = ''ambiguous''"

definition effect_idempotency_key :: "effect_status \<Rightarrow> string \<Rightarrow> nat option \<Rightarrow> string" where
  "effect_idempotency_key status key delivery_attempt =
     (let base = ''runtime.effect.'' @ effect_status_str status @ '':'' @ key
      in case delivery_attempt of Some n \<Rightarrow> base @ '':'' @ show_nat n | None \<Rightarrow> base)"

definition effect_status_is_terminal :: "effect_status \<Rightarrow> bool" where
  "effect_status_is_terminal status \<longleftrightarrow> status \<in> {EffectCompleted, EffectFailed, EffectAmbiguous}"

definition parse_effect_semantics :: "string \<Rightarrow> effect_delivery_semantics option" where
  "parse_effect_semantics s =
     (if s = ''idempotent_with_key'' then Some IdempotentWithKey
      else if s = ''connector_deduplicated'' then Some ConnectorDeduplicated
      else if s = ''at_least_once'' then Some AtLeastOnce
      else if s = ''unsafe_to_retry'' then Some UnsafeToRetry else None)"

fun effect_semantics_str :: "effect_delivery_semantics \<Rightarrow> string" where
  "effect_semantics_str IdempotentWithKey = ''idempotent_with_key''"
| "effect_semantics_str ConnectorDeduplicated = ''connector_deduplicated''"
| "effect_semantics_str AtLeastOnce = ''at_least_once''"
| "effect_semantics_str UnsafeToRetry = ''unsafe_to_retry''"

section \<open>Payload fields\<close>

definition optional_payload_object :: "event \<Rightarrow> string \<Rightarrow> (dispatch_error, json_map option) result" where
  "optional_payload_object ev field = (case map_get (ev_payload ev) field of
     Some (JObject m) \<Rightarrow> Ok (Some m)
   | Some JNull \<Rightarrow> Ok None
   | None \<Rightarrow> Ok None
   | Some _ \<Rightarrow> Err (invalid_lifecycle ev field))"

definition optional_payload_i64 :: "env \<Rightarrow> event \<Rightarrow> string \<Rightarrow> (dispatch_error, int option) result" where
  "optional_payload_i64 E ev field = (case map_get (ev_payload ev) field of
     Some (JNumber v) \<Rightarrow> (case num_as_i64 E v of Some i \<Rightarrow> Ok (Some i) | None \<Rightarrow> Err (invalid_lifecycle ev field))
   | Some JNull \<Rightarrow> Ok None
   | None \<Rightarrow> Ok None
   | Some _ \<Rightarrow> Err (invalid_lifecycle ev field))"

definition optional_payload_u32 :: "env \<Rightarrow> event \<Rightarrow> string \<Rightarrow> (dispatch_error, nat option) result" where
  "optional_payload_u32 E ev field =
     and_then (optional_payload_i64 E ev field) (\<lambda>v.
       case v of
         None \<Rightarrow> Ok None
       | Some i \<Rightarrow>
           if i < 0 \<or> 2 ^ 32 - 1 < i then Err (invalid_lifecycle ev field)
           else if i = 0 then Err (invalid_lifecycle ev field)
           else Ok (Some (nat i)))"

definition lifecycle_effect_status :: "event \<Rightarrow> (dispatch_error, effect_status) result" where
  "lifecycle_effect_status ev =
     (let last = type_suffix (ev_event_type ev) in
      case parse_effect_status last of
        None \<Rightarrow> Err (invalid_lifecycle ev ''status'')
      | Some status \<Rightarrow>
          and_then (required_payload_string ev ''status'' False) (\<lambda>supplied.
            if supplied \<noteq> last then Err (invalid_lifecycle ev ''status'') else Ok status))"

definition validate_effect_result ::
  "event \<Rightarrow> effect_status \<Rightarrow> effect_delivery_semantics \<Rightarrow> json_map option \<Rightarrow> (dispatch_error, unit) result" where
  "validate_effect_result ev status semantics res =
     (if effect_status_is_terminal status \<noteq> (res \<noteq> None) then Err (invalid_lifecycle ev ''result'')
      else if status = EffectAmbiguous \<and> semantics \<noteq> UnsafeToRetry then Err (invalid_lifecycle ev ''semantics'')
      else if status = EffectFailed \<and> semantics = UnsafeToRetry then Err (invalid_lifecycle ev ''status'')
      else Ok ())"

definition validate_effect_transition :: "event \<Rightarrow> effect_status \<Rightarrow> effect_status \<Rightarrow> (dispatch_error, unit) result" where
  "validate_effect_transition ev previous new =
     (if (previous, new) \<in> {(EffectPlanned, EffectStarted), (EffectFailed, EffectStarted), (EffectStarted, EffectCompleted),
            (EffectStarted, EffectFailed), (EffectStarted, EffectAmbiguous)}
      then Ok () else Err (invalid_lifecycle ev ''status''))"

section \<open>Indexing\<close>

record effect_fields =
  ff_status :: effect_status
  ff_key :: string
  ff_operation :: string
  ff_semantics :: effect_delivery_semantics
  ff_scope :: string
  ff_queue_item_id :: "string option"
  ff_params_json :: string
  ff_result :: "json_map option"
  ff_delivery_attempt :: "nat option"
  ff_retry_at :: "int option"
  ff_caused_by :: string

definition effect_fields_of_event :: "env \<Rightarrow> event \<Rightarrow> (dispatch_error, effect_fields) result" where
  "effect_fields_of_event E ev =
     and_then (lifecycle_effect_status ev) (\<lambda>status.
     and_then (required_runtime_id ev ''effect_key'') (\<lambda>key.
     and_then (required_runtime_id ev ''operation'') (\<lambda>operation.
     and_then (required_runtime_id ev ''semantics'') (\<lambda>semantics.
     and_then (ok_or (invalid_lifecycle ev ''semantics'') (parse_effect_semantics semantics)) (\<lambda>semantics.
     and_then (required_runtime_id ev ''scope'') (\<lambda>scope.
     and_then (optional_payload_string ev ''queue_item_id'') (\<lambda>item.
     if item = Some [] then Err (invalid_lifecycle ev ''queue_item_id'')
     else
     and_then (required_payload_object ev ''params'') (\<lambda>params.
     and_then (optional_payload_object ev ''result'') (\<lambda>res.
     and_then (optional_payload_u32 E ev ''delivery_attempt'') (\<lambda>delivery_attempt.
     and_then (optional_payload_i64 E ev ''retry_at'') (\<lambda>retry_at.
     and_then (case ev_caused_by ev of
         Some c \<Rightarrow> if c = [] then Err (invalid_lifecycle ev ''caused_by'') else Ok c
       | None \<Rightarrow> Err (invalid_lifecycle ev ''caused_by'')) (\<lambda>caused_by.
     if ev_idempotency_key ev \<noteq> Some (effect_idempotency_key status key delivery_attempt)
     then Err (invalid_lifecycle ev ''idempotency_key'')
     else
     and_then (validate_effect_result ev status semantics res) (\<lambda>_.
       Ok \<lparr>ff_status = status, ff_key = key, ff_operation = operation, ff_semantics = semantics, ff_scope = scope,
           ff_queue_item_id = item, ff_params_json = json_text E (JObject params), ff_result = res,
           ff_delivery_attempt = delivery_attempt, ff_retry_at = retry_at, ff_caused_by = caused_by\<rparr>)))))))))))))"

definition effect_row_fits :: "db \<Rightarrow> effect_row \<Rightarrow> bool" where
  "effect_row_fits d r \<longleftrightarrow>
     sql_nonempty (ef_key r) \<and> sql_nonempty (ef_operation r) \<and> sql_nonempty (ef_scope r) \<and> sql_nonempty (ef_caused_by r)
     \<and> sql_nonempty (ef_planned_event_id r)
     \<and> list_all (\<lambda>x. ef_key x \<noteq> ef_key r \<and> ef_planned_event_id x \<noteq> ef_planned_event_id r) (db_effects d)
     \<and> journal_has d (ef_planned_event_id r)"

definition index_effect_planned :: "event \<Rightarrow> effect_fields \<Rightarrow> db \<Rightarrow> (dispatch_error, db) result" where
  "index_effect_planned ev f d =
     (if ff_delivery_attempt f \<noteq> None \<or> ff_retry_at f \<noteq> None then Err (invalid_lifecycle ev ''delivery_attempt'')
      else
        let r = \<lparr>ef_key = ff_key f, ef_operation = ff_operation f, ef_semantics = effect_semantics_str (ff_semantics f),
                 ef_scope = ff_scope f, ef_queue_item_id = ff_queue_item_id f, ef_params_json = ff_params_json f,
                 ef_status = ''planned'', ef_result_json = None, ef_caused_by = ff_caused_by f,
                 ef_planned_event_id = ev_id ev, ef_terminal_event_id = None, ef_updated_at = ev_timestamp_ms ev,
                 ef_delivery_attempts = 0, ef_available_at = Some (ev_timestamp_ms ev)\<rparr>
        in and_then (sql_insert ''project effect planning'' (effect_row_fits d r) r (db_effects d)) (\<lambda>rows.
          Ok (d\<lparr>db_effects := rows\<rparr>)))"

definition u32_saturating_inc :: "nat \<Rightarrow> nat" where
  "u32_saturating_inc n = min (n + 1) (2 ^ 32 - 1)"

definition next_delivery_attempts :: "event \<Rightarrow> effect_fields \<Rightarrow> nat \<Rightarrow> (dispatch_error, nat) result" where
  "next_delivery_attempts ev f stored =
     (if ff_status f = EffectStarted then
        (case ff_delivery_attempt f of
           Some n \<Rightarrow> if n \<noteq> u32_saturating_inc stored then Err (invalid_lifecycle ev ''delivery_attempt'') else Ok n
         | None \<Rightarrow> Ok stored)
      else if (case ff_delivery_attempt f of Some n \<Rightarrow> n \<noteq> stored | None \<Rightarrow> False)
      then Err (invalid_lifecycle ev ''delivery_attempt'')
      else Ok stored)"

definition changed_effect :: "env \<Rightarrow> event \<Rightarrow> effect_fields \<Rightarrow> nat \<Rightarrow> effect_row \<Rightarrow> effect_row" where
  "changed_effect E ev f attempts r = r\<lparr>ef_status := effect_status_str (ff_status f),
     ef_result_json := map_option (\<lambda>m. json_text E (JObject m)) (ff_result f),
     ef_terminal_event_id := (if effect_status_is_terminal (ff_status f) then Some (ev_id ev) else None),
     ef_updated_at := ev_timestamp_ms ev, ef_delivery_attempts := int attempts, ef_available_at := ff_retry_at f\<rparr>"

definition index_effect_changed :: "env \<Rightarrow> event \<Rightarrow> effect_fields \<Rightarrow> db \<Rightarrow> (dispatch_error, db) result" where
  "index_effect_changed E ev f d =
     and_then (ok_or (invalid_lifecycle ev ''effect_key'') (find (\<lambda>r. ef_key r = ff_key f) (db_effects d))) (\<lambda>stored.
     if ef_operation stored \<noteq> ff_operation f \<or> ef_semantics stored \<noteq> effect_semantics_str (ff_semantics f)
        \<or> ef_scope stored \<noteq> ff_scope f \<or> ef_queue_item_id stored \<noteq> ff_queue_item_id f
        \<or> ef_params_json stored \<noteq> ff_params_json f \<or> ef_caused_by stored \<noteq> ff_caused_by f
     then Err (invalid_lifecycle ev ''effect_identity'')
     else
     and_then (ok_or (invalid_lifecycle ev ''status'') (parse_effect_status (ef_status stored))) (\<lambda>previous.
     and_then (validate_effect_transition ev previous (ff_status f)) (\<lambda>_.
     if ef_delivery_attempts stored < 0 \<or> 2 ^ 32 - 1 < ef_delivery_attempts stored
     then Err (invalid_lifecycle ev ''delivery_attempt'')
     else
     and_then (next_delivery_attempts ev f (nat (ef_delivery_attempts stored))) (\<lambda>attempts.
     if ff_status f \<noteq> EffectFailed \<and> ff_retry_at f \<noteq> None then Err (invalid_lifecycle ev ''retry_at'')
     else if effect_status_is_terminal (ff_status f) \<and> \<not> journal_has d (ev_id ev)
     then Err (Database ''project effect transition'')
     else Ok (d\<lparr>db_effects := sql_update (\<lambda>r. ef_key r = ff_key f) (changed_effect E ev f attempts) (db_effects d)\<rparr>)))))"

definition index_effect :: "env \<Rightarrow> event \<Rightarrow> db \<Rightarrow> (dispatch_error, db) result" where
  "index_effect E ev d =
     and_then (effect_fields_of_event E ev) (\<lambda>f.
       if ff_status f = EffectPlanned then index_effect_planned ev f d else index_effect_changed E ev f d)"

section \<open>Reading\<close>

record effect =
  e_key :: string
  e_operation :: string
  e_semantics :: effect_delivery_semantics
  e_scope :: string
  e_queue_item_id :: "queue_item_id option"
  e_params :: json_map
  e_status :: effect_status
  e_result :: "json_map option"
  e_planned_event_id :: string
  e_terminal_event_id :: "string option"
  e_updated_at :: int
  e_delivery_attempts :: nat
  e_available_at :: "int option"

definition effect_into_model :: "env \<Rightarrow> effect_row \<Rightarrow> (dispatch_error, effect) result" where
  "effect_into_model E r =
     (let corrupt = corrupt_projection ''effects'' in
     and_then (ok_or (corrupt ''semantics'') (parse_effect_semantics (ef_semantics r))) (\<lambda>semantics.
     and_then (parse_optional_id (corrupt ''queue_item_id'') (ef_queue_item_id r)) (\<lambda>item.
     and_then (ok_or (corrupt ''params_json'') (parse_object E (ef_params_json r))) (\<lambda>params.
     and_then (ok_or (corrupt ''status'') (parse_effect_status (ef_status r))) (\<lambda>status.
     and_then (case ef_result_json r of
         Some j \<Rightarrow> and_then (ok_or (corrupt ''result_json'') (parse_object E j)) (\<lambda>m. Ok (Some m))
       | None \<Rightarrow> Ok None) (\<lambda>res.
     if effect_status_is_terminal status \<noteq> (res \<noteq> None) then Err (corrupt ''result_json'')
     else if ef_delivery_attempts r < 0 \<or> 2 ^ 32 - 1 < ef_delivery_attempts r then Err (corrupt ''delivery_attempts'')
     else Ok \<lparr>e_key = ef_key r, e_operation = ef_operation r, e_semantics = semantics, e_scope = ef_scope r,
        e_queue_item_id = item, e_params = params, e_status = status, e_result = res,
        e_planned_event_id = ef_planned_event_id r, e_terminal_event_id = ef_terminal_event_id r,
        e_updated_at = ef_updated_at r, e_delivery_attempts = nat (ef_delivery_attempts r),
        e_available_at = ef_available_at r\<rparr>))))))"

definition effects_by_planning :: "(effect_row \<Rightarrow> bool) \<Rightarrow> db \<Rightarrow> effect_row list" where
  "effects_by_planning condition d = sort_key (\<lambda>r. (the (event_cursor d (ef_planned_event_id r)), ef_key r))
     (filter (\<lambda>r. condition r \<and> event_cursor d (ef_planned_event_id r) \<noteq> None) (db_effects d))"

definition load_effect :: "env \<Rightarrow> string \<Rightarrow> db \<Rightarrow> (dispatch_error, effect option) result" where
  "load_effect E key d = read_head (effect_into_model E) (filter (\<lambda>r. ef_key r = key) (db_effects d))"

definition load_effects :: "env \<Rightarrow> db \<Rightarrow> (dispatch_error, effect list) result" where
  "load_effects E d = try_collect (effect_into_model E) (effects_by_planning (\<lambda>_. True) d)"

definition blocking_unsafe_effect :: "queue_item_id \<Rightarrow> db \<Rightarrow> string option" where
  "blocking_unsafe_effect item d = map_option ef_key (case effects_by_planning (\<lambda>r. ef_queue_item_id r = Some item
     \<and> ef_semantics r = ''unsafe_to_retry'' \<and> ef_status r \<in> {''started'', ''ambiguous''}) d of
       [] \<Rightarrow> None | r # _ \<Rightarrow> Some r)"

section \<open>What indexing does\<close>

lemma parse_effect_status_iff: "parse_effect_status s = Some status \<longleftrightarrow> s = effect_status_str status"
  by (cases status) (auto simp: parse_effect_status_def)

lemma parse_effect_semantics_iff: "parse_effect_semantics s = Some semantics \<longleftrightarrow> s = effect_semantics_str semantics"
  by (cases semantics) (auto simp: parse_effect_semantics_def)

lemma index_effect_frame:
  assumes "index_effect E ev d = Ok d'"
  obtains es where "d' = d\<lparr>db_effects := es\<rparr>"
proof -
  have "\<exists>es. d' = d\<lparr>db_effects := es\<rparr>"
    using assms unfolding index_effect_def index_effect_planned_def index_effect_changed_def
    by (auto simp: result_simps Let_def split: if_splits)
  then show thesis using that by blast
qed

text \<open>The permitted changes of one effect row.\<close>

inductive effect_step :: "effect_row \<Rightarrow> effect_row \<Rightarrow> bool" where
  start: "ef_status r \<in> {''planned'', ''failed''} \<Longrightarrow> ef_status r' = ''started'' \<Longrightarrow> ef_semantics r' = ef_semantics r \<Longrightarrow>
    ef_delivery_attempts r' \<in> {ef_delivery_attempts r, ef_delivery_attempts r + 1} \<Longrightarrow> effect_step r r'"
| complete: "ef_status r = ''started'' \<Longrightarrow> ef_status r' = ''completed'' \<Longrightarrow> ef_semantics r' = ef_semantics r \<Longrightarrow>
    ef_delivery_attempts r' = ef_delivery_attempts r \<Longrightarrow> effect_step r r'"
| fail: "ef_status r = ''started'' \<Longrightarrow> ef_status r' = ''failed'' \<Longrightarrow> ef_semantics r' = ef_semantics r \<Longrightarrow>
    ef_delivery_attempts r' = ef_delivery_attempts r \<Longrightarrow> ef_semantics r \<noteq> ''unsafe_to_retry'' \<Longrightarrow> effect_step r r'"
| lose: "ef_status r = ''started'' \<Longrightarrow> ef_status r' = ''ambiguous'' \<Longrightarrow> ef_semantics r' = ef_semantics r \<Longrightarrow>
    ef_delivery_attempts r' = ef_delivery_attempts r \<Longrightarrow> ef_semantics r = ''unsafe_to_retry'' \<Longrightarrow> effect_step r r'"

lemma next_delivery_attempts_kept:
  "next_delivery_attempts ev f (nat a) = Ok n \<Longrightarrow> ff_status f \<noteq> EffectStarted \<Longrightarrow> 0 \<le> a \<Longrightarrow> int n = a"
  by (auto simp: next_delivery_attempts_def split: option.splits if_splits)

lemma effect_step_key:
  assumes "validate_effect_transition ev previous (ff_status f) = Ok ()"
    "validate_effect_result ev (ff_status f) (ff_semantics f) (ff_result f) = Ok ()"
    "next_delivery_attempts ev f (nat (ef_delivery_attempts r)) = Ok n" "0 \<le> ef_delivery_attempts r \<and> ef_delivery_attempts r \<le> 2 ^ 32 - 1"
    "ef_status r = effect_status_str previous" "ef_semantics r = effect_semantics_str (ff_semantics f)"
    "ef_status r' = effect_status_str (ff_status f)" "ef_semantics r' = ef_semantics r" "ef_delivery_attempts r' = int n"
  shows "effect_step r r'"
proof (cases "ff_status f = EffectStarted")
  case True
  have "int n \<in> {ef_delivery_attempts r, ef_delivery_attempts r + 1}"
    using assms(3,4) True
    by (auto simp: next_delivery_attempts_def u32_saturating_inc_def min_def split: option.splits if_splits)
  then show ?thesis
    using assms(1,5-9) True
    by (intro effect_step.start) (auto simp: validate_effect_transition_def split: if_splits)
next
  case False
  then have n: "ef_delivery_attempts r' = ef_delivery_attempts r"
    using next_delivery_attempts_kept [OF assms(3)] assms(4,9) by simp
  have "previous = EffectStarted" "ff_status f \<noteq> EffectPlanned"
    using assms(1) False by (auto simp: validate_effect_transition_def split: if_splits)
  with assms(5) have r: "ef_status r = ''started''" by simp
  show ?thesis
  proof (cases "ff_status f")
    case EffectCompleted
    then show ?thesis using r assms(7,8) n by (intro effect_step.complete) simp_all
  next
    case EffectFailed
    then show ?thesis
      using r assms(2,6-8) n by (intro effect_step.fail; cases "ff_semantics f") (auto simp: validate_effect_result_def split: if_splits)
  next
    case EffectAmbiguous
    then show ?thesis
      using r assms(2,6-8) n by (intro effect_step.lose; cases "ff_semantics f") (auto simp: validate_effect_result_def split: if_splits)
  qed (use False \<open>ff_status f \<noteq> EffectPlanned\<close> in simp_all)
qed

lemma effect_fields_valid:
  "effect_fields_of_event E ev = Ok f \<Longrightarrow> validate_effect_result ev (ff_status f) (ff_semantics f) (ff_result f) = Ok ()"
  by (auto simp: effect_fields_of_event_def result_simps split: if_splits)

lemma changed_effect_sel [simp]:
  "ef_key (changed_effect E ev f n r) = ef_key r" "ef_semantics (changed_effect E ev f n r) = ef_semantics r"
  "ef_status (changed_effect E ev f n r) = effect_status_str (ff_status f)"
  "ef_delivery_attempts (changed_effect E ev f n r) = int n"
  by (simp_all add: changed_effect_def)

lemma find_SomeD: "find P xs = Some x \<Longrightarrow> x \<in> set xs \<and> P x"
  by (auto simp: find_Some_iff)

lemma index_effect_changed_Ok:
  assumes "index_effect_changed E ev f d = Ok d'"
    and valid: "validate_effect_result ev (ff_status f) (ff_semantics f) (ff_result f) = Ok ()"
  obtains r n where "r \<in> set (db_effects d)" "ef_key r = ff_key f" "effect_step r (changed_effect E ev f n r)"
    "d' = d\<lparr>db_effects := sql_update (\<lambda>r. ef_key r = ff_key f) (changed_effect E ev f n) (db_effects d)\<rparr>"
proof (cases "find (\<lambda>r. ef_key r = ff_key f) (db_effects d)")
  case (Some r)
  from assms(1) obtain previous n where *: "ef_semantics r = effect_semantics_str (ff_semantics f)"
    "parse_effect_status (ef_status r) = Some previous" "validate_effect_transition ev previous (ff_status f) = Ok ()"
    "0 \<le> ef_delivery_attempts r \<and> ef_delivery_attempts r \<le> 2 ^ 32 - 1"
    "next_delivery_attempts ev f (nat (ef_delivery_attempts r)) = Ok n"
    and d': "d' = d\<lparr>db_effects := sql_update (\<lambda>r. ef_key r = ff_key f) (changed_effect E ev f n) (db_effects d)\<rparr>"
    unfolding index_effect_changed_def Some by (auto simp: result_simps ok_or_def split: if_splits option.splits)
  have "effect_step r (changed_effect E ev f n r)"
    using * valid by (intro effect_step_key [OF *(3) valid *(5,4)]) (simp_all add: parse_effect_status_iff)
  then show thesis using find_SomeD [OF Some] d' that by blast
qed (use assms(1) in \<open>simp add: index_effect_changed_def ok_or_def\<close>)

lemma index_effect_changed_row:
  assumes "index_effect_changed E ev f d = Ok d'"
    and valid: "validate_effect_result ev (ff_status f) (ff_semantics f) (ff_result f) = Ok ()"
  obtains r n where "r \<in> set (db_effects d)" "ef_key r = ff_key f" "ef_semantics r = effect_semantics_str (ff_semantics f)"
    "n < 2 ^ 32" "d' = d\<lparr>db_effects := sql_update (\<lambda>r. ef_key r = ff_key f) (changed_effect E ev f n) (db_effects d)\<rparr>"
proof (cases "find (\<lambda>r. ef_key r = ff_key f) (db_effects d)")
  case (Some r)
  have bound: "n < 2 ^ 32" if "next_delivery_attempts ev f k = Ok n" "k \<le> 2 ^ 32 - 1" for n k
    using that by (auto simp: next_delivery_attempts_def u32_saturating_inc_def split: option.splits if_splits)
  from assms(1) obtain n where *: "ef_semantics r = effect_semantics_str (ff_semantics f)"
    "0 \<le> ef_delivery_attempts r \<and> ef_delivery_attempts r \<le> 2 ^ 32 - 1"
    "next_delivery_attempts ev f (nat (ef_delivery_attempts r)) = Ok n"
    and d': "d' = d\<lparr>db_effects := sql_update (\<lambda>r. ef_key r = ff_key f) (changed_effect E ev f n) (db_effects d)\<rparr>"
    unfolding index_effect_changed_def Some by (auto simp: result_simps ok_or_def split: if_splits option.splits)
  have "n < 2 ^ 32" using * by (intro bound [OF *(3)]) (simp add: nat_le_iff)
  with *(1) d' find_SomeD [OF Some] that show thesis by blast
qed (use assms(1) in \<open>simp add: index_effect_changed_def ok_or_def\<close>)

lemma index_effect_step:
  assumes ix: "index_effect E ev d = Ok d'" and keys: "distinct (map ef_key (db_effects d))"
  shows "distinct (map ef_key (db_effects d'))"
    and "r \<in> set (db_effects d) \<Longrightarrow> \<exists>r' \<in> set (db_effects d'). ef_key r' = ef_key r \<and> effect_step\<^sup>=\<^sup>= r r'"
proof -
  from ix obtain f where f: "effect_fields_of_event E ev = Ok f"
    and d': "(if ff_status f = EffectPlanned then index_effect_planned ev f d else index_effect_changed E ev f d) = Ok d'"
    by (auto simp: index_effect_def result_simps)
  have "distinct (map ef_key (db_effects d')) \<and>
    (r \<in> set (db_effects d) \<longrightarrow> (\<exists>r' \<in> set (db_effects d'). ef_key r' = ef_key r \<and> effect_step\<^sup>=\<^sup>= r r'))" for r
  proof (cases "ff_status f = EffectPlanned")
    case True
    then show ?thesis
      using d' keys by (auto simp: index_effect_planned_def effect_row_fits_def result_simps Let_def list_all_image2 split: if_splits)
  next
    case False
    with d' obtain s n where s: "s \<in> set (db_effects d)" "ef_key s = ff_key f" "effect_step s (changed_effect E ev f n s)"
      and upd: "d' = d\<lparr>db_effects := sql_update (\<lambda>r. ef_key r = ff_key f) (changed_effect E ev f n) (db_effects d)\<rparr>"
      by (auto elim: index_effect_changed_Ok [OF _ effect_fields_valid [OF f]])
    have "map ef_key (db_effects d') = map ef_key (db_effects d)"
      unfolding upd by (simp, rule sql_update_map) simp
    moreover have "\<exists>r' \<in> set (db_effects d'). ef_key r' = ef_key r \<and> effect_step\<^sup>=\<^sup>= r r'" if r: "r \<in> set (db_effects d)"
    proof -
      let ?r = "if ef_key r = ff_key f then changed_effect E ev f n r else r"
      have "ef_key r = ff_key f \<longrightarrow> r = s" using distinct_map_eq [OF keys r s(1)] s(2) by simp
      then have "ef_key ?r = ef_key r \<and> effect_step\<^sup>=\<^sup>= r ?r" using s(3) by auto
      moreover have "?r \<in> set (db_effects d')" unfolding upd using r by (force simp: in_sql_update)
      ultimately show ?thesis by blast
    qed
    ultimately show ?thesis using keys by simp
  qed
  then show "distinct (map ef_key (db_effects d'))"
    "r \<in> set (db_effects d) \<Longrightarrow> \<exists>r' \<in> set (db_effects d'). ef_key r' = ef_key r \<and> effect_step\<^sup>=\<^sup>= r r'"
    by blast+
qed

text \<open>An unsafe effect that crossed the barrier stays on its side of it.\<close>

lemma unsafe_no_restart:
  assumes "effect_step\<^sup>*\<^sup>* r r'" "ef_semantics r = ''unsafe_to_retry''" "ef_status r \<notin> {''planned'', ''failed''}"
  shows "ef_semantics r' = ''unsafe_to_retry'' \<and> ef_status r' \<notin> {''planned'', ''failed''}
      \<and> ef_delivery_attempts r' = ef_delivery_attempts r \<and> (ef_status r' = ''started'' \<longrightarrow> ef_status r = ''started'')"
  using assms by (induction rule: rtranclp_induct) (auto elim: effect_step.cases)

end
