(* ===== verification/Projection.thy ===== *)
theory Projection
  imports Effect_Projection
begin

text \<open>
  \<open>crates/zeta-dispatch/src/sqlite/projection.rs\<close> and the appends of \<open>journal.rs\<close> that index what they insert.

  The projections are a function of the journal as long as nothing but appends touches them: \<open>index_event\<close> never
  changes the journal, it succeeds on a longer journal when it succeeds on a prefix of it, and replaying the stored
  events in order rebuilds the tables.  The database is an interpretation of \<open>durable_log\<close>.
\<close>

section \<open>Indexing an event\<close>

definition is_queueable_event :: "event \<Rightarrow> bool" where
  "is_queueable_event ev \<longleftrightarrow> \<not> list_ex (\<lambda>p. prefix p (ev_event_type ev)) [''runtime.'', ''zeta.'']"

definition index_event :: "env \<Rightarrow> time_lib \<Rightarrow> event \<Rightarrow> db \<Rightarrow> (dispatch_error, db) result" where
  "index_event E T ev d =
     (if prefix ''runtime.effect.'' (ev_event_type ev) then index_effect E ev d
      else if prefix ''runtime.wait.'' (ev_event_type ev) then index_wait E T ev d
      else if prefix ''runtime.deferred_publication.'' (ev_event_type ev) then index_deferred_publication E T ev d
      else if ev_event_type ev = ''runtime.queue_item.cancel_requested'' then index_queue_item_cancel_requested ev d
      else if prefix ''runtime.queue_item.'' (ev_event_type ev) then index_queue_item E ev d
      else if prefix ''runtime.attempt.'' (ev_event_type ev) then index_attempt E ev d
      else if is_queueable_event ev then index_pending_queue_item ev d
      else Ok d)"

section \<open>Appends\<close>

definition append_trusted_event :: "env \<Rightarrow> time_lib \<Rightarrow> event \<Rightarrow> db \<Rightarrow> (dispatch_error, db \<times> append_outcome) result" where
  "append_trusted_event E T ev d =
     and_then (validate_event_identity ev) (\<lambda>_.
     and_then (append_in_transaction E ev d) (\<lambda>(d, outcome).
       if out_inserted outcome then and_then (index_event E T (out_event outcome) d) (\<lambda>d. Ok (d, outcome))
       else Ok (d, outcome)))"

definition ingest_event :: "env \<Rightarrow> time_lib \<Rightarrow> event \<Rightarrow> db \<Rightarrow> (dispatch_error, db \<times> append_outcome) result" where
  "ingest_event E T ev d =
     (if prefix ''runtime.'' (ev_event_type ev) then Err (ReservedRuntimeEvent (ev_event_type ev))
      else append_trusted_event E T ev d)"

definition append_runtime_event :: "env \<Rightarrow> time_lib \<Rightarrow> event \<Rightarrow> db \<Rightarrow> (dispatch_error, db \<times> append_outcome) result" where
  "append_runtime_event E T ev d =
     and_then (validate_event_identity ev) (\<lambda>_.
     and_then (append_lifecycle_candidate E ev d) (\<lambda>(d, outcome).
       if \<not> out_inserted outcome \<and> \<not> same_lifecycle_intention ev (out_event outcome)
       then Err (RuntimeEventIdentityCollision (ev_id ev))
       else if out_inserted outcome then and_then (index_event E T (out_event outcome) d) (\<lambda>d. Ok (d, outcome))
       else Ok (d, outcome)))"

section \<open>Rebuilding\<close>

text \<open>\<open>DROP_PROJECTIONS\<close> and \<open>CREATE_PROJECTIONS\<close>: the journal stays.\<close>

definition drop_projections :: "db \<Rightarrow> db" where
  "drop_projections d = db_empty\<lparr>db_journal := db_journal d\<rparr>"

fun index_all :: "env \<Rightarrow> time_lib \<Rightarrow> journal_entry list \<Rightarrow> db \<Rightarrow> (dispatch_error, db) result" where
  "index_all E T [] d = Ok d"
| "index_all E T (entry # entries) d = and_then (index_event E T (je_event entry) d) (index_all E T entries)"

text \<open>The three updates after the replay: nothing is owned.\<close>

definition recover_ownership :: "db \<Rightarrow> db" where
  "recover_ownership d = d\<lparr>
     db_queue_items := sql_update (\<lambda>r. qi_status r = ''claimed'')
       (\<lambda>r. r\<lparr>qi_status := (if qi_target_agent r = [] then ''pending'' else ''available'')\<rparr>) (db_queue_items d),
     db_attempts := map (\<lambda>a. a\<lparr>at_claim_token := None, at_heartbeat_at := None\<rparr>) (db_attempts d),
     db_deferred := sql_update (\<lambda>p. dp_status p = ''claimed'') (\<lambda>p. p\<lparr>dp_status := ''pending''\<rparr>) (db_deferred d)\<rparr>"

definition rebuild_projections_in_transaction :: "env \<Rightarrow> time_lib \<Rightarrow> db \<Rightarrow> (dispatch_error, db \<times> nat) result" where
  "rebuild_projections_in_transaction E T d =
     and_then (load_entries E False d) (\<lambda>entries.
     and_then (map_err Verification (verify E entries Unanchored)) (\<lambda>_.
     and_then (index_all E T entries (drop_projections d)) (\<lambda>d.
       Ok (recover_ownership d, length entries))))"

section \<open>Indexing and the journal\<close>

lemma index_event_journal: "index_event E T ev d = Ok d' \<Longrightarrow> db_journal d' = db_journal d"
  by (auto simp: index_event_def apart_from_queue_def apart_from_attempts_def split: if_splits
      elim: index_wait_frame index_deferred_frame index_effect_frame
      dest!: index_attempt_frame index_queue_item_frame index_pending_queue_item_frame index_cancel_requested_frame)

lemma index_event_effects:
  "index_event E T ev d = Ok d' \<Longrightarrow> \<not> prefix ''runtime.effect.'' (ev_event_type ev) \<Longrightarrow> db_effects d' = db_effects d"
  by (auto simp: index_event_def apart_from_queue_def apart_from_attempts_def split: if_splits
      elim: index_wait_frame index_deferred_frame
      dest!: index_attempt_frame index_queue_item_frame index_pending_queue_item_frame index_cancel_requested_frame)

text \<open>A longer journal.\<close>

definition grow :: "stored_entry list \<Rightarrow> db \<Rightarrow> db" where
  "grow rows d = d\<lparr>db_journal := db_journal d @ rows\<rparr>"

lemma grow_sel [simp]:
  "db_journal (grow rows d) = db_journal d @ rows" "db_queue_items (grow rows d) = db_queue_items d"
  "db_queue_claims (grow rows d) = db_queue_claims d" "db_attempts (grow rows d) = db_attempts d"
  "db_locks (grow rows d) = db_locks d" "db_waits (grow rows d) = db_waits d" "db_deferred (grow rows d) = db_deferred d"
  "db_effects (grow rows d) = db_effects d" "db_effect_claims (grow rows d) = db_effect_claims d"
  by (simp_all add: grow_def)

lemma grow_upd [simp]:
  "(grow rows d)\<lparr>db_queue_items := qs\<rparr> = grow rows (d\<lparr>db_queue_items := qs\<rparr>)"
  "(grow rows d)\<lparr>db_attempts := as\<rparr> = grow rows (d\<lparr>db_attempts := as\<rparr>)"
  "(grow rows d)\<lparr>db_waits := ws\<rparr> = grow rows (d\<lparr>db_waits := ws\<rparr>)"
  "(grow rows d)\<lparr>db_deferred := ps\<rparr> = grow rows (d\<lparr>db_deferred := ps\<rparr>)"
  "(grow rows d)\<lparr>db_effects := es\<rparr> = grow rows (d\<lparr>db_effects := es\<rparr>)"
  "delete_queue_claims P (grow rows d) = grow rows (delete_queue_claims P d)"
  by (simp_all add: grow_def delete_queue_claims_def Let_def)

lemma journal_has_grow: "journal_has d i \<Longrightarrow> journal_has (grow rows d) i"
  by (simp add: journal_has_def)

lemma find_append: "find P (xs @ ys) = (case find P xs of Some x \<Rightarrow> Some x | None \<Rightarrow> find P ys)"
  by (induction xs) auto

lemma input_event_cursor_grow: "input_event_cursor d i ev = Ok c \<Longrightarrow> input_event_cursor (grow rows d) i ev = Ok c"
  by (auto simp: input_event_cursor_def find_append split: option.splits)

lemma queue_item_fits_grow: "queue_item_fits d rs r \<Longrightarrow> queue_item_fits (grow rows d) rs r"
  by (simp add: queue_item_fits_def journal_has_grow)

lemma upsert_queue_item_grow: "upsert_queue_item j r d = Ok d' \<Longrightarrow> upsert_queue_item j r (grow rows d) = Ok (grow rows d')"
  by (auto simp: upsert_queue_item_def Let_def queue_item_fits_grow split: option.splits if_splits)

lemma delete_queue_items_grow:
  "delete_queue_items operation P d = Ok d' \<Longrightarrow> delete_queue_items operation P (grow rows d) = Ok (grow rows d')"
  by (auto simp: delete_queue_items_def Let_def split: if_splits)

lemma queue_row_grow:
  "queue_row_of_event E ev i e t s d = Ok x \<Longrightarrow> queue_row_of_event E ev i e t s (grow rows d) = Ok x"
  by (auto simp: queue_row_of_event_def result_simps Let_def input_event_cursor_grow)

lemma index_queue_item_grow:
  assumes "index_queue_item E ev d = Ok d'"
  shows "index_queue_item E ev (grow rows d) = Ok (grow rows d')"
proof -
  have status: "previous_queue_status ev i e t (grow rows d) = previous_queue_status ev i e t d" for i e t d
    by (simp add: previous_queue_status_def)
  have ok: "queue_transition_ok i p t x y (grow rows d) = queue_transition_ok i p t x y d" for i p t x y d
    by (simp add: queue_transition_ok_def)
  show ?thesis
    using assms unfolding index_queue_item_def
    by (fastforce simp: result_simps Let_def status ok split: if_splits
        intro: upsert_queue_item_grow queue_row_grow delete_queue_items_grow)
qed

text \<open>The database is used at the end of a chain of readers; the chain itself does not look at it.\<close>

lemma and_then_mono: "and_then r f = Ok y \<Longrightarrow> (\<And>x. f x = Ok y \<Longrightarrow> g x = Ok z) \<Longrightarrow> and_then r g = Ok z"
  by (cases r) auto

lemma and_then_OkE: "and_then r f = Ok y \<Longrightarrow> (\<And>x. r = Ok x \<Longrightarrow> f x = Ok y \<Longrightarrow> P) \<Longrightarrow> P"
  by (cases r) auto

lemma if_mono:
  "(if b then f else g) = Ok y \<Longrightarrow> (f = Ok y \<Longrightarrow> f' = Ok z) \<Longrightarrow> (g = Ok y \<Longrightarrow> g' = Ok z) \<Longrightarrow> (if b then f' else g') = Ok z"
  by (cases b) auto

lemma index_attempt_grow:
  assumes "index_attempt E ev d = Ok d'"
  shows "index_attempt E ev (grow rows d) = Ok (grow rows d')"
proof -
  have fits: "attempt_fits d others a \<Longrightarrow> attempt_fits (grow rows d) others a" for others a
    by (simp add: attempt_fits_def journal_has_grow)
  have up: "upsert_attempt a d = Ok d2 \<Longrightarrow> upsert_attempt a (grow rows d) = Ok (grow rows d2)" for a d2
    by (auto simp: upsert_attempt_def Let_def fits split: option.splits if_splits)
  have same: "attempt_transition ev f (grow rows d) = attempt_transition ev f d"
    "resolve_attempt_claim s i w (grow rows d) = resolve_attempt_claim s i w d" for f s i w
    by (simp_all add: attempt_transition_def resolve_attempt_claim_def split: option.split)
  show ?thesis
    using assms unfolding index_attempt_def
    by (fastforce simp: result_simps Let_def same intro: up split: if_splits)
qed

lemma index_wait_grow:
  assumes "index_wait E T ev d = Ok d'"
  shows "index_wait E T ev (grow rows d) = Ok (grow rows d')"
proof -
  have ins: "insert_wait w d = Ok d' \<Longrightarrow> insert_wait w (grow rows d) = Ok (grow rows d')" for w
    by (auto simp: insert_wait_def wait_row_fits_def result_simps journal_has_grow)
  have close: "close_wait ev h s m d = Ok d' \<Longrightarrow> close_wait ev h s m (grow rows d) = Ok (grow rows d')" for h s m
    by (auto simp: close_wait_def Let_def journal_has_grow split: if_splits option.splits)
  show ?thesis
    using assms unfolding index_wait_def index_wait_created_def index_wait_terminal_def
    by (elim and_then_mono if_mono) (simp_all add: ins close)
qed

lemma index_deferred_grow:
  assumes "index_deferred_publication E T ev d = Ok d'"
  shows "index_deferred_publication E T ev (grow rows d) = Ok (grow rows d')"
proof -
  have ins: "insert_deferred p d = Ok d' \<Longrightarrow> insert_deferred p (grow rows d) = Ok (grow rows d')" for p
    by (auto simp: insert_deferred_def deferred_row_fits_def result_simps journal_has_grow)
  have close: "close_deferred ev h s m d = Ok d' \<Longrightarrow> close_deferred ev h s m (grow rows d) = Ok (grow rows d')" for h s m
    by (auto simp: close_deferred_def Let_def journal_has_grow split: if_splits option.splits)
  show ?thesis
    using assms unfolding index_deferred_publication_def index_deferred_publication_created_def index_deferred_publication_terminal_def
    by (elim and_then_mono if_mono) (simp_all add: ins close)
qed

lemma index_effect_grow:
  assumes "index_effect E ev d = Ok d'"
  shows "index_effect E ev (grow rows d) = Ok (grow rows d')"
proof -
  have planned: "index_effect_planned ev f d = Ok d' \<Longrightarrow> index_effect_planned ev f (grow rows d) = Ok (grow rows d')" for f
    by (auto simp: index_effect_planned_def effect_row_fits_def result_simps Let_def journal_has_grow split: if_splits)
  have changed: "index_effect_changed E ev f d = Ok d' \<Longrightarrow> index_effect_changed E ev f (grow rows d) = Ok (grow rows d')" for f
    unfolding index_effect_changed_def grow_sel by (elim and_then_mono if_mono) (auto simp: journal_has_grow split: if_splits)
  show ?thesis
    using assms by (auto simp: index_effect_def result_simps intro: planned changed split: if_splits)
qed

lemma index_event_grow:
  "index_event E T ev d = Ok d' \<Longrightarrow> index_event E T ev (grow rows d) = Ok (grow rows d')"
proof -
  have pending: "index_pending_queue_item ev d = Ok d' \<Longrightarrow> index_pending_queue_item ev (grow rows d) = Ok (grow rows d')"
    by (auto simp: index_pending_queue_item_def insert_pending_item_def queue_item_fits_grow split: option.splits if_splits)
  have cancel: "index_queue_item_cancel_requested ev d = Ok d' \<Longrightarrow>
      index_queue_item_cancel_requested ev (grow rows d) = Ok (grow rows d')"
    by (auto simp: index_queue_item_cancel_requested_def result_simps Let_def split: if_splits)
  show "index_event E T ev d = Ok d' \<Longrightarrow> index_event E T ev (grow rows d) = Ok (grow rows d')"
    unfolding index_event_def
    by (auto intro: pending cancel index_queue_item_grow index_attempt_grow index_wait_grow index_deferred_grow index_effect_grow
        split: if_splits)
qed

lemma index_all_grow: "index_all E T es d = Ok d' \<Longrightarrow> index_all E T es (grow rows d) = Ok (grow rows d')"
  by (induction es arbitrary: d) (auto simp: result_simps dest: index_event_grow)

lemma index_all_append: "index_all E T (es @ fs) d = and_then (index_all E T es d) (index_all E T fs)"
proof (induction es arbitrary: d)
  case (Cons e es)
  then show ?case by (cases "index_event E T (je_event e) d") simp_all
qed simp

section \<open>The database as a log\<close>

lemma find_entry_by_id:
  "distinct (je_ids es) \<Longrightarrow> e \<in> set es \<Longrightarrow> find (\<lambda>x. ev_id (je_event x) = ev_id (je_event e)) es = Some e"
  by (induction es) (auto simp: je_ids_def)

lemma append_in_transaction_rows:
  assumes "append_in_transaction E ev d = Ok (d', out)"
  shows "d' = d \<and> \<not> out_inserted out \<or> (\<exists>row. d' = grow [row] d) \<and> out_inserted out"
proof -
  have "d' = grow [s] d" if "insert_journal_entry s d = Ok d'" for s
    using that by (auto simp: insert_journal_entry_def result_simps grow_def)
  then have "(\<exists>row. d' = grow [row] d) \<and> out_inserted out" if "append_new_entry E ev d = Ok (d', out)"
    using that unfolding append_new_entry_def by (auto simp: result_simps simp del: sum.inject(2) split: if_splits)
  then show ?thesis
    using assms unfolding append_in_transaction_def
    by (auto elim!: and_then_OkE split: option.splits if_splits)
qed

lemma sql_inv_frame:
  assumes "db_journal d' = db_journal d"
  shows "sql_inv E d' \<longleftrightarrow> sql_inv E d" "sql_entries E d' = sql_entries E d"
  using assms by (simp_all add: sql_inv_def sql_entries_def load_entries_def)

lemma append_trusted_cases:
  assumes inv: "sql_inv E d" and ev: "readable E ev" and ok: "append_trusted_event E T ev d = Ok (d', out)"
  obtains (duplicate) "d' = d" "\<not> out_inserted out" "out_event out \<in> je_event ` set (sql_entries E d)"
  | (inserted) e row where "out_inserted out" "sql_inv E d'" "sql_entries E d' = sql_entries E d @ [e]"
    "index_event E T (out_event out) (grow [row] d) = Ok d'" "out_event out = ev\<lparr>ev_cursor := je_cursor e\<rparr>"
    "stored_as E (out_event out) (je_event e)"
proof -
  from ok obtain d1 where d1: "append_in_transaction E ev d = Ok (d1, out)"
    and d': "if out_inserted out then index_event E T (out_event out) d1 = Ok d' else d' = d1"
    by (auto simp: append_trusted_event_def result_simps split: if_splits)
  from inv ev d1 show thesis
  proof (cases rule: append_cases)
    case duplicate
    then show ?thesis using that(1) d' by simp
  next
    case (inserted e rows)
    from append_in_transaction_rows [OF d1] inserted(1) obtain row where row: "d1 = grow [row] d" by auto
    have ix: "index_event E T (out_event out) d1 = Ok d'" using d' inserted(1) by simp
    note same = sql_inv_frame [OF index_event_journal [OF ix], of E]
    from inserted same ix row show ?thesis by (intro that(2) [of e row]) auto
  qed
qed

text \<open>A public append: an error rolls the transaction back.\<close>

definition dispatch_append :: "env \<Rightarrow> time_lib \<Rightarrow> db \<Rightarrow> event \<Rightarrow> db \<times> (dispatch_error, append_outcome) result" where
  "dispatch_append E T d ev = (case append_trusted_event E T ev d of
     Inr (d', outcome) \<Rightarrow> (d', Ok outcome)
   | Inl e \<Rightarrow> (d, Err e))"

lemma dispatch_append_Ok: "dispatch_append E T d ev = (d', Inr out) \<longleftrightarrow> append_trusted_event E T ev d = Ok (d', out)"
  by (cases "append_trusted_event E T ev d") (auto simp: dispatch_append_def)

lemma dispatch_append_Err: "dispatch_append E T d ev = (d', Inl e) \<longleftrightarrow> append_trusted_event E T ev d = Err e \<and> d' = d"
  by (cases "append_trusted_event E T ev d") (auto simp: dispatch_append_def)

interpretation dispatch_log: durable_log E "sql_inv E" "sql_entries E" "dispatch_append E T" "readable E" for E T
proof
  show "journal_ok E (sql_entries E d)" if "sql_inv E d" for d
    using sql_invD(2) [OF that] .
  show grows: "(sql_entries E d' = sql_entries E d
      \<and> (\<forall>out. r = Ok out \<longrightarrow> \<not> out_inserted out \<and> out_event out \<in> je_event ` set (sql_entries E d)))
    \<or> (\<exists>e out. sql_entries E d' = sql_entries E d @ [e] \<and> r = Ok out \<and> out_inserted out
         \<and> out_event out = ev\<lparr>ev_cursor := je_cursor e\<rparr> \<and> stored_as E (out_event out) (je_event e))"
    if "sql_inv E d" "readable E ev" "dispatch_append E T d ev = (d', r)" for d ev d' r
  proof (cases r)
    case (Inr out)
    with that(3) have "append_trusted_event E T ev d = Ok (d', out)" by (simp add: dispatch_append_Ok)
    then show ?thesis using that(1,2) Inr by (cases rule: append_trusted_cases [OF that(1,2)]) auto
  qed (use that(3) in \<open>simp add: dispatch_append_Err\<close>)
  show "sql_inv E (fst (dispatch_append E T d ev))" if "sql_inv E d" "readable E ev" for d ev
  proof (cases "append_trusted_event E T ev d")
    case (Inr x)
    then obtain d' out where "append_trusted_event E T ev d = Ok (d', out)" by (cases x) simp
    then show ?thesis using that by (cases rule: append_trusted_cases [OF that]) (simp_all add: dispatch_append_def)
  qed (use that in \<open>simp add: dispatch_append_def\<close>)
  show "dispatch_append E T d ev = (d, Ok \<lparr>out_event = je_event e, out_inserted = False\<rparr>)"
    if inv: "sql_inv E d" and e: "e \<in> set (sql_entries E d)" "ev_id ev = ev_id (je_event e)"
      and ev: "validate_identity_fields ev = Ok ()" "canonical_payload E (ev_payload ev) = Ok b"
        "payload_address E b = je_payload_address e" for d e ev b
  proof -
    have "find (\<lambda>x. ev_id (je_event x) = ev_id ev) (sql_entries E d) = Some e"
      using find_entry_by_id [OF _ e(1)] sql_invD(2) [OF inv] e(2) by (simp add: journal_ok_def)
    then have "append_in_transaction E ev d = Ok (d, \<lparr>out_event = je_event e, out_inserted = False\<rparr>)"
      using ev(2,3) by (simp add: append_in_transaction_def entry_by_id [OF inv])
    moreover have "validate_event_identity ev = Ok ()"
      using ev(1) by (auto simp: validate_event_identity_def validate_identity_fields_def split: if_splits)
    ultimately show ?thesis by (simp add: dispatch_append_def append_trusted_event_def)
  qed
qed

end
