(* ===== verification/Replay.thy ===== *)
theory Replay
  imports Projection
begin

text \<open>
  What the journal of a Dispatch database guarantees, whatever is appended: the retained log is a verified chain that
  only grows, a retry returns the retained event, and the projections are what a replay of the log gives.
\<close>

section \<open>Replay\<close>

text \<open>The parser returns the payload that was written.\<close>

definition payload_kept :: "env \<Rightarrow> event \<Rightarrow> bool" where
  "payload_kept E ev \<longleftrightarrow> (\<forall>b. canonical_payload E (ev_payload ev) = Ok b \<longrightarrow> json_parse E b = Some (JObject (ev_payload ev)))"

lemma payload_kept_readable: "payload_kept E ev \<Longrightarrow> readable E ev"
  by (auto simp: payload_kept_def readable_def)

lemma into_entry_payload: "into_entry E s = Ok e \<Longrightarrow> json_parse E (je_payload_bytes e) = Some (JObject (ev_payload (je_event e)))"
proof -
  have "(case x of Some (JObject p) \<Rightarrow> Ok p | _ \<Rightarrow> Err err) = Ok m \<longleftrightarrow> x = Some (JObject m)" for x and err :: dispatch_error and m
    by (auto split: option.splits json.splits)
  then show "into_entry E s = Ok e \<Longrightarrow> json_parse E (je_payload_bytes e) = Some (JObject (ev_payload (je_event e)))"
    unfolding into_entry_def by (auto elim!: and_then_OkE)
qed

lemma entry_payload:
  assumes inv: "sql_inv E d" and e: "e \<in> set (sql_entries E d)"
  shows "json_parse E (je_payload_bytes e) = Some (JObject (ev_payload (je_event e)))"
    "canonical_payload E (ev_payload (je_event e)) = Ok (je_payload_bytes e)"
proof -
  from e obtain i where i: "i < length (sql_entries E d)" "e = sql_entries E d ! i" by (auto simp: in_set_conv_nth)
  then have "into_entry E (db_journal d ! i) = Ok e"
    using sql_invD(4) [OF inv] by (simp add: list_all2_conv_all_nth)
  then show "json_parse E (je_payload_bytes e) = Some (JObject (ev_payload (je_event e)))" by (rule into_entry_payload)
  from split_list [OF e] obtain es fs where "sql_entries E d = (es @ [e]) @ fs" by auto
  then have "journal_ok E (es @ [e])" using journal_ok_appendD [of E "es @ [e]" fs] sql_invD(2) [OF inv] by simp
  then show "canonical_payload E (ev_payload (je_event e)) = Ok (je_payload_bytes e)"
    by (simp add: journal_ok_snoc entry_ok_def)
qed

lemma stored_exactly:
  assumes "sql_inv E d" "e \<in> set (sql_entries E d)" "stored_as E ev (je_event e)" "payload_kept E ev"
  shows "je_event e = ev"
proof -
  note st = assms(3) [unfolded stored_as_def]
  have "canonical_payload E (ev_payload ev) = Ok (je_payload_bytes e)"
    using entry_payload(2) [OF assms(1,2)] conjunct2 [OF st] by simp
  then have "json_parse E (je_payload_bytes e) = Some (JObject (ev_payload ev))"
    using assms(4) by (simp add: payload_kept_def)
  then have same: "ev_payload ev = ev_payload (je_event e)" using entry_payload(1) [OF assms(1,2)] by simp
  have "(je_event e)\<lparr>ev_payload := ev_payload (je_event e)\<rparr> = je_event e" by simp
  then show ?thesis using conjunct1 [OF st] unfolding same by (rule trans [OF sym])
qed

text \<open>A database whose tables are the replay of its own journal.\<close>

definition replays :: "env \<Rightarrow> time_lib \<Rightarrow> db \<Rightarrow> bool" where
  "replays E T d \<longleftrightarrow> index_all E T (sql_entries E d) (drop_projections d) = Ok d"

lemma replays_empty: "db_journal d = [] \<Longrightarrow> drop_projections d = d \<Longrightarrow> replays E T d"
  by (simp add: replays_def sql_entries_def load_entries_def)

lemma drop_projections_grow: "drop_projections (grow rows d) = grow rows (drop_projections d)"
  by (simp add: drop_projections_def grow_def db_empty_def)

lemma replays_append:
  assumes inv: "sql_inv E d" and r: "replays E T d" and kept: "payload_kept E ev"
  shows "replays E T (fst (dispatch_append E T d ev))"
proof (cases "append_trusted_event E T ev d")
  case (Inr x)
  then obtain d' out where ok: "append_trusted_event E T ev d = Ok (d', out)" by (cases x) simp
  from inv payload_kept_readable [OF kept] ok show ?thesis
  proof (cases rule: append_trusted_cases)
    case (inserted e row)
    have e: "je_event e = out_event out"
    proof (rule stored_exactly [OF inserted(2)])
      show "payload_kept E (out_event out)" using kept inserted(5) by (simp add: payload_kept_def)
    qed (simp_all add: inserted(3,6))
    have "drop_projections d' = grow [row] (drop_projections d)"
      using index_event_journal [OF inserted(4)] by (simp add: drop_projections_def grow_def db_empty_def)
    then have "index_all E T (sql_entries E d) (drop_projections d') = Ok (grow [row] d)"
      using r index_all_grow by (simp add: replays_def)
    then show ?thesis
      using inserted(3,4) e ok by (simp add: replays_def dispatch_append_def index_all_append)
  qed (use r ok in \<open>simp add: dispatch_append_def\<close>)
qed (use r in \<open>simp add: dispatch_append_def\<close>)

lemma replays_run:
  assumes "sql_inv E d" "replays E T d" "list_all (payload_kept E) evs"
  shows "replays E T (foldl (\<lambda>d ev. fst (dispatch_append E T d ev)) d evs)"
  using assms
proof (induction evs arbitrary: d)
  case (Cons ev evs)
  then show ?case using dispatch_log.log_inv [of E d ev T] by (simp add: replays_append payload_kept_readable)
qed simp

lemma rebuild_replays:
  assumes "sql_inv E d" "replays E T d"
  shows "rebuild_projections_in_transaction E T d = Ok (recover_ownership d, length (sql_entries E d))"
proof -
  have "verify_entries E verify_start (sql_entries E d) = Ok (verified_state (sql_entries E d))"
    using sql_invD(2) [OF assms(1)] by (simp add: verify_run)
  then show ?thesis
    using sql_invD(3) [OF assms(1)] assms(2)
    by (simp add: rebuild_projections_in_transaction_def replays_def verify_def Let_def)
qed

section \<open>Effects along a run\<close>

lemma index_event_effect_rows:
  assumes "index_event E T ev d = Ok d'" "distinct (map ef_key (db_effects d))"
  shows "distinct (map ef_key (db_effects d'))"
    and "r \<in> set (db_effects d) \<Longrightarrow> \<exists>r' \<in> set (db_effects d'). ef_key r' = ef_key r \<and> effect_step\<^sup>=\<^sup>= r r'"
proof -
  have "distinct (map ef_key (db_effects d')) \<and>
    (r \<in> set (db_effects d) \<longrightarrow> (\<exists>r' \<in> set (db_effects d'). ef_key r' = ef_key r \<and> effect_step\<^sup>=\<^sup>= r r'))" for r
  proof (cases "prefix ''runtime.effect.'' (ev_event_type ev)")
    case True
    then have "index_effect E ev d = Ok d'" using assms(1) by (simp add: index_event_def)
    then show ?thesis using index_effect_step [OF _ assms(2)] by blast
  next
    case False
    then show ?thesis using index_event_effects [OF assms(1)] assms(2) by auto
  qed
  then show "distinct (map ef_key (db_effects d'))"
    "r \<in> set (db_effects d) \<Longrightarrow> \<exists>r' \<in> set (db_effects d'). ef_key r' = ef_key r \<and> effect_step\<^sup>=\<^sup>= r r'"
    by blast+
qed

lemma append_effect_rows:
  assumes "distinct (map ef_key (db_effects d))"
  shows "distinct (map ef_key (db_effects (fst (dispatch_append E T d ev))))"
    and "r \<in> set (db_effects d) \<Longrightarrow>
      \<exists>r' \<in> set (db_effects (fst (dispatch_append E T d ev))). ef_key r' = ef_key r \<and> effect_step\<^sup>=\<^sup>= r r'"
proof -
  have "distinct (map ef_key (db_effects (fst (dispatch_append E T d ev)))) \<and> (r \<in> set (db_effects d) \<longrightarrow>
      (\<exists>r' \<in> set (db_effects (fst (dispatch_append E T d ev))). ef_key r' = ef_key r \<and> effect_step\<^sup>=\<^sup>= r r'))" for r
  proof (cases "append_trusted_event E T ev d")
    case (Inr x)
    then obtain d' out where ok: "append_trusted_event E T ev d = Ok (d', out)" by (cases x) simp
    then obtain d1 where d1: "append_in_transaction E ev d = Ok (d1, out)"
      and d': "if out_inserted out then index_event E T (out_event out) d1 = Ok d' else d' = d1"
      by (auto simp: append_trusted_event_def result_simps split: if_splits)
    have same: "db_effects d1 = db_effects d" using append_in_transaction_rows [OF d1] by auto
    show ?thesis
    proof (cases "out_inserted out")
      case True
      then have "index_event E T (out_event out) d1 = Ok d'" using d' by simp
      from index_event_effect_rows [OF this] show ?thesis using ok assms same by (simp add: dispatch_append_def)
    qed (use ok d' assms same in \<open>auto simp: dispatch_append_def\<close>)
  qed (use assms in \<open>auto simp: dispatch_append_def\<close>)
  then show "distinct (map ef_key (db_effects (fst (dispatch_append E T d ev))))"
    "r \<in> set (db_effects d) \<Longrightarrow>
      \<exists>r' \<in> set (db_effects (fst (dispatch_append E T d ev))). ef_key r' = ef_key r \<and> effect_step\<^sup>=\<^sup>= r r'"
    by blast+
qed

section \<open>Properties\<close>

text \<open>C7: as long as a Dispatch database is written by appends only, its projections are a function of its journal: a
  rebuild verifies the journal, replays every entry, and returns the tables that the appends had built, with nothing owned.
  The hypothesis on the payloads is that the JSON parser returns what was written.\<close>

theorem rebuild_reproduces_projections:
  assumes "digest_law E" "list_all (payload_kept E) evs"
    and d: "d = foldl (\<lambda>d ev. fst (dispatch_append E T d ev)) db_empty evs"
  shows "rebuild_projections_in_transaction E T d = Ok (recover_ownership d, length (db_journal d))"
proof -
  have empty: "sql_inv E db_empty" "replays E T db_empty"
    by (rule sql_inv_empty [OF assms(1)] replays_empty; simp add: db_empty_def drop_projections_def)+
  have "list_all (readable E) evs" using assms(2) by (auto simp: list_all_iff intro: payload_kept_readable)
  then have "sql_inv E d" unfolding d by (rule dispatch_log.log_run_inv [OF empty(1)])
  moreover have "replays E T d" unfolding d by (rule replays_run [OF empty assms(2)])
  ultimately show ?thesis
    using rebuild_replays list_all2_lengthD [OF sql_invD(4) [of E d]] by simp
qed

text \<open>C11: whatever is appended to a Dispatch database, accepted or refused, the retained entries only grow at the end,
  and the journal verifies against its own head with every entry checked.\<close>

theorem dispatch_journal_append_only:
  assumes "sql_inv E d" "list_all (readable E) evs"
    and d': "d' = foldl (\<lambda>d ev. fst (dispatch_append E T d ev)) d evs"
  shows "prefix (sql_entries E d) (sql_entries E d')
    \<and> verify_journal E (Exact (journal_head (sql_entries E d'))) d'
      = Ok \<lparr>rep_entries_checked = length (db_journal d'), rep_head = journal_head (sql_entries E d')\<rparr>"
proof -
  have inv: "sql_inv E d'" unfolding d' by (rule dispatch_log.log_run_inv [OF assms(1,2)])
  have "verify_journal E (Exact (journal_head (sql_entries E d'))) d'
      = Ok \<lparr>rep_entries_checked = length (sql_entries E d'), rep_head = journal_head (sql_entries E d')\<rparr>"
    using dispatch_log.log_run_verifies [OF assms(1,2) d'] sql_invD(3) [OF inv] by (simp add: verify_journal_def)
  then show ?thesis
    using dispatch_log.log_run_prefix [OF assms(1,2), of T] list_all2_lengthD [OF sql_invD(4) [OF inv]] d' by simp
qed

text \<open>C27: once an event is inserted, appending it again after any other appends inserts nothing, changes no table, and
  returns the retained event: the same one up to the spelling of its payload.\<close>

theorem dispatch_retry_is_idempotent:
  assumes "sql_inv E d" "readable E ev" "append_trusted_event E T ev d = Ok (d1, out)" "out_inserted out"
    and "list_all (readable E) evs" "k = foldl (\<lambda>d ev. fst (dispatch_append E T d ev)) d1 evs"
  shows "\<exists>out'. append_trusted_event E T ev k = Ok (k, out') \<and> \<not> out_inserted out' \<and> stored_as E (out_event out) (out_event out')"
  using dispatch_log.log_retry [OF assms(1,2) _ assms(4,5,6)] assms(3) by (simp add: dispatch_append_Ok)

section \<open>Witnesses\<close>

definition no_time :: time_lib where
  "no_time = \<lparr>rfc3339_parse = (\<lambda>_. None), from_unix_nanos = (\<lambda>_. None)\<rparr>"

lemma sample_kept: "payload_kept journal_env sample_event"
  using journal_env_laws(3) by (simp add: payload_kept_def sample_event_def journal_env_def)

lemma sample_append_trusted:
  obtains d out where "append_trusted_event journal_env no_time sample_event db_empty = Ok (d, out)" "out_inserted out"
    "length (db_journal d) = 1" "map qi_status (db_queue_items d) = [''pending'']"
proof -
  obtain e where e: "je_event e = sample_event\<lparr>ev_cursor := Some 1\<rparr>"
    "append_new_entry journal_env sample_event db_empty = Ok (db_empty\<lparr>db_journal := [entry_row 1 e]\<rparr>,
      \<lparr>out_event = je_event e, out_inserted = True\<rparr>)" by (rule sample_append)
  have "append_in_transaction journal_env sample_event db_empty = Ok (db_empty\<lparr>db_journal := [entry_row 1 e]\<rparr>,
      \<lparr>out_event = je_event e, out_inserted = True\<rparr>)"
    using e(2) by (simp add: append_in_transaction_def entry_by_field_def read_first_def db_empty_def sample_event_def)
  moreover obtain d where "index_event journal_env no_time (je_event e) (db_empty\<lparr>db_journal := [entry_row 1 e]\<rparr>) = Ok d"
    "length (db_journal d) = 1" "map qi_status (db_queue_items d) = [''pending'']"
    by (simp add: index_event_def is_queueable_event_def index_pending_queue_item_def insert_pending_item_def db_empty_def
        queue_item_fits_def sql_nonempty_def journal_has_def entry_row_def Let_def e(1) sample_event_def pending_queue_item_id_def)
  moreover have "validate_event_identity sample_event = Ok ()" by (simp add: validate_event_identity_def sample_event_def)
  ultimately show thesis using that by (simp add: append_trusted_event_def)
qed

theorem rebuild_reproduces_projections_witness:
  "\<exists>d. map qi_status (db_queue_items d) = [''pending'']
     \<and> rebuild_projections_in_transaction journal_env no_time d = Ok (recover_ownership d, 1)"
proof -
  obtain d out where d: "append_trusted_event journal_env no_time sample_event db_empty = Ok (d, out)" "length (db_journal d) = 1"
    "map qi_status (db_queue_items d) = [''pending'']" by (rule sample_append_trusted)
  have "rebuild_projections_in_transaction journal_env no_time d = Ok (recover_ownership d, length (db_journal d))"
    by (rule rebuild_reproduces_projections [OF journal_env_laws(1), of "[sample_event]"])
      (simp_all add: sample_kept dispatch_append_def d(1))
  then show ?thesis using d(2,3) by (intro exI [of _ d]) simp
qed

theorem dispatch_journal_append_only_witness:
  "\<exists>d. length (db_journal d) = 1 \<and> verify_journal journal_env (Exact (journal_head (sql_entries journal_env d))) d
     = Ok \<lparr>rep_entries_checked = 1, rep_head = journal_head (sql_entries journal_env d)\<rparr>"
proof -
  obtain d out where d: "append_trusted_event journal_env no_time sample_event db_empty = Ok (d, out)" "length (db_journal d) = 1"
    by (rule sample_append_trusted)
  show ?thesis
    using dispatch_journal_append_only [OF db_empty_inv(1), of "[sample_event]" d no_time] d
    by (auto simp: journal_env_readable dispatch_append_def)
qed

theorem dispatch_retry_is_idempotent_witness:
  "\<exists>d out. length (db_journal d) = 1 \<and> append_trusted_event journal_env no_time sample_event d = Ok (d, out) \<and> \<not> out_inserted out"
proof -
  obtain d out where d: "append_trusted_event journal_env no_time sample_event db_empty = Ok (d, out)" "out_inserted out"
    "length (db_journal d) = 1" by (rule sample_append_trusted)
  show ?thesis
    using dispatch_retry_is_idempotent [OF db_empty_inv(1) journal_env_readable d(1,2), of "[]" d] d(3) by auto
qed

definition sample_effect :: effect_row where
  "sample_effect = \<lparr>ef_key = ''k'', ef_operation = ''connector:mail'', ef_semantics = ''unsafe_to_retry'', ef_scope = ''s'',
     ef_queue_item_id = None, ef_params_json = ''{}'', ef_status = ''started'', ef_result_json = None, ef_caused_by = ''s'',
     ef_planned_event_id = ''e0'', ef_terminal_event_id = None, ef_updated_at = 0, ef_delivery_attempts = 1,
     ef_available_at = None\<rparr>"

end
