(* ===== verification/Table_Invariants.thy ===== *)
theory Table_Invariants
  imports Replay
begin

text \<open>
  The tables of a Dispatch database are well formed after any sequence of appends: keys are unique, the columns with a
  vocabulary hold words of it, references point to rows, and the terminal columns agree with the status.
\<close>

section \<open>Well-formed tables\<close>

definition items_ok :: "db \<Rightarrow> bool" where
  "items_ok d \<longleftrightarrow> distinct (map qi_id (db_queue_items d))
     \<and> distinct (map (\<lambda>r. (qi_event_id r, qi_target_agent r)) (db_queue_items d))
     \<and> (\<forall>r \<in> set (db_queue_items d). (\<exists>s. qi_status r = queue_status_display s) \<and> 0 < qi_input_cursor r
          \<and> 0 \<le> qi_attempt_count r \<and> journal_has d (qi_event_id r))"

definition attempts_ok :: "db \<Rightarrow> bool" where
  "attempts_ok d \<longleftrightarrow> distinct (map at_id (db_attempts d))
     \<and> distinct (map (\<lambda>a. (at_queue_item_id a, at_number a)) (db_attempts d))
     \<and> (\<forall>a \<in> set (db_attempts d). (\<exists>s. at_status a = attempt_status_display s) \<and> 0 < at_number a
          \<and> at_queue_item_id a \<in> qi_id ` set (db_queue_items d) \<and> journal_has d (at_event_id a))"

definition waits_ok :: "db \<Rightarrow> bool" where
  "waits_ok d \<longleftrightarrow> distinct (map wt_handle (db_waits d))
     \<and> distinct (map wt_session_id (filter (\<lambda>w. wt_status w = ''active'') (db_waits d)))
     \<and> (\<forall>w \<in> set (db_waits d). (\<exists>s. wt_status w = wait_status_str s)
          \<and> (wt_status w = ''active'' \<longleftrightarrow> wt_terminal_event_id w = None)
          \<and> (wt_status w = ''matched'' \<longleftrightarrow> wt_matched_event_id w \<noteq> None)
          \<and> journal_has d (wt_created_event_id w) \<and> \<not> prefix ''runtime.'' (wt_event_type w))"

definition deferred_ok :: "db \<Rightarrow> bool" where
  "deferred_ok d \<longleftrightarrow> distinct (map dp_handle (db_deferred d))
     \<and> (\<forall>p \<in> set (db_deferred d). (\<exists>s. dp_status p = deferred_publication_status_str s) \<and> 0 \<le> dp_position p
          \<and> (dp_status p = ''pending'' \<longleftrightarrow> dp_terminal_event_id p = None)
          \<and> (dp_status p = ''published'' \<longleftrightarrow> dp_published_event_id p \<noteq> None)
          \<and> journal_has d (dp_created_event_id p) \<and> \<not> prefix ''runtime.'' (dp_event_type p))"

definition effects_ok :: "db \<Rightarrow> bool" where
  "effects_ok d \<longleftrightarrow> distinct (map ef_key (db_effects d))
     \<and> (\<forall>r \<in> set (db_effects d). \<exists>status semantics. ef_status r = effect_status_str status
          \<and> ef_semantics r = effect_semantics_str semantics
          \<and> (effect_status_is_terminal status \<longleftrightarrow> ef_result_json r \<noteq> None)
          \<and> (effect_status_is_terminal status \<longleftrightarrow> ef_terminal_event_id r \<noteq> None)
          \<and> (status = EffectAmbiguous \<longrightarrow> semantics = UnsafeToRetry) \<and> (status = EffectFailed \<longrightarrow> semantics \<noteq> UnsafeToRetry)
          \<and> 0 \<le> ef_delivery_attempts r \<and> ef_delivery_attempts r < 2 ^ 32)"

definition tables_ok :: "db \<Rightarrow> bool" where
  "tables_ok d \<longleftrightarrow> items_ok d \<and> attempts_ok d \<and> waits_ok d \<and> deferred_ok d \<and> effects_ok d"

section \<open>Updates\<close>

lemma distinct_sql_update:
  assumes "distinct (map k rows)" "distinct (map f rows)"
    and "\<And>r. r \<in> set rows \<Longrightarrow> k r = i \<Longrightarrow> f (g r) \<notin> f ` {r \<in> set rows. k r \<noteq> i}"
  shows "distinct (map f (sql_update (\<lambda>r. k r = i) g rows))"
  using assms
proof (induction rows)
  case (Cons r rows)
  have IH: "distinct (map f (sql_update (\<lambda>r. k r = i) g rows))"
    using Cons.prems by (intro Cons.IH) auto
  have "f (if k r = i then g r else r) \<notin> f ` set (sql_update (\<lambda>r. k r = i) g rows)"
  proof (cases "k r = i")
    case True
    then have "\<And>x. x \<in> set rows \<Longrightarrow> k x \<noteq> i" using Cons.prems(1) by (auto simp: image_iff)
    then show ?thesis using True Cons.prems(3) [of r] by (auto simp: in_sql_update)
  next
    case False
    then have r: "f r \<in> f ` {x \<in> set (r # rows). k x \<noteq> i}" by simp
    have "f x \<noteq> f r" if "x \<in> set (sql_update (\<lambda>r. k r = i) g rows)" for x
    proof -
      from that obtain y where y: "y \<in> set rows" "x = (if k y = i then g y else y)" by (auto simp: in_sql_update)
      show ?thesis using y Cons.prems(2) Cons.prems(3) [of y] r by (cases "k y = i") (auto simp: image_iff)
    qed
    then have "f r \<notin> f ` set (sql_update (\<lambda>r. k r = i) g rows)" by (metis imageE)
    with False show ?thesis by simp
  qed
  with IH show ?case by (auto simp: sql_update_def)
qed (simp add: sql_update_def)

lemma distinct_map_filter_keys: "distinct (map f xs) \<Longrightarrow> distinct (map f (filter P xs))"
  by (rule distinct_map_filter)

lemma find_key:
  assumes "distinct (map k rows)" "find (\<lambda>r. k r = i) rows = Some r" "x \<in> set rows" "k x = i"
  shows "x = r"
  using distinct_map_eq [OF assms(1,3)] find_SomeD [OF assms(2)] assms(4) by auto

section \<open>Queue items\<close>

lemma items_ok_frame:
  assumes "items_ok d" "db_queue_items d' = db_queue_items d" "db_journal d' = db_journal d"
  shows "items_ok d'"
  using assms by (simp add: items_ok_def journal_has_def)

lemma items_ok_filter:
  "items_ok d \<Longrightarrow> db_queue_items d' = filter P (db_queue_items d) \<Longrightarrow> db_journal d' = db_journal d \<Longrightarrow> items_ok d'"
  by (auto simp: items_ok_def journal_has_def distinct_map_filter)

lemma items_ok_insert:
  assumes "items_ok d" "qi_id r \<notin> qi_id ` set (db_queue_items d)" "queue_item_fits d (db_queue_items d) r"
    "qi_status r = queue_status_display s" "0 \<le> qi_attempt_count r"
  shows "items_ok (d\<lparr>db_queue_items := db_queue_items d @ [r]\<rparr>)"
  using assms by (auto simp: items_ok_def journal_has_def queue_item_fits_def list_all_iff)

lemma upsert_queue_item_ok:
  assumes ok: "items_ok d" and up: "upsert_queue_item j r d = Ok d'"
    and r: "qi_status r = queue_status_display s" "qi_attempt_count r = 0"
  shows "items_ok d'" "db_journal d' = db_journal d" "qi_id ` set (db_queue_items d') = insert (qi_id r) (qi_id ` set (db_queue_items d))"
    "\<exists>r' \<in> set (db_queue_items d'). qi_id r' = qi_id r \<and> qi_status r' = qi_status r \<and> qi_target_agent r' = qi_target_agent r
       \<and> qi_event_id r' = qi_event_id r"
    "\<And>x. x \<in> set (db_queue_items d') \<Longrightarrow> qi_id x \<noteq> qi_id r \<Longrightarrow> x \<in> set (db_queue_items d)"
proof -
  let ?same = "\<lambda>x. qi_id x = qi_id r" and ?others = "filter (\<lambda>x. qi_id x \<noteq> qi_id r) (db_queue_items d)"
  have "items_ok d' \<and> db_journal d' = db_journal d
    \<and> qi_id ` set (db_queue_items d') = insert (qi_id r) (qi_id ` set (db_queue_items d))
    \<and> (\<exists>r' \<in> set (db_queue_items d'). qi_id r' = qi_id r \<and> qi_status r' = qi_status r \<and> qi_target_agent r' = qi_target_agent r
       \<and> qi_event_id r' = qi_event_id r)
    \<and> (\<forall>x \<in> set (db_queue_items d'). qi_id x \<noteq> qi_id r \<longrightarrow> x \<in> set (db_queue_items d))"
  proof (cases "find ?same (db_queue_items d)")
    case None
    then have fresh: "qi_id r \<notin> qi_id ` set (db_queue_items d)" by (auto simp: find_None_iff)
    then have others: "?others = db_queue_items d" by (auto simp: filter_id_conv image_iff)
    have "queue_item_fits d (db_queue_items d) r" "d' = d\<lparr>db_queue_items := db_queue_items d @ [r]\<rparr>"
      using up None others by (auto simp: upsert_queue_item_def Let_def split: if_splits)
    with items_ok_insert [OF ok fresh _ r(1)] r(2) show ?thesis by auto
  next
    case (Some old)
    then have old: "old \<in> set (db_queue_items d)" "qi_id old = qi_id r" by (auto dest: find_SomeD)
    have fits: "queue_item_fits d ?others (merge_queue_item j r old)"
      and d': "d' = d\<lparr>db_queue_items := sql_update ?same (merge_queue_item j r) (db_queue_items d)\<rparr>"
      using up Some by (auto simp: upsert_queue_item_def Let_def split: if_splits)
    have uniq: "x = old" if "x \<in> set (db_queue_items d)" "qi_id x = qi_id r" for x
      using find_key [OF _ Some that] ok by (simp add: items_ok_def)
    have m: "qi_id (merge_queue_item j r x) = qi_id x" "qi_status (merge_queue_item j r x) = qi_status r"
      "qi_event_id (merge_queue_item j r x) = qi_event_id r" "qi_target_agent (merge_queue_item j r x) = qi_target_agent r"
      "qi_input_cursor (merge_queue_item j r x) = qi_input_cursor r" "qi_attempt_count (merge_queue_item j r x) = qi_attempt_count x" for x
      by (simp_all add: merge_queue_item_def)
    have ids: "map qi_id (db_queue_items d') = map qi_id (db_queue_items d)"
      unfolding d' by (simp, rule sql_update_map) (simp add: m)
    have "distinct (map (\<lambda>r. (qi_event_id r, qi_target_agent r)) (db_queue_items d'))"
      unfolding d' using ok fits
      by (simp, intro distinct_sql_update) (auto simp: items_ok_def m queue_item_fits_def list_all_iff)
    moreover have "(\<exists>s. qi_status x = queue_status_display s) \<and> 0 < qi_input_cursor x
        \<and> 0 \<le> qi_attempt_count x \<and> journal_has d' (qi_event_id x)" if "x \<in> set (db_queue_items d')" for x
      using that ok fits r old(1) unfolding d'
      by (auto simp: in_sql_update items_ok_def m queue_item_fits_def journal_has_def split: if_splits)
    ultimately have "items_ok d'" using ids ok by (simp add: items_ok_def)
    moreover have "qi_id ` set (db_queue_items d') = insert (qi_id r) (qi_id ` set (db_queue_items d))"
      using ids old by (metis image_set insert_absorb image_eqI)
    moreover have "merge_queue_item j r old \<in> set (db_queue_items d')"
      unfolding d' using old by (force simp: in_sql_update)
    moreover have "x \<in> set (db_queue_items d)" if "x \<in> set (db_queue_items d')" "qi_id x \<noteq> qi_id r" for x
      using that m(1) unfolding d' by (auto simp: in_sql_update split: if_splits)
    moreover have "db_journal d' = db_journal d" unfolding d' by simp
    ultimately show ?thesis using m(1-4) [of old] old(2) by metis
  qed
  then show "items_ok d'" "db_journal d' = db_journal d" "qi_id ` set (db_queue_items d') = insert (qi_id r) (qi_id ` set (db_queue_items d))"
    "\<exists>r' \<in> set (db_queue_items d'). qi_id r' = qi_id r \<and> qi_status r' = qi_status r \<and> qi_target_agent r' = qi_target_agent r
       \<and> qi_event_id r' = qi_event_id r"
    "\<And>x. x \<in> set (db_queue_items d') \<Longrightarrow> qi_id x \<noteq> qi_id r \<Longrightarrow> x \<in> set (db_queue_items d)"
    by simp_all
qed

lemma index_queue_item_split:
  assumes "index_queue_item E ev d = Ok d'"
  obtains d1 j r s where "required_runtime_id ev ''queue_item_id'' = Ok (qi_id r)"
    "required_runtime_id ev ''event_id'' = Ok (qi_event_id r)" "required_payload_string ev ''target_agent'' True = Ok (qi_target_agent r)"
    "lifecycle_queue_status ev = Ok s" "qi_status r = queue_status_display s" "qi_attempt_count r = 0"
    "(if qi_id r \<noteq> pending_queue_item_id (qi_event_id r)
      then delete_queue_items ''close pending route barrier''
        (\<lambda>x. qi_id x = pending_queue_item_id (qi_event_id r) \<and> qi_target_agent x = []) d
      else Ok d) = Ok d1"
    "upsert_queue_item j r d1 = Ok d'"
    "previous_queue_status ev (qi_id r) (qi_event_id r) (qi_target_agent r) d1 \<noteq> Ok None \<longrightarrow>
       (\<exists>p. previous_queue_status ev (qi_id r) (qi_event_id r) (qi_target_agent r) d1 = Ok (Some p)
          \<and> queue_transition_ok (qi_id r) (pending_queue_item_id (qi_event_id r)) (qi_target_agent r) (Some p) s d1 = Ok ())"
proof -
  have row: "qi_id r = item_id \<and> qi_event_id r = e \<and> qi_target_agent r = t \<and> qi_status r = queue_status_display s \<and> qi_attempt_count r = 0"
    if "queue_row_of_event E ev item_id e t s d1 = Ok (j, r)" for item_id e t s d1 j r
    using that by (auto simp: queue_row_of_event_def result_simps Let_def)
  from assms show thesis
    unfolding index_queue_item_def Let_def
  proof (elim and_then_OkE)
    fix item_id e t s d1 previous u x
    assume *: "required_runtime_id ev ''queue_item_id'' = Ok item_id" "required_runtime_id ev ''event_id'' = Ok e"
      "required_payload_string ev ''target_agent'' True = Ok t" "lifecycle_queue_status ev = Ok s"
      "(if item_id \<noteq> pending_queue_item_id e then delete_queue_items ''close pending route barrier''
          (\<lambda>x. qi_id x = pending_queue_item_id e \<and> qi_target_agent x = []) d else Ok d) = Ok d1"
      "previous_queue_status ev item_id e t d1 = Ok previous"
      "queue_transition_ok item_id (pending_queue_item_id e) t previous s d1 = Ok u"
      "queue_row_of_event E ev item_id e t s d1 = Ok x" "(case x of (j, r) \<Rightarrow> upsert_queue_item j r d1) = Ok d'"
    obtain j r where x: "x = (j, r)" by (cases x)
    note r = row [OF *(8) [unfolded x]]
    show thesis
      by (rule that [of r s d1 j]) (use * r x in \<open>auto\<close>)
  qed
qed

lemma index_queue_item_ok:
  assumes ok: "items_ok d" "attempts_ok d" and ix: "index_queue_item E ev d = Ok d'"
  shows "items_ok d'" "attempts_ok d'"
proof -
  obtain d1 j r s where r: "qi_status r = queue_status_display s" "qi_attempt_count r = 0"
    and del: "(if qi_id r \<noteq> pending_queue_item_id (qi_event_id r)
      then delete_queue_items ''close pending route barrier''
        (\<lambda>x. qi_id x = pending_queue_item_id (qi_event_id r) \<and> qi_target_agent x = []) d
      else Ok d) = Ok d1" and up: "upsert_queue_item j r d1 = Ok d'"
    by (rule index_queue_item_split [OF ix])
  have d1: "items_ok d1 \<and> db_journal d1 = db_journal d
      \<and> (\<forall>a \<in> set (db_attempts d). at_queue_item_id a \<in> qi_id ` set (db_queue_items d1))"
  proof (cases "qi_id r = pending_queue_item_id (qi_event_id r)")
    case True
    then show ?thesis using del ok by (auto simp: attempts_ok_def)
  next
    case False
    let ?P = "\<lambda>x. qi_id x = pending_queue_item_id (qi_event_id r) \<and> qi_target_agent x = []"
    from False del have d1: "\<forall>a \<in> set (db_attempts d). \<forall>r \<in> set (db_queue_items d). ?P r \<longrightarrow> at_queue_item_id a \<noteq> qi_id r"
      "db_queue_items d1 = filter (\<lambda>x. \<not> ?P x) (db_queue_items d)" "db_journal d1 = db_journal d"
      by (auto simp: delete_queue_items_Ok)
    have "at_queue_item_id a \<in> qi_id ` set (db_queue_items d1)" if "a \<in> set (db_attempts d)" for a
    proof -
      from that ok(2) obtain x where "x \<in> set (db_queue_items d)" "qi_id x = at_queue_item_id a" by (force simp: attempts_ok_def)
      with d1(1) that show ?thesis unfolding d1(2) by force
    qed
    then show ?thesis using items_ok_filter [OF ok(1) d1(2,3)] d1(3) by simp
  qed
  note up = upsert_queue_item_ok [OF conjunct1 [OF d1] up r]
  show "items_ok d'" by (rule up(1))
  have "db_attempts d' = db_attempts d" using index_queue_item_frame [OF ix] by (simp add: apart_from_queue_def)
  then show "attempts_ok d'"
    using ok(2) up(2,3) d1 by (auto simp: attempts_ok_def journal_has_def)
qed

lemma index_pending_ok:
  assumes "items_ok d" "attempts_ok d" "index_pending_queue_item ev d = Ok d'"
  shows "items_ok d'" "attempts_ok d'"
proof -
  from assms(3) obtain r where r: "insert_pending_item r d = Ok d'" "qi_status r = queue_status_display QPending" "qi_attempt_count r = 0"
    by (auto simp: index_pending_queue_item_def split: option.splits if_splits)
  show "items_ok d'" "attempts_ok d'"
    using assms(1,2) r items_ok_insert [OF assms(1) _ _ r(2)]
    by (auto simp: insert_pending_item_def attempts_ok_def journal_has_def list_ex_image split: if_splits)
qed

lemma index_cancel_ok:
  assumes "items_ok d" "attempts_ok d" "index_queue_item_cancel_requested ev d = Ok d'"
  shows "items_ok d'" "attempts_ok d'"
proof -
  from assms(3) obtain P f where d': "d' = d\<lparr>db_queue_items := sql_update P f (db_queue_items d)\<rparr>"
    and f: "\<And>r. qi_id (f r) = qi_id r \<and> qi_event_id (f r) = qi_event_id r \<and> qi_target_agent (f r) = qi_target_agent r
      \<and> qi_status (f r) = qi_status r \<and> qi_input_cursor (f r) = qi_input_cursor r \<and> qi_attempt_count (f r) = qi_attempt_count r"
    by (auto simp: index_queue_item_cancel_requested_def result_simps Let_def split: if_splits)
  have ids: "map qi_id (db_queue_items d') = map qi_id (db_queue_items d)"
    "map (\<lambda>r. (qi_event_id r, qi_target_agent r)) (db_queue_items d') = map (\<lambda>r. (qi_event_id r, qi_target_agent r)) (db_queue_items d)"
    unfolding d' using f by (simp_all add: sql_update_map)
  then have set: "qi_id ` set (db_queue_items d') = qi_id ` set (db_queue_items d)" by (metis list.set_map)
  show "items_ok d'"
    using assms(1) ids f unfolding items_ok_def d' by (auto simp: in_sql_update journal_has_def)
  show "attempts_ok d'" using assms(2) set unfolding attempts_ok_def d' by (simp add: journal_has_def)
qed

section \<open>Attempts\<close>

lemma upsert_attempt_ok:
  assumes ok: "attempts_ok d" and up: "upsert_attempt a d = Ok d'" and a: "at_status a = attempt_status_display s"
  shows "attempts_ok d'" "\<exists>as. d' = d\<lparr>db_attempts := as\<rparr>"
proof -
  let ?same = "\<lambda>x. at_id x = at_id a" and ?others = "filter (\<lambda>x. at_id x \<noteq> at_id a) (db_attempts d)"
  have "attempts_ok d' \<and> (\<exists>as. d' = d\<lparr>db_attempts := as\<rparr>)"
  proof (cases "find ?same (db_attempts d)")
    case None
    then have fresh: "at_id a \<notin> at_id ` set (db_attempts d)" by (auto simp: find_None_iff)
    then have others: "?others = db_attempts d" by (auto simp: filter_id_conv image_iff)
    have fits: "attempt_fits d (db_attempts d) a" and d': "d' = d\<lparr>db_attempts := db_attempts d @ [a]\<rparr>"
      using up None others by (auto simp: upsert_attempt_def Let_def split: if_splits)
    show ?thesis
      using ok fits fresh a unfolding d' attempts_ok_def attempt_fits_def
      by (auto simp: journal_has_def list_ex_image list_all_iff)
  next
    case (Some old)
    then have old: "old \<in> set (db_attempts d)" "at_id old = at_id a" by (auto dest: find_SomeD)
    have fits: "attempt_fits d ?others (merge_attempt a old)"
      and d': "d' = d\<lparr>db_attempts := sql_update ?same (merge_attempt a) (db_attempts d)\<rparr>"
      using up Some by (auto simp: upsert_attempt_def Let_def split: if_splits)
    have m: "at_id (merge_attempt a x) = at_id x" "at_status (merge_attempt a x) = at_status a"
      "at_queue_item_id (merge_attempt a x) = at_queue_item_id x" "at_number (merge_attempt a x) = at_number x"
      "at_event_id (merge_attempt a x) = at_event_id x" for x
      by (simp_all add: merge_attempt_def)
    have "map at_id (db_attempts d') = map at_id (db_attempts d)"
      "map (\<lambda>x. (at_queue_item_id x, at_number x)) (db_attempts d') = map (\<lambda>x. (at_queue_item_id x, at_number x)) (db_attempts d)"
      unfolding d' by (simp_all add: sql_update_map m)
    moreover have "(\<exists>s. at_status x = attempt_status_display s) \<and> 0 < at_number x
          \<and> at_queue_item_id x \<in> qi_id ` set (db_queue_items d') \<and> journal_has d' (at_event_id x)" if "x \<in> set (db_attempts d')" for x
      using that ok a unfolding d' attempts_ok_def by (auto simp: in_sql_update m journal_has_def)
    ultimately have "attempts_ok d'" using ok by (simp add: attempts_ok_def)
    then show ?thesis using d' by blast
  qed
  then show "attempts_ok d'" "\<exists>as. d' = d\<lparr>db_attempts := as\<rparr>" by simp_all
qed

lemma index_attempt_ok:
  assumes ok: "items_ok d" "attempts_ok d" and ix: "index_attempt E ev d = Ok d'"
  shows "items_ok d'" "attempts_ok d'"
proof -
  define counted where "counted f d1 = (if af_status f = ARunning
           then d1\<lparr>db_queue_items := sql_update (\<lambda>r. qi_id r = af_queue_item_id f)
              (\<lambda>r. r\<lparr>qi_attempt_count := max (qi_attempt_count r) (int (af_number f))\<rparr>) (db_queue_items d1)\<rparr>
           else d1)" for f :: attempt_fields and d1 :: db
  from ix obtain f a d1 where up: "upsert_attempt a d = Ok d1" and counted: "d' = counted f d1"
    and a: "at_status a = attempt_status_display (af_status f)"
    unfolding index_attempt_def counted_def [symmetric]
    by (auto elim!: and_then_OkE)
  note d' = counted [unfolded counted_def]
  note up = upsert_attempt_ok [OF ok(2) up a]
  from up(2) have d1: "items_ok d1" using items_ok_frame [OF ok(1)] by auto
  let ?n = "int (af_number f)"
  let ?items = "sql_update (\<lambda>r. qi_id r = af_queue_item_id f) (\<lambda>r. r\<lparr>qi_attempt_count := max (qi_attempt_count r) ?n\<rparr>) (db_queue_items d1)"
  have ids: "map qi_id ?items = map qi_id (db_queue_items d1)"
    "map (\<lambda>r. (qi_event_id r, qi_target_agent r)) ?items = map (\<lambda>r. (qi_event_id r, qi_target_agent r)) (db_queue_items d1)"
    by (simp_all add: sql_update_map)
  then have set: "qi_id ` set ?items = qi_id ` set (db_queue_items d1)" by (metis list.set_map)
  have "items_ok (d1\<lparr>db_queue_items := ?items\<rparr>)"
    using d1 ids unfolding items_ok_def by (auto simp: in_sql_update journal_has_def le_max_iff_disj)
  moreover have "attempts_ok (d1\<lparr>db_queue_items := ?items\<rparr>)" using up(1) set unfolding attempts_ok_def by (simp add: journal_has_def)
  ultimately show "items_ok d'" "attempts_ok d'" using d1 up(1) unfolding d' by simp_all
qed

section \<open>Waits and deferred publications\<close>

lemma wait_status_str_active [simp]: "wait_status_str s = ''active'' \<longleftrightarrow> s = WaitActive"
  "wait_status_str s = ''matched'' \<longleftrightarrow> s = WaitMatched"
  by (cases s; simp)+

lemma insert_wait_ok:
  assumes "waits_ok d" "insert_wait w d = Ok d'" "wt_status w = ''active''" "wt_terminal_event_id w = None" "wt_matched_event_id w = None"
    "\<not> prefix ''runtime.'' (wt_event_type w)"
  shows "waits_ok d'"
proof -
  from assms(2) have fits: "wait_row_fits d w" and d': "d' = d\<lparr>db_waits := db_waits d @ [w]\<rparr>"
    by (auto simp: insert_wait_def result_simps)
  have "\<exists>s. ''active'' = wait_status_str s" by (rule exI [of _ WaitActive]) simp
  then show ?thesis
    using assms(1,3-6) fits unfolding waits_ok_def d' by (auto simp: wait_row_fits_def list_all_iff journal_has_def)
qed

lemma close_wait_ok:
  assumes ok: "waits_ok d" and close: "close_wait ev handle status matched d = Ok d'"
    and status: "status \<noteq> WaitActive" "status = WaitMatched \<longleftrightarrow> matched \<noteq> None"
  shows "waits_ok d'"
proof -
  let ?named = "\<lambda>w. wt_handle w = handle \<and> wt_status w = ''active''"
  let ?f = "\<lambda>w. w\<lparr>wt_status := wait_status_str status, wt_matched_event_id := matched, wt_terminal_event_id := Some (ev_id ev),
      wt_updated_at := ev_timestamp_ms ev\<rparr>"
  from close have d': "d' = d\<lparr>db_waits := sql_update ?named ?f (db_waits d)\<rparr>"
    by (auto simp: close_wait_def Let_def split: if_splits)
  have "map wt_handle (db_waits d') = map wt_handle (db_waits d)" unfolding d' by (simp add: sql_update_map)
  moreover have active: "filter (\<lambda>w. wt_status w = ''active'') (sql_update ?named ?f rows)
      = filter (\<lambda>w. wt_handle w \<noteq> handle) (filter (\<lambda>w. wt_status w = ''active'') rows)" for rows
    using status(1) by (induction rows) (auto simp: sql_update_def)
  have "distinct (map wt_session_id (filter (\<lambda>w. wt_handle w \<noteq> handle) (filter (\<lambda>w. wt_status w = ''active'') (db_waits d))))"
    by (rule distinct_map_filter) (use ok in \<open>simp add: waits_ok_def\<close>)
  then have "distinct (map wt_session_id (filter (\<lambda>w. wt_status w = ''active'') (db_waits d')))"
    unfolding active [of "db_waits d", symmetric] d' by simp
  moreover have "(\<exists>s. wt_status w = wait_status_str s) \<and> (wt_status w = ''active'' \<longleftrightarrow> wt_terminal_event_id w = None)
          \<and> (wt_status w = ''matched'' \<longleftrightarrow> wt_matched_event_id w \<noteq> None)
          \<and> journal_has d' (wt_created_event_id w) \<and> \<not> prefix ''runtime.'' (wt_event_type w)" if "w \<in> set (db_waits d')" for w
  proof -
    from that obtain w0 where w0: "w0 \<in> set (db_waits d)" "w = (if ?named w0 then ?f w0 else w0)"
      unfolding d' by (auto simp: in_sql_update)
    show ?thesis
    proof (cases "?named w0")
      case True
      then have w: "w = ?f w0" using w0(2) by simp
      have "journal_has d' (wt_created_event_id w0) \<and> \<not> prefix ''runtime.'' (wt_event_type w0)"
        using ok w0(1) unfolding d' by (simp add: waits_ok_def journal_has_def)
      then show ?thesis unfolding w using status by (simp, blast)
    next
      case False
      then have "w = w0" unfolding w0(2) by (rule if_not_P)
      then show ?thesis using ok w0(1) unfolding d' by (simp add: waits_ok_def journal_has_def)
    qed
  qed
  ultimately show ?thesis using ok by (simp add: waits_ok_def)
qed

lemma index_wait_ok:
  assumes ok: "waits_ok d" and ix: "index_wait E T ev d = Ok d'"
  shows "waits_ok d'"
  using ix unfolding index_wait_def index_wait_created_def index_wait_terminal_def
  by (auto elim!: and_then_OkE intro: close_wait_ok [OF ok] split: if_splits) (erule insert_wait_ok [OF ok]; simp)

lemma publication_status_str_eqs [simp]:
  "deferred_publication_status_str s = ''pending'' \<longleftrightarrow> s = PublicationPending"
  "deferred_publication_status_str s = ''published'' \<longleftrightarrow> s = PublicationPublished"
  by (cases s; simp)+

lemma insert_deferred_ok:
  assumes "deferred_ok d" "insert_deferred p d = Ok d'" "dp_status p = ''pending''" "dp_terminal_event_id p = None"
    "dp_published_event_id p = None" "\<not> prefix ''runtime.'' (dp_event_type p)"
  shows "deferred_ok d'"
proof -
  from assms(2) have fits: "deferred_row_fits d p" and d': "d' = d\<lparr>db_deferred := db_deferred d @ [p]\<rparr>"
    by (auto simp: insert_deferred_def result_simps)
  have "\<exists>s. ''pending'' = deferred_publication_status_str s" by (rule exI [of _ PublicationPending]) simp
  then show ?thesis
    using assms(1,3-6) fits unfolding deferred_ok_def d' by (auto simp: deferred_row_fits_def list_all_iff journal_has_def)
qed

lemma close_deferred_ok:
  assumes ok: "deferred_ok d" and close: "close_deferred ev handle status published d = Ok d'"
    and status: "status \<noteq> PublicationPending" "status = PublicationPublished \<longleftrightarrow> published \<noteq> None"
  shows "deferred_ok d'"
proof -
  let ?named = "\<lambda>p. dp_handle p = handle \<and> dp_status p \<in> {''pending'', ''claimed''}"
  let ?f = "\<lambda>p. p\<lparr>dp_status := deferred_publication_status_str status, dp_published_event_id := published,
      dp_terminal_event_id := Some (ev_id ev), dp_updated_at := ev_timestamp_ms ev\<rparr>"
  from close have d': "d' = d\<lparr>db_deferred := sql_update ?named ?f (db_deferred d)\<rparr>"
    by (auto simp: close_deferred_def Let_def split: if_splits)
  have "map dp_handle (db_deferred d') = map dp_handle (db_deferred d)" unfolding d' by (simp add: sql_update_map)
  moreover have "(\<exists>s. dp_status p = deferred_publication_status_str s) \<and> 0 \<le> dp_position p
          \<and> (dp_status p = ''pending'' \<longleftrightarrow> dp_terminal_event_id p = None)
          \<and> (dp_status p = ''published'' \<longleftrightarrow> dp_published_event_id p \<noteq> None)
          \<and> journal_has d' (dp_created_event_id p) \<and> \<not> prefix ''runtime.'' (dp_event_type p)" if "p \<in> set (db_deferred d')" for p
  proof -
    from that obtain p0 where p0: "p0 \<in> set (db_deferred d)" "p = (if ?named p0 then ?f p0 else p0)"
      unfolding d' by (auto simp: in_sql_update)
    show ?thesis
    proof (cases "?named p0")
      case True
      then have p: "p = ?f p0" using p0(2) by simp
      have "0 \<le> dp_position p0 \<and> journal_has d' (dp_created_event_id p0) \<and> \<not> prefix ''runtime.'' (dp_event_type p0)"
        using ok p0(1) unfolding d' by (simp add: deferred_ok_def journal_has_def)
      then show ?thesis unfolding p using status by (simp, blast)
    next
      case False
      then have "p = p0" unfolding p0(2) by (rule if_not_P)
      then show ?thesis using ok p0(1) unfolding d' by (simp add: deferred_ok_def journal_has_def)
    qed
  qed
  ultimately show ?thesis using ok by (simp add: deferred_ok_def)
qed

lemma index_deferred_ok:
  assumes ok: "deferred_ok d" and ix: "index_deferred_publication E T ev d = Ok d'"
  shows "deferred_ok d'"
  using ix unfolding index_deferred_publication_def index_deferred_publication_created_def index_deferred_publication_terminal_def
  by (auto elim!: and_then_OkE intro: close_deferred_ok [OF ok] split: if_splits) (erule insert_deferred_ok [OF ok]; simp)

section \<open>Effects\<close>

lemma index_effect_ok:
  assumes ok: "effects_ok d" and ix: "index_effect E ev d = Ok d'"
  shows "effects_ok d'"
proof -
  from ix obtain f where f: "effect_fields_of_event E ev = Ok f"
    and d': "(if ff_status f = EffectPlanned then index_effect_planned ev f d else index_effect_changed E ev f d) = Ok d'"
    by (auto simp: index_effect_def result_simps)
  note valid = effect_fields_valid [OF f]
  have keys: "distinct (map ef_key (db_effects d'))" using index_effect_step(1) [OF ix] ok by (simp add: effects_ok_def)
  show ?thesis
  proof (cases "ff_status f = EffectPlanned")
    case True
    with d' obtain r where r: "d' = d\<lparr>db_effects := db_effects d @ [r]\<rparr>" "ef_status r = effect_status_str EffectPlanned"
      "ef_semantics r = effect_semantics_str (ff_semantics f)" "ef_result_json r = None" "ef_terminal_event_id r = None"
      "ef_delivery_attempts r = 0"
      by (auto simp: index_effect_planned_def result_simps Let_def split: if_splits)
    have "\<exists>status semantics. ef_status r = effect_status_str status \<and> ef_semantics r = effect_semantics_str semantics
          \<and> (effect_status_is_terminal status \<longleftrightarrow> ef_result_json r \<noteq> None)
          \<and> (effect_status_is_terminal status \<longleftrightarrow> ef_terminal_event_id r \<noteq> None)
          \<and> (status = EffectAmbiguous \<longrightarrow> semantics = UnsafeToRetry) \<and> (status = EffectFailed \<longrightarrow> semantics \<noteq> UnsafeToRetry)
          \<and> 0 \<le> ef_delivery_attempts r \<and> ef_delivery_attempts r < 2 ^ 32"
      using r(2-6) by (intro exI [of _ EffectPlanned] exI [of _ "ff_semantics f"]) (simp add: effect_status_is_terminal_def)
    then show ?thesis using ok keys unfolding r(1) effects_ok_def by simp
  next
    case False
    with d' have ch: "index_effect_changed E ev f d = Ok d'" by simp
    from ch valid obtain s n where s: "s \<in> set (db_effects d)" "ef_key s = ff_key f" "ef_semantics s = effect_semantics_str (ff_semantics f)"
      "n < 2 ^ 32"
      and upd: "d' = d\<lparr>db_effects := sql_update (\<lambda>r. ef_key r = ff_key f) (changed_effect E ev f n) (db_effects d)\<rparr>"
      by (rule index_effect_changed_row)
    have "\<exists>status semantics. ef_status r = effect_status_str status \<and> ef_semantics r = effect_semantics_str semantics
          \<and> (effect_status_is_terminal status \<longleftrightarrow> ef_result_json r \<noteq> None)
          \<and> (effect_status_is_terminal status \<longleftrightarrow> ef_terminal_event_id r \<noteq> None)
          \<and> (status = EffectAmbiguous \<longrightarrow> semantics = UnsafeToRetry) \<and> (status = EffectFailed \<longrightarrow> semantics \<noteq> UnsafeToRetry)
          \<and> 0 \<le> ef_delivery_attempts r \<and> ef_delivery_attempts r < 2 ^ 32" if r: "r \<in> set (db_effects d')" for r
    proof -
      from r obtain r0 where r0: "r0 \<in> set (db_effects d)" "r = (if ef_key r0 = ff_key f then changed_effect E ev f n r0 else r0)"
        unfolding upd by (auto simp: in_sql_update)
      show ?thesis
      proof (cases "ef_key r0 = ff_key f")
        case True
        then have "r0 = s" using ok s(1,2) r0(1) distinct_map_eq [of ef_key "db_effects d" r0 s] by (simp add: effects_ok_def)
        then show ?thesis
          using True r0(2) s(3,4) valid
          by (intro exI [of _ "ff_status f"] exI [of _ "ff_semantics f"])
            (auto simp: changed_effect_def validate_effect_result_def split: if_splits)
      next
        case False
        then show ?thesis using ok r0 unfolding effects_ok_def by simp
      qed
    qed
    then show ?thesis using keys by (simp add: effects_ok_def)
  qed
qed

section \<open>Appends\<close>

lemma tables_ok_grow: "tables_ok d \<Longrightarrow> tables_ok (grow rows d)"
  by (simp add: tables_ok_def items_ok_def attempts_ok_def waits_ok_def deferred_ok_def effects_ok_def journal_has_grow)

lemma tables_ok_queue:
  assumes "tables_ok d" "items_ok d'" "attempts_ok d'" "db_waits d' = db_waits d" "db_deferred d' = db_deferred d"
    "db_effects d' = db_effects d" "db_journal d' = db_journal d"
  shows "tables_ok d'"
  using assms by (simp add: tables_ok_def waits_ok_def deferred_ok_def effects_ok_def journal_has_def)

lemma tables_ok_frame:
  assumes "tables_ok d" "d' = d\<lparr>db_waits := ws, db_deferred := ps, db_effects := es\<rparr>" "waits_ok d'" "deferred_ok d'" "effects_ok d'"
  shows "tables_ok d'"
  using assms by (simp add: tables_ok_def items_ok_def attempts_ok_def journal_has_def)

lemma index_event_ok:
  assumes ok: "tables_ok d" and ix: "index_event E T ev d = Ok d'"
  shows "tables_ok d'"
proof -
  note parts = ok [unfolded tables_ok_def]
  have "index_effect E ev d = Ok d' \<or> index_wait E T ev d = Ok d' \<or> index_deferred_publication E T ev d = Ok d'
    \<or> index_queue_item_cancel_requested ev d = Ok d' \<or> index_queue_item E ev d = Ok d' \<or> index_attempt E ev d = Ok d'
    \<or> index_pending_queue_item ev d = Ok d' \<or> d' = d"
    using ix unfolding index_event_def by (simp split: if_splits)
  then consider "index_effect E ev d = Ok d'" | "index_wait E T ev d = Ok d'" | "index_deferred_publication E T ev d = Ok d'"
    | "index_queue_item_cancel_requested ev d = Ok d'" | "index_queue_item E ev d = Ok d'" | "index_attempt E ev d = Ok d'"
    | "index_pending_queue_item ev d = Ok d'" | "d' = d"
    by blast
  then show ?thesis
  proof cases
    case 1
    obtain es where d': "d' = d\<lparr>db_effects := es\<rparr>" by (rule index_effect_frame [OF 1])
    show ?thesis
      by (rule tables_ok_frame [OF ok, where ws = "db_waits d" and ps = "db_deferred d" and es = es])
        (use parts index_effect_ok [OF _ 1] in \<open>simp_all add: d' waits_ok_def deferred_ok_def journal_has_def\<close>)
  next
    case 2
    obtain ws where d': "d' = d\<lparr>db_waits := ws\<rparr>" by (rule index_wait_frame [OF 2])
    show ?thesis
      by (rule tables_ok_frame [OF ok, where ws = ws and ps = "db_deferred d" and es = "db_effects d"])
        (use parts index_wait_ok [OF _ 2] in \<open>simp_all add: d' effects_ok_def deferred_ok_def journal_has_def\<close>)
  next
    case 3
    obtain ps where d': "d' = d\<lparr>db_deferred := ps\<rparr>" by (rule index_deferred_frame [OF 3])
    show ?thesis
      by (rule tables_ok_frame [OF ok, where ws = "db_waits d" and ps = ps and es = "db_effects d"])
        (use parts index_deferred_ok [OF _ 3] in \<open>simp_all add: d' effects_ok_def waits_ok_def journal_has_def\<close>)
  next
    case 4
    from index_cancel_requested_frame [OF this] show ?thesis
      using index_cancel_ok [OF _ _ 4] parts by (intro tables_ok_queue [OF ok]) (simp_all add: apart_from_queue_def)
  next
    case 5
    from index_queue_item_frame [OF this] show ?thesis
      using index_queue_item_ok [OF _ _ 5] parts by (intro tables_ok_queue [OF ok]) (simp_all add: apart_from_queue_def)
  next
    case 6
    from index_attempt_frame [OF this] show ?thesis
      using index_attempt_ok [OF _ _ 6] parts by (intro tables_ok_queue [OF ok]) (simp_all add: apart_from_attempts_def)
  next
    case 7
    from index_pending_queue_item_frame [OF this] show ?thesis
      using index_pending_ok [OF _ _ 7] parts by (intro tables_ok_queue [OF ok]) (simp_all add: apart_from_queue_def)
  qed (simp add: ok)
qed

lemma append_trusted_ok:
  assumes ok: "tables_ok d" and app: "append_trusted_event E T ev d = Ok (d', out)"
  shows "tables_ok d'"
proof -
  from app obtain d1 where d1: "append_in_transaction E ev d = Ok (d1, out)"
    and d': "if out_inserted out then index_event E T (out_event out) d1 = Ok d' else d' = d1"
    by (auto simp: append_trusted_event_def result_simps split: if_splits)
  have "tables_ok d1" using append_in_transaction_rows [OF d1] ok tables_ok_grow by auto
  then show ?thesis using d' index_event_ok by (auto split: if_splits)
qed

lemma tables_ok_empty: "tables_ok db_empty"
  by (simp add: tables_ok_def items_ok_def attempts_ok_def waits_ok_def deferred_ok_def effects_ok_def db_empty_def)

lemma dispatch_append_tables: "tables_ok d \<Longrightarrow> tables_ok (fst (dispatch_append E T d ev))"
  by (auto simp: dispatch_append_def dest: append_trusted_ok split: sum.splits)

section \<open>Properties\<close>

text \<open>C10: the tables of a Dispatch database stay well formed whatever events are appended, accepted or refused: keys are
  unique, an event is queued at most once for an agent, every status is a word of its vocabulary, an attempt belongs to
  an item and to a journalled event, a session has at most one active wait, a wait or a publication or an effect has a
  terminal event exactly when its status is terminal, no wait is for and no publication of a reserved event
  type, and only an unsafe effect is ambiguous.\<close>

theorem tables_stay_well_formed:
  "tables_ok d \<Longrightarrow> tables_ok (foldl (\<lambda>d ev. fst (dispatch_append E T d ev)) d evs)"
proof (induction evs arbitrary: d)
  case (Cons ev evs)
  then show ?case using dispatch_append_tables by simp
qed simp

section \<open>Witnesses\<close>

theorem tables_stay_well_formed_witness:
  "\<exists>d. map qi_status (db_queue_items d) = [''pending''] \<and> tables_ok d"
proof -
  obtain d out where d: "append_trusted_event journal_env no_time sample_event db_empty = Ok (d, out)"
    "map qi_status (db_queue_items d) = [''pending'']" by (rule sample_append_trusted)
  have "tables_ok d"
    using tables_stay_well_formed [OF tables_ok_empty, where E = journal_env and T = no_time and evs = "[sample_event]"]
    by (simp add: dispatch_append_def d(1))
  with d(2) show ?thesis by (intro exI [of _ d] conjI)
qed

end
