(* ===== verification/Json_Reader.thy ===== *)
theory Json_Reader
  imports Sql_Journal
begin

text \<open>
  A reader for the sample environment: it reads back what the canonical encoder prints there, so that the hypotheses
  on the JSON parser can be discharged for every payload and not for one only.
\<close>

section \<open>The reader\<close>

fun read_quoted :: "string \<Rightarrow> (string \<times> string) option" where
  "read_quoted [] = None"
| "read_quoted (c # r) =
     (if c = CHR 0x22 then Some ([], r)
      else if c = CHR 0x5C then (case r of
          [] \<Rightarrow> None
        | c' # r' \<Rightarrow> map_option (\<lambda>(s, r). (c' # s, r)) (read_quoted r'))
      else map_option (\<lambda>(s, r). (c # s, r)) (read_quoted r))"

definition strip :: "string \<Rightarrow> string \<Rightarrow> string option" where
  "strip p s = (if prefix p s then Some (drop (length p) s) else None)"

definition read_number :: "string \<Rightarrow> (json \<times> string) option" where
  "read_number s = (let t = takeWhile (\<lambda>c. c \<in> literal_chars) s in
     if t = [] then None else Some (JNumber (Number t), dropWhile (\<lambda>c. c \<in> literal_chars) s))"

fun read_value :: "nat \<Rightarrow> string \<Rightarrow> (json \<times> string) option"
and read_elements :: "nat \<Rightarrow> string \<Rightarrow> (json list \<times> string) option"
and read_members :: "nat \<Rightarrow> string \<Rightarrow> ((string \<times> json) list \<times> string) option" where
  "read_value 0 s = None"
| "read_value (Suc n) s = (case s of
     [] \<Rightarrow> None
   | c # r \<Rightarrow>
       if c = CHR 0x22 then map_option (\<lambda>(t, r). (JString t, r)) (read_quoted r)
       else if c = CHR ''['' then
         (if r \<noteq> [] \<and> hd r = CHR '']'' then Some (JArray [], tl r) else map_option (\<lambda>(vs, r). (JArray vs, r)) (read_elements n r))
       else if c = CHR ''{'' then
         (if r \<noteq> [] \<and> hd r = CHR ''}'' then Some (JObject [], tl r) else map_option (\<lambda>(vs, r). (JObject vs, r)) (read_members n r))
       else if c = CHR ''n'' then map_option (\<lambda>r. (JNull, r)) (strip ''null'' s)
       else if c = CHR ''t'' then map_option (\<lambda>r. (JBool True, r)) (strip ''true'' s)
       else if c = CHR ''f'' then map_option (\<lambda>r. (JBool False, r)) (strip ''false'' s)
       else read_number s)"
| "read_elements 0 s = None"
| "read_elements (Suc n) s = (case read_value n s of
     None \<Rightarrow> None
   | Some (v, r) \<Rightarrow>
       if r = [] then None
       else if hd r = CHR '']'' then Some ([v], tl r)
       else if hd r = CHR '','' then map_option (\<lambda>(vs, r). (v # vs, r)) (read_elements n (tl r))
       else None)"
| "read_members 0 s = None"
| "read_members (Suc n) s =
     (if s = [] \<or> hd s \<noteq> CHR 0x22 then None
      else case read_quoted (tl s) of
        None \<Rightarrow> None
      | Some (k, s) \<Rightarrow>
          if s = [] \<or> hd s \<noteq> CHR '':'' then None
          else case read_value n (tl s) of
            None \<Rightarrow> None
          | Some (v, r) \<Rightarrow>
              if r = [] then None
              else if hd r = CHR ''}'' then Some ([(k, v)], tl r)
              else if hd r = CHR '','' then map_option (\<lambda>(kvs, r). ((k, v) # kvs, r)) (read_members n (tl r))
              else None)"

definition read_json :: "string \<Rightarrow> json option" where
  "read_json s = (case read_value (length s) s of Some (v, []) \<Rightarrow> Some v | _ \<Rightarrow> None)"

section \<open>Reading what was printed\<close>

lemma read_quoted_body: "read_quoted (concat (map escape_char s) @ CHR 0x22 # r) = Some (s, r)"
  by (induction s) (auto simp: escape_char_def)

lemma read_quoted_sample: "read_quoted (tl (sample_quote s) @ r) = Some (s, r)"
  by (simp add: sample_quote_def read_quoted_body)

lemma sample_quote_Cons: "sample_quote s = CHR 0x22 # tl (sample_quote s)"
  by (simp add: sample_quote_def)

lemma read_number_literal:
  assumes "number_literal t" "delimited r"
  shows "read_number (t @ r) = Some (JNumber (Number t), r)"
proof -
  have r: "r = [] \<or> hd r \<notin> literal_chars" using assms(2) by (auto simp: delimited_def)
  have "takeWhile (\<lambda>c. c \<in> literal_chars) (t @ r) = t" "dropWhile (\<lambda>c. c \<in> literal_chars) (t @ r) = r"
    using assms(1) r by (auto simp: number_literal_def takeWhile_append dropWhile_append takeWhile_eq_Nil_iff dropWhile_eq_self_iff subset_iff)
  then show ?thesis using assms(1) by (simp add: read_number_def number_literal_def)
qed

definition reads_value :: "json \<Rightarrow> bool" where
  "reads_value v \<longleftrightarrow> (\<forall>n r. delimited r \<longrightarrow> length (enc sample_quote v) \<le> n \<longrightarrow> read_value n (enc sample_quote v @ r) = Some (v, r))"

lemma reads_valueD: "reads_value v \<Longrightarrow> delimited r \<Longrightarrow> length (enc sample_quote v) \<le> n \<Longrightarrow> read_value n (enc sample_quote v @ r) = Some (v, r)"
  by (simp add: reads_value_def)

lemma enc_nonempty: "literals_ok v \<Longrightarrow> enc sample_quote v \<noteq> [] \<and> hd (enc sample_quote v) \<notin> {CHR '','', CHR '']'', CHR ''}''}"
  by (rule enc_start [OF sample_quote_law])

lemma read_elements_printed:
  assumes "vs \<noteq> []" "\<forall>v \<in> set vs. literals_ok v \<and> reads_value v"
    and "length (commas (map (enc sample_quote) vs)) < n"
  shows "read_elements n (commas (map (enc sample_quote) vs) @ CHR '']'' # r) = Some (vs, r)"
  using assms
proof (induction vs arbitrary: n)
  case (Cons v vs)
  obtain m where n: "n = Suc m" using Cons.prems(3) by (cases n) auto
  have v: "length (enc sample_quote v) \<le> m" "1 \<le> length (enc sample_quote v)"
    using Cons.prems(2,3) enc_nonempty [of v] n by (auto simp: commas_Cons Suc_le_eq)
  show ?case
  proof (cases vs)
    case Nil
    have "read_value m (enc sample_quote v @ CHR '']'' # r) = Some (v, CHR '']'' # r)"
      using Cons.prems(2) v(1) by (intro reads_valueD) (simp_all add: delimited_def)
    then show ?thesis by (simp add: n Nil)
  next
    case (Cons w ws)
    let ?rest = "commas (map (enc sample_quote) vs) @ CHR '']'' # r"
    have "read_value m (enc sample_quote v @ CHR '','' # ?rest) = Some (v, CHR '','' # ?rest)"
      using Cons.prems(2) v(1) by (intro reads_valueD) (simp_all add: delimited_def)
    moreover have "read_elements m ?rest = Some (vs, r)"
      using Cons.prems n v(2) \<open>vs = w # ws\<close> by (intro Cons.IH) (auto simp: commas_Cons lead_def)
    ultimately show ?thesis using \<open>vs = w # ws\<close> by (simp add: n)
  qed
qed simp

lemma read_members_printed:
  assumes "kvs \<noteq> []" "\<forall>(k, v) \<in> set kvs. reads_value v"
    and "length (commas (map (\<lambda>(k, v). sample_quote k @ '':'' @ enc sample_quote v) kvs)) < n"
  shows "read_members n (commas (map (\<lambda>(k, v). sample_quote k @ '':'' @ enc sample_quote v) kvs) @ CHR ''}'' # r) = Some (kvs, r)"
  using assms
proof (induction kvs arbitrary: n)
  case (Cons kv kvs)
  obtain k v where kv: "kv = (k, v)" by (cases kv)
  let ?f = "\<lambda>(k, v). sample_quote k @ '':'' @ enc sample_quote v"
  obtain m where n: "n = Suc m" using Cons.prems(3) by (cases n) auto
  have v: "length (enc sample_quote v) \<le> m"
    using Cons.prems(3) n by (auto simp: commas_Cons kv)
  have key: "read_quoted (tl (sample_quote k @ CHR '':'' # x)) = Some (k, CHR '':'' # x)" "sample_quote k @ x \<noteq> []"
    "hd (sample_quote k @ x) = CHR 0x22" for x
    using read_quoted_sample [of k "CHR '':'' # x"] by (subst sample_quote_Cons; simp)+
  show ?case
  proof (cases kvs)
    case Nil
    have "read_value m (enc sample_quote v @ CHR ''}'' # r) = Some (v, CHR ''}'' # r)"
      using Cons.prems(2) v(1) by (intro reads_valueD) (simp_all add: delimited_def kv)
    then show ?thesis using key by (simp add: n Nil kv)
  next
    case (Cons w ws)
    let ?rest = "commas (map ?f kvs) @ CHR ''}'' # r"
    have "read_value m (enc sample_quote v @ CHR '','' # ?rest) = Some (v, CHR '','' # ?rest)"
      using Cons.prems(2) v(1) by (intro reads_valueD) (simp_all add: delimited_def kv)
    moreover have "read_members m ?rest = Some (kvs, r)"
      using Cons.prems n \<open>kvs = w # ws\<close> by (intro Cons.IH) (auto simp: commas_Cons lead_def kv)
    ultimately show ?thesis using \<open>kvs = w # ws\<close> key by (simp add: n kv)
  qed
qed simp

lemma reads_printed: "literals_ok v \<Longrightarrow> reads_value v"
proof (induction v)
  case (JNumber x)
  obtain t where x: "x = Number t" by (cases x)
  then have t: "number_literal t" using JNumber by simp
  then obtain c t' where c: "t = c # t'" "c \<in> literal_chars" using number_literal_start [of t] by (cases t) auto
  show ?case
    unfolding reads_value_def
  proof (intro allI impI)
    fix n r assume "delimited r" "length (enc sample_quote (JNumber x)) \<le> n"
    moreover have "c \<noteq> CHR 0x22 \<and> c \<noteq> CHR ''['' \<and> c \<noteq> CHR ''{'' \<and> c \<noteq> CHR ''n'' \<and> c \<noteq> CHR ''t'' \<and> c \<noteq> CHR ''f''"
      using c(2) literal_chars_disjoint by metis
    ultimately show "read_value n (enc sample_quote (JNumber x) @ r) = Some (JNumber x, r)"
      using read_number_literal [OF t] x c by (cases n) auto
  qed
next
  case (JArray vs)
  show ?case
    unfolding reads_value_def
  proof (intro allI impI)
    fix n r assume n: "length (enc sample_quote (JArray vs)) \<le> n"
    then obtain m where m: "n = Suc m" by (cases n) auto
    show "read_value n (enc sample_quote (JArray vs) @ r) = Some (JArray vs, r)"
    proof (cases vs)
      case (Cons v ws)
      have hd: "hd (commas (map (enc sample_quote) vs) @ x) \<noteq> CHR '']''" for x
        using enc_nonempty [of v] JArray.prems Cons by (auto simp: commas_Cons hd_append)
      show ?thesis
        using read_elements_printed [of vs m r] JArray n m Cons hd by simp
    qed (simp add: m)
  qed
next
  case (JObject kvs)
  have enc: "enc sample_quote (JObject kvs) = ''{'' @ commas (map (\<lambda>(k, v). sample_quote k @ '':'' @ enc sample_quote v) kvs) @ ''}''"
    by (simp add: split_def comp_def)
  show ?case
    unfolding reads_value_def
  proof (intro allI impI)
    fix n r assume n: "length (enc sample_quote (JObject kvs)) \<le> n"
    then obtain m where m: "n = Suc m" by (cases n) auto
    have vs: "\<forall>(k, v) \<in> set kvs. reads_value v" using JObject by fastforce
    show "read_value n (enc sample_quote (JObject kvs) @ r) = Some (JObject kvs, r)"
    proof (cases kvs)
      case (Cons kv ws)
      have hd: "hd (commas (map (\<lambda>(k, v). sample_quote k @ '':'' @ enc sample_quote v) kvs) @ x) \<noteq> CHR ''}''" for x
        using Cons by (auto simp: commas_Cons hd_append sample_quote_def split_def)
      show ?thesis
        using read_members_printed [OF _ vs, of m r] n m Cons hd unfolding enc by simp
    qed (simp add: m)
  qed
qed (auto simp: reads_value_def strip_def sample_quote_def read_quoted_body Suc_le_eq elim!: less_natE)

lemma read_json_printed: "literals_ok v \<Longrightarrow> read_json (enc sample_quote v) = Some v"
  using reads_valueD [OF reads_printed, of v "[]" "length (enc sample_quote v)"] by (simp add: read_json_def delimited_def)

section \<open>The environment with the reader\<close>

definition reading_env :: env where
  "reading_env = sample_env\<lparr>json_parse := read_json\<rparr>"

lemma reading_python_number: "python_number reading_env = python_number sample_env"
  by (rule ext) (simp add: python_number_def reading_env_def)

lemma reading_env_laws: "digest_law reading_env" "integer_printing reading_env" "integer_views reading_env" "json_printing reading_env"
  using sample_digest_law sample_integer_printing sample_integer_views sample_json_printing
  by (simp_all add: digest_law_def integer_printing_def integer_views_def json_printing_def reading_python_number)
    (simp_all add: reading_env_def)

lemma reading_canonical:
  "canonical_payload reading_env m = Ok b \<longleftrightarrow> encodable reading_env (JObject m) \<and> b = enc sample_quote (normal reading_env (JObject m))"
proof -
  have "json_quote reading_env = sample_quote" by (simp add: reading_env_def sample_env_def)
  then show ?thesis unfolding canonical_payload_def canonical_json_def write_value_Ok_iff by simp
qed

lemma reading_parse: "canonical_payload reading_env m = Ok b \<Longrightarrow> json_parse reading_env b = Some (normal reading_env (JObject m))"
proof -
  assume "canonical_payload reading_env m = Ok b"
  then have "encodable reading_env (JObject m)" "b = enc sample_quote (normal reading_env (JObject m))"
    by (simp_all only: reading_canonical)
  moreover have "json_parse reading_env = read_json" by (simp add: reading_env_def)
  ultimately show "json_parse reading_env b = Some (normal reading_env (JObject m))"
    by (simp only: read_json_printed literals_ok_normal [OF reading_env_laws(4)])
qed

lemma python_number_reading: "python_number reading_env n = Ok t \<Longrightarrow> python_number reading_env (Number t) = Ok t"
  unfolding reading_python_number
  by (auto simp: python_number_def sample_env_def sample_i64_def sample_literal_def Let_def split: if_splits list.splits number.splits)

lemma normal_twice: "encodable reading_env v \<Longrightarrow> encodable reading_env (normal reading_env v) \<and> normal reading_env (normal reading_env v) = normal reading_env v"
proof (induction v)
  case (JNumber n)
  then obtain t where t: "python_number reading_env n = Ok t" by (auto simp: is_ok_iff)
  then show ?case using python_number_reading [OF t] by (simp add: is_ok_iff number_text_def)
next
  case (JObject kvs)
  let ?f = "normal reading_env"
  have same: "map (map_prod id ?f) (map (map_prod id ?f) kvs) = map (map_prod id ?f) kvs"
    using JObject by (auto simp: comp_def)
  have "encodable reading_env (normal reading_env (JObject kvs))" using JObject by (fastforce simp: split_def)
  moreover have "?f (?f (JObject kvs)) = ?f (JObject kvs)"
    unfolding normal.simps json.inject sort_key_map_prod [symmetric] same by (rule sort_key_id_if_sorted) simp
  ultimately show ?case by blast
qed (auto simp: list_all_iff)

lemma reading_env_readable: "readable reading_env ev"
  unfolding readable_def
proof (intro allI impI)
  fix b assume b: "canonical_payload reading_env (ev_payload ev) = Ok b"
  let ?m = "sort_key fst (map (map_prod id (normal reading_env)) (ev_payload ev))"
  have n: "normal reading_env (JObject (ev_payload ev)) = JObject ?m" by simp
  have "canonical_payload reading_env ?m = Ok b"
    using b normal_twice [of "JObject (ev_payload ev)"] unfolding reading_canonical n by simp
  then show "\<exists>m. json_parse reading_env b = Some (JObject m) \<and> canonical_payload reading_env m = Ok b"
    using reading_parse [OF b] n by auto
qed

lemma distinct_sorted_keys: "distinct (map fst (sort_key fst kvs)) \<longleftrightarrow> distinct (map fst kvs)"
proof -
  have "mset (map fst (sort_key fst kvs)) = mset (map fst kvs)" by simp
  then show ?thesis by (rule mset_eq_imp_distinct_iff)
qed

lemma normal_literal: "literals_ok v \<Longrightarrow> encodable reading_env v \<Longrightarrow> wf_json v \<Longrightarrow> json_same v (normal reading_env v)"
proof (induction v)
  case (JNumber n)
  then show ?case
    unfolding encodable.simps reading_python_number
    by (auto simp: number_text_def reading_python_number python_number_def sample_env_def sample_literal_def number_literal_def
        is_ok_iff list_all_iff subset_iff Let_def split: number.splits if_splits)
next
  case (JArray vs)
  then show ?case by (auto simp: list_all_iff set_zip)
next
  case (JObject kvs)
  let ?kvs = "sort_key fst (map (map_prod id (normal reading_env)) kvs)"
  have d: "distinct (map fst ?kvs)"
    using JObject.prems(3) by (simp add: distinct_sorted_keys comp_def)
  have "map_get ?kvs k = Some (normal reading_env v)" if "(k, v) \<in> set kvs" for k v
    using that by (intro map_of_is_SomeI [OF d]) (auto intro!: rev_image_eqI)
  moreover have "json_same v (normal reading_env v)" if "(k, v) \<in> set kvs" for k v
    using that JObject.IH [OF that, of v] JObject.prems by fastforce
  ultimately show ?case by (auto simp: list_all_iff split: option.splits)
qed simp_all

end
