(* ===== verification/Samples.thy ===== *)
theory Samples
  imports Table_Invariants Json_Reader
begin

text \<open>
  When an append is accepted, and a first database on which the hypotheses of the Dispatch properties hold.
\<close>

section \<open>Accepted appends\<close>

definition appendable :: "event \<Rightarrow> bool" where
  "appendable ev \<longleftrightarrow> sql_nonempty (ev_id ev) \<and> sql_nonempty (ev_event_type ev) \<and> sql_nonempty (ev_source ev) \<and> is_i64 (ev_timestamp_ms ev)"

lemma append_accepts:
  assumes inv: "sql_inv E d" and E: "integer_printing E" and ev: "appendable ev" "canonical_payload E (ev_payload ev) = Ok b"
    and fresh: "ev_id ev \<notin> set (je_ids (sql_entries E d))"
      "\<forall>k. ev_idempotency_key ev = Some k \<longrightarrow> k \<notin> set (je_keys (sql_entries E d))"
    and room: "length (db_journal d) < 2 ^ 63 - 1"
  obtains row where "append_in_transaction E ev d = Ok (grow [row] d,
      \<lparr>out_event = ev\<lparr>ev_cursor := Some (Suc (length (db_journal d)))\<rparr>, out_inserted = True\<rparr>)"
    "se_event_id row = ev_id ev" "se_cursor row = int (Suc (length (db_journal d)))" "se_event_type row = ev_event_type ev"
proof -
  let ?es = "sql_entries E d" and ?n = "Suc (length (db_journal d))"
  note len = list_all2_lengthD [OF sql_invD(4) [OF inv]]
  note entry = journal_entry_new_total [OF E _ _ ev(2), of ?n "journal_head ?es"]
  have ids: "ev_id ev \<noteq> []" "ev_event_type ev \<noteq> []" "ev_source ev \<noteq> []" using ev(1) by (auto simp: appendable_def sql_nonempty_def)
  define e where "e = \<lparr>je_event = ev\<lparr>ev_cursor := Some ?n\<rparr>, je_payload_bytes = b, je_payload_address = payload_address E b,
     je_previous_address = journal_head ?es, je_entry_address = derive E DomainChain
       (enc (json_quote E) (normal E (chain_value E ev (payload_address E b) (journal_head ?es))))\<rparr>"
  have new: "journal_entry_new E ev ?n (journal_head ?es) = Ok e"
    unfolding e_def using ev(1) ids by (intro entry) (simp_all add: appendable_def validate_identity_fields_def)
  have law: "digest_law E" by (rule sql_invD(1) [OF inv])
  have wf: "wf_hash (je_payload_address e)" "wf_hash (je_entry_address e)"
    using law by (simp_all add: e_def payload_address_def)
  have head: "case journal_head ?es of Some h \<Rightarrow> length (hash_as_bytes h) = 32 | None \<Rightarrow> True"
    using journal_head_wf [OF law sql_invD(2) [OF inv]] by (auto simp: wf_hash_def split: option.splits)
  have rows: "se_cursor r \<noteq> int ?n \<and> se_event_id r \<noteq> ev_id ev \<and> (ev_idempotency_key ev = None \<or> se_idempotency_key r \<noteq> ev_idempotency_key ev)"
    if r: "r \<in> set (db_journal d)" for r
  proof -
    from r obtain i where i: "i < length (db_journal d)" "r = db_journal d ! i" by (auto simp: in_set_conv_nth)
    define x where "x = ?es ! i"
    have x: "x \<in> set ?es" "into_entry E r = Ok x"
      using i len list_all2_nthD [OF sql_invD(4) [OF inv] i(1)] by (simp_all add: x_def)
    have "map se_cursor (db_journal d) ! i = map int [1..<Suc (length (db_journal d))] ! i" using inv by (simp add: sql_inv_def)
    then have "se_cursor r = int (Suc i)" using i by (simp del: upt_Suc)
    then have "se_cursor r \<noteq> int ?n" using i(1) by simp
    moreover have "se_event_id r \<noteq> ev_id ev"
      using into_entry_id [OF x(2)] x(1) fresh(1) by (auto simp: je_ids_def image_iff)
    moreover have "ev_idempotency_key ev = None \<or> se_idempotency_key r \<noteq> ev_idempotency_key ev"
      using into_entry_key [OF x(2)] x(1) fresh(2) by (cases "ev_idempotency_key ev") (auto simp: set_je_keys image_iff)
    ultimately show ?thesis by simp
  qed
  have ins: "insert_journal_entry (entry_row ?n e) d = Ok (grow [entry_row ?n e] d)"
    using ev(1) wf head rows
    by (auto simp: insert_journal_entry_def sql_insert_def entry_row_def Let_def e_def appendable_def grow_def list_all_iff wf_hash_def
        split: option.splits)
  have "append_new_entry E ev d = Ok (grow [entry_row ?n e] d, \<lparr>out_event = je_event e, out_inserted = True\<rparr>)"
    unfolding append_new_entry_def last_anchor [OF inv]
    using new ins room len by (auto simp: journal_head_def u64_max_def)
  moreover have "find (\<lambda>x. ev_id (je_event x) = ev_id ev) ?es = None" using fresh(1) by (auto simp: find_None_iff je_ids_def image_iff)
  moreover have "(case ev_idempotency_key ev of Some key \<Rightarrow> entry_by_field E ''idempotency_key'' key d | None \<Rightarrow> Ok None) = Ok None"
    using fresh(2) by (auto simp: entry_by_key [OF inv] find_None_iff set_je_keys image_iff split: option.splits)
  ultimately have "append_in_transaction E ev d = Ok (grow [entry_row ?n e] d, \<lparr>out_event = je_event e, out_inserted = True\<rparr>)"
    by (simp add: append_in_transaction_def entry_by_id [OF inv])
  then show thesis
    by (intro that [of "entry_row ?n e"]) (simp_all add: e_def entry_row_def Let_def)
qed

section \<open>A first database\<close>

definition sample_pending :: queue_item_row where
  "sample_pending = \<lparr>qi_id = ''qi_e1'', qi_event_id = ''e1'', qi_target_agent = [], qi_project_revision = None, qi_session_id = None,
     qi_lock_keys_json = ''[]'', qi_input_cursor = 1, qi_status = ''pending'', qi_available_at = Some 7,
     qi_cancel_requested_event_id = None, qi_cancel_requested_at = None, qi_cancel_reason = None, qi_attempt_count = 0,
     qi_last_error = None, qi_updated_at = 7\<rparr>"

lemma reading_empty_inv: "sql_inv reading_env db_empty" "sql_entries reading_env db_empty = []"
proof -
  show inv: "sql_inv reading_env db_empty" by (rule sql_inv_empty [OF reading_env_laws(1)]) (simp add: db_empty_def)
  show "sql_entries reading_env db_empty = []" using sql_invD(4) [OF inv] by (simp add: db_empty_def)
qed

lemma sample_db:
  obtains d row e where "append_trusted_event reading_env no_time sample_event db_empty
      = Ok (d, \<lparr>out_event = sample_event\<lparr>ev_cursor := Some 1\<rparr>, out_inserted = True\<rparr>)"
    "d = db_empty\<lparr>db_journal := [row], db_queue_items := [sample_pending]\<rparr>" "se_event_id row = ''e1''" "se_cursor row = 1"
    "sql_inv reading_env d" "tables_ok d" "sql_entries reading_env d = [e]" "je_event e = sample_event\<lparr>ev_cursor := Some 1\<rparr>"
proof -
  have journal: "db_journal db_empty = []" by (simp add: db_empty_def)
  obtain row where row: "append_in_transaction reading_env sample_event db_empty = Ok (grow [row] db_empty,
      \<lparr>out_event = sample_event\<lparr>ev_cursor := Some 1\<rparr>, out_inserted = True\<rparr>)" "se_event_id row = ''e1''" "se_cursor row = 1"
    using append_accepts [OF reading_empty_inv(1) reading_env_laws(2), of sample_event "''{}''"]
    by (auto simp: reading_empty_inv(2) journal appendable_def sample_event_def sql_nonempty_def is_i64_def canonical_payload_def
        canonical_json_def)
  define d where "d = db_empty\<lparr>db_journal := [row], db_queue_items := [sample_pending]\<rparr>"
  have ix: "index_event reading_env no_time (sample_event\<lparr>ev_cursor := Some 1\<rparr>) (grow [row] db_empty) = Ok d"
    by (simp add: index_event_def is_queueable_event_def index_pending_queue_item_def insert_pending_item_def db_empty_def d_def
        queue_item_fits_def sql_nonempty_def journal_has_def sample_event_def pending_queue_item_id_def sample_pending_def row(2) grow_def)
  have app: "append_trusted_event reading_env no_time sample_event db_empty
      = Ok (d, \<lparr>out_event = sample_event\<lparr>ev_cursor := Some 1\<rparr>, out_inserted = True\<rparr>)"
    using row(1) ix by (simp add: append_trusted_event_def validate_event_identity_def sample_event_def)
  from reading_empty_inv(1) reading_env_readable app obtain e where
    e: "sql_inv reading_env d" "sql_entries reading_env d = [e]" "stored_as reading_env (sample_event\<lparr>ev_cursor := Some 1\<rparr>) (je_event e)"
    by (cases rule: append_trusted_cases) (auto simp: reading_empty_inv(2))
  have "json_parse reading_env ''{}'' = Some (JObject [])" using read_json_printed [of "JObject []"] by (simp add: reading_env_def)
  then have "payload_kept reading_env (sample_event\<lparr>ev_cursor := Some 1\<rparr>)"
    by (simp add: payload_kept_def sample_event_def canonical_payload_def canonical_json_def)
  then have "je_event e = sample_event\<lparr>ev_cursor := Some 1\<rparr>" using stored_exactly [OF e(1) _ e(3)] e(2) by simp
  moreover have "tables_ok d" by (rule append_trusted_ok [OF tables_ok_empty app])
  ultimately show thesis using that [OF app d_def row(2,3) e(1)] e(2) by blast
qed

end
