(* ===== verification/Route_Commit.thy ===== *)
theory Route_Commit
  imports Samples
begin

text \<open>
  The commit of a route plan, from \<open>crates/zeta-dispatch/src/sqlite/routing.rs\<close>: \<open>route_ingress_event\<close> and the
  lifecycle events it appends.  Lifecycle payloads are built field by field; \<open>object_of\<close> is that sequence of insertions.
\<close>

section \<open>Lifecycle events\<close>

definition object_of :: "(string \<times> json) list \<Rightarrow> json_map" where
  "object_of kvs = foldl (\<lambda>m (k, v). map_insert k v m) [] kvs"

definition opt_field :: "string \<Rightarrow> string option \<Rightarrow> (string \<times> json) list" where
  "opt_field k v = (case v of Some s \<Rightarrow> [(k, JString s)] | None \<Rightarrow> [])"

definition or_null :: "string option \<Rightarrow> json" where
  "or_null v = (case v of Some s \<Rightarrow> JString s | None \<Rightarrow> JNull)"

text \<open>A runtime event: source \<open>zeta\<close>, an idempotency key and a cause.\<close>

definition runtime_event ::
  "runtime_event_identity \<Rightarrow> string \<Rightarrow> json_map \<Rightarrow> string \<Rightarrow> string \<Rightarrow> string option \<Rightarrow> string option \<Rightarrow> string option \<Rightarrow> event" where
  "runtime_event identity event_type payload key caused_by session_id run_id turn_id =
     \<lparr>ev_id = ri_id identity, ev_event_type = event_type, ev_source = ''zeta'', ev_payload = payload,
      ev_idempotency_key = Some key, ev_caused_by = Some caused_by, ev_session_id = session_id, ev_run_id = run_id,
      ev_turn_id = turn_id, ev_timestamp_ms = ri_timestamp_ms identity, ev_cursor = None\<rparr>"

record queue_lifecycle_fields =
  ql_queue_item_id :: queue_item_id
  ql_target_agent :: string
  ql_status :: queue_item_status
  ql_session_id :: "session_id option"
  ql_project_revision :: "string option"
  ql_lock_keys :: "string list"

definition queue_lifecycle_event :: "runtime_event_identity \<Rightarrow> event \<Rightarrow> queue_lifecycle_fields \<Rightarrow> event" where
  "queue_lifecycle_event identity input f =
     runtime_event identity (''runtime.queue_item.'' @ queue_status_display (ql_status f))
       (object_of ([(''queue_item_id'', JString (ql_queue_item_id f)), (''event_id'', JString (ev_id input)),
          (''target_agent'', JString (ql_target_agent f)), (''status'', JString (queue_status_display (ql_status f)))]
          @ opt_field ''session_id'' (ql_session_id f) @ opt_field ''project_revision'' (ql_project_revision f)
          @ (if ql_lock_keys f = [] then [] else [(''lock_keys'', JArray (map JString (ql_lock_keys f)))])))
       (queue_item_idempotency_key (ev_id input) (ql_target_agent f) (ql_status f)) (ev_id input)
       (coalesce (ql_session_id f) (ev_session_id input)) (ev_run_id input) (ev_turn_id input)"

definition unbound_fields :: "queue_item_id \<Rightarrow> queue_item_status \<Rightarrow> queue_lifecycle_fields" where
  "unbound_fields pending_id status = \<lparr>ql_queue_item_id = pending_id, ql_target_agent = [], ql_status = status,
     ql_session_id = None, ql_project_revision = None, ql_lock_keys = []\<rparr>"

definition decision_fields :: "queue_item_id \<Rightarrow> route_decision \<Rightarrow> queue_lifecycle_fields" where
  "decision_fields item_id decision = \<lparr>ql_queue_item_id = item_id, ql_target_agent = rd_agent_id decision, ql_status = QAvailable,
     ql_session_id = Some (rd_session_id decision), ql_project_revision = rd_project_revision decision,
     ql_lock_keys = rd_lock_keys decision\<rparr>"

definition lifecycle_for_route ::
  "event \<Rightarrow> queue_item_id \<Rightarrow> route_decision list \<Rightarrow> runtime_event_identity list \<Rightarrow> route_decision list \<times> event list" where
  "lifecycle_for_route input pending_id decisions identities =
     (if decisions = [] then
        (decisions, [queue_lifecycle_event (hd identities) input (unbound_fields pending_id QUnhandled)])
      else if length decisions = 1 then
        (let decision = (hd decisions)\<lparr>rd_queue_item_id := pending_id\<rparr>
         in ([decision], [queue_lifecycle_event (hd identities) input (decision_fields pending_id decision)]))
      else
        (decisions, queue_lifecycle_event (hd identities) input (unbound_fields pending_id QCompleted)
           # map2 (\<lambda>decision identity. queue_lifecycle_event identity input (decision_fields (rd_queue_item_id decision) decision))
               decisions (tl identities)))"

section \<open>Commit\<close>

fun retained_loop :: "env \<Rightarrow> db \<Rightarrow> event list \<Rightarrow> event list \<Rightarrow> nat \<Rightarrow> (dispatch_error, event list \<times> nat) result" where
  "retained_loop E d [] retained missing = Ok (retained, missing)"
| "retained_loop E d (candidate # candidates) retained missing =
     (case ev_idempotency_key candidate of
        None \<Rightarrow> Err (invalid_lifecycle candidate ''idempotency_key'')
      | Some key \<Rightarrow>
          and_then (entry_by_field E ''idempotency_key'' key d) (\<lambda>entry.
            case entry of
              Some entry \<Rightarrow>
                if \<not> same_lifecycle_intention candidate (je_event entry)
                then Err (IngressAlreadyRouted (case ev_caused_by candidate of Some c \<Rightarrow> c | None \<Rightarrow> []))
                else retained_loop E d candidates (retained @ [je_event entry]) missing
            | None \<Rightarrow> retained_loop E d candidates retained (missing + 1)))"

definition retained_routing_events :: "env \<Rightarrow> event list \<Rightarrow> db \<Rightarrow> (dispatch_error, event list option) result" where
  "retained_routing_events E candidates d =
     and_then (retained_loop E d candidates [] 0) (\<lambda>(retained, missing).
       if missing = length candidates then Ok None
       else if missing \<noteq> 0
       then Err (IngressAlreadyRouted (case ev_caused_by (hd candidates) of Some c \<Rightarrow> c | None \<Rightarrow> []))
       else Ok (Some retained))"

text \<open>One turn of the loop of \<open>route_ingress_event\<close>.\<close>

definition append_route_event :: "env \<Rightarrow> time_lib \<Rightarrow> event \<Rightarrow> db \<Rightarrow> (dispatch_error, db \<times> event) result" where
  "append_route_event E T ev d =
     and_then (validate_event_identity ev) (\<lambda>_.
     and_then (append_lifecycle_candidate E ev d) (\<lambda>(d, outcome).
       if \<not> out_inserted outcome \<and> \<not> same_logical_event ev (out_event outcome)
       then Err (RuntimeEventIdentityCollision (ev_id ev))
       else if out_inserted outcome
       then and_then (index_event E T (out_event outcome) d) (\<lambda>d. Ok (d, out_event outcome))
       else Ok (d, out_event outcome)))"

fun append_route_events :: "env \<Rightarrow> time_lib \<Rightarrow> event list \<Rightarrow> db \<Rightarrow> (dispatch_error, db \<times> event list) result" where
  "append_route_events E T [] d = Ok (d, [])"
| "append_route_events E T (ev # evs) d =
     and_then (append_route_event E T ev d) (\<lambda>(d, e).
     and_then (append_route_events E T evs d) (\<lambda>(d, es). Ok (d, e # es)))"

record routing_outcome =
  ro_decisions :: "route_decision list"
  ro_events :: "event list"

definition route_ingress_event ::
  "format_lib \<Rightarrow> env \<Rightarrow> time_lib \<Rightarrow> string \<Rightarrow> route list \<Rightarrow> runtime_event_identity list \<Rightarrow> db
     \<Rightarrow> (dispatch_error, db \<times> routing_outcome) result" where
  "route_ingress_event F E T event_id routes identities d =
     and_then (entry_by_field E ''event_id'' event_id d) (\<lambda>entry.
     and_then (ok_or (IngressEventNotFound event_id) entry) (\<lambda>entry.
       let input = je_event entry in
     and_then (map_err Session (route_event F E input routes)) (\<lambda>decisions.
       let expected = (if 1 < length decisions then length decisions + 1 else 1) in
     if length identities \<noteq> expected then Err (RuntimeEventIdentityCount expected (length identities))
     else
     and_then (distinct_identities [] identities) (\<lambda>_.
       let pending_id = pending_queue_item_id (ev_id input);
           (decisions, lifecycle) = lifecycle_for_route input pending_id decisions identities in
     and_then (queue_status_and_target d pending_id) (\<lambda>pending.
     and_then (retained_routing_events E lifecycle d) (\<lambda>already_committed.
       case already_committed of
         Some events \<Rightarrow> Ok (d, \<lparr>ro_decisions = decisions, ro_events = events\<rparr>)
       | None \<Rightarrow>
           if pending \<noteq> Some (QPending, []) then Err (IngressAlreadyRouted (ev_id input))
           else and_then (append_route_events E T lifecycle d) (\<lambda>(d, events).
             Ok (d, \<lparr>ro_decisions = decisions, ro_events = events\<rparr>))))))))"

section \<open>Appending lifecycle events\<close>

lemma append_lifecycle_Ok: "append_lifecycle_candidate E ev d = Ok x \<longleftrightarrow> append_in_transaction E ev d = Ok x"
  by (auto simp: append_lifecycle_candidate_def split: sum.splits dispatch_error.splits append_error.splits)

text \<open>Payloads whose members are texts, lists of texts, or null, under distinct keys.\<close>

definition plain_value :: "json \<Rightarrow> bool" where
  "plain_value v \<longleftrightarrow> v = JNull \<or> (\<exists>s. v = JString s) \<or> (\<exists>ss. v = JArray (map JString ss))"

definition plain_payload :: "json_map \<Rightarrow> bool" where
  "plain_payload m \<longleftrightarrow> distinct (map fst m) \<and> (\<forall>(k, v) \<in> set m. plain_value v)"

lemma plain_value_same: "plain_value v \<Longrightarrow> json_same v v"
  by (auto simp: plain_value_def list_all_length)

lemma plain_payload_same:
  assumes "plain_payload m"
  shows "json_same (JObject m) (JObject m)"
proof -
  have "map_get m k = Some v" if "(k, v) \<in> set m" for k v
    using assms that by (simp add: plain_payload_def)
  then show ?thesis
    using assms by (auto simp: list_all_iff plain_payload_def intro!: plain_value_same)
qed

lemma object_of_keys: "distinct (map fst (object_of kvs))"
proof -
  have "distinct (map fst m) \<Longrightarrow> distinct (map fst (foldl (\<lambda>m (k, v). map_insert k v m) m kvs))" for m
    by (induction kvs arbitrary: m) (auto simp: distinct_update)
  then show ?thesis by (simp add: object_of_def)
qed

lemma object_of_values: "(k, v) \<in> set (object_of kvs) \<Longrightarrow> v \<in> snd ` set kvs"
proof -
  have "(k, v) \<in> set (foldl (\<lambda>m (k, v). map_insert k v m) m kvs) \<Longrightarrow> v \<in> snd ` set m \<union> snd ` set kvs" for m
  proof (induction kvs arbitrary: m)
    case (Cons kv kvs)
    obtain k' v' where kv: "kv = (k', v')" by (cases kv)
    have "snd ` set (map_insert k' v' m) \<subseteq> insert v' (snd ` set m)"
      by (induction m) auto
    with Cons show ?case by (force simp: kv)
  qed force
  then show "(k, v) \<in> set (object_of kvs) \<Longrightarrow> v \<in> snd ` set kvs" by (force simp: object_of_def)
qed

lemma object_of_plain: "list_all (\<lambda>(k, v). plain_value v) kvs \<Longrightarrow> plain_payload (object_of kvs)"
  by (auto simp: plain_payload_def object_of_keys list_all_iff dest!: object_of_values)

lemma queue_lifecycle_plain: "plain_payload (ev_payload (queue_lifecycle_event identity input f))"
  unfolding queue_lifecycle_event_def runtime_event_def
  by (auto intro!: object_of_plain simp: list_all_iff plain_value_def opt_field_def split: option.splits)

section \<open>Stored lifecycle events\<close>

text \<open>The parser reads a payload back as an equal value.\<close>

definition reads_same :: "env \<Rightarrow> event \<Rightarrow> bool" where
  "reads_same E ev \<longleftrightarrow> (\<forall>b. canonical_payload E (ev_payload ev) = Ok b \<longrightarrow>
     (\<exists>m. json_parse E b = Some (JObject m) \<and> canonical_payload E m = Ok b \<and> json_same (JObject (ev_payload ev)) (JObject m)))"

lemma reads_same_readable: "reads_same E ev \<Longrightarrow> readable E ev"
  by (auto simp: reads_same_def readable_def simp del: json_same.simps)

lemma reads_same_cong: "ev_payload ev' = ev_payload ev \<Longrightarrow> reads_same E ev' \<longleftrightarrow> reads_same E ev"
  by (simp add: reads_same_def del: json_same.simps)

declare stored_as_refl [simp]

lemma stored_same_intention:
  assumes inv: "sql_inv E d" and e: "e \<in> set (sql_entries E d)" and st: "stored_as E (ev\<lparr>ev_cursor := c\<rparr>) (je_event e)"
    and reads: "reads_same E ev"
  shows "same_lifecycle_intention ev (je_event e)"
proof -
  have can: "canonical_payload E (ev_payload ev) = Ok (je_payload_bytes e)"
    using entry_payload(2) [OF inv e] st by (simp add: stored_as_def)
  from reads can obtain m where m: "json_parse E (je_payload_bytes e) = Some (JObject m)"
    "json_same (JObject (ev_payload ev)) (JObject m)"
    unfolding reads_same_def by blast
  have payload: "m = ev_payload (je_event e)" using m(1) entry_payload(1) [OF inv e] by simp
  have other: "(je_event e)\<lparr>ev_payload := ev_payload ev\<rparr> = ev\<lparr>ev_cursor := c\<rparr>"
    using conjunct1 [OF st [unfolded stored_as_def]] by simp
  have "f ((je_event e)\<lparr>ev_payload := ev_payload ev\<rparr>) = f (ev\<lparr>ev_cursor := c\<rparr>)" for f :: "event \<Rightarrow> 'z" by (simp only: other)
  from this [of ev_event_type] this [of ev_source] this [of ev_idempotency_key] this [of ev_caused_by] this [of ev_session_id]
    this [of ev_run_id] this [of ev_turn_id]
  show ?thesis using m(2) unfolding same_lifecycle_intention_def payload by (simp del: json_same.simps)
qed

lemma append_in_transaction_out:
  assumes inv: "sql_inv E d" and ok: "append_in_transaction E ev d = Ok (d', out)"
  shows "out_inserted out \<Longrightarrow> ev_payload (out_event out) = ev_payload ev"
    "\<not> out_inserted out \<Longrightarrow> d' = d \<and> out_event out \<in> je_event ` set (sql_entries E d)"
proof -
  have new: "out_inserted out \<and> ev_payload (out_event out) = ev_payload ev" if "append_new_entry E ev d = Ok (d', out)"
    using that unfolding append_new_entry_def
    by (auto simp: result_simps journal_entry_new_def Let_def simp del: sum.inject(2) split: if_splits)
  show "out_inserted out \<Longrightarrow> ev_payload (out_event out) = ev_payload ev"
    "\<not> out_inserted out \<Longrightarrow> d' = d \<and> out_event out \<in> je_event ` set (sql_entries E d)"
    using ok new unfolding append_in_transaction_def
    by (auto simp: entry_by_id [OF inv] entry_by_key [OF inv] find_Some_iff result_simps split: option.splits if_splits)
qed

text \<open>One lifecycle append: either it was there, or it is stored at the end and indexed.\<close>

lemma append_route_event_cases:
  assumes inv: "sql_inv E d" and reads: "reads_same E out" and ok: "append_route_event E T ev d = Ok (d', out)"
  obtains (known) "d' = d" "out \<in> je_event ` set (sql_entries E d)" "same_logical_event ev out"
  | (fresh) e row where "sql_inv E d'" "sql_entries E d' = sql_entries E d @ [e]" "stored_as E out (je_event e)"
    "same_lifecycle_intention ev (je_event e)" "out = ev\<lparr>ev_cursor := je_cursor e\<rparr>" "index_event E T out (grow [row] d) = Ok d'"
proof -
  from ok obtain d1 outcome where d1: "append_in_transaction E ev d = Ok (d1, outcome)"
    and out: "out = out_event outcome" "out_inserted outcome \<or> same_logical_event ev (out_event outcome)"
    and d': "if out_inserted outcome then index_event E T (out_event outcome) d1 = Ok d' else d' = d1"
    by (auto simp: append_route_event_def result_simps append_lifecycle_Ok split: if_splits)
  show thesis
  proof (cases "out_inserted outcome")
    case False
    then show ?thesis using append_in_transaction_out(2) [OF inv d1] out d' by (intro known) auto
  next
    case True
    then have ev: "reads_same E ev" using append_in_transaction_out(1) [OF inv d1] reads reads_same_cong out(1) by metis
    from inv reads_same_readable [OF ev] d1 show ?thesis
    proof (cases rule: append_cases)
      case (inserted e rows)
      from append_in_transaction_rows [OF d1] True obtain row where row: "d1 = grow [row] d" by auto
      have ix: "index_event E T (out_event outcome) d1 = Ok d'" using d' True by simp
      note same = sql_inv_frame [OF index_event_journal [OF ix], of E]
      have "same_lifecycle_intention ev (je_event e)"
        by (rule stored_same_intention [OF inserted(2), where c = "je_cursor e"])
          (use inserted ev in \<open>auto\<close>)
      then show ?thesis using inserted same ix row out(1) by (intro fresh [of e row]) auto
    qed (use True in simp)
  qed
qed

lemma append_route_events_stored:
  assumes "sql_inv E d" "append_route_events E T evs d = Ok (d', outs)" "list_all (reads_same E) outs"
  shows "sql_inv E d' \<and> prefix (sql_entries E d) (sql_entries E d')
    \<and> (\<exists>ss. list_all2 (\<lambda>ev s. same_lifecycle_intention ev s \<and> s \<in> je_event ` set (sql_entries E d')) evs ss
        \<and> list_all2 (stored_as E) outs ss)"
  using assms
proof (induction evs arbitrary: d outs)
  case (Cons ev evs)
  from Cons.prems(2) obtain d1 out outs1 where step: "append_route_event E T ev d = Ok (d1, out)"
    and rest: "append_route_events E T evs d1 = Ok (d', outs1)" and outs: "outs = out # outs1"
    by (auto simp: result_simps)
  have reads: "reads_same E out" "list_all (reads_same E) outs1" using Cons.prems(3) outs by simp_all
  have one: "sql_inv E d1 \<and> prefix (sql_entries E d) (sql_entries E d1)
      \<and> (\<exists>s \<in> je_event ` set (sql_entries E d1). same_lifecycle_intention ev s \<and> stored_as E out s)"
    using Cons.prems(1) reads(1) step
  proof (cases rule: append_route_event_cases)
    case known
    then show ?thesis using Cons.prems(1) by (auto simp: same_logical_event_def intro!: bexI [of _ out])
  next
    case (fresh e row)
    then show ?thesis by (auto intro!: bexI [of _ "je_event e"])
  qed
  then obtain s where s: "s \<in> je_event ` set (sql_entries E d1)" "same_lifecycle_intention ev s" "stored_as E out s" by blast
  from Cons.IH [OF _ rest reads(2)] one obtain ss where IH: "sql_inv E d'" "prefix (sql_entries E d1) (sql_entries E d')"
    "list_all2 (\<lambda>ev s. same_lifecycle_intention ev s \<and> s \<in> je_event ` set (sql_entries E d')) evs ss" "list_all2 (stored_as E) outs1 ss"
    by blast
  have "s \<in> je_event ` set (sql_entries E d')" using s(1) set_mono_prefix [OF IH(2)] by blast
  then show ?case
    using one s(2,3) IH unfolding outs by (auto intro: prefix_order.trans intro!: exI [of _ "s # ss"])
qed (auto intro: exI [of _ "[]"])

lemma append_route_event_tables:
  assumes "tables_ok d" "append_route_event E T ev d = Ok (d', out)"
  shows "tables_ok d'"
proof -
  from assms(2) obtain d1 outcome where d1: "append_in_transaction E ev d = Ok (d1, outcome)"
    and d': "if out_inserted outcome then index_event E T (out_event outcome) d1 = Ok d' else d' = d1"
    by (auto simp: append_route_event_def result_simps append_lifecycle_Ok split: if_splits)
  have "tables_ok d1" using append_in_transaction_rows [OF d1] assms(1) tables_ok_grow by auto
  then show ?thesis using d' index_event_ok by (auto split: if_splits)
qed

lemma append_route_events_tables: "tables_ok d \<Longrightarrow> append_route_events E T evs d = Ok (d', outs) \<Longrightarrow> tables_ok d'"
  by (induction evs arbitrary: d outs) (auto simp: result_simps dest: append_route_event_tables)

lemma find_entry_by_key:
  "distinct (je_keys es) \<Longrightarrow> e \<in> set es \<Longrightarrow> ev_idempotency_key (je_event e) = Some key \<Longrightarrow>
     find (\<lambda>x. ev_idempotency_key (je_event x) = Some key) es = Some e"
proof (induction es)
  case (Cons x es)
  then show ?case
    by (cases "ev_idempotency_key (je_event x)") (auto simp: je_keys_def List.map_filter_def image_iff)
qed simp

lemma retained_all:
  assumes inv: "sql_inv E d"
    and "list_all2 (\<lambda>ev s. same_lifecycle_intention ev s \<and> s \<in> je_event ` set (sql_entries E d)) evs ss"
    and "list_all (\<lambda>ev. ev_idempotency_key ev \<noteq> None) evs"
  shows "retained_loop E d evs retained missing = Ok (retained @ ss, missing)"
  using assms(2,3)
proof (induction arbitrary: retained rule: list_all2_induct)
  case (Cons ev evs s ss)
  then obtain key e where key: "ev_idempotency_key ev = Some key" and e: "e \<in> set (sql_entries E d)" "s = je_event e" by auto
  have "ev_idempotency_key (je_event e) = Some key"
    using Cons.hyps(1) key e(2) by (simp add: same_lifecycle_intention_def)
  then have "find (\<lambda>x. ev_idempotency_key (je_event x) = Some key) (sql_entries E d) = Some e"
    using find_entry_by_key [OF _ e(1)] sql_invD(2) [OF inv] by (simp add: journal_ok_def)
  then show ?case
    using Cons e(2) key by (simp add: entry_by_key [OF inv])
qed simp

lemma retained_someD:
  assumes inv: "sql_inv E d" and "retained_loop E d evs retained missing = Ok (outs, missing')" "missing' < missing + length evs"
  shows "\<exists>ev \<in> set evs. \<exists>e \<in> set (sql_entries E d). same_lifecycle_intention ev (je_event e)"
  using assms(2,3)
proof (induction evs arbitrary: retained missing)
  case (Cons ev evs)
  from Cons.prems(1) obtain key where key: "ev_idempotency_key ev = Some key" by (auto split: option.splits)
  show ?case
  proof (cases "find (\<lambda>x. ev_idempotency_key (je_event x) = Some key) (sql_entries E d)")
    case None
    then show ?thesis using Cons key by (auto simp: entry_by_key [OF inv])
  next
    case (Some e)
    then have "e \<in> set (sql_entries E d)" by (auto simp: find_Some_iff)
    then show ?thesis using Cons.prems key Some by (auto simp: entry_by_key [OF inv] split: if_splits)
  qed
qed simp

lemma retained_exactD:
  assumes inv: "sql_inv E d" and "retained_loop E d evs retained missing = Ok (outs, missing)"
  shows "\<exists>ss. outs = retained @ ss \<and> list_all2 (\<lambda>ev s. same_lifecycle_intention ev s \<and> s \<in> je_event ` set (sql_entries E d)) evs ss"
proof -
  have mono: "retained_loop E d evs r m = Ok (o', m') \<Longrightarrow> m \<le> m'" for evs r m o' m'
  proof (induction evs arbitrary: r m)
    case (Cons ev evs)
    then show ?case
      by (auto simp: entry_by_key [OF inv] split: option.splits if_splits) (use Suc_leD in blast)
  qed simp
  show ?thesis
    using assms(2)
  proof (induction evs arbitrary: retained)
    case (Cons ev evs)
    from Cons.prems obtain key where key: "ev_idempotency_key ev = Some key" by (auto split: option.splits)
    show ?case
    proof (cases "find (\<lambda>x. ev_idempotency_key (je_event x) = Some key) (sql_entries E d)")
      case None
      then show ?thesis using Cons.prems key mono [of evs retained "Suc missing" outs missing] by (simp add: entry_by_key [OF inv])
    next
      case (Some e)
      then have "e \<in> set (sql_entries E d)" by (auto simp: find_Some_iff)
      then show ?thesis using Cons.IH [of "retained @ [je_event e]"] Cons.prems key Some
        by (auto simp: entry_by_key [OF inv] split: if_splits)
    qed
  qed simp
qed

section \<open>Retrying a commit\<close>

definition route_count :: "route_decision list \<Rightarrow> nat" where
  "route_count decisions = (if 1 < length decisions then length decisions + 1 else 1)"

lemma queue_lifecycle_intention:
  "same_lifecycle_intention (queue_lifecycle_event identity input f) s \<longleftrightarrow> same_lifecycle_intention (queue_lifecycle_event identity' input f) s"
  by (simp add: same_lifecycle_intention_def queue_lifecycle_event_def runtime_event_def del: json_same.simps)

lemma queue_lifecycle_sel [simp]:
  "ev_idempotency_key (queue_lifecycle_event identity input f) = Some (queue_item_idempotency_key (ev_id input) (ql_target_agent f) (ql_status f))"
  "ev_caused_by (queue_lifecycle_event identity input f) = Some (ev_id input)"
  "ev_id (queue_lifecycle_event identity input f) = ri_id identity"
  "ev_event_type (queue_lifecycle_event identity input f) = ''runtime.queue_item.'' @ queue_status_display (ql_status f)"
  by (simp_all add: queue_lifecycle_event_def runtime_event_def)

lemma lifecycle_for_route_fields:
  assumes "length identities = route_count decisions"
  shows "\<exists>fs. snd (lifecycle_for_route input pending_id decisions identities) = map2 (\<lambda>i f. queue_lifecycle_event i input f) identities fs
    \<and> length fs = length identities
    \<and> (\<forall>identities'. length identities' = length identities \<longrightarrow>
         snd (lifecycle_for_route input pending_id decisions identities') = map2 (\<lambda>i f. queue_lifecycle_event i input f) identities' fs
         \<and> fst (lifecycle_for_route input pending_id decisions identities') = fst (lifecycle_for_route input pending_id decisions identities))"
proof -
  define fs where "fs = (if decisions = [] then [unbound_fields pending_id QUnhandled]
     else if length decisions = 1 then [decision_fields pending_id ((hd decisions)\<lparr>rd_queue_item_id := pending_id\<rparr>)]
     else unbound_fields pending_id QCompleted # map (\<lambda>decision. decision_fields (rd_queue_item_id decision) decision) decisions)"
  have "snd (lifecycle_for_route input pending_id decisions is) = map2 (\<lambda>i f. queue_lifecycle_event i input f) is fs"
    if "length is = route_count decisions" for "is"
    using that by (cases "is") (auto simp: route_count_def lifecycle_for_route_def fs_def zip_map2 map2_map_map Let_def
        intro!: nth_equalityI split: if_splits)
  moreover have "length fs = length identities"
    using assms by (cases decisions) (auto simp: fs_def route_count_def)
  moreover have "fst (lifecycle_for_route input pending_id decisions is) = fst (lifecycle_for_route input pending_id decisions js)" for "is" js
    by (simp add: lifecycle_for_route_def Let_def)
  ultimately show ?thesis using assms by (intro exI [of _ fs]) auto
qed

definition commits_route ::
  "env \<Rightarrow> time_lib \<Rightarrow> (queue_item_status \<times> string) option \<Rightarrow> event list \<Rightarrow> db \<Rightarrow> db \<Rightarrow> event list \<Rightarrow> bool" where
  "commits_route E T pending lifecycle d d' events \<longleftrightarrow>
     retained_routing_events E lifecycle d = Ok (Some events) \<and> d' = d
     \<or> retained_routing_events E lifecycle d = Ok None \<and> pending = Some (QPending, [])
       \<and> append_route_events E T lifecycle d = Ok (d', events)"

lemma route_ingress_OkE:
  assumes inv: "sql_inv E d" and ok: "route_ingress_event F E T event_id routes identities d = Ok (d', out)"
  obtains entry decisions pending chosen lifecycle where
    "find (\<lambda>e. ev_id (je_event e) = event_id) (sql_entries E d) = Some entry" "ev_id (je_event entry) = event_id"
    "route_event F E (je_event entry) routes = Ok decisions"
    "length identities = route_count decisions" "distinct_identities [] identities = Ok ()"
    "queue_status_and_target d (pending_queue_item_id event_id) = Ok pending"
    "lifecycle_for_route (je_event entry) (pending_queue_item_id event_id) decisions identities = (chosen, lifecycle)"
    "ro_decisions out = chosen" "commits_route E T pending lifecycle d d' (ro_events out)"
proof (cases "find (\<lambda>e. ev_id (je_event e) = event_id) (sql_entries E d)")
  case (Some entry)
  then have id: "ev_id (je_event entry) = event_id" by (auto dest: find_SomeD)
  obtain decisions where dec: "route_event F E (je_event entry) routes = Ok decisions"
    using ok by (auto simp: route_ingress_event_def entry_by_id [OF inv] Some ok_or_def Let_def elim: and_then_OkE)
      (cases "route_event F E (je_event entry) routes", auto)
  obtain chosen lifecycle where lc:
    "lifecycle_for_route (je_event entry) (pending_queue_item_id event_id) decisions identities = (chosen, lifecycle)" by fastforce
  have *: "(if length identities \<noteq> route_count decisions
      then Err (RuntimeEventIdentityCount (route_count decisions) (length identities))
      else and_then (distinct_identities [] identities) (\<lambda>_.
        and_then (queue_status_and_target d (pending_queue_item_id event_id)) (\<lambda>pending.
        and_then (retained_routing_events E lifecycle d) (\<lambda>already_committed.
         case already_committed of
           Some events \<Rightarrow> Ok (d, \<lparr>ro_decisions = chosen, ro_events = events\<rparr>)
         | None \<Rightarrow>
             if pending \<noteq> Some (QPending, []) then Err (IngressAlreadyRouted event_id)
             else and_then (append_route_events E T lifecycle d) (\<lambda>(d, events).
               Ok (d, \<lparr>ro_decisions = chosen, ro_events = events\<rparr>)))))) = Ok (d', out)"
    using ok unfolding route_count_def
    by (simp only: route_ingress_event_def entry_by_id [OF inv] Some ok_or_def option.case and_then.simps map_err.simps
        Let_def id dec lc prod.case)
  then have len: "length identities = route_count decisions" by (auto split: if_splits)
  from * len obtain pending where p: "distinct_identities [] identities = Ok ()"
    "queue_status_and_target d (pending_queue_item_id event_id) = Ok pending" by (auto elim!: and_then_OkE)
  have "ro_decisions out = chosen \<and> commits_route E T pending lifecycle d d' (ro_events out)"
    using * len p by (auto simp: commits_route_def elim!: and_then_OkE split: option.splits if_splits)
  with that [OF Some id dec len p lc] show thesis by blast
qed (use ok in \<open>simp add: route_ingress_event_def entry_by_id [OF inv] ok_or_def\<close>)

lemma route_ingress_retained:
  assumes inv: "sql_inv E d" and "find (\<lambda>e. ev_id (je_event e) = event_id) (sql_entries E d) = Some entry"
    "route_event F E (je_event entry) routes = Ok decisions"
    "length identities = route_count decisions" "distinct_identities [] identities = Ok ()"
    "queue_status_and_target d (pending_queue_item_id event_id) = Ok pending"
    "lifecycle_for_route (je_event entry) (pending_queue_item_id event_id) decisions identities = (chosen, lifecycle)"
    "retained_routing_events E lifecycle d = Ok (Some events)"
  shows "route_ingress_event F E T event_id routes identities d = Ok (d, \<lparr>ro_decisions = chosen, ro_events = events\<rparr>)"
proof -
  have "ev_id (je_event entry) = event_id" using find_SomeD [OF assms(2)] by simp
  then show ?thesis
    using assms(2-) by (simp add: route_ingress_event_def entry_by_id [OF inv] ok_or_def Let_def route_count_def)
qed

lemma queue_status_and_target_ok:
  assumes "items_ok d"
  shows "\<exists>x. queue_status_and_target d i = Ok x"
proof (cases "find (\<lambda>r. qi_id r = i) (db_queue_items d)")
  case (Some r)
  then have "r \<in> set (db_queue_items d)" by (auto simp: find_Some_iff)
  then obtain s where "qi_status r = queue_status_display s" using assms by (auto simp: items_ok_def)
  then show ?thesis using Some by (simp add: queue_status_and_target_def queue_status_text.parse_display)
qed (simp add: queue_status_and_target_def)

lemma commits_route_stored:
  assumes inv: "sql_inv E d" and ok: "tables_ok d" and c: "commits_route E T pending lifecycle d d' events"
    and "lifecycle \<noteq> []" "list_all (reads_same E) events"
  shows "sql_inv E d' \<and> tables_ok d' \<and> prefix (sql_entries E d) (sql_entries E d')
    \<and> (\<exists>ss. list_all2 (\<lambda>ev s. same_lifecycle_intention ev s \<and> s \<in> je_event ` set (sql_entries E d')) lifecycle ss
        \<and> list_all2 (stored_as E) events ss)"
  using c unfolding commits_route_def
proof (elim disjE conjE)
  assume "retained_routing_events E lifecycle d = Ok (Some events)" "d' = d"
  moreover from this have "retained_loop E d lifecycle [] 0 = Ok (events, 0)"
    by (auto simp: retained_routing_events_def result_simps split: if_splits)
  from retained_exactD [OF inv this]
  have "list_all2 (\<lambda>ev s. same_lifecycle_intention ev s \<and> s \<in> je_event ` set (sql_entries E d)) lifecycle events" by simp
  ultimately show ?thesis using inv ok by (auto intro!: exI [of _ events] list.rel_refl)
next
  assume "append_route_events E T lifecycle d = Ok (d', events)"
  then show ?thesis using append_route_events_stored [OF inv] append_route_events_tables [OF ok] assms(5) by blast
qed

lemma retained_retry:
  assumes inv: "sql_inv E d"
    and "list_all2 (\<lambda>ev s. same_lifecycle_intention ev s \<and> s \<in> je_event ` set (sql_entries E d))
      (map2 (\<lambda>i f. queue_lifecycle_event i input f) identities fs) ss"
    and len: "length identities' = length identities" "length fs = length identities" "identities \<noteq> []"
  shows "retained_routing_events E (map2 (\<lambda>i f. queue_lifecycle_event i input f) identities' fs) d = Ok (Some ss)"
proof -
  let ?again = "map2 (\<lambda>i f. queue_lifecycle_event i input f) identities' fs"
  have "list_all2 (\<lambda>ev s. same_lifecycle_intention ev s \<and> s \<in> je_event ` set (sql_entries E d)) ?again ss"
    using assms(2) len(1,2) unfolding list_all2_conv_all_nth
    by (auto simp: queue_lifecycle_intention [of "identities' ! i" input _ _ "identities ! i" for i])
  moreover have "list_all (\<lambda>ev. ev_idempotency_key ev \<noteq> None) ?again" by (auto simp: list_all_iff)
  ultimately have "retained_loop E d ?again [] 0 = Ok ([] @ ss, 0)" by (rule retained_all [OF inv])
  then show ?thesis using len by (simp add: retained_routing_events_def)
qed

section \<open>What a commit queues\<close>

lemma object_of_get: "map_get (object_of kvs) k = map_of (rev kvs) k"
proof -
  have "map_get (foldl (\<lambda>m (k, v). map_insert k v m) m kvs) k = (case map_of (rev kvs) k of Some v \<Rightarrow> Some v | None \<Rightarrow> map_get m k)" for m
    by (induction kvs arbitrary: m) (auto simp: update_conv map_add_def split: option.splits)
  then show ?thesis by (simp add: object_of_def split: option.split)
qed

lemma queue_lifecycle_payload:
  "map_get (ev_payload (queue_lifecycle_event identity input f)) ''queue_item_id'' = Some (JString (ql_queue_item_id f))"
  "map_get (ev_payload (queue_lifecycle_event identity input f)) ''event_id'' = Some (JString (ev_id input))"
  "map_get (ev_payload (queue_lifecycle_event identity input f)) ''target_agent'' = Some (JString (ql_target_agent f))"
  "map_get (ev_payload (queue_lifecycle_event identity input f)) ''status'' = Some (JString (queue_status_display (ql_status f)))"
  by (simp_all add: queue_lifecycle_event_def runtime_event_def object_of_get opt_field_def split: option.split)

lemma index_lifecycle:
  assumes "index_event E T ((queue_lifecycle_event identity input f)\<lparr>ev_cursor := c\<rparr>) d = Ok d'"
  shows "index_queue_item E ((queue_lifecycle_event identity input f)\<lparr>ev_cursor := c\<rparr>) d = Ok d'"
  using assms by (cases "ql_status f") (simp_all add: index_event_def)

lemma upsert_keeps:
  assumes "upsert_queue_item j r d = Ok d'" "x \<in> set (db_queue_items d)" "qi_id x \<noteq> qi_id r"
  shows "x \<in> set (db_queue_items d')"
  using assms by (auto simp: upsert_queue_item_def Let_def in_sql_update split: option.splits if_splits)

lemma lifecycle_step:
  assumes ok: "items_ok d" "attempts_ok d"
    and ix: "index_event E T ((queue_lifecycle_event identity input f)\<lparr>ev_cursor := c\<rparr>) d = Ok d'"
  shows "\<exists>r \<in> set (db_queue_items d'). qi_id r = ql_queue_item_id f \<and> qi_event_id r = ev_id input
      \<and> qi_target_agent r = ql_target_agent f \<and> qi_status r = queue_status_display (ql_status f)"
    and "x \<in> set (db_queue_items d') \<Longrightarrow> qi_id x \<noteq> ql_queue_item_id f \<Longrightarrow> x \<in> set (db_queue_items d)"
    and "x \<in> set (db_queue_items d) \<Longrightarrow> qi_id x \<noteq> ql_queue_item_id f \<Longrightarrow> qi_target_agent x \<noteq> [] \<Longrightarrow> x \<in> set (db_queue_items d')"
    and "x \<in> set (db_queue_items d) \<Longrightarrow> qi_id x = ql_queue_item_id f \<Longrightarrow>
      qi_target_agent x \<noteq> [] \<or> ql_queue_item_id f = pending_queue_item_id (ev_id input) \<Longrightarrow>
      qi_event_id x = ev_id input \<and> \<not> (ql_status f = QAvailable \<and> qi_status x = ''available'')"
proof -
  let ?ev = "(queue_lifecycle_event identity input f)\<lparr>ev_cursor := c\<rparr>"
  let ?pending = "pending_queue_item_id (ev_id input)"
  obtain d1 j r s where *: "required_runtime_id ?ev ''queue_item_id'' = Ok (qi_id r)"
    "required_runtime_id ?ev ''event_id'' = Ok (qi_event_id r)" "required_payload_string ?ev ''target_agent'' True = Ok (qi_target_agent r)"
    "lifecycle_queue_status ?ev = Ok s" "qi_status r = queue_status_display s" "qi_attempt_count r = 0"
    "(if qi_id r \<noteq> pending_queue_item_id (qi_event_id r)
      then delete_queue_items ''close pending route barrier''
        (\<lambda>x. qi_id x = pending_queue_item_id (qi_event_id r) \<and> qi_target_agent x = []) d
      else Ok d) = Ok d1" "upsert_queue_item j r d1 = Ok d'"
    "previous_queue_status ?ev (qi_id r) (qi_event_id r) (qi_target_agent r) d1 \<noteq> Ok None \<longrightarrow>
       (\<exists>p. previous_queue_status ?ev (qi_id r) (qi_event_id r) (qi_target_agent r) d1 = Ok (Some p)
          \<and> queue_transition_ok (qi_id r) (pending_queue_item_id (qi_event_id r)) (qi_target_agent r) (Some p) s d1 = Ok ())"
    by (rule index_queue_item_split [OF index_lifecycle [OF ix]])
  have r: "qi_id r = ql_queue_item_id f" "qi_event_id r = ev_id input" "qi_target_agent r = ql_target_agent f"
    using *(1-3) by (auto simp: required_runtime_id_def required_payload_string_def queue_lifecycle_payload split: if_splits)
  have s: "s = ql_status f"
    using *(4) by (auto simp: lifecycle_queue_status_def queue_lifecycle_payload queue_status_text.parse_display result_simps split: if_splits)
  have d1: "db_queue_items d1 = filter (\<lambda>x. qi_id r = ?pending \<or> \<not> (qi_id x = ?pending \<and> qi_target_agent x = [])) (db_queue_items d)"
    "db_journal d1 = db_journal d"
    using *(7) r(2) by (auto simp: delete_queue_items_Ok split: if_splits)
  have ok1: "items_ok d1" by (rule items_ok_filter [OF ok(1) d1])
  note up = upsert_queue_item_ok [OF ok1 *(8,5,6)]
  show "\<exists>r \<in> set (db_queue_items d'). qi_id r = ql_queue_item_id f \<and> qi_event_id r = ev_id input
      \<and> qi_target_agent r = ql_target_agent f \<and> qi_status r = queue_status_display (ql_status f)"
    using up(4) unfolding r s *(5) by blast
  show "x \<in> set (db_queue_items d') \<Longrightarrow> qi_id x \<noteq> ql_queue_item_id f \<Longrightarrow> x \<in> set (db_queue_items d)"
    using up(5) unfolding r d1(1) by auto
  show "x \<in> set (db_queue_items d) \<Longrightarrow> qi_id x \<noteq> ql_queue_item_id f \<Longrightarrow> qi_target_agent x \<noteq> [] \<Longrightarrow> x \<in> set (db_queue_items d')"
    by (rule upsert_keeps [OF *(8)]) (simp_all add: d1(1) r(1))
  assume x: "x \<in> set (db_queue_items d)" "qi_id x = ql_queue_item_id f" "qi_target_agent x \<noteq> [] \<or> ql_queue_item_id f = ?pending"
  then have x1: "x \<in> set (db_queue_items d1)" using r(1) by (auto simp: d1(1))
  have "find (\<lambda>y. qi_id y = qi_id r) (db_queue_items d1) = Some x"
  proof (cases "find (\<lambda>y. qi_id y = qi_id r) (db_queue_items d1)")
    case None
    then show ?thesis using x1 x(2) r(1) by (auto simp: find_None_iff)
  next
    case (Some y)
    then show ?thesis using find_key [OF _ Some x1] x(2) r(1) ok1 by (simp add: items_ok_def)
  qed
  then show "qi_event_id x = ev_id input \<and> \<not> (ql_status f = QAvailable \<and> qi_status x = ''available'')"
    using *(9) r(2) s
    by (auto simp: previous_queue_status_def queue_transition_ok_def queue_validate_transition_def queue_status_from_str_def Let_def
        result_simps split: if_splits)
qed

text \<open>A run of appends in which every event is new.\<close>

fun indexes_each :: "env \<Rightarrow> time_lib \<Rightarrow> event list \<Rightarrow> db \<Rightarrow> db \<Rightarrow> bool" where
  "indexes_each E T [] d d' \<longleftrightarrow> d' = d"
| "indexes_each E T (ev # evs) d d' \<longleftrightarrow>
     (\<exists>c row d1. index_event E T (ev\<lparr>ev_cursor := c\<rparr>) (grow [row] d) = Ok d1 \<and> indexes_each E T evs d1 d')"

lemma append_route_events_new:
  assumes "sql_inv E d" "append_route_events E T evs d = Ok (d', outs)" "list_all (reads_same E) outs"
    "list_all (\<lambda>ev. ev_caused_by ev = Some i) evs" "distinct (map ev_id evs)"
    "\<forall>e \<in> set (sql_entries E d). ev_caused_by (je_event e) = Some i \<longrightarrow> ev_id (je_event e) \<notin> ev_id ` set evs"
  shows "indexes_each E T evs d d'"
  using assms
proof (induction evs arbitrary: d outs)
  case (Cons ev evs)
  from Cons.prems(2) obtain d1 out outs1 where step: "append_route_event E T ev d = Ok (d1, out)"
    and rest: "append_route_events E T evs d1 = Ok (d', outs1)" and outs: "outs = out # outs1"
    by (auto simp: result_simps)
  have reads: "reads_same E out" "list_all (reads_same E) outs1" using Cons.prems(3) outs by simp_all
  from Cons.prems(1) reads(1) step show ?case
  proof (cases rule: append_route_event_cases)
    case known
    then show ?thesis using Cons.prems(4,6) by (auto simp: same_logical_event_def same_lifecycle_intention_def)
  next
    case (fresh e row)
    have "ev_id ((je_event e)\<lparr>ev_payload := ev_payload out\<rparr>) = ev_id out"
      using conjunct1 [OF fresh(3) [unfolded stored_as_def]] by simp
    then have "ev_id (je_event e) = ev_id ev" using fresh(5) by simp
    then have "indexes_each E T evs d1 d'"
      using Cons.prems(4-6) fresh(2) by (intro Cons.IH [OF fresh(1) rest reads(2)]) auto
    then show ?thesis using fresh(5,6) by auto
  qed
qed simp

text \<open>An ingress event no longer waits for a route, and these decisions have their items.\<close>

definition queues_decisions :: "string \<Rightarrow> route_decision list \<Rightarrow> db \<Rightarrow> bool" where
  "queues_decisions event_id decisions d \<longleftrightarrow>
     (\<forall>r \<in> set (db_queue_items d). \<not> (qi_event_id r = event_id \<and> qi_status r = ''pending'' \<and> qi_target_agent r = []))
     \<and> (\<forall>decision \<in> set decisions. rd_agent_id decision \<noteq> [] \<longrightarrow>
          (\<exists>r \<in> set (db_queue_items d). qi_id r = rd_queue_item_id decision \<and> qi_event_id r = event_id
             \<and> qi_target_agent r = rd_agent_id decision \<and> qi_status r = ''available''))"

lemma queues_decisions_grow [simp]: "queues_decisions event_id decisions (grow rows d) \<longleftrightarrow> queues_decisions event_id decisions d"
  by (simp add: queues_decisions_def)

lemma queues_decision_step:
  assumes ok: "tables_ok d"
    and ix: "index_event E T ((queue_lifecycle_event identity input (decision_fields (rd_queue_item_id decision) decision))\<lparr>ev_cursor := c\<rparr>) d = Ok d'"
    and q: "queues_decisions (ev_id input) decisions d"
  shows "queues_decisions (ev_id input) (decision # decisions) d'"
proof -
  note ok' = ok [unfolded tables_ok_def]
  note step = lifecycle_step [OF conjunct1 [OF ok'] conjunct1 [OF conjunct2 [OF ok']] ix, simplified decision_fields_def, simplified]
  have "items_ok d'" using index_event_ok [OF ok ix] by (simp add: tables_ok_def)
  then have ids: "distinct (map qi_id (db_queue_items d'))" by (simp add: items_ok_def)
  from step(1) obtain r where r: "r \<in> set (db_queue_items d')" "qi_id r = rd_queue_item_id decision" "qi_event_id r = ev_id input"
    "qi_target_agent r = rd_agent_id decision" "qi_status r = ''available''" by auto
  have "\<not> (qi_event_id x = ev_id input \<and> qi_status x = ''pending'' \<and> qi_target_agent x = [])" if x: "x \<in> set (db_queue_items d')" for x
  proof (cases "qi_id x = rd_queue_item_id decision")
    case True
    then have "x = r" using distinct_map_eq [OF ids x r(1)] r(2) by simp
    then show ?thesis using r(5) by simp
  next
    case False
    then show ?thesis using step(2) [OF x] q by (simp add: queues_decisions_def)
  qed
  moreover have "\<exists>r \<in> set (db_queue_items d'). qi_id r = rd_queue_item_id p \<and> qi_event_id r = ev_id input
      \<and> qi_target_agent r = rd_agent_id p \<and> qi_status r = ''available''" if p: "p \<in> set decisions" "rd_agent_id p \<noteq> []" for p
  proof -
    from q p obtain x where x: "x \<in> set (db_queue_items d)" "qi_id x = rd_queue_item_id p" "qi_event_id x = ev_id input"
      "qi_target_agent x = rd_agent_id p" "qi_status x = ''available''" by (auto simp: queues_decisions_def)
    have ne: "qi_id x \<noteq> rd_queue_item_id decision" using step(4) [OF x(1)] x(4,5) p(2) by auto
    show ?thesis using step(3) [OF x(1) ne] x p(2) by auto
  qed
  ultimately show ?thesis using r unfolding queues_decisions_def by auto
qed

lemma queues_decisions_run:
  assumes "tables_ok d" "length identities = length decisions" "queues_decisions (ev_id input) done d"
    and "indexes_each E T (map2 (\<lambda>decision identity. queue_lifecycle_event identity input
      (decision_fields (rd_queue_item_id decision) decision)) decisions identities) d d'"
  shows "queues_decisions (ev_id input) (rev decisions @ done) d'"
  using assms(2,1,3,4)
proof (induction identities decisions arbitrary: d "done" rule: list_induct2)
  case (Cons identity identities decision decisions)
  from Cons.prems(3) obtain c row d1 where
    ix: "index_event E T ((queue_lifecycle_event identity input (decision_fields (rd_queue_item_id decision) decision))\<lparr>ev_cursor := c\<rparr>) (grow [row] d) = Ok d1"
    and rest: "indexes_each E T (map2 (\<lambda>decision identity. queue_lifecycle_event identity input
      (decision_fields (rd_queue_item_id decision) decision)) decisions identities) d1 d'" by auto
  note ok = tables_ok_grow [OF Cons.prems(1), of "[row]"]
  have "queues_decisions (ev_id input) (decision # done) d1"
    using queues_decision_step [OF ok ix] Cons.prems(2) by simp
  from Cons.IH [OF index_event_ok [OF ok ix] this rest] show ?case by simp
qed simp

lemma unbound_step:
  assumes ok: "tables_ok d" and status: "status \<noteq> QPending"
    and ix: "index_event E T ((queue_lifecycle_event identity input (unbound_fields pending_id status))\<lparr>ev_cursor := c\<rparr>) d = Ok d'"
  shows "queues_decisions (ev_id input) [] d'"
proof -
  note ok' = ok [unfolded tables_ok_def]
  from lifecycle_step(1) [OF conjunct1 [OF ok'] conjunct1 [OF conjunct2 [OF ok']] ix] obtain r where
    r: "r \<in> set (db_queue_items d')" "qi_event_id r = ev_id input" "qi_target_agent r = []" "qi_status r = queue_status_display status"
    by (auto simp: unbound_fields_def)
  have "items_ok d'" using index_event_ok [OF ok ix] by (simp add: tables_ok_def)
  then have keys: "distinct (map (\<lambda>r. (qi_event_id r, qi_target_agent r)) (db_queue_items d'))" by (simp add: items_ok_def)
  have "\<not> (qi_event_id x = ev_id input \<and> qi_status x = ''pending'' \<and> qi_target_agent x = [])" if x: "x \<in> set (db_queue_items d')" for x
  proof
    assume x': "qi_event_id x = ev_id input \<and> qi_status x = ''pending'' \<and> qi_target_agent x = []"
    then have "x = r" using distinct_map_eq [OF keys x r(1)] r(2,3) by simp
    with x' r(4) status show False by (cases status) auto
  qed
  then show ?thesis by (simp add: queues_decisions_def)
qed

lemma single_step:
  assumes ok: "tables_ok d" and p: "p \<in> set (db_queue_items d)" "qi_id p = pending_queue_item_id (ev_id input)" "qi_target_agent p = []"
    and id: "rd_queue_item_id decision = pending_queue_item_id (ev_id input)"
    and ix: "index_event E T ((queue_lifecycle_event identity input (decision_fields (rd_queue_item_id decision) decision))\<lparr>ev_cursor := c\<rparr>) d = Ok d'"
  shows "queues_decisions (ev_id input) [decision] d'"
proof -
  note ok' = ok [unfolded tables_ok_def]
  note step = lifecycle_step [OF conjunct1 [OF ok'] conjunct1 [OF conjunct2 [OF ok']] ix, simplified decision_fields_def id, simplified]
  have "items_ok d'" using index_event_ok [OF ok ix] by (simp add: tables_ok_def)
  then have ids: "distinct (map qi_id (db_queue_items d'))" by (simp add: items_ok_def)
  have keys: "distinct (map (\<lambda>r. (qi_event_id r, qi_target_agent r)) (db_queue_items d))" using ok' by (simp add: items_ok_def)
  from step(1) obtain r where r: "r \<in> set (db_queue_items d')" "qi_id r = pending_queue_item_id (ev_id input)" "qi_event_id r = ev_id input"
    "qi_target_agent r = rd_agent_id decision" "qi_status r = ''available''" by auto
  have event: "qi_event_id p = ev_id input" using step(4) [OF p(1,2)] by simp
  have "\<not> (qi_event_id x = ev_id input \<and> qi_status x = ''pending'' \<and> qi_target_agent x = [])" if x: "x \<in> set (db_queue_items d')" for x
  proof (cases "qi_id x = pending_queue_item_id (ev_id input)")
    case True
    then have "x = r" using distinct_map_eq [OF ids x r(1)] r(2) by simp
    then show ?thesis using r(5) by simp
  next
    case False
    then have x': "x \<in> set (db_queue_items d)" using step(2) [OF x] by simp
    then show ?thesis using distinct_map_eq [OF keys x' p(1)] event p(2,3) False by auto
  qed
  then show ?thesis using r id by (auto simp: queues_decisions_def)
qed

lemma lifecycle_queues_decisions:
  assumes ok: "tables_ok d" and p: "queue_status_and_target d (pending_queue_item_id (ev_id input)) = Ok (Some (QPending, []))"
    and len: "length identities = route_count decisions"
    and lc: "lifecycle_for_route input (pending_queue_item_id (ev_id input)) decisions identities = (chosen, lifecycle)"
    and ix: "indexes_each E T lifecycle d d'"
  shows "queues_decisions (ev_id input) chosen d'"
proof -
  from p obtain r where r: "r \<in> set (db_queue_items d)" "qi_id r = pending_queue_item_id (ev_id input)" "qi_target_agent r = []"
    by (auto simp: queue_status_and_target_def result_simps split: option.splits dest: find_SomeD)
  consider (none) "decisions = []" | (one) decision where "decisions = [decision]" | (many) "1 < length decisions"
    by (cases decisions; cases "tl decisions") auto
  then show ?thesis
  proof cases
    case none
    with lc ix obtain c row where
      "index_event E T ((queue_lifecycle_event (hd identities) input (unbound_fields (pending_queue_item_id (ev_id input)) QUnhandled))\<lparr>ev_cursor := c\<rparr>)
         (grow [row] d) = Ok d'" "chosen = []"
      by (auto simp: lifecycle_for_route_def)
    then show ?thesis using unbound_step [OF tables_ok_grow [OF ok]] by blast
  next
    case one
    let ?d = "decision\<lparr>rd_queue_item_id := pending_queue_item_id (ev_id input)\<rparr>"
    from one lc ix obtain c row where
      "index_event E T ((queue_lifecycle_event (hd identities) input (decision_fields (rd_queue_item_id ?d) ?d))\<lparr>ev_cursor := c\<rparr>)
         (grow [row] d) = Ok d'" "chosen = [?d]"
      by (auto simp: lifecycle_for_route_def Let_def)
    then show ?thesis using single_step [OF tables_ok_grow [OF ok], of r "[row]" input ?d] r by simp
  next
    case many
    let ?rest = "map2 (\<lambda>decision identity. queue_lifecycle_event identity input (decision_fields (rd_queue_item_id decision) decision))
               decisions (tl identities)"
    let ?first = "queue_lifecycle_event (hd identities) input (unbound_fields (pending_queue_item_id (ev_id input)) QCompleted)"
    have "decisions \<noteq> []" "length decisions \<noteq> 1" using many by auto
    then have chosen: "chosen = decisions" and "lifecycle = ?first # ?rest" using lc by (auto simp: lifecycle_for_route_def)
    then obtain c row d1 where first: "index_event E T (?first\<lparr>ev_cursor := c\<rparr>) (grow [row] d) = Ok d1"
      and rest: "indexes_each E T ?rest d1 d'"
      using ix by auto
    have "queues_decisions (ev_id input) [] d1" by (rule unbound_step [OF tables_ok_grow [OF ok] _ first]) simp
    from queues_decisions_run [OF index_event_ok [OF tables_ok_grow [OF ok] first] _ this rest] show ?thesis
      using len many chosen by (simp add: route_count_def queues_decisions_def)
  qed
qed

lemma distinct_identities_ids: "distinct_identities seen is = Ok () \<longleftrightarrow> distinct (map ri_id is) \<and> set seen \<inter> ri_id ` set is = {}"
  by (induction "is" arbitrary: seen) auto

section \<open>Properties\<close>

text \<open>C23: a routing commit can be retried.  Once \<open>route_ingress_event\<close> has returned, calling it again for the same event
  and routes, with any fresh identities, changes no table, makes the same decisions, and returns the retained lifecycle
  events.  The hypothesis on the returned events is that the JSON parser reads their payloads back as equal values.\<close>

theorem route_commit_is_idempotent:
  assumes inv: "sql_inv E d" and ok: "tables_ok d"
    and commit: "route_ingress_event F E T event_id routes identities d = Ok (d', out)"
    and reads: "list_all (reads_same E) (ro_events out)"
    and retry: "length retry = length identities" "distinct_identities [] retry = Ok ()"
  shows "\<exists>events. route_ingress_event F E T event_id routes retry d' = Ok (d', \<lparr>ro_decisions = ro_decisions out, ro_events = events\<rparr>)
    \<and> list_all2 (stored_as E) (ro_events out) events"
proof -
  obtain entry decisions pending chosen lifecycle where *:
    "find (\<lambda>e. ev_id (je_event e) = event_id) (sql_entries E d) = Some entry"
    "route_event F E (je_event entry) routes = Ok decisions" "length identities = route_count decisions"
    "lifecycle_for_route (je_event entry) (pending_queue_item_id event_id) decisions identities = (chosen, lifecycle)"
    "ro_decisions out = chosen" "commits_route E T pending lifecycle d d' (ro_events out)"
    by (rule route_ingress_OkE [OF inv commit])
  from lifecycle_for_route_fields [OF *(3), of "je_event entry" "pending_queue_item_id event_id"] obtain fs where
    fs: "lifecycle = map2 (\<lambda>i f. queue_lifecycle_event i (je_event entry) f) identities fs" "length fs = length identities"
    and again: "lifecycle_for_route (je_event entry) (pending_queue_item_id event_id) decisions retry
      = (chosen, map2 (\<lambda>i f. queue_lifecycle_event i (je_event entry) f) retry fs)"
    using retry(1) *(4) by (metis fst_conv prod.collapse snd_conv)
  have ne: "identities \<noteq> []" using *(3) by (auto simp: route_count_def split: if_splits)
  then have "lifecycle \<noteq> []" using fs by auto
  from commits_route_stored [OF inv ok *(6) this reads] obtain ss where
    d': "sql_inv E d'" "tables_ok d'" "prefix (sql_entries E d) (sql_entries E d')"
    and ss: "list_all2 (\<lambda>ev s. same_lifecycle_intention ev s \<and> s \<in> je_event ` set (sql_entries E d')) lifecycle ss"
      "list_all2 (stored_as E) (ro_events out) ss" by blast
  have "find (\<lambda>e. ev_id (je_event e) = event_id) (sql_entries E d') = Some entry"
    using d'(3) *(1) by (auto simp: prefix_def find_append)
  moreover obtain pending' where "queue_status_and_target d' (pending_queue_item_id event_id) = Ok pending'"
    using queue_status_and_target_ok d'(2) by (auto simp: tables_ok_def)
  ultimately have "route_ingress_event F E T event_id routes retry d' = Ok (d', \<lparr>ro_decisions = chosen, ro_events = ss\<rparr>)"
    using *(2,3) retry again retained_retry [OF d'(1) ss(1) [unfolded fs(1)] retry(1) fs(2) ne]
    by (intro route_ingress_retained [OF d'(1)]) auto
  with *(5) ss(2) show ?thesis by blast
qed

text \<open>C13: routing an event that nothing in the journal answers yet closes its place in the ingress queue: the event is no
  longer among the unrouted ones, and for every decision the queue holds an available item, for that event and that
  agent.  With no matching route the event is closed as unhandled; with several, the placeholder is closed and every
  agent gets an item of its own.\<close>

theorem route_commit_queues_every_decision:
  assumes inv: "sql_inv E d" and ok: "tables_ok d"
    and new: "\<forall>e \<in> set (sql_entries E d). ev_caused_by (je_event e) \<noteq> Some event_id"
    and commit: "route_ingress_event F E T event_id routes identities d = Ok (d', out)"
    and reads: "list_all (reads_same E) (ro_events out)"
  shows "event_id \<notin> set (unrouted_ingress_events d')
    \<and> (\<forall>decision \<in> set (ro_decisions out). rd_agent_id decision \<noteq> [] \<longrightarrow>
        (\<exists>r \<in> set (db_queue_items d'). qi_id r = rd_queue_item_id decision \<and> qi_event_id r = event_id
           \<and> qi_target_agent r = rd_agent_id decision \<and> qi_status r = ''available''))"
proof -
  obtain entry decisions pending chosen lifecycle where
    "find (\<lambda>e. ev_id (je_event e) = event_id) (sql_entries E d) = Some entry" and *: "ev_id (je_event entry) = event_id"
    "length identities = route_count decisions" "distinct_identities [] identities = Ok ()"
    "queue_status_and_target d (pending_queue_item_id event_id) = Ok pending"
    "lifecycle_for_route (je_event entry) (pending_queue_item_id event_id) decisions identities = (chosen, lifecycle)"
    "ro_decisions out = chosen" "commits_route E T pending lifecycle d d' (ro_events out)"
    by (rule route_ingress_OkE [OF inv commit])
  from lifecycle_for_route_fields [OF *(2), of "je_event entry" "pending_queue_item_id event_id"] obtain fs where
    fs: "lifecycle = map2 (\<lambda>i f. queue_lifecycle_event i (je_event entry) f) identities fs" "length fs = length identities"
    using *(5) by (metis snd_conv)
  have caused: "list_all (\<lambda>ev. ev_caused_by ev = Some event_id) lifecycle" using *(1) fs by (auto simp: list_all_iff)
  have "map ev_id lifecycle = map ri_id identities" using fs by (auto intro!: nth_equalityI)
  then have ids: "distinct (map ev_id lifecycle)" using *(3) by (simp add: distinct_identities_ids)
  have ne: "lifecycle \<noteq> []" using *(2) fs by (auto simp: route_count_def split: if_splits)
  have "retained_routing_events E lifecycle d \<noteq> Ok (Some (ro_events out))"
  proof
    assume "retained_routing_events E lifecycle d = Ok (Some (ro_events out))"
    then have "retained_loop E d lifecycle [] 0 = Ok (ro_events out, 0)"
      by (auto simp: retained_routing_events_def result_simps split: if_splits)
    from retained_someD [OF inv this] ne obtain ev e where "ev \<in> set lifecycle" "e \<in> set (sql_entries E d)"
      "same_lifecycle_intention ev (je_event e)" by auto
    then show False using caused new by (auto simp: list_all_iff same_lifecycle_intention_def)
  qed
  then have app: "append_route_events E T lifecycle d = Ok (d', ro_events out)" and p: "pending = Some (QPending, [])"
    using *(7) by (auto simp: commits_route_def)
  have "indexes_each E T lifecycle d d'"
    by (rule append_route_events_new [OF inv app reads caused ids]) (use new in auto)
  from lifecycle_queues_decisions [OF ok _ *(2) _ this, of "je_event entry" chosen] *(1,4,5) p
  have "queues_decisions event_id chosen d'" by simp
  then show ?thesis using *(6) by (auto simp: queues_decisions_def unrouted_ingress_events_def)
qed

section \<open>Witnesses\<close>

lemma reading_env_reads_same:
  assumes "literals_ok (JObject (ev_payload ev))" "wf_json (JObject (ev_payload ev))"
  shows "reads_same reading_env ev"
  unfolding reads_same_def
proof (intro allI impI)
  fix b assume b: "canonical_payload reading_env (ev_payload ev) = Ok b"
  obtain m where m: "json_parse reading_env b = Some (JObject m)" "canonical_payload reading_env m = Ok b"
    using reading_env_readable [of ev] b unfolding readable_def by blast
  have "JObject m = normal reading_env (JObject (ev_payload ev))" using reading_parse [OF b] m(1) by simp
  moreover have "encodable reading_env (JObject (ev_payload ev))" using b unfolding reading_canonical by simp
  ultimately have "json_same (JObject (ev_payload ev)) (JObject m)" using normal_literal [OF assms(1) _ assms(2)] by metis
  with m show "\<exists>m. json_parse reading_env b = Some (JObject m) \<and> canonical_payload reading_env m = Ok b
     \<and> json_same (JObject (ev_payload ev)) (JObject m)" by blast
qed

lemma plain_payload_literals:
  assumes "plain_payload m"
  shows "literals_ok (JObject m)" "wf_json (JObject m)" "encodable E (JObject m)"
  using assms by (fastforce simp: plain_payload_def plain_value_def)+

definition sample_identity :: runtime_event_identity where
  "sample_identity = \<lparr>ri_id = ''r1'', ri_timestamp_ms = 8\<rparr>"

definition no_format :: format_lib where
  "no_format = \<lparr>format_from_str = (\<lambda>_. None), field_parse = (\<lambda>_. None), spec_parse = (\<lambda>_. Err []),
     spec_format_string = (\<lambda>_ _. Err []), spec_format_bool = (\<lambda>_ _. Err []), spec_format_int = (\<lambda>_ _. Err []),
     spec_format_float = (\<lambda>_ _. Err [])\<rparr>"

definition sample_route :: route where
  "sample_route = \<lparr>route_agent_id = ''a'', route_accepts = [event_pattern_exact ''t''], route_session = Shared,
     route_lock_keys = [], route_project_revision = None\<rparr>"

definition sample_decision :: route_decision where
  "sample_decision = \<lparr>rd_agent_id = ''a'', rd_queue_item_id = ''qi_e1'', rd_session_id = ''agent/a'', rd_lock_keys = [],
     rd_project_revision = None\<rparr>"

lemma sample_commit:
  obtains d d' out where "sql_inv reading_env d" "tables_ok d" "\<forall>e \<in> set (sql_entries reading_env d). ev_caused_by (je_event e) \<noteq> Some ''e1''"
    "unrouted_ingress_events d = [''e1'']"
    "route_ingress_event no_format reading_env no_time ''e1'' [sample_route] [sample_identity] d = Ok (d', out)"
    "ro_decisions out = [sample_decision]" "list_all (reads_same reading_env) (ro_events out)"
proof -
  obtain d row e where d: "append_trusted_event reading_env no_time sample_event db_empty
      = Ok (d, \<lparr>out_event = sample_event\<lparr>ev_cursor := Some 1\<rparr>, out_inserted = True\<rparr>)"
    "d = db_empty\<lparr>db_journal := [row], db_queue_items := [sample_pending]\<rparr>" "se_event_id row = ''e1''" "se_cursor row = 1"
    and inv: "sql_inv reading_env d" and ok: "tables_ok d" and es: "sql_entries reading_env d = [e]"
    and e: "je_event e = sample_event\<lparr>ev_cursor := Some 1\<rparr>"
    by (rule sample_db)
  let ?in = "sample_event\<lparr>ev_cursor := Some 1\<rparr>"
  define ev where "ev = queue_lifecycle_event sample_identity ?in (decision_fields ''qi_e1'' sample_decision)"
  have plain: "plain_payload (ev_payload ev)" unfolding ev_def by (rule queue_lifecycle_plain)
  obtain b where b: "canonical_payload reading_env (ev_payload ev) = Ok b"
    using plain_payload_literals(3) [OF plain] by (simp only: reading_canonical)
  have keys: "ev_id (je_event e) = ''e1''" "ev_idempotency_key (je_event e) = None" "ev_caused_by (je_event e) = None"
    by (simp_all add: e sample_event_def)
  have journal: "length (db_journal d) = 1" by (simp add: d(2))
  have id: "ev_id ev = ''r1''" "appendable ev"
    by (simp_all add: ev_def queue_lifecycle_event_def runtime_event_def sample_identity_def appendable_def sql_nonempty_def is_i64_def)
  obtain row' where row': "append_in_transaction reading_env ev d = Ok (grow [row'] d,
      \<lparr>out_event = ev\<lparr>ev_cursor := Some (Suc (Suc 0))\<rparr>, out_inserted = True\<rparr>)" "se_event_id row' = ''r1''"
    using append_accepts [OF inv reading_env_laws(2) id(2) b] es keys id(1) journal
    by (auto simp: je_ids_def set_je_keys)
  have "\<exists>d'. index_event reading_env no_time (ev\<lparr>ev_cursor := Some (Suc (Suc 0))\<rparr>) (grow [row'] d) = Ok d'"
    by (simp add: index_event_def ev_def queue_lifecycle_event_def runtime_event_def decision_fields_def sample_decision_def
        sample_identity_def sample_event_def object_of_def opt_field_def coalesce_def index_queue_item_def required_runtime_id_def
        required_payload_string_def lifecycle_queue_status_def type_suffix_def queue_status_from_str_def Let_def
        pending_queue_item_id_def previous_queue_status_def d(2-4) row'(2) sample_pending_def queue_transition_ok_def
        queue_validate_transition_def queue_row_of_event_def input_event_cursor_def optional_payload_string_def
        validate_optional_runtime_id_def optional_payload_string_array_def queue_last_error_def queue_available_at_def
        upsert_queue_item_def merge_queue_item_def queue_item_fits_def sql_nonempty_def journal_has_def sql_update_def db_empty_def)
  then obtain d' where ix: "index_event reading_env no_time (ev\<lparr>ev_cursor := Some (Suc (Suc 0))\<rparr>) (grow [row'] d) = Ok d'" by blast
  have valid: "validate_event_identity ev = Ok ()"
    by (simp add: validate_event_identity_def ev_def queue_lifecycle_event_def runtime_event_def sample_identity_def)
  have cand: "append_lifecycle_candidate reading_env ev d = Ok (grow [row'] d, \<lparr>out_event = ev\<lparr>ev_cursor := Some (Suc (Suc 0))\<rparr>, out_inserted = True\<rparr>)"
    by (simp only: append_lifecycle_Ok row'(1))
  have appended: "append_route_events reading_env no_time [ev] d = Ok (d', [ev\<lparr>ev_cursor := Some (Suc (Suc 0))\<rparr>])"
    using cand ix valid by (simp add: append_route_event_def)
  have "find (\<lambda>x. ev_idempotency_key (je_event x) = ev_idempotency_key ev) (sql_entries reading_env d) = None"
    using es keys(2) by (simp add: ev_def)
  then have none: "retained_routing_events reading_env [ev] d = Ok None"
    by (simp add: retained_routing_events_def entry_by_key [OF inv] ev_def)
  have routed: "route_event no_format reading_env ?in [sample_route] = Ok [sample_decision]"
    by (simp add: route_event_def route_matches_def sample_route_def event_pattern_exact_def pattern_matches_def sample_event_def
        session_rule_resolve_def session_id_for_agent_def pending_queue_item_id_def sample_decision_def)
  have plan: "lifecycle_for_route ?in ''qi_e1'' [sample_decision] [sample_identity] = ([sample_decision], [ev])"
    by (simp add: lifecycle_for_route_def ev_def sample_decision_def Let_def)
  have status: "queue_status_and_target d ''qi_e1'' = Ok (Some (QPending, []))"
    by (simp add: queue_status_and_target_def d(2) sample_pending_def queue_status_from_str_def)
  have "entry_by_field reading_env ''event_id'' ''e1'' d = Ok (Some e)" using es keys(1) by (simp add: entry_by_id [OF inv])
  then have commit: "route_ingress_event no_format reading_env no_time ''e1'' [sample_route] [sample_identity] d
      = Ok (d', \<lparr>ro_decisions = [sample_decision], ro_events = [ev\<lparr>ev_cursor := Some (Suc (Suc 0))\<rparr>]\<rparr>)"
    using appended none routed plan status keys(1)
    by (simp add: route_ingress_event_def ok_or_def e Let_def pending_queue_item_id_def sample_event_def del: append_route_events.simps)
  show thesis
  proof (rule that [OF inv ok _ _ commit])
    show "list_all (reads_same reading_env) (ro_events \<lparr>ro_decisions = [sample_decision], ro_events = [ev\<lparr>ev_cursor := Some (Suc (Suc 0))\<rparr>]\<rparr>)"
      using reading_env_reads_same [of "ev\<lparr>ev_cursor := Some (Suc (Suc 0))\<rparr>"] plain_payload_literals [OF plain] by simp
  qed (use es keys in \<open>simp_all add: d(2) unrouted_ingress_events_def sample_pending_def\<close>)
qed

theorem route_commit_is_idempotent_witness:
  "\<exists>d events. route_ingress_event no_format reading_env no_time ''e1'' [sample_route] [\<lparr>ri_id = ''r2'', ri_timestamp_ms = 9\<rparr>] d
     = Ok (d, \<lparr>ro_decisions = [sample_decision], ro_events = events\<rparr>)"
proof -
  obtain d d' out where *: "sql_inv reading_env d" "tables_ok d" "\<forall>e \<in> set (sql_entries reading_env d). ev_caused_by (je_event e) \<noteq> Some ''e1''"
    "unrouted_ingress_events d = [''e1'']"
    "route_ingress_event no_format reading_env no_time ''e1'' [sample_route] [sample_identity] d = Ok (d', out)"
    "ro_decisions out = [sample_decision]" "list_all (reads_same reading_env) (ro_events out)" by (rule sample_commit)
  from route_commit_is_idempotent [OF *(1,2,5,7), of "[\<lparr>ri_id = ''r2'', ri_timestamp_ms = 9\<rparr>]"] *(6) show ?thesis by auto
qed

theorem route_commit_queues_every_decision_witness:
  "\<exists>d d' out. unrouted_ingress_events d = [''e1''] \<and> ''e1'' \<notin> set (unrouted_ingress_events d')
     \<and> route_ingress_event no_format reading_env no_time ''e1'' [sample_route] [sample_identity] d = Ok (d', out)
     \<and> (\<exists>r \<in> set (db_queue_items d'). qi_id r = ''qi_e1'' \<and> qi_target_agent r = ''a'' \<and> qi_status r = ''available'')"
proof -
  obtain d d' out where *: "sql_inv reading_env d" "tables_ok d" "\<forall>e \<in> set (sql_entries reading_env d). ev_caused_by (je_event e) \<noteq> Some ''e1''"
    "unrouted_ingress_events d = [''e1'']"
    "route_ingress_event no_format reading_env no_time ''e1'' [sample_route] [sample_identity] d = Ok (d', out)"
    "ro_decisions out = [sample_decision]" "list_all (reads_same reading_env) (ro_events out)" by (rule sample_commit)
  have "''e1'' \<notin> set (unrouted_ingress_events d')"
    "\<exists>r \<in> set (db_queue_items d'). qi_id r = ''qi_e1'' \<and> qi_target_agent r = ''a'' \<and> qi_status r = ''available''"
    using route_commit_queues_every_decision [OF *(1,2,3,5,7)] *(6) by (auto simp: sample_decision_def)
  with *(4,5) show ?thesis by blast
qed

end
