(* ===== verification/Resources.thy ===== *)
theory Resources
  imports Route_Commit
begin

text \<open>
  Waits and deferred publications as operations, from \<open>crates/zeta-dispatch/src/sqlite/resources.rs\<close>: the events that
  close them, resumption, timeout, cancellation, publication, and the bounded advance of whatever is due.
\<close>

section \<open>Events\<close>

definition wait_matched_event :: "runtime_event_identity \<Rightarrow> wait \<Rightarrow> event \<Rightarrow> event" where
  "wait_matched_event identity w input =
     runtime_event identity ''runtime.wait.matched''
       (object_of ([(''handle'', JString (w_handle w)), (''agent_id'', JString (w_agent_id w)),
          (''session_id'', JString (w_session_id w)), (''matched_event_id'', JString (ev_id input)),
          (''event_type'', JString (ev_event_type input)), (''payload'', JObject (ev_payload input))]
          @ opt_field ''project_revision'' (w_project_revision w)))
       (''wait.matched:'' @ w_handle w) (ev_id input) (Some (w_session_id w)) None (ev_turn_id input)"

definition zero_pad :: "nat \<Rightarrow> string \<Rightarrow> string" where
  "zero_pad width digits = replicate (width - length digits) (CHR ''0'') @ digits"

definition signed_pad :: "nat \<Rightarrow> int \<Rightarrow> string" where
  "signed_pad width i = (if i < 0 then ''-'' @ zero_pad (width - 1) (show_nat (nat (- i))) else zero_pad width (show_nat (nat i)))"

definition format_wait_deadline :: "time_lib \<Rightarrow> int \<Rightarrow> (dispatch_error, string) result" where
  "format_wait_deadline T deadline_ms =
     and_then (ok_or (corrupt_projection ''waits'' ''deadline_ms'') (from_unix_nanos T (deadline_ms * 1000000))) (\<lambda>t.
       let microsecond = tf_nanosecond t div 1000;
           moment = signed_pad 4 (tf_year t) @ ''-'' @ zero_pad 2 (show_nat (tf_month t)) @ ''-'' @ zero_pad 2 (show_nat (tf_day t))
             @ ''T'' @ zero_pad 2 (show_nat (tf_hour t)) @ '':'' @ zero_pad 2 (show_nat (tf_minute t))
             @ '':'' @ zero_pad 2 (show_nat (tf_second t))
       in Ok (if microsecond = 0 then moment @ ''+00:00''
              else moment @ ''.'' @ zero_pad 6 (show_nat microsecond) @ ''+00:00''))"

definition wait_timed_out_event :: "time_lib \<Rightarrow> runtime_event_identity \<Rightarrow> wait \<Rightarrow> (dispatch_error, event) result" where
  "wait_timed_out_event T identity w =
     and_then (ok_or (corrupt_projection ''waits'' ''deadline_ms'') (w_deadline_ms w)) (\<lambda>deadline_ms.
     and_then (format_wait_deadline T deadline_ms) (\<lambda>deadline.
       Ok (runtime_event identity ''runtime.wait.timed_out''
         (object_of [(''handle'', JString (w_handle w)), (''agent_id'', JString (w_agent_id w)),
            (''session_id'', JString (w_session_id w)), (''deadline'', JString deadline),
            (''project_revision'', or_null (w_project_revision w))])
         (''wait.timed_out:'' @ w_handle w) (w_created_event_id w) (Some (w_session_id w)) None None)))"

definition wait_cancelled_event ::
  "runtime_event_identity \<Rightarrow> wait \<Rightarrow> string option \<Rightarrow> string option \<Rightarrow> string option \<Rightarrow> event" where
  "wait_cancelled_event identity w reason source_agent_id source_session_id =
     runtime_event identity ''runtime.wait.cancelled''
       (object_of ([(''handle'', JString (w_handle w)), (''agent_id'', JString (w_agent_id w)),
          (''session_id'', JString (w_session_id w))] @ opt_field ''reason'' reason
          @ opt_field ''cancelled_by_agent_id'' source_agent_id @ opt_field ''cancelled_by_session_id'' source_session_id))
       (''wait.cancelled:'' @ w_handle w) (w_created_event_id w) (Some (w_session_id w)) None None"

definition wait_continuation_event :: "runtime_event_identity \<Rightarrow> wait \<Rightarrow> event \<Rightarrow> event" where
  "wait_continuation_event identity w matched =
     runtime_event identity ''runtime.queue_item.available''
       (object_of ([(''queue_item_id'', JString (queue_item_id (ev_id matched) (w_agent_id w))),
          (''event_id'', JString (ev_id matched)), (''target_agent'', JString (w_agent_id w)),
          (''status'', JString (queue_status_display QAvailable))] @ opt_field ''project_revision'' (w_project_revision w)))
       (queue_item_idempotency_key (ev_id matched) (w_agent_id w) QAvailable) (ev_id matched)
       (Some (w_session_id w)) None (ev_turn_id matched)"

definition deferred_publication_event :: "runtime_event_identity \<Rightarrow> deferred_publication \<Rightarrow> event" where
  "deferred_publication_event identity p =
     \<lparr>ev_id = ri_id identity, ev_event_type = p_event_type p, ev_source = ''agent:'' @ p_source_agent_id p,
      ev_payload = p_payload p,
      ev_idempotency_key = Some (''agent.publish:'' @ p_source_queue_item_id p @ '':'' @ show_nat (p_position p)),
      ev_caused_by = Some (p_created_event_id p), ev_session_id = p_source_session_id p, ev_run_id = p_source_run_id p,
      ev_turn_id = None, ev_timestamp_ms = ri_timestamp_ms identity, ev_cursor = None\<rparr>"

definition deferred_publication_fields :: "env \<Rightarrow> deferred_publication \<Rightarrow> (string \<times> json) list" where
  "deferred_publication_fields E p =
     [(''handle'', JString (p_handle p)), (''source_agent_id'', JString (p_source_agent_id p)),
      (''source_queue_item_id'', JString (p_source_queue_item_id p)),
      (''position'', JNumber (num_from_int E (int (p_position p))))]"

definition deferred_publication_published_event ::
  "env \<Rightarrow> runtime_event_identity \<Rightarrow> deferred_publication \<Rightarrow> event \<Rightarrow> event" where
  "deferred_publication_published_event E identity p published =
     runtime_event identity ''runtime.deferred_publication.published''
       (object_of (deferred_publication_fields E p @ [(''published_event_id'', JString (ev_id published))]))
       (''deferred_publication.published:'' @ p_handle p) (ev_id published) (p_source_session_id p) (p_source_run_id p)
       (ev_turn_id published)"

definition deferred_publication_cancelled_event ::
  "env \<Rightarrow> runtime_event_identity \<Rightarrow> deferred_publication \<Rightarrow> string option \<Rightarrow> string option \<Rightarrow> string option \<Rightarrow> event" where
  "deferred_publication_cancelled_event E identity p reason source_agent_id source_session_id =
     runtime_event identity ''runtime.deferred_publication.cancelled''
       (object_of (deferred_publication_fields E p @ opt_field ''reason'' reason
          @ opt_field ''cancelled_by_agent_id'' source_agent_id @ opt_field ''cancelled_by_session_id'' source_session_id))
       (''deferred_publication.cancelled:'' @ p_handle p) (p_created_event_id p) (p_source_session_id p) (p_source_run_id p) None"

section \<open>Cancellation by handle\<close>

datatype resource_kind = ResourceWait | ResourceDeferredPublication

datatype resource_cancellation_status = ResourceCancelled | ResourceMatched | ResourceTimedOut | ResourcePublished

record resource_cancellation_outcome =
  rc_handle :: string
  rc_resource_kind :: resource_kind
  rc_status :: resource_cancellation_status
  rc_changed :: bool
  rc_event :: "event option"

definition resource_kind_for_handle :: "string \<Rightarrow> (dispatch_error, resource_kind) result" where
  "resource_kind_for_handle handle =
     (if prefix ''wait_'' handle then Ok ResourceWait
      else if prefix ''pub_'' handle then Ok ResourceDeferredPublication
      else Err (InvalidCancellationHandle handle))"

definition authorize_resource_cancellation ::
  "string \<Rightarrow> string \<Rightarrow> string option \<Rightarrow> string option \<Rightarrow> string option \<Rightarrow> (dispatch_error, unit) result" where
  "authorize_resource_cancellation handle creator_agent_id creator_session_id source_agent_id source_session_id =
     (let agent_mismatch = (case source_agent_id of Some source \<Rightarrow> source \<noteq> creator_agent_id | None \<Rightarrow> False);
          session_mismatch = (case source_session_id of Some source \<Rightarrow> Some source \<noteq> creator_session_id | None \<Rightarrow> False)
      in if agent_mismatch \<or> session_mismatch then Err (CancellationAuthorityMismatch handle) else Ok ())"

definition terminal_resource_cancellation ::
  "string \<Rightarrow> resource_kind \<Rightarrow> resource_cancellation_status \<Rightarrow> resource_cancellation_outcome" where
  "terminal_resource_cancellation handle kind status =
     \<lparr>rc_handle = handle, rc_resource_kind = kind, rc_status = status, rc_changed = False, rc_event = None\<rparr>"

text \<open>Appending the cancellation of a resource whose row says that it is open.\<close>

definition append_resource_cancellation ::
  "env \<Rightarrow> time_lib \<Rightarrow> string \<Rightarrow> resource_kind \<Rightarrow> string \<Rightarrow> event \<Rightarrow> db
     \<Rightarrow> (dispatch_error, db \<times> resource_cancellation_outcome) result" where
  "append_resource_cancellation E T handle kind table ev d =
     and_then (append_runtime_event E T ev d) (\<lambda>(d, out).
       if \<not> out_inserted out then Err (corrupt_projection table ''status'')
       else Ok (d, \<lparr>rc_handle = handle, rc_resource_kind = kind, rc_status = ResourceCancelled, rc_changed = True,
                    rc_event = Some (out_event out)\<rparr>))"

definition cancel_wait ::
  "env \<Rightarrow> time_lib \<Rightarrow> string \<Rightarrow> string option \<Rightarrow> string option \<Rightarrow> string option \<Rightarrow> runtime_event_identity \<Rightarrow> db
     \<Rightarrow> (dispatch_error, db \<times> resource_cancellation_outcome) result" where
  "cancel_wait E T handle reason source_agent_id source_session_id identity d =
     and_then (load_wait E handle d) (\<lambda>w.
     and_then (ok_or (CancellationResourceNotFound handle) w) (\<lambda>w.
     and_then (authorize_resource_cancellation handle (w_agent_id w) (Some (w_session_id w)) source_agent_id source_session_id) (\<lambda>_.
       case w_status w of
         WaitActive \<Rightarrow> append_resource_cancellation E T handle ResourceWait ''waits''
           (wait_cancelled_event identity w reason source_agent_id source_session_id) d
       | WaitMatched \<Rightarrow> Ok (d, terminal_resource_cancellation handle ResourceWait ResourceMatched)
       | WaitTimedOut \<Rightarrow> Ok (d, terminal_resource_cancellation handle ResourceWait ResourceTimedOut)
       | WaitCancelled \<Rightarrow> Ok (d, terminal_resource_cancellation handle ResourceWait ResourceCancelled))))"

definition cancel_deferred_publication ::
  "env \<Rightarrow> time_lib \<Rightarrow> string \<Rightarrow> string option \<Rightarrow> string option \<Rightarrow> string option \<Rightarrow> runtime_event_identity \<Rightarrow> db
     \<Rightarrow> (dispatch_error, db \<times> resource_cancellation_outcome) result" where
  "cancel_deferred_publication E T handle reason source_agent_id source_session_id identity d =
     and_then (load_deferred_publication E handle d) (\<lambda>p.
     and_then (ok_or (CancellationResourceNotFound handle) p) (\<lambda>p.
     and_then (authorize_resource_cancellation handle (p_source_agent_id p) (p_source_session_id p) source_agent_id source_session_id) (\<lambda>_.
       case p_status p of
         PublicationPending \<Rightarrow> append_resource_cancellation E T handle ResourceDeferredPublication ''deferred_publications''
           (deferred_publication_cancelled_event E identity p reason source_agent_id source_session_id) d
       | PublicationPublished \<Rightarrow> Ok (d, terminal_resource_cancellation handle ResourceDeferredPublication ResourcePublished)
       | PublicationCancelled \<Rightarrow> Ok (d, terminal_resource_cancellation handle ResourceDeferredPublication ResourceCancelled)
       | PublicationClaimed \<Rightarrow> Err (corrupt_projection ''deferred_publications'' ''status''))))"

definition cancel_resource_in_transaction ::
  "env \<Rightarrow> time_lib \<Rightarrow> string \<Rightarrow> string option \<Rightarrow> string option \<Rightarrow> string option \<Rightarrow> runtime_event_identity \<Rightarrow> resource_kind \<Rightarrow> db
     \<Rightarrow> (dispatch_error, db \<times> resource_cancellation_outcome) result" where
  "cancel_resource_in_transaction E T handle reason source_agent_id source_session_id identity kind d = (case kind of
     ResourceWait \<Rightarrow> cancel_wait E T handle reason source_agent_id source_session_id identity d
   | ResourceDeferredPublication \<Rightarrow> cancel_deferred_publication E T handle reason source_agent_id source_session_id identity d)"

definition cancel_resource ::
  "env \<Rightarrow> time_lib \<Rightarrow> string \<Rightarrow> string option \<Rightarrow> string option \<Rightarrow> string option \<Rightarrow> runtime_event_identity \<Rightarrow> db
     \<Rightarrow> (dispatch_error, db \<times> resource_cancellation_outcome) result" where
  "cancel_resource E T handle reason source_agent_id source_session_id identity d =
     (if reason = Some [] then Err (InvalidCoordinationInput ''reason'')
      else and_then (resource_kind_for_handle handle) (\<lambda>kind.
        cancel_resource_in_transaction E T handle reason source_agent_id source_session_id identity kind d))"

section \<open>Resumption, timeout and publication\<close>

text \<open>The loop over the matched waits and the pairs of identities; it ends with the shorter of the two.\<close>

fun resume_each ::
  "env \<Rightarrow> time_lib \<Rightarrow> event \<Rightarrow> wait list \<Rightarrow> runtime_event_identity list \<Rightarrow> db \<Rightarrow> (dispatch_error, db \<times> event list) result" where
  "resume_each E T input (w # ws) (i # j # rest) d =
     and_then (append_runtime_event E T (wait_matched_event i w input) d) (\<lambda>(d, matched).
     and_then (append_runtime_event E T (wait_continuation_event j w (out_event matched)) d) (\<lambda>(d, continuation).
     and_then (resume_each E T input ws rest d) (\<lambda>(d, events).
       Ok (d, out_event matched # out_event continuation # events))))"
| "resume_each E T input ws rest d = Ok (d, [])"

definition resume_waits_for_event ::
  "env \<Rightarrow> time_lib \<Rightarrow> string \<Rightarrow> runtime_event_identity list \<Rightarrow> db \<Rightarrow> (dispatch_error, db \<times> event list) result" where
  "resume_waits_for_event E T event_id identities d =
     and_then (entry_by_field E ''event_id'' event_id d) (\<lambda>entry.
     and_then (ok_or (IngressEventNotFound event_id) entry) (\<lambda>entry.
       let input = je_event entry in
     and_then (if prefix ''runtime.'' (ev_event_type input) then Ok [] else matching_waits E input d) (\<lambda>waits.
       let expected = length waits * 2 in
     if length identities \<noteq> expected then Err (RuntimeEventIdentityCount expected (length identities))
     else
     and_then (validate_distinct_runtime_identities identities) (\<lambda>_.
       resume_each E T input waits identities d))))"

definition timeout_next_due_wait ::
  "env \<Rightarrow> time_lib \<Rightarrow> int \<Rightarrow> runtime_event_identity \<Rightarrow> runtime_event_identity \<Rightarrow> db
     \<Rightarrow> (dispatch_error, db \<times> event list option) result" where
  "timeout_next_due_wait E T now_ms i j d =
     and_then (next_due_wait E now_ms d) (\<lambda>due.
       case due of
         None \<Rightarrow> Ok (d, None)
       | Some w \<Rightarrow>
           and_then (validate_distinct_runtime_identities [i, j]) (\<lambda>_.
           and_then (wait_timed_out_event T i w) (\<lambda>ev.
           and_then (append_runtime_event E T ev d) (\<lambda>(d, timed_out).
           and_then (append_runtime_event E T (wait_continuation_event j w (out_event timed_out)) d) (\<lambda>(d, continuation).
             Ok (d, Some [out_event timed_out, out_event continuation]))))))"

definition publish_next_due_deferred_publication ::
  "env \<Rightarrow> time_lib \<Rightarrow> int \<Rightarrow> runtime_event_identity list \<Rightarrow> db \<Rightarrow> (dispatch_error, db \<times> event list option) result" where
  "publish_next_due_deferred_publication E T now_ms identities d =
     and_then (next_due_deferred_publication E now_ms d) (\<lambda>due.
       case due of
         None \<Rightarrow> if identities \<noteq> [] then Err (RuntimeEventIdentityCount 0 (length identities)) else Ok (d, None)
       | Some p \<Rightarrow>
           if length identities < 2 then Err (RuntimeEventIdentityCount 2 (length identities))
           else
           let published = deferred_publication_event (hd identities) p in
           and_then (matching_waits E published d) (\<lambda>waits.
             let expected = 2 + length waits * 2 in
           if length identities \<noteq> expected then Err (RuntimeEventIdentityCount expected (length identities))
           else
           and_then (validate_distinct_runtime_identities identities) (\<lambda>_.
           and_then (append_runtime_event E T published d) (\<lambda>(d, published).
           and_then (resume_each E T (out_event published) waits (butlast (tl identities)) d) (\<lambda>(d, resumed).
           and_then (append_runtime_event E T
               (deferred_publication_published_event E (last identities) p (out_event published)) d) (\<lambda>(d, terminal).
             Ok (d, Some (out_event published # resumed @ [out_event terminal]))))))))"

section \<open>Due work\<close>

datatype due_kind = DueWait | DuePublication

definition due_kind_next :: "wait option \<Rightarrow> deferred_publication option \<Rightarrow> due_kind option" where
  "due_kind_next w p = (case (w, p) of
     (None, None) \<Rightarrow> None
   | (Some _, None) \<Rightarrow> Some DueWait
   | (None, Some _) \<Rightarrow> Some DuePublication
   | (Some w, Some p) \<Rightarrow>
       if (case w_deadline_ms w of Some t \<Rightarrow> t | None \<Rightarrow> 2 ^ 63 - 1) \<le> p_publish_at_ms p then Some DueWait else Some DuePublication)"

definition sql_min :: "int list \<Rightarrow> int option" where
  "sql_min vs = (if vs = [] then None else Some (Min (set vs)))"

definition next_future_wait_deadline :: "int \<Rightarrow> db \<Rightarrow> int option" where
  "next_future_wait_deadline now_ms d = sql_min (filter (\<lambda>t. now_ms < t)
     (List.map_filter wt_deadline_ms (filter (\<lambda>w. wt_status w = ''active'') (db_waits d))))"

definition next_future_publication_deadline :: "int \<Rightarrow> db \<Rightarrow> int option" where
  "next_future_publication_deadline now_ms d = sql_min (filter (\<lambda>t. now_ms < t)
     (map dp_publish_at_ms (filter (\<lambda>p. dp_status p = ''pending'') (db_deferred d))))"

definition next_future_claim_deadline :: "int \<Rightarrow> db \<Rightarrow> int option" where
  "next_future_claim_deadline now_ms d = sql_min (filter (\<lambda>t. now_ms < t) (map qc_claimed_until (db_queue_claims d)))"

definition next_future_queue_deadline :: "int \<Rightarrow> db \<Rightarrow> int option" where
  "next_future_queue_deadline now_ms d = sql_min (filter (\<lambda>t. now_ms < t)
     (List.map_filter qi_available_at (filter (\<lambda>r. qi_status r = ''available'') (db_queue_items d))))"

definition next_deadline_ms :: "int \<Rightarrow> db \<Rightarrow> int option" where
  "next_deadline_ms now_ms d = sql_min (List.map_filter (\<lambda>t. t)
     [next_future_wait_deadline now_ms d, next_future_publication_deadline now_ms d,
      next_future_queue_deadline now_ms d, next_future_claim_deadline now_ms d])"

definition has_due_maintenance :: "env \<Rightarrow> int \<Rightarrow> db \<Rightarrow> (dispatch_error, bool) result" where
  "has_due_maintenance E now_ms d =
     and_then (next_due_wait E now_ms d) (\<lambda>w.
       if w \<noteq> None then Ok True
       else and_then (next_due_deferred_publication E now_ms d) (\<lambda>p. Ok (p \<noteq> None)))"

section \<open>Bounded advance\<close>

text \<open>
  \<open>advance_due\<close> commits one transaction per round, so an error keeps the rounds before it: the result is a database and
  an outcome.  The identity source is the caller's closure, a function on its own state.  The two \<open>expect\<close>s are \<open>AdvancePanic\<close>.
\<close>

datatype advance_error = AdvanceError dispatch_error | AdvancePanic

type_synonym 's identity_source = "'s \<Rightarrow> (dispatch_error, runtime_event_identity) result \<times> 's"

fun take_identities :: "nat \<Rightarrow> 's identity_source \<Rightarrow> 's \<Rightarrow> (dispatch_error, runtime_event_identity list) result \<times> 's" where
  "take_identities 0 next_identity s = (Ok [], s)"
| "take_identities (Suc n) next_identity s = (case next_identity s of
     (Inl e, s) \<Rightarrow> (Err e, s)
   | (Inr i, s) \<Rightarrow> (case take_identities n next_identity s of
        (Inl e, s) \<Rightarrow> (Err e, s)
      | (Inr rest, s) \<Rightarrow> (Ok (i # rest), s)))"

definition expect_events :: "(dispatch_error, db \<times> event list option) result \<Rightarrow> 's
  \<Rightarrow> (advance_error, (db \<times> event list \<times> 's) option) result" where
  "expect_events r s = (case r of
     Inl e \<Rightarrow> Err (AdvanceError e)
   | Inr (d, Some events) \<Rightarrow> Ok (Some (d, events, s))
   | Inr (d, None) \<Rightarrow> Err AdvancePanic)"

definition advance_wait ::
  "env \<Rightarrow> time_lib \<Rightarrow> int \<Rightarrow> 's identity_source \<Rightarrow> 's \<Rightarrow> db \<Rightarrow> (advance_error, (db \<times> event list \<times> 's) option) result" where
  "advance_wait E T now_ms next_identity s d = (case take_identities 2 next_identity s of
     (Inl e, s) \<Rightarrow> Err (AdvanceError e)
   | (Inr identities, s) \<Rightarrow>
       expect_events (timeout_next_due_wait E T now_ms (identities ! 0) (identities ! 1) d) s)"

definition advance_publication ::
  "env \<Rightarrow> time_lib \<Rightarrow> int \<Rightarrow> 's identity_source \<Rightarrow> 's \<Rightarrow> deferred_publication \<Rightarrow> db
     \<Rightarrow> (advance_error, (db \<times> event list \<times> 's) option) result" where
  "advance_publication E T now_ms next_identity s p d =
     and_then (map_err (\<lambda>e. case e of RuntimeIdParseError resource \<Rightarrow> AdvanceError (InvalidCoordinationInput resource))
       (runtime_event_identity_new ''runtime_due_probe'' now_ms)) (\<lambda>probe.
     and_then (map_err AdvanceError (matching_waits E (deferred_publication_event probe p) d)) (\<lambda>waits.
       case take_identities (2 + length waits * 2) next_identity s of
         (Inl e, s) \<Rightarrow> Err (AdvanceError e)
       | (Inr identities, s) \<Rightarrow> expect_events (publish_next_due_deferred_publication E T now_ms identities d) s))"

text \<open>One round; \<open>None\<close> leaves the loop.\<close>

definition advance_round ::
  "env \<Rightarrow> time_lib \<Rightarrow> int \<Rightarrow> 's identity_source \<Rightarrow> 's \<Rightarrow> db \<Rightarrow> (advance_error, (db \<times> event list \<times> 's) option) result" where
  "advance_round E T now_ms next_identity s d =
     and_then (map_err AdvanceError (next_due_wait E now_ms d)) (\<lambda>w.
     and_then (map_err AdvanceError (next_due_deferred_publication E now_ms d)) (\<lambda>p.
       case due_kind_next w p of
         None \<Rightarrow> Ok None
       | Some DueWait \<Rightarrow> advance_wait E T now_ms next_identity s d
       | Some DuePublication \<Rightarrow> (case p of
           None \<Rightarrow> Err AdvancePanic
         | Some p \<Rightarrow> advance_publication E T now_ms next_identity s p d)))"

fun advance_due ::
  "env \<Rightarrow> time_lib \<Rightarrow> int \<Rightarrow> nat \<Rightarrow> 's identity_source \<Rightarrow> 's \<Rightarrow> db \<Rightarrow> db \<times> (advance_error, event list) result" where
  "advance_due E T now_ms 0 next_identity s d = (d, Ok [])"
| "advance_due E T now_ms (Suc limit) next_identity s d = (case advance_round E T now_ms next_identity s d of
     Inl e \<Rightarrow> (d, Err e)
   | Inr None \<Rightarrow> (d, Ok [])
   | Inr (Some (d, events, s)) \<Rightarrow> (case advance_due E T now_ms limit next_identity s d of
        (d, rest) \<Rightarrow> (d, and_then rest (\<lambda>es. Ok (events @ es)))))"

end
