(* ===== verification/Maintenance.thy ===== *)
theory Maintenance
  imports Resources
begin

text \<open>
  What the operations of \<^theory_text>\<open>Resources\<close> do to the open waits and publications.  Every round of \<open>advance_due\<close> closes
  the resource that was due first, so a call whose limit covers what is due leaves nothing due.
\<close>

section \<open>Open resources\<close>

definition active_waits :: "db \<Rightarrow> wait_row list" where
  "active_waits d = filter (\<lambda>w. wt_status w = ''active'') (db_waits d)"

definition pending_publications :: "db \<Rightarrow> deferred_row list" where
  "pending_publications d = filter (\<lambda>p. dp_status p = ''pending'') (db_deferred d)"

definition wait_due :: "int \<Rightarrow> wait_row \<Rightarrow> bool" where
  "wait_due now_ms w = (case wt_deadline_ms w of Some t \<Rightarrow> t \<le> now_ms | None \<Rightarrow> False)"

definition due_count :: "int \<Rightarrow> db \<Rightarrow> nat" where
  "due_count now_ms d = length (filter (wait_due now_ms) (active_waits d))
     + length (filter (\<lambda>p. dp_publish_at_ms p \<le> now_ms) (pending_publications d))"

text \<open>The journal holds no event under the key that will close an open resource.\<close>

definition keys_free :: "db \<Rightarrow> bool" where
  "keys_free d \<longleftrightarrow> (\<forall>row \<in> set (db_journal d).
     (\<forall>w \<in> set (active_waits d). se_idempotency_key row \<noteq> Some (''wait.timed_out:'' @ wt_handle w))
     \<and> (\<forall>p \<in> set (pending_publications d). se_idempotency_key row \<noteq> Some (''deferred_publication.published:'' @ dp_handle p)))"

lemma keys_freeD:
  assumes "keys_free d" "row \<in> set (db_journal d)"
  shows "w \<in> set (active_waits d) \<Longrightarrow> se_idempotency_key row \<noteq> Some (''wait.timed_out:'' @ wt_handle w)"
    "p \<in> set (pending_publications d) \<Longrightarrow> se_idempotency_key row \<noteq> Some (''deferred_publication.published:'' @ dp_handle p)"
  using assms unfolding keys_free_def by blast+

section \<open>Appends\<close>

lemma read_first_SomeE:
  assumes "read_first E P d = Ok (Some e)"
  obtains row where "row \<in> set (db_journal d)" "P row" "into_entry E row = Ok e"
  using assms by (auto simp: read_first_def result_simps dest: find_SomeD split: option.splits)

lemma append_new_entry_row:
  assumes "append_new_entry E ev d = Ok (d', out)"
  obtains row c where "d' = grow [row] d" "out_inserted out" "out_event out = ev\<lparr>ev_cursor := Some c\<rparr>"
    "se_idempotency_key row = ev_idempotency_key ev" "se_event_id row = ev_id ev"
proof -
  have ins: "d' = grow [s] d" if "insert_journal_entry s d = Ok d'" for s
    using that by (auto simp: insert_journal_entry_def result_simps grow_def)
  from assms obtain entry c h where e: "journal_entry_new E ev c h = Ok entry" "insert_journal_entry (entry_row c entry) d = Ok d'"
    "out = \<lparr>out_event = je_event entry, out_inserted = True\<rparr>"
    unfolding append_new_entry_def by (auto elim!: and_then_OkE simp: result_simps split: if_splits)
  have "je_event entry = ev\<lparr>ev_cursor := Some c\<rparr>" using journal_entry_new_entry_ok [OF e(1)] by simp
  then show thesis using e(2,3) by (intro that [of "entry_row c entry" c]) (simp_all add: ins entry_row_def Let_def)
qed

lemma append_runtime_cases:
  assumes "append_runtime_event E T ev d = Ok (d', out)"
  obtains (known) row where "d' = d" "same_lifecycle_intention ev (out_event out)" "row \<in> set (db_journal d)"
    "se_idempotency_key row = ev_idempotency_key ev" "\<not> out_inserted out"
  | (fresh) row c where "index_event E T (ev\<lparr>ev_cursor := Some c\<rparr>) (grow [row] d) = Ok d'" "out_event out = ev\<lparr>ev_cursor := Some c\<rparr>"
    "se_idempotency_key row = ev_idempotency_key ev" "se_event_id row = ev_id ev" "out_inserted out"
proof -
  from assms obtain d1 where d1: "append_in_transaction E ev d = Ok (d1, out)"
    and same: "out_inserted out \<or> same_lifecycle_intention ev (out_event out)"
    and d': "if out_inserted out then index_event E T (out_event out) d1 = Ok d' else d' = d1"
    by (auto simp: append_runtime_event_def result_simps append_lifecycle_Ok split: if_splits)
  show thesis
  proof (cases "out_inserted out")
    case False
    then have "\<exists>row e. row \<in> set (db_journal d) \<and> into_entry E row = Ok e \<and> out_event out = je_event e"
      using d1 unfolding append_in_transaction_def
      by (auto simp: entry_by_field_def elim!: and_then_OkE read_first_SomeE append_new_entry_row
          split: option.splits if_splits) blast+
    then obtain row e where row: "row \<in> set (db_journal d)" "into_entry E row = Ok e" "out_event out = je_event e" by blast
    have intention: "same_lifecycle_intention ev (out_event out)" using same False by simp
    then have "se_idempotency_key row = ev_idempotency_key ev"
      using into_entry_key [OF row(2)] row(3) by (simp add: same_lifecycle_intention_def del: json_same.simps)
    moreover have "d' = d" using False d' append_in_transaction_rows [OF d1] by auto
    ultimately show thesis using known [OF _ intention row(1)] False by blast
  next
    case True
    then have "append_new_entry E ev d = Ok (d1, out)"
      using d1 unfolding append_in_transaction_def by (auto elim!: and_then_OkE split: option.splits if_splits)
    then obtain row c where "d1 = grow [row] d" "out_event out = ev\<lparr>ev_cursor := Some c\<rparr>"
      "se_idempotency_key row = ev_idempotency_key ev" "se_event_id row = ev_id ev"
      by (rule append_new_entry_row)
    then show thesis using fresh d' True by simp
  qed
qed

lemma append_runtime_ok:
  assumes "tables_ok d" "append_runtime_event E T ev d = Ok (d', out)"
  shows "tables_ok d'"
  using assms(2)
  by (cases rule: append_runtime_cases) (auto simp: assms(1) intro: index_event_ok tables_ok_grow [OF assms(1)])

section \<open>Closing\<close>

lemma close_wait_active:
  assumes "close_wait ev handle status matched d = Ok d'" "status \<noteq> WaitActive"
  shows "active_waits d' = filter (\<lambda>w. wt_handle w \<noteq> handle) (active_waits d)" "db_deferred d' = db_deferred d"
proof -
  let ?named = "\<lambda>w. wt_handle w = handle \<and> wt_status w = ''active''"
  have "filter (\<lambda>w. wt_status w = ''active'') (sql_update ?named (\<lambda>w. w\<lparr>wt_status := wait_status_str status,
        wt_matched_event_id := matched, wt_terminal_event_id := Some (ev_id ev), wt_updated_at := ev_timestamp_ms ev\<rparr>) rows)
      = filter (\<lambda>w. wt_handle w \<noteq> handle) (filter (\<lambda>w. wt_status w = ''active'') rows)" for rows
    using assms(2) by (induction rows) (auto simp: sql_update_def)
  then show "active_waits d' = filter (\<lambda>w. wt_handle w \<noteq> handle) (active_waits d)" "db_deferred d' = db_deferred d"
    using assms(1) by (auto simp: close_wait_def Let_def active_waits_def split: if_splits)
qed

lemma close_deferred_pending:
  assumes "close_deferred ev handle status published d = Ok d'" "status \<noteq> PublicationPending"
  shows "pending_publications d' = filter (\<lambda>p. dp_handle p \<noteq> handle) (pending_publications d)" "db_waits d' = db_waits d"
proof -
  let ?named = "\<lambda>p. dp_handle p = handle \<and> dp_status p \<in> {''pending'', ''claimed''}"
  have "filter (\<lambda>p. dp_status p = ''pending'') (sql_update ?named (\<lambda>p. p\<lparr>dp_status := deferred_publication_status_str status,
        dp_published_event_id := published, dp_terminal_event_id := Some (ev_id ev), dp_updated_at := ev_timestamp_ms ev\<rparr>) rows)
      = filter (\<lambda>p. dp_handle p \<noteq> handle) (filter (\<lambda>p. dp_status p = ''pending'') rows)" for rows
    using assms(2) by (induction rows) (auto simp: sql_update_def)
  then show "pending_publications d' = filter (\<lambda>p. dp_handle p \<noteq> handle) (pending_publications d)" "db_waits d' = db_waits d"
    using assms(1) by (auto simp: close_deferred_def Let_def pending_publications_def split: if_splits)
qed

text \<open>What one operation may do to open resources: close some, and journal events under keys of a set.\<close>

definition progresses :: "string set \<Rightarrow> db \<Rightarrow> db \<Rightarrow> bool" where
  "progresses K d d' \<longleftrightarrow> (\<exists>rows. db_journal d' = db_journal d @ rows \<and> se_idempotency_key ` set rows \<subseteq> Some ` K)
     \<and> (\<exists>P. active_waits d' = filter P (active_waits d)) \<and> (\<exists>P. pending_publications d' = filter P (pending_publications d))"

lemma progresses_refl [simp]: "progresses K d d"
  by (auto simp: progresses_def intro: exI [of _ "\<lambda>_. True"])

lemma progresses_trans:
  assumes "progresses K d d1" "progresses K' d1 d2"
  shows "progresses (K \<union> K') d d2"
proof -
  have "\<exists>P. xs2 = filter P xs" if "\<exists>P. xs1 = filter P xs" "\<exists>P. xs2 = filter P xs1" for xs xs1 xs2 :: "'r list"
    using that by (auto simp: filter_filter)
  then show ?thesis using assms unfolding progresses_def by (auto simp: image_Un) blast+
qed

lemma progresses_mono: "progresses K d d' \<Longrightarrow> K \<subseteq> K' \<Longrightarrow> progresses K' d d'"
  unfolding progresses_def by (auto dest: image_mono [of K K' Some])

lemma progresses_grow:
  assumes "db_journal d' = db_journal d @ [row]" "se_idempotency_key row = Some key"
    "\<exists>P. active_waits d' = filter P (active_waits d)" "\<exists>P. pending_publications d' = filter P (pending_publications d)"
  shows "progresses {key} d d'"
  using assms by (auto simp: progresses_def)

lemma progresses_due: "progresses K d d' \<Longrightarrow> due_count now_ms d' \<le> due_count now_ms d"
proof -
  have "length (filter Q (filter P xs)) \<le> length (filter Q xs)" for P Q and xs :: "'r list"
    by (induction xs) auto
  then show "progresses K d d' \<Longrightarrow> due_count now_ms d' \<le> due_count now_ms d"
    unfolding progresses_def due_count_def by (metis add_mono)
qed

lemma progresses_keys:
  assumes "keys_free d" "progresses K d d'"
    and "\<And>w. w \<in> set (active_waits d') \<Longrightarrow> ''wait.timed_out:'' @ wt_handle w \<notin> K"
    and "\<And>p. p \<in> set (pending_publications d') \<Longrightarrow> ''deferred_publication.published:'' @ dp_handle p \<notin> K"
  shows "keys_free d'"
proof -
  from assms(2) obtain rows P Q where *: "db_journal d' = db_journal d @ rows" "se_idempotency_key ` set rows \<subseteq> Some ` K"
    "active_waits d' = filter P (active_waits d)" "pending_publications d' = filter Q (pending_publications d)"
    by (auto simp: progresses_def)
  have "se_idempotency_key row \<noteq> Some k" if "row \<in> set rows" "k \<notin> K" for row k
    using that subsetD [OF *(2) imageI [OF that(1)]] by auto
  then show ?thesis using assms(1,3,4) unfolding keys_free_def *(1) *(3,4) by (simp add: ball_Un)
qed

section \<open>Each event\<close>

lemma grow_open [simp]: "active_waits (grow rows d) = active_waits d" "pending_publications (grow rows d) = pending_publications d"
  by (simp_all add: active_waits_def pending_publications_def)

lemma index_queue_open:
  "apart_from_queue d' = apart_from_queue d \<Longrightarrow> active_waits d' = active_waits d \<and> pending_publications d' = pending_publications d"
  by (simp add: apart_from_queue_def active_waits_def pending_publications_def)

lemma append_queue_progress:
  assumes app: "append_runtime_event E T ev d = Ok (d', out)" and key: "ev_idempotency_key ev = Some key"
    and ix: "\<And>c d1 d2. index_event E T (ev\<lparr>ev_cursor := c\<rparr>) d1 = Ok d2 \<Longrightarrow> apart_from_queue d2 = apart_from_queue d1"
  shows "progresses {key} d d'"
  using app
proof (cases rule: append_runtime_cases)
  case (fresh row c)
  have "db_journal d' = db_journal d @ [row]" using index_event_journal [OF fresh(1)] by simp
  then show ?thesis
    using index_queue_open [OF ix [OF fresh(1)]] fresh(3) key
    by (intro progresses_grow [of d' d row]) (auto intro: exI [of _ "\<lambda>_. True"])
qed simp

lemma append_continuation_progress:
  "append_runtime_event E T (wait_continuation_event i w matched) d = Ok (d', out) \<Longrightarrow>
     progresses {queue_item_idempotency_key (ev_id matched) (w_agent_id w) QAvailable} d d'"
  by (erule append_queue_progress)
    (simp_all add: wait_continuation_event_def runtime_event_def index_event_def index_queue_item_frame)

lemma append_published_progress:
  assumes "\<not> prefix ''runtime.'' (p_event_type p)" "append_runtime_event E T (deferred_publication_event i p) d = Ok (d', out)"
  shows "progresses {''agent.publish:'' @ p_source_queue_item_id p @ '':'' @ show_nat (p_position p)} d d'"
proof (rule append_queue_progress [OF assms(2)])
  fix c d1 d2
  have no: "\<not> prefix (''runtime.'' @ x) (p_event_type p)" for x using assms(1) by (auto simp: prefix_def)
  from no [of "''effect.''"] no [of "''wait.''"] no [of "''deferred_publication.''"] no [of "''queue_item.''"] no [of "''attempt.''"]
  have "index_event E T (deferred_publication_event i p\<lparr>ev_cursor := c\<rparr>) d1 = Ok d2 \<Longrightarrow>
      index_pending_queue_item (deferred_publication_event i p\<lparr>ev_cursor := c\<rparr>) d1 = Ok d2 \<or> d2 = d1"
    using no [of "''queue_item.cancel_requested''"]
    by (auto simp: index_event_def deferred_publication_event_def split: if_splits)
  then show "index_event E T (deferred_publication_event i p\<lparr>ev_cursor := c\<rparr>) d1 = Ok d2 \<Longrightarrow> apart_from_queue d2 = apart_from_queue d1"
    using index_pending_queue_item_frame by blast
qed (simp add: deferred_publication_event_def)

lemma required_runtime_id_string:
  "required_runtime_id ev field = Ok v \<Longrightarrow> map_get (ev_payload ev) field = Some (JString s) \<Longrightarrow> v = s"
  by (auto simp: required_runtime_id_def required_payload_string_def split: if_splits)

lemma index_wait_terminal_close:
  assumes "index_wait_terminal ev status d = Ok d'" "map_get (ev_payload ev) ''handle'' = Some (JString handle)"
  shows "\<exists>m. close_wait ev handle status m d = Ok d'"
  using assms(1) unfolding index_wait_terminal_def
proof (elim and_then_OkE)
  fix h m
  assume h: "required_runtime_id ev ''handle'' = Ok h"
    and "(if m \<noteq> None \<and> ev_caused_by ev \<noteq> m then Err (invalid_lifecycle ev ''matched_event_id'') else close_wait ev h status m d) = Ok d'"
  then have "close_wait ev h status m d = Ok d'" by (simp split: if_splits)
  then show ?thesis using required_runtime_id_string [OF h assms(2)] by blast
qed

lemma index_deferred_terminal_close:
  assumes "index_deferred_publication_terminal ev status d = Ok d'" "map_get (ev_payload ev) ''handle'' = Some (JString handle)"
  shows "\<exists>m. close_deferred ev handle status m d = Ok d'"
  using assms(1) unfolding index_deferred_publication_terminal_def
proof (elim and_then_OkE)
  fix h m
  assume h: "required_runtime_id ev ''handle'' = Ok h"
    and "(if m \<noteq> None \<and> ev_caused_by ev \<noteq> m then Err (invalid_lifecycle ev ''published_event_id'')
      else close_deferred ev h status m d) = Ok d'"
  then have "close_deferred ev h status m d = Ok d'" by (simp split: if_splits)
  then show ?thesis using required_runtime_id_string [OF h assms(2)] by blast
qed

lemma append_wait_terminal:
  assumes app: "append_runtime_event E T ev d = Ok (d', out)" and key: "ev_idempotency_key ev = Some key"
    and ix: "\<And>c d1. index_event E T (ev\<lparr>ev_cursor := c\<rparr>) d1 = index_wait_terminal (ev\<lparr>ev_cursor := c\<rparr>) status d1"
    and handle: "map_get (ev_payload ev) ''handle'' = Some (JString handle)" and status: "status \<noteq> WaitActive"
  shows "progresses {key} d d'"
    "d' = d \<and> (\<exists>row \<in> set (db_journal d). se_idempotency_key row = Some key)
     \<or> active_waits d' = filter (\<lambda>w. wt_handle w \<noteq> handle) (active_waits d)"
proof -
  have "progresses {key} d d' \<and> (d' = d \<and> (\<exists>row \<in> set (db_journal d). se_idempotency_key row = Some key)
     \<or> active_waits d' = filter (\<lambda>w. wt_handle w \<noteq> handle) (active_waits d))"
    using app
  proof (cases rule: append_runtime_cases)
    case (known row)
    then show ?thesis using key by auto
  next
    case (fresh row c)
    have "db_journal d' = db_journal d @ [row]" using index_event_journal [OF fresh(1)] by simp
    moreover obtain m where "close_wait (ev\<lparr>ev_cursor := Some c\<rparr>) handle status m (grow [row] d) = Ok d'"
      using index_wait_terminal_close [OF fresh(1) [unfolded ix]] handle by auto
    note close = close_wait_active [OF this status]
    have waits: "active_waits d' = filter (\<lambda>w. wt_handle w \<noteq> handle) (active_waits d)" using close(1) by simp
    have pubs: "pending_publications d' = filter (\<lambda>_. True) (pending_publications d)" using close(2) by (simp add: pending_publications_def)
    ultimately have "progresses {key} d d'"
      using waits pubs fresh(3) key by (intro progresses_grow [of d' d row]) (simp, simp, rule exI, rule waits, rule exI, rule pubs)
    then show ?thesis using waits by blast
  qed
  then show "progresses {key} d d'"
    "d' = d \<and> (\<exists>row \<in> set (db_journal d). se_idempotency_key row = Some key)
     \<or> active_waits d' = filter (\<lambda>w. wt_handle w \<noteq> handle) (active_waits d)" by simp_all
qed

lemma append_publication_terminal:
  assumes app: "append_runtime_event E T (deferred_publication_published_event E i p published) d = Ok (d', out)"
  defines "key \<equiv> ''deferred_publication.published:'' @ p_handle p"
  shows "progresses {key} d d' \<and> (d' = d \<and> (\<exists>row \<in> set (db_journal d). se_idempotency_key row = Some key)
     \<or> pending_publications d' = filter (\<lambda>x. dp_handle x \<noteq> p_handle p) (pending_publications d))"
proof -
  let ?ev = "deferred_publication_published_event E i p published"
  have key: "ev_idempotency_key ?ev = Some key" by (simp add: deferred_publication_published_event_def runtime_event_def key_def)
  have ix: "index_event E T (?ev\<lparr>ev_cursor := c\<rparr>) d1 = index_deferred_publication_terminal (?ev\<lparr>ev_cursor := c\<rparr>) PublicationPublished d1" for c d1
    by (simp add: deferred_publication_published_event_def runtime_event_def index_event_def index_deferred_publication_def)
  have handle: "map_get (ev_payload (?ev\<lparr>ev_cursor := c\<rparr>)) ''handle'' = Some (JString (p_handle p))" for c
    by (simp add: deferred_publication_published_event_def deferred_publication_fields_def runtime_event_def object_of_get)
  show ?thesis
    using app
  proof (cases rule: append_runtime_cases)
    case (known row)
    then show ?thesis using key by auto
  next
    case (fresh row c)
    have journal: "db_journal d' = db_journal d @ [row]" using index_event_journal [OF fresh(1)] by simp
    obtain m where "close_deferred (?ev\<lparr>ev_cursor := Some c\<rparr>) (p_handle p) PublicationPublished m (grow [row] d) = Ok d'"
      using index_deferred_terminal_close [OF fresh(1) [unfolded ix] handle] by auto
    note close = close_deferred_pending [OF this]
    have pubs: "pending_publications d' = filter (\<lambda>x. dp_handle x \<noteq> p_handle p) (pending_publications d)" using close(1) by simp
    have waits: "active_waits d' = filter (\<lambda>_. True) (active_waits d)" using close(2) by (simp add: active_waits_def)
    have "progresses {key} d d'"
      using journal fresh(3) key by (intro progresses_grow [of d' d row]) (simp, simp, rule exI, rule waits, rule exI, rule pubs)
    then show ?thesis using pubs by blast
  qed
qed

lemma append_matched_progress:
  "append_runtime_event E T (wait_matched_event i w input) d = Ok (d', out) \<Longrightarrow> progresses {''wait.matched:'' @ w_handle w} d d'"
  by (erule append_wait_terminal(1) [where status = WaitMatched and handle = "w_handle w"])
    (simp_all add: wait_matched_event_def runtime_event_def index_event_def index_wait_def object_of_get opt_field_def split: option.split)

lemma append_timed_out:
  assumes "wait_timed_out_event T i w = Ok ev" "append_runtime_event E T ev d = Ok (d', out)"
  shows "progresses {''wait.timed_out:'' @ w_handle w} d d'"
    "d' = d \<and> (\<exists>row \<in> set (db_journal d). se_idempotency_key row = Some (''wait.timed_out:'' @ w_handle w))
     \<or> active_waits d' = filter (\<lambda>x. wt_handle x \<noteq> w_handle w) (active_waits d)"
proof -
  obtain deadline where ev: "ev = runtime_event i ''runtime.wait.timed_out''
         (object_of [(''handle'', JString (w_handle w)), (''agent_id'', JString (w_agent_id w)),
            (''session_id'', JString (w_session_id w)), (''deadline'', JString deadline),
            (''project_revision'', or_null (w_project_revision w))])
         (''wait.timed_out:'' @ w_handle w) (w_created_event_id w) (Some (w_session_id w)) None None"
    using assms(1) by (auto simp: wait_timed_out_event_def elim!: and_then_OkE)
  have key: "ev_idempotency_key ev = Some (''wait.timed_out:'' @ w_handle w)"
    and ix: "\<And>c d1. index_event E T (ev\<lparr>ev_cursor := c\<rparr>) d1 = index_wait_terminal (ev\<lparr>ev_cursor := c\<rparr>) WaitTimedOut d1"
    and handle: "map_get (ev_payload ev) ''handle'' = Some (JString (w_handle w))"
    by (simp_all add: ev runtime_event_def index_event_def index_wait_def object_of_get)
  note both = append_wait_terminal [OF assms(2) key ix handle]
  show "progresses {''wait.timed_out:'' @ w_handle w} d d'" by (rule both(1)) simp
  show "d' = d \<and> (\<exists>row \<in> set (db_journal d). se_idempotency_key row = Some (''wait.timed_out:'' @ w_handle w))
     \<or> active_waits d' = filter (\<lambda>x. wt_handle x \<noteq> w_handle w) (active_waits d)" by (rule both(2)) simp
qed

section \<open>Rounds\<close>

text \<open>Keys that never close a publication or time a wait out.\<close>

definition resume_keys :: "string set" where
  "resume_keys = {k. prefix ''wait.matched:'' k \<or> prefix ''queue_item:'' k \<or> prefix ''agent.publish:'' k}"

lemma resume_keys_apart: "''wait.timed_out:'' @ h \<notin> resume_keys" "''deferred_publication.published:'' @ h \<notin> resume_keys"
  by (simp_all add: resume_keys_def)

lemma resume_keys_has:
  "''wait.matched:'' @ h \<in> resume_keys" "queue_item_idempotency_key e a s \<in> resume_keys" "''agent.publish:'' @ h \<in> resume_keys"
  by (simp_all add: resume_keys_def queue_item_idempotency_key_def)

lemma progresses_resume:
  "progresses {k} d d1 \<Longrightarrow> progresses resume_keys d1 d2 \<Longrightarrow> k \<in> resume_keys \<Longrightarrow> progresses resume_keys d d2"
  using progresses_trans [of "{k}" d d1 resume_keys d2] by (simp add: insert_absorb)

lemma resume_each_progress:
  assumes "tables_ok d" "resume_each E T input ws is d = Ok (d', evs)"
  shows "progresses resume_keys d d' \<and> tables_ok d'"
  using assms
proof (induction E T input ws "is" d arbitrary: evs rule: resume_each.induct)
  case (1 E T input w ws i j rest d)
  from "1.prems"(2) obtain d1 m d2 c es where m: "append_runtime_event E T (wait_matched_event i w input) d = Ok (d1, m)"
    and c: "append_runtime_event E T (wait_continuation_event j w (out_event m)) d1 = Ok (d2, c)"
    and rest: "resume_each E T input ws rest d2 = Ok (d', es)"
    by (auto elim!: and_then_OkE)
  have ok: "tables_ok d1" "tables_ok d2" using append_runtime_ok m c "1.prems"(1) by blast+
  have "progresses resume_keys d2 d' \<and> tables_ok d'"
    by (rule "1.IH" [OF ok(2) rest])
  then show ?case
    using progresses_resume [OF append_continuation_progress [OF c] _ resume_keys_has(2)]
      progresses_resume [OF append_matched_progress [OF m] _ resume_keys_has(1)] by blast
qed simp_all

lemma read_head_SomeE:
  assumes "read_head into rows = Ok (Some m)"
  obtains r rest where "rows = r # rest" "into r = Ok m"
  using assms by (cases rows) (auto simp: read_head_def result_simps)

lemma next_due_wait_row:
  assumes "next_due_wait E now_ms d = Ok (Some w)"
  obtains r where "r \<in> set (active_waits d)" "wait_due now_ms r" "wt_handle r = w_handle w"
proof -
  from assms obtain r rest where rows: "sort_key (\<lambda>w. the (wt_deadline_ms w)) (waits_by_creation (\<lambda>w. wt_status w = ''active''
        \<and> (case wt_deadline_ms w of Some t \<Rightarrow> t \<le> now_ms | None \<Rightarrow> False)) d) = r # rest" and w: "wait_into_model E r = Ok w"
    unfolding next_due_wait_def by (rule read_head_SomeE)
  have "r \<in> set (r # rest)" by simp
  then have "r \<in> set (active_waits d)" "wait_due now_ms r"
    unfolding rows [symmetric] by (auto simp: waits_by_creation_def active_waits_def wait_due_def)
  moreover have "wt_handle r = w_handle w" using w by (auto simp: wait_into_model_def elim!: and_then_OkE)
  ultimately show thesis by (rule that)
qed

lemma next_due_publication_row:
  assumes "next_due_deferred_publication E now_ms d = Ok (Some p)"
  obtains r where "r \<in> set (pending_publications d)" "dp_publish_at_ms r \<le> now_ms" "dp_handle r = p_handle p"
    "dp_event_type r = p_event_type p"
proof -
  from assms obtain r rest where rows: "deferred_by_due (\<lambda>p. dp_status p = ''pending'' \<and> dp_publish_at_ms p \<le> now_ms) d = r # rest"
    and p: "deferred_into_model E r = Ok p"
    unfolding next_due_deferred_publication_def by (rule read_head_SomeE)
  have "r \<in> set (r # rest)" by simp
  then have "r \<in> set (pending_publications d)" "dp_publish_at_ms r \<le> now_ms"
    unfolding rows [symmetric] by (auto simp: deferred_by_due_def pending_publications_def)
  moreover have "dp_handle r = p_handle p" "dp_event_type r = p_event_type p"
    using p by (auto simp: deferred_into_model_def Let_def elim!: and_then_OkE split: if_splits)
  ultimately show thesis by (rule that)
qed

lemma filter_key_less:
  assumes "r \<in> set xs" "Q r" "f r = h"
  shows "length (filter Q (filter (\<lambda>x. f x \<noteq> h) xs)) < length (filter Q xs)"
  using assms length_filter_less [of r "filter Q xs" "\<lambda>x. f x \<noteq> h"] by (simp add: filter_filter conj_commute)

lemma timeout_progress:
  assumes ok: "tables_ok d" and free: "keys_free d" and run: "timeout_next_due_wait E T now_ms i j d = Ok (d', Some evs)"
  shows "tables_ok d' \<and> keys_free d' \<and> due_count now_ms d' < due_count now_ms d"
proof -
  from run obtain w ev d1 t c where w: "next_due_wait E now_ms d = Ok (Some w)" and ev: "wait_timed_out_event T i w = Ok ev"
    and t: "append_runtime_event E T ev d = Ok (d1, t)"
    and c: "append_runtime_event E T (wait_continuation_event j w (out_event t)) d1 = Ok (d', c)"
    by (auto simp: timeout_next_due_wait_def elim!: and_then_OkE split: option.splits)
  obtain r where r: "r \<in> set (active_waits d)" "wait_due now_ms r" "wt_handle r = w_handle w" by (rule next_due_wait_row [OF w])
  have closed: "active_waits d1 = filter (\<lambda>x. wt_handle x \<noteq> w_handle w) (active_waits d)"
    using append_timed_out(2) [OF ev t] free r(1) by (auto simp: keys_free_def simp flip: r(3))
  note steps = append_timed_out(1) [OF ev t] append_continuation_progress [OF c]
  note all = progresses_trans [OF steps]
  have "due_count now_ms d1 < due_count now_ms d"
  proof -
    have "length (filter (wait_due now_ms) (active_waits d1)) < length (filter (wait_due now_ms) (active_waits d))"
      unfolding closed by (rule filter_key_less [where f = wt_handle, OF r(1), of "wait_due now_ms", OF r(2,3)])
    moreover obtain P where "pending_publications d1 = filter P (pending_publications d)" using steps(1) by (auto simp: progresses_def)
    ultimately show ?thesis
      using length_filter_le [of P "filter (\<lambda>p. dp_publish_at_ms p \<le> now_ms) (pending_publications d)"]
      by (simp add: due_count_def filter_filter conj_commute)
  qed
  moreover have "due_count now_ms d' \<le> due_count now_ms d1" by (rule progresses_due [OF steps(2)])
  moreover have "keys_free d'"
  proof (rule progresses_keys [OF free all])
    fix x assume "x \<in> set (active_waits d')"
    then have "wt_handle x \<noteq> w_handle w" using steps(2) closed by (auto simp: progresses_def)
    then show "''wait.timed_out:'' @ wt_handle x \<notin> {''wait.timed_out:'' @ w_handle w} \<union> {queue_item_idempotency_key (ev_id (out_event t)) (w_agent_id w) QAvailable}"
      by (simp add: queue_item_idempotency_key_def)
  qed (simp add: queue_item_idempotency_key_def)
  ultimately show ?thesis using append_runtime_ok c append_runtime_ok [OF ok t] by fastforce
qed

lemma publish_progress:
  assumes ok: "tables_ok d" and free: "keys_free d"
    and run: "publish_next_due_deferred_publication E T now_ms is d = Ok (d', Some evs)"
  shows "tables_ok d' \<and> keys_free d' \<and> due_count now_ms d' < due_count now_ms d"
proof -
  from run obtain p ws d1 pub d2 es t where p: "next_due_deferred_publication E now_ms d = Ok (Some p)"
    and pub: "append_runtime_event E T (deferred_publication_event (hd is) p) d = Ok (d1, pub)"
    and resumed: "resume_each E T (out_event pub) ws (butlast (tl is)) d1 = Ok (d2, es)"
    and t: "append_runtime_event E T (deferred_publication_published_event E (last is) p (out_event pub)) d2 = Ok (d', t)"
    by (auto simp: publish_next_due_deferred_publication_def Let_def elim!: and_then_OkE split: option.splits if_splits)
  obtain r where r: "r \<in> set (pending_publications d)" "dp_publish_at_ms r \<le> now_ms" "dp_handle r = p_handle p"
    "dp_event_type r = p_event_type p" by (rule next_due_publication_row [OF p])
  have "\<not> prefix ''runtime.'' (p_event_type p)"
    using ok r(1,4) by (auto simp: tables_ok_def deferred_ok_def pending_publications_def)
  note published = append_published_progress [OF this pub]
  note ok1 = append_runtime_ok [OF ok pub]
  have each: "progresses resume_keys d1 d2" "tables_ok d2" using resume_each_progress [OF ok1 resumed] by simp_all
  have before: "progresses resume_keys d d2" by (rule progresses_resume [OF published each(1) resume_keys_has(3)])
  have free2: "keys_free d2" by (rule progresses_keys [OF free before]) (rule resume_keys_apart)+
  obtain P where P: "pending_publications d2 = filter P (pending_publications d)" using before by (auto simp: progresses_def)
  let ?key = "''deferred_publication.published:'' @ p_handle p" and ?due = "\<lambda>p. dp_publish_at_ms p \<le> now_ms"
  note final = append_publication_terminal [OF t]
  have closed: "pending_publications d' = filter (\<lambda>x. dp_handle x \<noteq> p_handle p) (pending_publications d2)"
  proof (cases "d' = d2 \<and> (\<exists>row \<in> set (db_journal d2). se_idempotency_key row = Some ?key)")
    case True
    then obtain row where row: "row \<in> set (db_journal d2)" "se_idempotency_key row = Some ?key" by blast
    have "dp_handle x \<noteq> p_handle p" if "x \<in> set (pending_publications d2)" for x
      using keys_freeD(2) [OF free2 row(1) that] row(2) by auto
    then show ?thesis using True by (simp add: filter_id_conv)
  qed (use final in blast)
  have "length (filter ?due (pending_publications d')) < length (filter ?due (pending_publications d))"
  proof -
    have "pending_publications d' = filter P (filter (\<lambda>x. dp_handle x \<noteq> p_handle p) (pending_publications d))"
      unfolding closed P by (simp add: filter_filter conj_commute)
    then have "length (filter ?due (pending_publications d'))
        \<le> length (filter ?due (filter (\<lambda>x. dp_handle x \<noteq> p_handle p) (pending_publications d)))"
      using length_filter_le [of P "filter ?due (filter (\<lambda>x. dp_handle x \<noteq> p_handle p) (pending_publications d))"]
      by (simp add: filter_filter conj_ac)
    then show ?thesis using filter_key_less [where f = dp_handle, OF r(1), of ?due, OF r(2,3)] by simp
  qed
  moreover obtain Q where "active_waits d' = filter Q (active_waits d)"
    using progresses_trans [OF before conjunct1 [OF final]] by (auto simp: progresses_def)
  ultimately have "due_count now_ms d' < due_count now_ms d"
    using length_filter_le [of Q "filter (wait_due now_ms) (active_waits d)"]
    by (simp add: due_count_def filter_filter conj_commute)
  moreover have "keys_free d'"
    by (rule progresses_keys [OF free2 conjunct1 [OF final]]) (auto simp: closed)
  ultimately show ?thesis using append_runtime_ok [OF each(2) t] by blast
qed

section \<open>The bounded loop\<close>

lemma expect_events_Some: "expect_events r s = Ok (Some (d', evs, s')) \<Longrightarrow> r = Ok (d', Some evs)"
  by (auto simp: expect_events_def split: sum.splits option.splits)

lemma advance_wait_Some:
  assumes "advance_wait E T now_ms nx s d = Ok (Some (d', evs, s'))"
  obtains i j where "timeout_next_due_wait E T now_ms i j d = Ok (d', Some evs)"
  using assms by (auto simp: advance_wait_def dest!: expect_events_Some split: prod.splits sum.splits)

lemma advance_publication_Some:
  assumes "advance_publication E T now_ms nx s p d = Ok (Some (d', evs, s'))"
  obtains "is" where "publish_next_due_deferred_publication E T now_ms is d = Ok (d', Some evs)"
  using assms by (auto simp: advance_publication_def elim!: and_then_OkE dest!: expect_events_Some split: prod.splits sum.splits)

lemma advance_round_progress:
  assumes "tables_ok d" "keys_free d" "advance_round E T now_ms nx s d = Ok (Some (d', evs, s'))"
  shows "tables_ok d' \<and> keys_free d' \<and> due_count now_ms d' < due_count now_ms d"
proof -
  from assms(3) consider "advance_wait E T now_ms nx s d = Ok (Some (d', evs, s'))"
    | p where "advance_publication E T now_ms nx s p d = Ok (Some (d', evs, s'))"
    unfolding advance_round_def by (auto elim!: and_then_OkE split: option.splits due_kind.splits)
  then show ?thesis
    by cases (auto elim!: advance_wait_Some advance_publication_Some
        dest!: timeout_progress [OF assms(1,2)] publish_progress [OF assms(1,2)])
qed

lemma advance_round_done: "advance_round E T now_ms nx s d = Ok None \<Longrightarrow> has_due_maintenance E now_ms d = Ok False"
  unfolding advance_round_def advance_wait_def advance_publication_def expect_events_def due_kind_next_def has_due_maintenance_def
  by (auto elim!: and_then_OkE simp: map_err_def split: option.splits due_kind.splits prod.splits sum.splits if_splits)

lemma take_identities_length: "take_identities n nx s = (Inr is, s') \<Longrightarrow> length is = n"
  by (induction n arbitrary: s "is") (auto split: prod.splits sum.splits)

lemma timeout_None: "timeout_next_due_wait E T now_ms i j d = Ok (d', None) \<Longrightarrow> next_due_wait E now_ms d = Ok None"
  by (auto simp: timeout_next_due_wait_def elim!: and_then_OkE split: option.splits)

lemma publish_None:
  "publish_next_due_deferred_publication E T now_ms is d = Ok (d', None) \<Longrightarrow> next_due_deferred_publication E now_ms d = Ok None"
  by (auto simp: publish_next_due_deferred_publication_def Let_def elim!: and_then_OkE split: option.splits if_splits)

lemma expect_events_panic: "expect_events r s = Err AdvancePanic \<Longrightarrow> \<exists>d'. r = Ok (d', None)"
  by (auto simp: expect_events_def split: sum.splits option.splits)

lemma advance_wait_no_panic:
  assumes "next_due_wait E now_ms d = Ok (Some w)"
  shows "advance_wait E T now_ms nx s d \<noteq> Err AdvancePanic"
  using assms timeout_None [of E T now_ms _ _ d]
  by (fastforce simp: advance_wait_def dest!: expect_events_panic split: prod.splits sum.splits)

lemma advance_publication_no_panic:
  assumes "next_due_deferred_publication E now_ms d = Ok (Some p)"
  shows "advance_publication E T now_ms nx s p d \<noteq> Err AdvancePanic"
proof -
  have "expect_events (publish_next_due_deferred_publication E T now_ms is d) s1 \<noteq> Err AdvancePanic" for "is" and s1 :: 'a
    using assms publish_None [of E T now_ms "is" d] by (auto dest!: expect_events_panic)
  then show ?thesis
    by (simp add: advance_publication_def runtime_event_identity_new_def and_then_def map_err_def split: prod.splits sum.splits)
qed

lemma advance_round_no_panic: "advance_round E T now_ms nx s d \<noteq> Err AdvancePanic"
proof (cases "next_due_wait E now_ms d")
  case w: (Inr w)
  show ?thesis
  proof (cases "next_due_deferred_publication E now_ms d")
    case p: (Inr p)
    show ?thesis
      using w p advance_wait_no_panic [of E now_ms d _ T nx s] advance_publication_no_panic [of E now_ms d _ T nx s]
      by (auto simp: advance_round_def due_kind_next_def split: option.split due_kind.split if_splits)
  qed (simp add: advance_round_def w)
qed (simp add: advance_round_def)

lemma nothing_due:
  assumes "due_count now_ms d = 0"
  shows "has_due_maintenance E now_ms d = Ok False"
proof -
  have "waits_by_creation (\<lambda>w. wt_status w = ''active'' \<and> (case wt_deadline_ms w of Some t \<Rightarrow> t \<le> now_ms | None \<Rightarrow> False)) d = []"
    "deferred_by_due (\<lambda>p. dp_status p = ''pending'' \<and> dp_publish_at_ms p \<le> now_ms) d = []"
  proof -
    have nil: "sort_key f (filter P xs) = []" if "\<forall>x \<in> set xs. \<not> P x" for f :: "'x \<Rightarrow> 'k::linorder" and P xs
      using that by (simp add: filter_empty_conv)
    show "waits_by_creation (\<lambda>w. wt_status w = ''active'' \<and> (case wt_deadline_ms w of Some t \<Rightarrow> t \<le> now_ms | None \<Rightarrow> False)) d = []"
      "deferred_by_due (\<lambda>p. dp_status p = ''pending'' \<and> dp_publish_at_ms p \<le> now_ms) d = []"
      unfolding waits_by_creation_def deferred_by_due_def
      using assms by (auto intro!: nil simp: due_count_def active_waits_def pending_publications_def wait_due_def filter_empty_conv)
  qed
  then show ?thesis
    by (simp add: has_due_maintenance_def next_due_wait_def next_due_deferred_publication_def read_head_def)
qed

section \<open>A due wait\<close>

lemma reading_runtime_append:
  assumes inv: "sql_inv reading_env d" and ev: "appendable ev" "encodable reading_env (JObject (ev_payload ev))"
    and fresh: "ev_id ev \<notin> set (je_ids (sql_entries reading_env d))"
      "ev_idempotency_key ev = Some key" "key \<notin> set (je_keys (sql_entries reading_env d))"
    and n: "length (db_journal d) = n" "n < 2 ^ 63 - 1"
    and ix: "\<And>row. se_event_id row = ev_id ev \<Longrightarrow> se_cursor row = int (Suc n) \<Longrightarrow>
      \<exists>d'. index_event reading_env T (ev\<lparr>ev_cursor := Some (Suc n)\<rparr>) (grow [row] d) = Ok d'"
  obtains d' row where "append_runtime_event reading_env T ev d
      = Ok (d', \<lparr>out_event = ev\<lparr>ev_cursor := Some (Suc n)\<rparr>, out_inserted = True\<rparr>)"
    "se_event_id row = ev_id ev" "se_cursor row = int (Suc n)" "sql_inv reading_env d'" "index_event reading_env T (ev\<lparr>ev_cursor := Some (Suc n)\<rparr>) (grow [row] d) = Ok d'"
    "length (db_journal d') = Suc n"
    "set (je_ids (sql_entries reading_env d')) = insert (ev_id ev) (set (je_ids (sql_entries reading_env d)))"
    "set (je_keys (sql_entries reading_env d')) = insert key (set (je_keys (sql_entries reading_env d)))"
proof -
  obtain b where b: "canonical_payload reading_env (ev_payload ev) = Ok b"
    using ev(2) by (simp only: reading_canonical)
  obtain row where row: "append_in_transaction reading_env ev d = Ok (grow [row] d,
      \<lparr>out_event = ev\<lparr>ev_cursor := Some (Suc n)\<rparr>, out_inserted = True\<rparr>)" "se_event_id row = ev_id ev" "se_cursor row = int (Suc n)"
    using append_accepts [OF inv reading_env_laws(2) ev(1) b fresh(1)] fresh(2,3) n by auto
  from ix [OF row(2,3)] obtain d' where index: "index_event reading_env T (ev\<lparr>ev_cursor := Some (Suc n)\<rparr>) (grow [row] d) = Ok d'" by blast
  have valid: "validate_event_identity ev = Ok ()"
    using ev(1) by (auto simp: validate_event_identity_def appendable_def sql_nonempty_def)
  have cand: "append_lifecycle_candidate reading_env ev d = Ok (grow [row] d, \<lparr>out_event = ev\<lparr>ev_cursor := Some (Suc n)\<rparr>, out_inserted = True\<rparr>)"
    by (simp only: append_lifecycle_Ok row(1))
  have app: "append_runtime_event reading_env T ev d = Ok (d', \<lparr>out_event = ev\<lparr>ev_cursor := Some (Suc n)\<rparr>, out_inserted = True\<rparr>)"
    using cand index valid by (simp add: append_runtime_event_def)
  from inv reading_env_readable row(1) obtain e where e: "sql_inv reading_env (grow [row] d)"
    "sql_entries reading_env (grow [row] d) = sql_entries reading_env d @ [e]" "stored_as reading_env (ev\<lparr>ev_cursor := Some (Suc n)\<rparr>) (je_event e)"
    by (cases rule: append_cases) auto
  note same = sql_inv_frame [OF index_event_journal [OF index], of reading_env]
  have stored: "ev_id (je_event e) = ev_id ev" "ev_idempotency_key (je_event e) = Some key"
  proof -
    have "f ((je_event e)\<lparr>ev_payload := ev_payload ev\<rparr>) = f (ev\<lparr>ev_cursor := Some (Suc n)\<rparr>)" for f :: "event \<Rightarrow> 'z"
      using conjunct1 [OF e(3) [unfolded stored_as_def]] by simp
    from this [of ev_id] this [of ev_idempotency_key] show "ev_id (je_event e) = ev_id ev" "ev_idempotency_key (je_event e) = Some key"
      using fresh(2) by simp_all
  qed
  show thesis
    by (rule that [OF app row(2,3) _ index]) (use same e stored n index_event_journal [OF index] in \<open>auto simp: je_ids_def set_je_keys\<close>)
qed

definition sample_wait :: wait_row where
  "sample_wait = \<lparr>wt_handle = ''wait_1'', wt_agent_id = ''a'', wt_session_id = ''agent/a'', wt_event_type = ''t'', wt_fields_json = ''{}'',
     wt_deadline_ms = Some 5, wt_source_queue_item_id = ''qi_e1'', wt_project_revision = None, wt_created_event_id = ''e1'',
     wt_status = ''active'', wt_matched_event_id = None, wt_terminal_event_id = None, wt_updated_at = 1\<rparr>"

definition sample_clock :: time_lib where
  "sample_clock = \<lparr>rfc3339_parse = (\<lambda>_. None), from_unix_nanos = (\<lambda>_. Some \<lparr>tf_year = 1970, tf_month = 1, tf_day = 1, tf_hour = 0,
     tf_minute = 0, tf_second = 0, tf_nanosecond = 5000000\<rparr>)\<rparr>"

definition sample_source :: "runtime_event_identity list identity_source" where
  "sample_source s = (case s of [] \<Rightarrow> (Err (InvalidCoordinationInput ''id''), []) | i # rest \<Rightarrow> (Ok i, rest))"

lemma sample_timeout:
  obtains d d' events where "tables_ok d" "keys_free d" "due_count 10 d = 1"
    "advance_due reading_env sample_clock 10 1 sample_source [sample_identity, \<lparr>ri_id = ''r2'', ri_timestamp_ms = 9\<rparr>] d = (d', Ok events)"
    "map wt_status (db_waits d') = [''timed_out'']"
proof -
  obtain d0 row e where d0: "d0 = db_empty\<lparr>db_journal := [row], db_queue_items := [sample_pending]\<rparr>" "se_event_id row = ''e1''" "se_cursor row = 1"
    and inv0: "sql_inv reading_env d0" and ok: "tables_ok d0" and es: "sql_entries reading_env d0 = [e]"
    and e: "je_event e = sample_event\<lparr>ev_cursor := Some 1\<rparr>"
    by (rule sample_db)
  define d where "d = d0\<lparr>db_waits := [sample_wait]\<rparr>"
  have inv: "sql_inv reading_env d" and es: "sql_entries reading_env d = [e]"
    using sql_inv_frame [of d d0 reading_env] inv0 es by (simp_all add: d_def)
  have keys: "ev_id (je_event e) = ''e1''" "ev_idempotency_key (je_event e) = None" by (simp_all add: e sample_event_def)
  have "\<exists>s. ''active'' = wait_status_str s" by (rule exI [of _ WaitActive]) simp
  then have tables: "tables_ok d"
    using ok by (auto simp: tables_ok_def items_ok_def attempts_ok_def waits_ok_def deferred_ok_def effects_ok_def d_def sample_wait_def
        journal_has_def d0(1,2) db_empty_def)
  have rows: "se_idempotency_key row = None"
  proof -
    have "into_entry reading_env row = Ok e" using sql_invD(4) [OF inv] es by (simp add: d_def d0(1))
    then show ?thesis using into_entry_key keys(2) by metis
  qed
  have free: "keys_free d" by (simp add: keys_free_def d_def d0(1) rows)
  have due: "due_count 10 d = 1"
    by (simp add: due_count_def active_waits_def pending_publications_def wait_due_def d_def d0(1) db_empty_def sample_wait_def)
  define w where "w = \<lparr>w_handle = ''wait_1'', w_agent_id = ''a'', w_session_id = ''agent/a'', w_event_type = ''t'', w_fields = [],
     w_deadline_ms = Some 5, w_source_queue_item_id = ''qi_e1'', w_project_revision = None, w_created_event_id = ''e1'',
     w_status = WaitActive, w_matched_event_id = None, w_terminal_event_id = None, w_updated_at = 1\<rparr>"
  have "json_parse reading_env ''{}'' = Some (JObject [])" using read_json_printed [of "JObject []"] by (simp add: reading_env_def)
  then have model: "wait_into_model reading_env sample_wait = Ok w"
    by (simp add: wait_into_model_def sample_wait_def w_def parse_runtime_id_def parse_object_def wait_status_from_str_def ok_or_def)
  have nw: "next_due_wait reading_env 10 d = Ok (Some w)"
    using model by (simp add: next_due_wait_def waits_by_creation_def read_head_def event_cursor_def d_def d0(1,2) sample_wait_def)
  have np: "next_due_deferred_publication reading_env 10 d = Ok None"
    by (simp add: next_due_deferred_publication_def deferred_by_due_def read_head_def d_def d0(1) db_empty_def)
  obtain ev deadline where ev: "wait_timed_out_event sample_clock sample_identity w = Ok ev"
    and evp: "ev = runtime_event sample_identity ''runtime.wait.timed_out''
         (object_of [(''handle'', JString ''wait_1''), (''agent_id'', JString ''a''), (''session_id'', JString ''agent/a''),
            (''deadline'', JString deadline), (''project_revision'', JNull)])
         ''wait.timed_out:wait_1'' ''e1'' (Some ''agent/a'') None None"
    by (simp add: wait_timed_out_event_def w_def format_wait_deadline_def sample_clock_def ok_or_def Let_def or_null_def)
  have n: "length (db_journal d) = 1" by (simp add: d_def d0(1))
  obtain d1 row1 where t: "append_runtime_event reading_env sample_clock ev d = Ok (d1, \<lparr>out_event = ev\<lparr>ev_cursor := Some (Suc 1)\<rparr>, out_inserted = True\<rparr>)"
    and row1: "se_event_id row1 = ev_id ev" "se_cursor row1 = int (Suc 1)" and inv1: "sql_inv reading_env d1"
    and ix1: "index_event reading_env sample_clock (ev\<lparr>ev_cursor := Some (Suc 1)\<rparr>) (grow [row1] d) = Ok d1"
    and n1: "length (db_journal d1) = Suc 1"
    and es1: "set (je_ids (sql_entries reading_env d1)) = insert (ev_id ev) (set (je_ids (sql_entries reading_env d)))"
      "set (je_keys (sql_entries reading_env d1)) = insert ''wait.timed_out:wait_1'' (set (je_keys (sql_entries reading_env d)))"
  proof (rule reading_runtime_append [OF inv, of ev "''wait.timed_out:wait_1''" 1 sample_clock])
    show "appendable ev"
      by (simp add: evp runtime_event_def appendable_def sample_identity_def sql_nonempty_def is_i64_def)
    show "encodable reading_env (JObject (ev_payload ev))"
      unfolding evp runtime_event_def by (simp only: event.simps, intro plain_payload_literals(3) object_of_plain) (simp add: plain_value_def)
    show "\<exists>d'. index_event reading_env sample_clock (ev\<lparr>ev_cursor := Some (Suc 1)\<rparr>) (grow [r] d) = Ok d'"
      if "se_event_id r = ev_id ev" for r
      using that by (simp add: evp runtime_event_def index_event_def index_wait_def index_wait_terminal_def required_runtime_id_def
          required_payload_string_def object_of_get close_wait_def Let_def d_def sample_wait_def sql_count_def journal_has_def)
  qed (use es keys n in \<open>simp_all add: evp runtime_event_def sample_identity_def je_ids_def je_keys_def List.map_filter_def\<close>)
  have d1: "db_waits d1 = [sample_wait\<lparr>wt_status := ''timed_out'', wt_terminal_event_id := Some ''r1'', wt_updated_at := 8\<rparr>]"
    "db_journal d1 = [row, row1]" "db_queue_items d1 = [sample_pending]" "db_attempts d1 = []" "db_queue_claims d1 = []" "db_locks d1 = []"
    using ix1 row1(1) by (auto simp: evp runtime_event_def index_event_def index_wait_def index_wait_terminal_def required_runtime_id_def
          required_payload_string_def object_of_get close_wait_def Let_def d_def d0(1) db_empty_def sample_wait_def sql_count_def
          sql_update_def journal_has_def sample_identity_def)
  let ?j = "\<lparr>ri_id = ''r2'', ri_timestamp_ms = 9\<rparr>"
  define c where "c = wait_continuation_event ?j w (ev\<lparr>ev_cursor := Some (Suc 1)\<rparr>)"
  have cp: "c = runtime_event ?j ''runtime.queue_item.available''
       (object_of [(''queue_item_id'', JString ''qi_r1_a''), (''event_id'', JString ''r1''), (''target_agent'', JString ''a''),
          (''status'', JString ''available'')])
       ''queue_item:r1:a:available'' ''r1'' (Some ''agent/a'') None None"
    by (simp add: c_def wait_continuation_event_def evp runtime_event_def sample_identity_def w_def queue_item_id_def opt_field_def
        queue_item_idempotency_key_def safe_agent_id_def)
  obtain d2 row2 where c: "append_runtime_event reading_env sample_clock c d1 = Ok (d2, \<lparr>out_event = c\<lparr>ev_cursor := Some (Suc (Suc 1))\<rparr>, out_inserted = True\<rparr>)"
    and ix2: "index_event reading_env sample_clock (c\<lparr>ev_cursor := Some (Suc (Suc 1))\<rparr>) (grow [row2] d1) = Ok d2"
  proof (rule reading_runtime_append [OF inv1, of c "''queue_item:r1:a:available''" "Suc 1" sample_clock])
    show "appendable c" by (simp add: cp runtime_event_def appendable_def sql_nonempty_def is_i64_def)
    show "encodable reading_env (JObject (ev_payload c))"
      unfolding cp runtime_event_def by (simp only: event.simps, intro plain_payload_literals(3) object_of_plain) (simp add: plain_value_def)
    have "se_event_id row1 = ''r1''" "se_cursor row1 = 2" using row1 by (simp_all add: evp runtime_event_def sample_identity_def)
    then show "\<exists>d'. index_event reading_env sample_clock (c\<lparr>ev_cursor := Some (Suc (Suc 1))\<rparr>) (grow [r] d1) = Ok d'" for r
      by (simp add: cp runtime_event_def index_event_def coalesce_def index_queue_item_def required_runtime_id_def object_of_get
        required_payload_string_def lifecycle_queue_status_def type_suffix_def queue_status_from_str_def Let_def
        pending_queue_item_id_def previous_queue_status_def d1 d0(2,3) sample_pending_def queue_transition_ok_def delete_queue_items_def
        queue_validate_transition_def queue_row_of_event_def input_event_cursor_def optional_payload_string_def
        validate_optional_runtime_id_def optional_payload_string_array_def queue_last_error_def queue_available_at_def
        upsert_queue_item_def queue_item_fits_def sql_nonempty_def journal_has_def)
  qed (use es es1 keys n1 in \<open>simp_all add: cp evp runtime_event_def sample_identity_def je_ids_def je_keys_def List.map_filter_def\<close>)
  have waits: "map wt_status (db_waits d2) = [''timed_out'']"
    using index_queue_item_frame [of reading_env _ "grow [row2] d1" d2] ix2 d1(1)
    by (simp add: cp runtime_event_def index_event_def apart_from_queue_def)
  have "timeout_next_due_wait reading_env sample_clock 10 sample_identity ?j d
      = Ok (d2, Some [ev\<lparr>ev_cursor := Some (Suc 1)\<rparr>, c\<lparr>ev_cursor := Some (Suc (Suc 1))\<rparr>])"
    using nw ev t c by (simp add: timeout_next_due_wait_def validate_distinct_runtime_identities_def sample_identity_def c_def)
  then have "advance_round reading_env sample_clock 10 sample_source [sample_identity, ?j] d
      = Ok (Some (d2, [ev\<lparr>ev_cursor := Some (Suc 1)\<rparr>, c\<lparr>ev_cursor := Some (Suc (Suc 1))\<rparr>], []))"
    using nw np by (simp add: advance_round_def advance_wait_def due_kind_next_def sample_source_def expect_events_def numeral_2_eq_2)
  then have "advance_due reading_env sample_clock 10 1 sample_source [sample_identity, ?j] d
      = (d2, Ok [ev\<lparr>ev_cursor := Some (Suc 1)\<rparr>, c\<lparr>ev_cursor := Some (Suc (Suc 1))\<rparr>])" by simp
  then show thesis by (rule that [OF tables free due _ waits])
qed

section \<open>Properties\<close>

text \<open>C14: \<open>advance_due\<close> makes progress and finishes.  Whatever happens, it never hits one of its \<open>expect\<close>s and never leaves
  more work due than it found.  When it returns normally and its limit covers the waits and publications that were due,
  nothing is due any more: every round closes the resource it picked.\<close>

theorem advance_due_finishes:
  assumes "tables_ok d" "keys_free d" "advance_due E T now_ms limit next_identity s d = (d', r)"
  shows "r \<noteq> Err AdvancePanic \<and> due_count now_ms d' \<le> due_count now_ms d
    \<and> (is_ok r \<and> due_count now_ms d \<le> limit \<longrightarrow> has_due_maintenance E now_ms d' = Ok False)"
proof -
  have "tables_ok d' \<and> keys_free d' \<and> r \<noteq> Err AdvancePanic \<and> due_count now_ms d' \<le> due_count now_ms d
      \<and> (is_ok r \<longrightarrow> due_count now_ms d \<le> limit \<longrightarrow> has_due_maintenance E now_ms d' = Ok False)"
    using assms
  proof (induction limit arbitrary: s d r)
    case 0
    then show ?case by (auto simp: nothing_due)
  next
    case (Suc limit)
    show ?case
    proof (cases "advance_round E T now_ms next_identity s d")
      case (Inl e)
      then show ?thesis using Suc.prems advance_round_no_panic [of E T now_ms next_identity s d] by (auto simp: is_ok_def)
    next
      case (Inr x)
      show ?thesis
      proof (cases x)
        case None
        then show ?thesis using Suc.prems Inr advance_round_done [of E T now_ms next_identity s d] by auto
      next
        case (Some y)
        then obtain d1 evs s1 where round: "advance_round E T now_ms next_identity s d = Ok (Some (d1, evs, s1))" using Inr by (cases y) auto
        then obtain r1 where r1: "advance_due E T now_ms limit next_identity s1 d1 = (d', r1)"
          and r: "r = and_then r1 (\<lambda>es. Ok (evs @ es))"
          using Suc.prems(3) by (auto split: prod.splits)
        have step: "tables_ok d1 \<and> keys_free d1 \<and> due_count now_ms d1 < due_count now_ms d"
          by (rule advance_round_progress [OF Suc.prems(1,2) round])
        with Suc.IH [OF _ _ r1] show ?thesis unfolding r by (cases r1) (auto simp: is_ok_def)
      qed
    qed
  qed
  then show ?thesis by blast
qed

section \<open>Witnesses\<close>

theorem advance_due_finishes_witness:
  "\<exists>d d' events. due_count 10 d = 1 \<and> map wt_status (db_waits d') = [''timed_out'']
     \<and> advance_due reading_env sample_clock 10 1 sample_source [sample_identity, \<lparr>ri_id = ''r2'', ri_timestamp_ms = 9\<rparr>] d = (d', Ok events)
     \<and> has_due_maintenance reading_env 10 d' = Ok False"
proof -
  obtain d d' events where *: "tables_ok d" "keys_free d" "due_count 10 d = 1"
    "advance_due reading_env sample_clock 10 1 sample_source [sample_identity, \<lparr>ri_id = ''r2'', ri_timestamp_ms = 9\<rparr>] d = (d', Ok events)"
    "map wt_status (db_waits d') = [''timed_out'']" by (rule sample_timeout)
  have "has_due_maintenance reading_env 10 d' = Ok False"
    using advance_due_finishes [OF *(1,2,4)] *(3) by (simp add: is_ok_def)
  with * show ?thesis by (intro exI [of _ d] exI [of _ d'] exI [of _ events] conjI)
qed

end
