(* ===== verification/Attempt_Events.thy ===== *)
theory Attempt_Events
  imports Maintenance
begin

text \<open>
  The events that attempts and cancellations append, from \<open>crates/zeta-dispatch/src/sqlite/attempts.rs\<close> and
  \<open>cancellation.rs\<close>: pure functions of the read models, checked and composed by \<open>Attempts\<close> and \<open>Queue_Cancellation\<close>.
\<close>

section \<open>Payloads\<close>

definition with_fields :: "json_map \<Rightarrow> (string \<times> json) list \<Rightarrow> json_map" where
  "with_fields m kvs = foldl (\<lambda>m (k, v). map_insert k v m) m kvs"

definition queue_item_payload :: "queue_item \<Rightarrow> queue_item_status \<Rightarrow> json_map" where
  "queue_item_payload item status =
     object_of ([(''queue_item_id'', JString (q_id item)), (''event_id'', JString (q_event_id item)),
       (''target_agent'', JString (q_target_agent item)), (''status'', JString (queue_status_display status))]
       @ opt_field ''session_id'' (q_session_id item) @ opt_field ''project_revision'' (q_project_revision item))"

definition attempt_payload :: "env \<Rightarrow> attempt \<Rightarrow> attempt_status \<Rightarrow> json_map" where
  "attempt_payload E a status =
     object_of ([(''attempt_id'', JString (a_id a)), (''queue_item_id'', JString (a_queue_item_id a)),
       (''event_id'', JString (a_event_id a)), (''attempt_number'', JNumber (num_from_int E (int (a_attempt_number a)))),
       (''target_agent'', JString (a_target_agent a)), (''status'', JString (attempt_status_display status)),
       (''started_at'', JString (a_started_at a)), (''finished_at'', JNull), (''error'', JNull),
       (''session_id'', or_null (a_session_id a)), (''run_id'', or_null (a_run_id a))]
       @ opt_field ''worker_name'' (a_worker_name a) @ opt_field ''project_revision'' (a_project_revision a))"

section \<open>Start\<close>

definition claimed_queue_event :: "env \<Rightarrow> runtime_event_identity \<Rightarrow> event \<Rightarrow> queue_item \<Rightarrow> nat \<Rightarrow> run_id \<Rightarrow> event" where
  "claimed_queue_event E identity input item attempt_number run_id =
     runtime_event identity ''runtime.queue_item.claimed''
       (with_fields (queue_item_payload item QClaimed) [(''attempt_number'', JNumber (num_from_int E (int attempt_number)))])
       (queue_item_attempt_idempotency_key (q_event_id item) (q_target_agent item) QClaimed attempt_number)
       (q_event_id item) (q_session_id item) (Some run_id) (ev_turn_id input)"

record attempt_start_fields =
  as_attempt_id :: attempt_id
  as_attempt_number :: nat
  as_run_id :: run_id
  as_worker_name :: string
  as_started_at :: string

definition started_attempt_event :: "env \<Rightarrow> runtime_event_identity \<Rightarrow> event \<Rightarrow> queue_item \<Rightarrow> attempt_start_fields \<Rightarrow> event" where
  "started_attempt_event E identity input item f =
     runtime_event identity ''runtime.attempt.started''
       (object_of ([(''attempt_id'', JString (as_attempt_id f)), (''queue_item_id'', JString (q_id item)),
          (''event_id'', JString (q_event_id item)), (''attempt_number'', JNumber (num_from_int E (int (as_attempt_number f)))),
          (''target_agent'', JString (q_target_agent item)), (''status'', JString ''running''),
          (''started_at'', JString (as_started_at f)), (''finished_at'', JNull), (''error'', JNull),
          (''session_id'', or_null (q_session_id item)), (''run_id'', JString (as_run_id f)),
          (''worker_name'', JString (as_worker_name f))] @ opt_field ''project_revision'' (q_project_revision item)))
       (''attempt:'' @ q_id item @ '':'' @ show_nat (as_attempt_number f) @ '':started'')
       (q_event_id item) (q_session_id item) (Some (as_run_id f)) (ev_turn_id input)"

section \<open>Completion\<close>

datatype attempt_control =
    ControlPublish (control_handle: string) (control_event_type: string) (control_payload: json_map)
      (control_at: "string option") (control_position: nat)
  | ControlWait (control_handle: string) (control_event_type: string) (control_fields: json_map)
      (control_deadline: "string option") (control_position: nat)
  | ControlCancel (control_handle: string) (control_reason: "string option") (control_source_agent_id: string)
      (control_source_session_id: string) (control_position: nat)

datatype attempt_completion_disposition = DispositionSucceeded | DispositionCancelled

record attempt_completion =
  ac_finished_at :: string
  ac_disposition :: attempt_completion_disposition
  ac_metadata :: json_map
  ac_controls :: "attempt_control list"

definition invalid_completion :: "string \<Rightarrow> dispatch_error" where
  "invalid_completion field = InvalidCompletion field"

definition parse_completion_timestamp :: "time_lib \<Rightarrow> string \<Rightarrow> string \<Rightarrow> (dispatch_error, int) result" where
  "parse_completion_timestamp T v field = ok_or (invalid_completion field) (rfc3339_parse T v)"

definition validate_optional_completion_array :: "json_map \<Rightarrow> string \<Rightarrow> (dispatch_error, unit) result" where
  "validate_optional_completion_array result field = (case map_get result field of
     Some (JArray _) \<Rightarrow> Ok () | None \<Rightarrow> Ok () | Some _ \<Rightarrow> Err (invalid_completion field))"

definition validate_optional_completion_string :: "json_map \<Rightarrow> string \<Rightarrow> (dispatch_error, unit) result" where
  "validate_optional_completion_string result field = (case map_get result field of
     Some (JString _) \<Rightarrow> Ok () | None \<Rightarrow> Ok () | Some _ \<Rightarrow> Err (invalid_completion field))"

definition validate_completion_control_string :: "string \<Rightarrow> string \<Rightarrow> (dispatch_error, unit) result" where
  "validate_completion_control_string v field = (if v = [] then Err (invalid_completion field) else Ok ())"

text \<open>An optional timestamp of a control: absent, or not empty and readable.\<close>

definition validate_completion_moment :: "time_lib \<Rightarrow> string option \<Rightarrow> string \<Rightarrow> (dispatch_error, unit) result" where
  "validate_completion_moment T v field = (case v of
     None \<Rightarrow> Ok ()
   | Some v \<Rightarrow> and_then (validate_completion_control_string v field) (\<lambda>_.
       and_then (parse_completion_timestamp T v field) (\<lambda>_. Ok ())))"

fun validate_completion_control :: "time_lib \<Rightarrow> attempt_control \<Rightarrow> (dispatch_error, unit) result" where
  "validate_completion_control T (ControlPublish handle event_type payload moment position) =
     and_then (validate_completion_control_string handle ''publish_event_requests.handle'') (\<lambda>_.
     and_then (validate_completion_control_string event_type ''publish_event_requests.event_type'') (\<lambda>_.
       validate_completion_moment T moment ''publish_event_requests.at''))"
| "validate_completion_control T (ControlWait handle event_type wanted deadline position) =
     and_then (validate_completion_control_string handle ''wait_requests.handle'') (\<lambda>_.
     and_then (validate_completion_control_string event_type ''wait_requests.event_type'') (\<lambda>_.
       validate_completion_moment T deadline ''wait_requests.deadline''))"
| "validate_completion_control T (ControlCancel handle reason source_agent_id source_session_id position) =
     and_then (validate_completion_control_string handle ''cancel_requests.handle'') (\<lambda>_.
     and_then (case reason of Some r \<Rightarrow> validate_completion_control_string r ''cancel_requests.reason'' | None \<Rightarrow> Ok ()) (\<lambda>_.
     and_then (validate_completion_control_string source_agent_id ''cancel_requests.source_agent_id'') (\<lambda>_.
       validate_completion_control_string source_session_id ''cancel_requests.source_session_id'')))"

fun check_controls :: "time_lib \<Rightarrow> nat list \<Rightarrow> attempt_control list \<Rightarrow> (dispatch_error, unit) result" where
  "check_controls T seen [] = Ok ()"
| "check_controls T seen (control # controls) =
     (if control_position control \<in> set seen then Err (invalid_completion ''control.position'')
      else and_then (validate_completion_control T control) (\<lambda>_.
        check_controls T (control_position control # seen) controls))"

definition completion_controls :: "time_lib \<Rightarrow> attempt_completion \<Rightarrow> (dispatch_error, int \<times> attempt_control list) result" where
  "completion_controls T completion =
     and_then (parse_completion_timestamp T (ac_finished_at completion) ''finished_at'') (\<lambda>completed_at.
     and_then (validate_optional_completion_string (ac_metadata completion) ''final_answer'') (\<lambda>_.
     and_then (validate_optional_completion_array (ac_metadata completion) ''tool_calls'') (\<lambda>_.
     if (case map_get (ac_metadata completion) ''usage'' of None \<Rightarrow> False | Some (JObject _) \<Rightarrow> False | Some _ \<Rightarrow> True)
     then Err (invalid_completion ''usage'')
     else and_then (check_controls T [] (ac_controls completion)) (\<lambda>_.
       Ok (completed_at, sort_key control_position (ac_controls completion))))))"

definition json_object :: "(string \<times> json) list \<Rightarrow> json" where
  "json_object kvs = JObject (object_of kvs)"

fun publish_request :: "env \<Rightarrow> attempt_control \<Rightarrow> json list" where
  "publish_request E (ControlPublish handle event_type payload moment position) =
     [json_object [(''handle'', JString handle), (''event_type'', JString event_type), (''payload'', JObject payload),
        (''at'', or_null moment), (''position'', JNumber (num_from_int E (int position)))]]"
| "publish_request E _ = []"

fun wait_request :: "env \<Rightarrow> attempt_control \<Rightarrow> json list" where
  "wait_request E (ControlWait handle event_type wanted deadline position) =
     [json_object [(''handle'', JString handle), (''event_type'', JString event_type), (''fields'', JObject wanted),
        (''deadline'', or_null deadline), (''position'', JNumber (num_from_int E (int position)))]]"
| "wait_request E _ = []"

fun cancel_request :: "env \<Rightarrow> attempt_control \<Rightarrow> json list" where
  "cancel_request E (ControlCancel handle reason source_agent_id source_session_id position) =
     [json_object [(''handle'', JString handle), (''reason'', or_null reason), (''source_agent_id'', JString source_agent_id),
        (''source_session_id'', JString source_session_id), (''position'', JNumber (num_from_int E (int position)))]]"
| "cancel_request E _ = []"

definition nonempty_array :: "string \<Rightarrow> json list \<Rightarrow> (string \<times> json) list" where
  "nonempty_array field vs = (if vs = [] then [] else [(field, JArray vs)])"

definition reserved_result_fields :: "string list" where
  "reserved_result_fields = [''publish_event_requests'', ''wait_requests'', ''cancel_requests'', ''content_promotions'']"

definition completion_result :: "env \<Rightarrow> attempt_completion \<Rightarrow> attempt_control list \<Rightarrow> (dispatch_error, json_map) result" where
  "completion_result E completion controls =
     (case find (\<lambda>field. map_get (ac_metadata completion) field \<noteq> None) reserved_result_fields of
        Some field \<Rightarrow> Err (invalid_completion field)
      | None \<Rightarrow> Ok (with_fields (ac_metadata completion)
          (nonempty_array ''publish_event_requests'' (concat (map (publish_request E) controls))
           @ nonempty_array ''wait_requests'' (concat (map (wait_request E) controls))
           @ nonempty_array ''cancel_requests'' (concat (map (cancel_request E) controls)))))"

definition completion_summary :: "json_map \<Rightarrow> (string \<times> json) list" where
  "completion_summary result =
     (case (case map_get result ''summary'' of Some v \<Rightarrow> Some v | None \<Rightarrow> map_get result ''final_answer'') of
        Some (JString summary) \<Rightarrow> [(''summary'', JString summary)]
      | _ \<Rightarrow> [])"

definition copied_field :: "json_map \<Rightarrow> string \<Rightarrow> (string \<times> json) list" where
  "copied_field result key = (case map_get result key of Some v \<Rightarrow> [(key, v)] | None \<Rightarrow> [])"

text \<open>A terminal event of an attempt: keyed by attempt and status, caused by the input.\<close>

definition attempt_terminal_event ::
  "runtime_event_identity \<Rightarrow> event \<Rightarrow> attempt \<Rightarrow> attempt_status \<Rightarrow> json_map \<Rightarrow> event" where
  "attempt_terminal_event identity input a status payload =
     runtime_event identity (''runtime.attempt.'' @ attempt_status_display status) payload
       (attempt_idempotency_key (a_queue_item_id a) (a_attempt_number a) status) (ev_id input) (a_session_id a) (a_run_id a)
       (ev_turn_id input)"

definition completed_attempt_event ::
  "env \<Rightarrow> runtime_event_identity \<Rightarrow> event \<Rightarrow> attempt \<Rightarrow> attempt_completion \<Rightarrow> json_map \<Rightarrow> event" where
  "completed_attempt_event E identity input a completion result =
     attempt_terminal_event identity input a ACompleted
       (with_fields (attempt_payload E a ACompleted)
          ([(''finished_at'', JString (ac_finished_at completion)), (''result'', JObject result)] @ completion_summary result
           @ copied_field result ''tool_calls'' @ copied_field result ''usage''))"

text \<open>What an immediate publication, a deferred one and a wait have in common.\<close>

definition control_event ::
  "runtime_event_identity \<Rightarrow> string \<Rightarrow> string \<Rightarrow> json_map \<Rightarrow> string \<Rightarrow> event \<Rightarrow> attempt \<Rightarrow> event \<Rightarrow> event" where
  "control_event identity event_type source payload key input a completed =
     \<lparr>ev_id = ri_id identity, ev_event_type = event_type, ev_source = source, ev_payload = payload, ev_idempotency_key = Some key,
      ev_caused_by = Some (ev_id completed), ev_session_id = a_session_id a, ev_run_id = a_run_id a, ev_turn_id = ev_turn_id input,
      ev_timestamp_ms = ri_timestamp_ms identity, ev_cursor = None\<rparr>"

fun completion_control_event ::
  "env \<Rightarrow> time_lib \<Rightarrow> runtime_event_identity \<Rightarrow> attempt_control \<Rightarrow> int \<Rightarrow> event \<Rightarrow> queue_item \<Rightarrow> attempt \<Rightarrow> event
     \<Rightarrow> (dispatch_error, event) result" where
  "completion_control_event E T identity (ControlPublish handle event_type payload moment position) completed_at input item a completed =
     and_then (case moment of
         Some m \<Rightarrow> and_then (parse_completion_timestamp T m ''publish_event_requests.at'') (\<lambda>t. Ok (t \<le> completed_at))
       | None \<Rightarrow> Ok True) (\<lambda>immediate.
     if immediate
     then Ok (control_event identity event_type (''agent:'' @ a_target_agent a) payload
            (''agent.publish:'' @ q_id item @ '':'' @ show_nat position) input a completed)
     else Ok (control_event identity ''runtime.deferred_publication.created'' ''zeta''
            (object_of [(''handle'', JString handle), (''event_type'', JString event_type), (''payload'', JObject payload),
               (''publish_at'', or_null moment), (''source_agent_id'', JString (a_target_agent a)),
               (''source_session_id'', or_null (a_session_id a)), (''source_queue_item_id'', JString (q_id item)),
               (''position'', JNumber (num_from_int E (int position)))])
            (''agent.defer:'' @ q_id item @ '':'' @ show_nat position) input a completed))"
| "completion_control_event E T identity (ControlWait handle event_type wanted deadline position) completed_at input item a completed =
     Ok (control_event identity ''runtime.wait.created'' ''zeta''
       (object_of [(''handle'', JString handle), (''agent_id'', JString (a_target_agent a)),
          (''session_id'', or_null (a_session_id a)), (''event_type'', JString event_type), (''fields'', JObject wanted),
          (''deadline'', or_null deadline), (''source_queue_item_id'', JString (q_id item)),
          (''project_revision'', or_null (q_project_revision item))])
       (''agent.wait:'' @ q_id item @ '':'' @ show_nat position) input a completed)"
| "completion_control_event E T identity (ControlCancel handle reason source_agent_id source_session_id position)
     completed_at input item a completed = Err (invalid_completion ''control'')"

definition completed_queue_event :: "runtime_event_identity \<Rightarrow> event \<Rightarrow> queue_item \<Rightarrow> attempt \<Rightarrow> json_map \<Rightarrow> event" where
  "completed_queue_event identity input item a result =
     runtime_event identity ''runtime.queue_item.completed''
       (with_fields (queue_item_payload item QCompleted) [(''result'', JObject result)])
       (queue_item_idempotency_key (q_event_id item) (q_target_agent item) QCompleted)
       (ev_id input) (q_session_id item) (a_run_id a) (ev_turn_id input)"

section \<open>Failure\<close>

record attempt_failure =
  af_finished_at :: string
  af_error :: string
  af_error_code :: attempt_failure_code
  af_retry_policy :: retry_policy

definition failed_attempt_event ::
  "env \<Rightarrow> runtime_event_identity \<Rightarrow> event \<Rightarrow> attempt \<Rightarrow> attempt_failure \<Rightarrow> event" where
  "failed_attempt_event E identity input a failure =
     attempt_terminal_event identity input a AFailed
       (with_fields (attempt_payload E a AFailed)
          [(''finished_at'', JString (af_finished_at failure)), (''error'', JString (af_error failure)),
           (''error_code'', JString (failure_code_display (af_error_code failure)))])"

definition retry_moment ::
  "(f64 \<Rightarrow> f64 \<Rightarrow> f64) \<Rightarrow> attempt \<Rightarrow> attempt_failure \<Rightarrow> int \<Rightarrow> (dispatch_error, int) result" where
  "retry_moment powf a failure now_ms =
     and_then (map_err (\<lambda>_. InvalidCoordinationInput ''retry_policy'') (delay_ms powf (af_retry_policy failure) (a_attempt_number a))) (\<lambda>delay.
     if 2 ^ 63 - 1 < delay then Err (InvalidCoordinationInput ''retry_policy'')
     else if 2 ^ 63 - 1 < now_ms + int delay then Err (InvalidCoordinationInput ''not_before'')
     else Ok (now_ms + int delay))"

definition queue_disposition_event ::
  "runtime_event_identity \<Rightarrow> string \<Rightarrow> string \<Rightarrow> json_map \<Rightarrow> event \<Rightarrow> queue_item \<Rightarrow> attempt \<Rightarrow> event" where
  "queue_disposition_event identity event_type key payload input item a =
     runtime_event identity event_type payload key (ev_id input) (q_session_id item) (a_run_id a) (ev_turn_id input)"

definition failed_queue_disposition_event ::
  "(f64 \<Rightarrow> f64 \<Rightarrow> f64) \<Rightarrow> env \<Rightarrow> runtime_event_identity \<Rightarrow> event \<Rightarrow> queue_item \<Rightarrow> attempt \<Rightarrow> attempt_failure \<Rightarrow> int
     \<Rightarrow> (dispatch_error, event) result" where
  "failed_queue_disposition_event powf E identity input item a failure now_ms =
     (let failure_class = classify_attempt_failure_code (af_error_code failure);
          retry = failure_class = ClassRetryable \<and> permits_retry_after (af_retry_policy failure) (a_attempt_number a)
      in if retry then
        and_then (retry_moment powf a failure now_ms) (\<lambda>not_before.
        if a_attempt_number a = 2 ^ 32 - 1 then Err (InvalidCoordinationInput ''attempt_number'')
        else Ok (queue_disposition_event identity ''runtime.queue_item.available''
          (queue_item_attempt_idempotency_key (q_event_id item) (q_target_agent item) QAvailable (a_attempt_number a + 1))
          (with_fields (queue_item_payload item QAvailable) [(''not_before'', JNumber (num_from_int E not_before))]) input item a))
      else
        let reason = (if failure_class = ClassPermanent then ''permanent'' else ''exhausted'')
        in Ok (queue_disposition_event identity ''runtime.queue_item.dead_lettered''
          (queue_item_attempt_idempotency_key (q_event_id item) (q_target_agent item) QDeadLettered (a_attempt_number a))
          (with_fields (queue_item_payload item QDeadLettered)
            [(''reason'', JString reason), (''attempt_count'', JNumber (num_from_int E (int (a_attempt_number a)))),
             (''last_attempt_id'', JString (a_id a)), (''dead_lettered_at'', JString (af_finished_at failure)),
             (''last_error'', json_object [(''code'', JString (failure_code_display (af_error_code failure))),
                (''message'', JString (af_error failure))])]) input item a))"

section \<open>Cancellation\<close>

definition cancellation_requested_event ::
  "runtime_event_identity \<Rightarrow> event \<Rightarrow> queue_item \<Rightarrow> queue_item_status \<Rightarrow> string option \<Rightarrow> string option \<Rightarrow> event" where
  "cancellation_requested_event identity input item status reason run_id =
     runtime_event identity ''runtime.queue_item.cancel_requested''
       (with_fields (queue_item_payload item status) (opt_field ''reason'' reason))
       (''queue_item:'' @ q_event_id item @ '':'' @ q_target_agent item @ '':cancel_requested'')
       (ev_id input) (q_session_id item) run_id None"

definition cancellation_terminal_event ::
  "runtime_event_identity \<Rightarrow> queue_item \<Rightarrow> event \<Rightarrow> string option \<Rightarrow> string option \<Rightarrow> event" where
  "cancellation_terminal_event identity item requested reason run_id =
     runtime_event identity ''runtime.queue_item.cancelled''
       (with_fields (queue_item_payload item QCancelled) (opt_field ''reason'' reason
          @ [(''result'', json_object ([(''outcome'', JString ''cancelled'')] @ opt_field ''reason'' reason))]))
       (queue_item_idempotency_key (q_event_id item) (q_target_agent item) QCancelled)
       (ev_id requested) (q_session_id item) run_id None"

definition live_cancelled_events ::
  "env \<Rightarrow> runtime_event_identity \<Rightarrow> runtime_event_identity \<Rightarrow> event \<Rightarrow> queue_item \<Rightarrow> attempt \<Rightarrow> string \<Rightarrow> json_map option \<Rightarrow> event list" where
  "live_cancelled_events E i j input item a finished_at raw_result =
     (let result = with_fields (case raw_result of Some r \<Rightarrow> r | None \<Rightarrow> [])
            [(''outcome'', JString ''cancelled''), (''stop_reason'', JString ''aborted'')]
      in [attempt_terminal_event i input a ACancelled
            (with_fields (attempt_payload E a ACancelled)
              [(''finished_at'', JString finished_at), (''result'', JObject result)]),
          queue_disposition_event j ''runtime.queue_item.cancelled''
            (queue_item_idempotency_key (q_event_id item) (q_target_agent item) QCancelled)
            (with_fields (queue_item_payload item QCancelled) [(''result'', JObject result)]) input item a])"

definition recovered_attempt_cancelled_event ::
  "env \<Rightarrow> runtime_event_identity \<Rightarrow> event \<Rightarrow> attempt \<Rightarrow> string \<Rightarrow> string option \<Rightarrow> event" where
  "recovered_attempt_cancelled_event E identity requested a finished_at reason =
     (let kept = filter (\<lambda>(k, v). k \<noteq> ''error'' \<and> k \<noteq> ''project_revision'') (attempt_payload E a ACancelled);
          stamped = with_fields kept [(''finished_at'', JString finished_at)];
          named = (if map_get stamped ''worker_name'' = None then map_insert ''worker_name'' JNull stamped else stamped)
      in runtime_event identity ''runtime.attempt.cancelled''
           (with_fields named [(''result'', json_object ([(''outcome'', JString ''cancelled'')] @ opt_field ''reason'' reason))])
           (attempt_idempotency_key (a_queue_item_id a) (a_attempt_number a) ACancelled)
           (ev_id requested) (a_session_id a) (a_run_id a) None)"

end
