(* ===== verification/Attempts.thy ===== *)
theory Attempts
  imports Attempt_Events
begin

text \<open>
  The operations of a worker on its attempt, from \<open>crates/zeta-dispatch/src/sqlite/attempts.rs\<close>: start, fail and
  complete, each fenced by the claim it was given.  Every operation is one transaction.
\<close>

section \<open>Shared steps\<close>

text \<open>The loops that append lifecycle events one after the other.\<close>

fun append_runtime_events :: "env \<Rightarrow> time_lib \<Rightarrow> event list \<Rightarrow> db \<Rightarrow> (dispatch_error, db \<times> event list) result" where
  "append_runtime_events E T [] d = Ok (d, [])"
| "append_runtime_events E T (ev # evs) d =
     and_then (append_runtime_event E T ev d) (\<lambda>(d, out).
     and_then (append_runtime_events E T evs d) (\<lambda>(d, events). Ok (d, out_event out # events)))"

definition load_claimed_item :: "env \<Rightarrow> queue_claim \<Rightarrow> db \<Rightarrow> (dispatch_error, queue_item) result" where
  "load_claimed_item E claim d =
     and_then (load_queue_item E (cl_queue_item_id claim) d) (\<lambda>item.
       ok_or (CorruptProjection ''queue_items'' ''queue_item_id'') item)"

definition load_input :: "env \<Rightarrow> string \<Rightarrow> string \<Rightarrow> string \<Rightarrow> db \<Rightarrow> (dispatch_error, event) result" where
  "load_input E table field event_id d =
     and_then (entry_by_field E ''event_id'' event_id d) (\<lambda>entry.
     and_then (ok_or (CorruptProjection table field) entry) (\<lambda>entry. Ok (je_event entry)))"

section \<open>Start\<close>

record started_attempt =
  sa_attempt :: attempt
  sa_events :: "event list"

text \<open>A retried start returns the events that the first one appended.\<close>

fun retained_start_events :: "env \<Rightarrow> db \<Rightarrow> event list \<Rightarrow> (dispatch_error, event list) result" where
  "retained_start_events E d [] = Ok []"
| "retained_start_events E d (candidate # candidates) =
     (case ev_idempotency_key candidate of
        None \<Rightarrow> Err (CorruptProjection ''attempts'' ''idempotency_key'')
      | Some key \<Rightarrow>
          and_then (entry_by_field E ''idempotency_key'' key d) (\<lambda>entry.
            case entry of
              None \<Rightarrow> Err (CorruptProjection ''attempts'' ''lifecycle_event'')
            | Some retained \<Rightarrow>
                if \<not> same_lifecycle_intention candidate (je_event retained) then Err (RuntimeEventIdentityCollision (ev_id candidate))
                else and_then (retained_start_events E d candidates) (\<lambda>events. Ok (je_event retained # events))))"

definition start_events ::
  "env \<Rightarrow> runtime_event_identity \<Rightarrow> runtime_event_identity \<Rightarrow> event \<Rightarrow> queue_item \<Rightarrow> attempt_start_fields \<Rightarrow> event list" where
  "start_events E queue_identity attempt_identity input item f =
     [claimed_queue_event E queue_identity input item (as_attempt_number f) (as_run_id f),
      started_attempt_event E attempt_identity input item f]"

definition restart_attempt ::
  "env \<Rightarrow> queue_claim \<Rightarrow> runtime_event_identity \<Rightarrow> runtime_event_identity \<Rightarrow> string \<Rightarrow> string option \<Rightarrow> event \<Rightarrow> queue_item \<Rightarrow> attempt
     \<Rightarrow> db \<Rightarrow> (dispatch_error, db \<times> started_attempt) result" where
  "restart_attempt E claim queue_identity attempt_identity started_at claimed_run_id input item a d =
     (if a_started_at a \<noteq> started_at then Err (InvalidCoordinationInput ''started_at'')
      else case a_run_id a of
        None \<Rightarrow> Err (CorruptProjection ''attempts'' ''run_id'')
      | Some run_id \<Rightarrow>
          if run_id_for_attempt claimed_run_id (a_id a) \<noteq> run_id then Err (InvalidCoordinationInput ''run_id'')
          else and_then (retained_start_events E d (start_events E queue_identity attempt_identity input item
              \<lparr>as_attempt_id = a_id a, as_attempt_number = a_attempt_number a, as_run_id = run_id,
               as_worker_name = cl_worker_name claim, as_started_at = started_at\<rparr>)) (\<lambda>events.
            Ok (d, \<lparr>sa_attempt = a, sa_events = events\<rparr>)))"

definition fence_attempt :: "queue_claim \<Rightarrow> int \<Rightarrow> attempt_id \<Rightarrow> db \<Rightarrow> db" where
  "fence_attempt claim now_ms attempt d = d\<lparr>db_attempts := sql_update (\<lambda>a. at_id a = attempt)
     (\<lambda>a. a\<lparr>at_claim_token := Some (cl_token claim), at_heartbeat_at := Some now_ms\<rparr>) (db_attempts d)\<rparr>"

definition begin_attempt ::
  "env \<Rightarrow> time_lib \<Rightarrow> queue_claim \<Rightarrow> int \<Rightarrow> runtime_event_identity \<Rightarrow> runtime_event_identity \<Rightarrow> string \<Rightarrow> string option \<Rightarrow> event
     \<Rightarrow> queue_item \<Rightarrow> db \<Rightarrow> (dispatch_error, db \<times> started_attempt) result" where
  "begin_attempt E T claim now_ms queue_identity attempt_identity started_at claimed_run_id input item d =
     (if q_attempt_count item = 2 ^ 32 - 1 then Err (InvalidCoordinationInput ''attempt_number'')
      else
        let attempt_number = q_attempt_count item + 1;
            attempt = attempt_id (q_id item) attempt_number;
            run_id = run_id_for_attempt claimed_run_id attempt
        in and_then (append_runtime_events E T (start_events E queue_identity attempt_identity input item
              \<lparr>as_attempt_id = attempt, as_attempt_number = attempt_number, as_run_id = run_id,
               as_worker_name = cl_worker_name claim, as_started_at = started_at\<rparr>) d) (\<lambda>(d, events).
          Ok (fence_attempt claim now_ms attempt d,
            \<lparr>sa_attempt = \<lparr>a_id = attempt, a_queue_item_id = q_id item, a_event_id = q_event_id item,
               a_attempt_number = attempt_number, a_target_agent = q_target_agent item,
               a_worker_name = Some (cl_worker_name claim), a_status = ARunning, a_started_at = started_at, a_finished_at = None,
               a_error = None, a_session_id = q_session_id item, a_run_id = Some run_id,
               a_project_revision = q_project_revision item\<rparr>, sa_events = events\<rparr>)))"

definition start_claimed_attempt ::
  "env \<Rightarrow> time_lib \<Rightarrow> queue_claim \<Rightarrow> int \<Rightarrow> runtime_event_identity \<Rightarrow> runtime_event_identity \<Rightarrow> string \<Rightarrow> string option \<Rightarrow> db
     \<Rightarrow> (dispatch_error, db \<times> started_attempt) result" where
  "start_claimed_attempt E T claim now_ms queue_identity attempt_identity started_at claimed_run_id d =
     (if started_at = [] then Err (InvalidCoordinationInput ''started_at'')
      else if ri_id queue_identity = ri_id attempt_identity then Err (DuplicateRuntimeEventIdentity (ri_id queue_identity))
      else if \<not> claim_is_current claim now_ms d then Err (ClaimNotCurrent (cl_queue_item_id claim))
      else
        and_then (load_claimed_item E claim d) (\<lambda>item.
        if q_target_agent item = [] then Err (InvalidCoordinationInput ''target_agent'')
        else
        and_then (load_input E ''queue_items'' ''event_id'' (q_event_id item) d) (\<lambda>input.
        and_then (load_running_attempt_for_claim claim d) (\<lambda>running.
          case running of
            Some a \<Rightarrow> restart_attempt E claim queue_identity attempt_identity started_at claimed_run_id input item a d
          | None \<Rightarrow> begin_attempt E T claim now_ms queue_identity attempt_identity started_at claimed_run_id input item d))))"

section \<open>Failure\<close>

text \<open>What failing and completing read first, once the claim is known to be current.\<close>

definition load_claimed_attempt :: "env \<Rightarrow> queue_claim \<Rightarrow> int \<Rightarrow> db \<Rightarrow> (dispatch_error, attempt \<times> queue_item \<times> event) result" where
  "load_claimed_attempt E claim now_ms d =
     (if \<not> claim_is_current claim now_ms d then Err (ClaimNotCurrent (cl_queue_item_id claim))
      else
        and_then (load_running_attempt_for_claim claim d) (\<lambda>a.
        and_then (ok_or (InvalidCoordinationInput ''running_attempt'') a) (\<lambda>a.
        and_then (load_claimed_item E claim d) (\<lambda>item.
        and_then (load_input E ''attempts'' ''event_id'' (a_event_id a) d) (\<lambda>input. Ok (a, item, input))))))"

text \<open>Appends the closing events and gives the claim up.\<close>

definition close_attempt ::
  "env \<Rightarrow> time_lib \<Rightarrow> queue_claim \<Rightarrow> string \<Rightarrow> event list \<Rightarrow> db \<Rightarrow> (dispatch_error, db \<times> event list) result" where
  "close_attempt E T claim operation evs d =
     and_then (append_runtime_events E T evs d) (\<lambda>(d, events).
     and_then (release_claim_in_transaction claim operation d) (\<lambda>d. Ok (d, events)))"

definition fail_claimed_attempt ::
  "(f64 \<Rightarrow> f64 \<Rightarrow> f64) \<Rightarrow> env \<Rightarrow> time_lib \<Rightarrow> queue_claim \<Rightarrow> int \<Rightarrow> runtime_event_identity \<Rightarrow> runtime_event_identity \<Rightarrow> attempt_failure \<Rightarrow> db
     \<Rightarrow> (dispatch_error, db \<times> event list) result" where
  "fail_claimed_attempt powf E T claim now_ms i j failure d =
     (if af_finished_at failure = [] then Err (InvalidCoordinationInput ''finished_at'')
      else if af_error failure = [] then Err (InvalidCoordinationInput ''error'')
      else if ri_id i = ri_id j then Err (DuplicateRuntimeEventIdentity (ri_id i))
      else
        and_then (load_claimed_attempt E claim now_ms d) (\<lambda>(a, item, input).
        if q_cancellation_requested_event_id item \<noteq> None
        then close_attempt E T claim ''release cancelled attempt claim''
          (live_cancelled_events E i j input item a (af_finished_at failure) None) d
        else
        and_then (failed_queue_disposition_event powf E j input item a failure now_ms) (\<lambda>disposition.
          close_attempt E T claim ''release failed attempt claim'' [failed_attempt_event E i input a failure, disposition] d)))"

section \<open>Completion\<close>

definition apply_control ::
  "env \<Rightarrow> time_lib \<Rightarrow> int \<Rightarrow> event \<Rightarrow> queue_item \<Rightarrow> attempt \<Rightarrow> event \<Rightarrow> attempt_control \<Rightarrow> runtime_event_identity \<Rightarrow> db
     \<Rightarrow> (dispatch_error, db \<times> event list) result" where
  "apply_control E T completed_at input item a completed control identity d = (case control of
     ControlCancel handle reason source_agent_id source_session_id _ \<Rightarrow>
       if source_agent_id \<noteq> a_target_agent a \<or> a_session_id a \<noteq> Some source_session_id
       then Err (CancellationAuthorityMismatch handle)
       else
         and_then (resource_kind_for_handle handle) (\<lambda>kind.
         and_then (cancel_resource_in_transaction E T handle reason (Some source_agent_id) (Some source_session_id) identity kind d)
           (\<lambda>(d, outcome). Ok (d, case rc_event outcome of Some ev \<Rightarrow> [ev] | None \<Rightarrow> [])))
   | _ \<Rightarrow>
       and_then (completion_control_event E T identity control completed_at input item a completed) (\<lambda>ev.
       and_then (append_runtime_event E T ev d) (\<lambda>(d, out). Ok (d, [out_event out]))))"

fun apply_controls ::
  "env \<Rightarrow> time_lib \<Rightarrow> int \<Rightarrow> event \<Rightarrow> queue_item \<Rightarrow> attempt \<Rightarrow> event \<Rightarrow> (attempt_control \<times> runtime_event_identity) list \<Rightarrow> db
     \<Rightarrow> (dispatch_error, db \<times> event list) result" where
  "apply_controls E T completed_at input item a completed [] d = Ok (d, [])"
| "apply_controls E T completed_at input item a completed ((control, identity) # rest) d =
     and_then (apply_control E T completed_at input item a completed control identity d) (\<lambda>(d, events).
     and_then (apply_controls E T completed_at input item a completed rest d) (\<lambda>(d, more). Ok (d, events @ more)))"

definition commit_completion ::
  "env \<Rightarrow> time_lib \<Rightarrow> queue_claim \<Rightarrow> runtime_event_identity list \<Rightarrow> attempt_completion \<Rightarrow> int \<Rightarrow> attempt_control list \<Rightarrow> json_map
     \<Rightarrow> attempt \<Rightarrow> queue_item \<Rightarrow> event \<Rightarrow> db \<Rightarrow> (dispatch_error, db \<times> event list) result" where
  "commit_completion E T claim identities completion completed_at controls result a item input d =
     and_then (append_runtime_event E T (completed_attempt_event E (hd identities) input a completion result) d) (\<lambda>(d, completed).
     and_then (apply_controls E T completed_at input item a (out_event completed) (zip controls (butlast (tl identities))) d) (\<lambda>(d, events).
     and_then (append_runtime_event E T (completed_queue_event (last identities) input item a result) d) (\<lambda>(d, closed).
     and_then (release_claim_in_transaction claim ''release completed attempt claim'' d) (\<lambda>d.
       Ok (d, out_event completed # events @ [out_event closed])))))"

definition complete_claimed_attempt ::
  "env \<Rightarrow> time_lib \<Rightarrow> queue_claim \<Rightarrow> int \<Rightarrow> runtime_event_identity list \<Rightarrow> attempt_completion \<Rightarrow> db
     \<Rightarrow> (dispatch_error, db \<times> event list) result" where
  "complete_claimed_attempt E T claim now_ms identities completion d =
     (if ac_finished_at completion = [] then Err (InvalidCompletion ''finished_at'')
      else
        and_then (completion_controls T completion) (\<lambda>(completed_at, controls).
          let expected = length controls + 2 in
        if length identities \<noteq> expected then Err (RuntimeEventIdentityCount expected (length identities))
        else
        and_then (validate_distinct_runtime_identities identities) (\<lambda>_.
        and_then (completion_result E completion controls) (\<lambda>result.
        and_then (load_claimed_attempt E claim now_ms d) (\<lambda>(a, item, input).
          let cancelled = (case ac_disposition completion of
                DispositionSucceeded \<Rightarrow> q_cancellation_requested_event_id item \<noteq> None | DispositionCancelled \<Rightarrow> True)
          in if cancelled
             then close_attempt E T claim ''release completed cancellation''
               (live_cancelled_events E (hd identities) (last identities) input item a (ac_finished_at completion) (Some result)) d
             else commit_completion E T claim identities completion completed_at controls result a item input d)))))"

end
