(* ===== verification/Queue_Cancellation.thy ===== *)
theory Queue_Cancellation
  imports Attempts
begin

text \<open>
  Cancellation of queued and running work, from \<open>crates/zeta-dispatch/src/sqlite/cancellation.rs\<close>: the intent is recorded
  first, queued work is closed at once, claimed work is left to its worker, and recovery closes what nobody owns.
\<close>

section \<open>Operations\<close>

record cancellation_identities =
  ci_requested :: runtime_event_identity
  ci_cancelled :: runtime_event_identity

record cancellation_finalization_identities =
  cf_attempt_cancelled :: runtime_event_identity
  cf_queue_cancelled :: runtime_event_identity

datatype cancellation_status =
    CancellationUnknown | CancellationCancelling | CancellationCancelled | CancellationAlreadyCancelled | CancellationAlreadyTerminal

record cancellation_outcome =
  co_queue_item_id :: "queue_item_id option"
  co_status :: cancellation_status
  co_changed :: bool
  co_events :: "event list"

definition queue_run_id :: "queue_item \<Rightarrow> event \<Rightarrow> db \<Rightarrow> string option" where
  "queue_run_id item input d = (case ev_run_id input of
     Some r \<Rightarrow> Some r
   | None \<Rightarrow> (case rev (sort_key at_number (filter (\<lambda>a. at_queue_item_id a = q_id item \<and> at_run_id a \<noteq> None) (db_attempts d))) of
        [] \<Rightarrow> None
      | a # _ \<Rightarrow> at_run_id a))"

definition retained_cancellation_events :: "env \<Rightarrow> queue_item \<Rightarrow> db \<Rightarrow> (dispatch_error, event list) result" where
  "retained_cancellation_events E item d = (case q_cancellation_requested_event_id item of
     None \<Rightarrow> Ok []
   | Some requested_id \<Rightarrow>
       and_then (load_input E ''queue_items'' ''cancel_requested_event_id'' requested_id d) (\<lambda>requested.
       and_then (entry_by_field E ''idempotency_key''
           (queue_item_idempotency_key (q_event_id item) (q_target_agent item) QCancelled) d) (\<lambda>entry.
       and_then (ok_or (CorruptProjection ''queue_items'' ''cancelled_event'') entry) (\<lambda>entry.
         Ok [requested, je_event entry]))))"

text \<open>The intent of a cancellation: the retained one, or a new one, and whether it was inserted.\<close>

definition request_cancellation ::
  "env \<Rightarrow> time_lib \<Rightarrow> runtime_event_identity \<Rightarrow> string option \<Rightarrow> queue_item \<Rightarrow> event \<Rightarrow> string option \<Rightarrow> db
     \<Rightarrow> (dispatch_error, db \<times> queue_item \<times> event \<times> bool) result" where
  "request_cancellation E T identity reason item input run_id d = (case q_cancellation_requested_event_id item of
     Some event_id \<Rightarrow>
       and_then (load_input E ''queue_items'' ''cancel_requested_event_id'' event_id d) (\<lambda>requested. Ok (d, item, requested, False))
   | None \<Rightarrow>
       and_then (append_runtime_event E T (cancellation_requested_event identity input item (q_status item) reason run_id) d) (\<lambda>(d, out).
         Ok (d, item\<lparr>q_cancellation_requested_event_id := Some (ev_id (out_event out)),
                q_cancellation_requested_at := Some (ev_timestamp_ms (out_event out)), q_cancellation_reason := reason\<rparr>,
             out_event out, out_inserted out)))"

definition cancel_open_item ::
  "env \<Rightarrow> time_lib \<Rightarrow> string option \<Rightarrow> cancellation_identities \<Rightarrow> queue_item \<Rightarrow> db
     \<Rightarrow> (dispatch_error, db \<times> cancellation_outcome) result" where
  "cancel_open_item E T reason identities item d =
     and_then (load_input E ''queue_items'' ''event_id'' (q_event_id item) d) (\<lambda>input.
       let run_id = queue_run_id item input d in
     and_then (request_cancellation E T (ci_requested identities) reason item input run_id d) (\<lambda>(d, item, requested, request_inserted).
     if q_status item = QClaimed
     then Ok (d, \<lparr>co_queue_item_id = Some (q_id item), co_status = CancellationCancelling, co_changed = request_inserted,
                  co_events = [requested]\<rparr>)
     else
       and_then (append_runtime_event E T (cancellation_terminal_event (ci_cancelled identities) item requested
           (coalesce (q_cancellation_reason item) reason) run_id) d) (\<lambda>(d, cancelled).
         Ok (d, \<lparr>co_queue_item_id = Some (q_id item), co_status = CancellationCancelled,
                 co_changed = request_inserted \<or> out_inserted cancelled, co_events = [requested, out_event cancelled]\<rparr>))))"

definition unknown_cancellation :: cancellation_outcome where
  "unknown_cancellation = \<lparr>co_queue_item_id = None, co_status = CancellationUnknown, co_changed = False, co_events = []\<rparr>"

definition cancel_queue_item ::
  "env \<Rightarrow> time_lib \<Rightarrow> queue_item_id \<Rightarrow> string option \<Rightarrow> string option \<Rightarrow> cancellation_identities \<Rightarrow> db
     \<Rightarrow> (dispatch_error, db \<times> cancellation_outcome) result" where
  "cancel_queue_item E T item_id expected_session_id reason identities d =
     (if ri_id (ci_requested identities) = ri_id (ci_cancelled identities)
      then Err (DuplicateRuntimeEventIdentity (ri_id (ci_requested identities)))
      else if reason = Some [] then Err (InvalidCoordinationInput ''reason'')
      else
        and_then (load_queue_item E item_id d) (\<lambda>item. case item of
          None \<Rightarrow> Ok (d, unknown_cancellation)
        | Some item \<Rightarrow>
            if expected_session_id \<noteq> None \<and> q_session_id item \<noteq> expected_session_id
            then Err (CancellationSessionMismatch (the expected_session_id) (q_session_id item))
            else if q_status item = QCancelled
            then and_then (retained_cancellation_events E item d) (\<lambda>events.
              Ok (d, \<lparr>co_queue_item_id = Some (q_id item), co_status = CancellationAlreadyCancelled, co_changed = False,
                      co_events = events\<rparr>))
            else if q_status item \<in> {QCompleted, QFailed, QDeadLettered, QUnhandled}
            then Ok (d, \<lparr>co_queue_item_id = Some (q_id item), co_status = CancellationAlreadyTerminal, co_changed = False, co_events = []\<rparr>)
            else cancel_open_item E T reason identities item d))"

text \<open>The item of a run: open items before closed ones, then the oldest input.\<close>

definition run_items :: "run_id \<Rightarrow> db \<Rightarrow> queue_item_row list" where
  "run_items run_id d = sort_key (\<lambda>r. (if qi_status r \<in> {''completed'', ''failed'', ''cancelled'', ''dead_lettered'', ''unhandled''} then 1 else 0 :: nat,
        qi_input_cursor r, qi_id r))
     (filter (\<lambda>r. (case find (\<lambda>s. se_event_id s = qi_event_id r) (db_journal d) of Some s \<Rightarrow> se_run_id s = Some run_id | None \<Rightarrow> False)
        \<or> list_ex (\<lambda>a. at_queue_item_id a = qi_id r \<and> at_run_id a = Some run_id) (db_attempts d)) (db_queue_items d))"

definition cancel_run ::
  "env \<Rightarrow> time_lib \<Rightarrow> run_id \<Rightarrow> string option \<Rightarrow> string option \<Rightarrow> cancellation_identities \<Rightarrow> db
     \<Rightarrow> (dispatch_error, db \<times> cancellation_outcome) result" where
  "cancel_run E T run_id expected_session_id reason identities d = (case run_items run_id d of
     [] \<Rightarrow> Ok (d, unknown_cancellation)
   | r # _ \<Rightarrow>
       and_then (map_err (\<lambda>_. corrupt_projection ''queue_items'' ''queue_item_id'') (parse_runtime_id ''queue item'' (qi_id r))) (\<lambda>item_id.
         cancel_queue_item E T item_id expected_session_id reason identities d))"

section \<open>Recovery\<close>

definition requested_cancellations :: "db \<Rightarrow> queue_item_row list" where
  "requested_cancellations d = sort_key (\<lambda>r. (qi_input_cursor r, qi_id r))
     (filter (\<lambda>r. qi_cancel_requested_event_id r \<noteq> None \<and> qi_status r \<in> {''pending'', ''available'', ''retry_scheduled''}
        \<and> \<not> list_ex (\<lambda>c. qc_queue_item_id c = qi_id r) (db_queue_claims d)) (db_queue_items d))"

definition cancel_recovered_attempt ::
  "env \<Rightarrow> time_lib \<Rightarrow> runtime_event_identity \<Rightarrow> event \<Rightarrow> string \<Rightarrow> queue_item \<Rightarrow> attempt option \<Rightarrow> db
     \<Rightarrow> (dispatch_error, db \<times> event list) result" where
  "cancel_recovered_attempt E T identity requested finished_at item a d = (case a of
     None \<Rightarrow> Ok (d, [])
   | Some a \<Rightarrow>
       and_then (append_runtime_event E T
           (recovered_attempt_cancelled_event E identity requested a finished_at (q_cancellation_reason item)) d) (\<lambda>(d, out).
         Ok (d, [out_event out])))"

definition finalize_cancellation ::
  "env \<Rightarrow> time_lib \<Rightarrow> cancellation_finalization_identities \<Rightarrow> string \<Rightarrow> queue_item_id \<Rightarrow> db
     \<Rightarrow> (dispatch_error, db \<times> cancellation_outcome) result" where
  "finalize_cancellation E T identities finished_at item_id d =
     and_then (load_queue_item E item_id d) (\<lambda>item.
     and_then (ok_or (CorruptProjection ''queue_items'' ''queue_item_id'') item) (\<lambda>item.
     and_then (ok_or (CorruptProjection ''queue_items'' ''cancel_requested_event_id'') (q_cancellation_requested_event_id item)) (\<lambda>requested_id.
     and_then (load_input E ''queue_items'' ''cancel_requested_event_id'' requested_id d) (\<lambda>requested.
     and_then (load_latest_running_attempt item_id d) (\<lambda>a.
     and_then (cancel_recovered_attempt E T (cf_attempt_cancelled identities) requested finished_at item a d) (\<lambda>(d, events).
     and_then (load_input E ''queue_items'' ''event_id'' (q_event_id item) d) (\<lambda>input.
       let run_id = (case a of Some a \<Rightarrow> a_run_id a | None \<Rightarrow> queue_run_id item input d) in
     and_then (append_runtime_event E T (cancellation_terminal_event (cf_queue_cancelled identities) item requested
         (q_cancellation_reason item) run_id) d) (\<lambda>(d, out).
       Ok (delete_queue_claims (\<lambda>c. qc_queue_item_id c = item_id) d,
           \<lparr>co_queue_item_id = Some item_id, co_status = CancellationCancelled, co_changed = True,
            co_events = events @ [out_event out]\<rparr>)))))))))"

definition finalize_next_requested_cancellation ::
  "env \<Rightarrow> time_lib \<Rightarrow> cancellation_finalization_identities \<Rightarrow> string \<Rightarrow> db
     \<Rightarrow> (dispatch_error, db \<times> cancellation_outcome option) result" where
  "finalize_next_requested_cancellation E T identities finished_at d =
     (if finished_at = [] then Err (InvalidCoordinationInput ''finished_at'')
      else if ri_id (cf_attempt_cancelled identities) = ri_id (cf_queue_cancelled identities)
      then Err (DuplicateRuntimeEventIdentity (ri_id (cf_attempt_cancelled identities)))
      else case requested_cancellations d of
        [] \<Rightarrow> Ok (d, None)
      | r # _ \<Rightarrow>
          and_then (map_err (\<lambda>_. corrupt_projection ''queue_items'' ''queue_item_id'') (parse_runtime_id ''queue item'' (qi_id r))) (\<lambda>item_id.
          and_then (finalize_cancellation E T identities finished_at item_id d) (\<lambda>(d, outcome). Ok (d, Some outcome))))"

end
