(* ===== verification/Reclaim.thy ===== *)
theory Reclaim
  imports Queue_Cancellation
begin

text \<open>
  What a started attempt leaves in the journal, and what a replay makes of it.  A lease that runs out returns its item
  to the queue without an event; the item can then be claimed and started again, and the journal holds two claims of one
  item with nothing between them.  The state machine of queue items refuses the second one on replay.
\<close>

section \<open>Queue events\<close>

lemma barrier_closed:
  assumes "(if c then delete_queue_items operation (\<lambda>x. qi_id x = i \<and> qi_target_agent x = []) d else Ok d) = Ok d1" "items_ok d"
  shows "items_ok d1" "r \<in> set (db_queue_items d) \<Longrightarrow> qi_target_agent r \<noteq> [] \<Longrightarrow> r \<in> set (db_queue_items d1)"
proof -
  obtain P where d1: "db_queue_items d1 = filter P (db_queue_items d)" "db_journal d1 = db_journal d"
    and P: "\<And>r. qi_target_agent r \<noteq> [] \<Longrightarrow> P r"
  proof (cases c)
    case True
    then show thesis
      using assms(1) that [of "\<lambda>x. \<not> (qi_id x = i \<and> qi_target_agent x = [])"] by (simp add: delete_queue_items_Ok)
  next
    case False
    then show thesis using assms(1) that [of "\<lambda>_. True"] by simp
  qed
  show "items_ok d1" by (rule items_ok_filter [OF assms(2) d1])
  show "r \<in> set (db_queue_items d) \<Longrightarrow> qi_target_agent r \<noteq> [] \<Longrightarrow> r \<in> set (db_queue_items d1)" using P by (simp add: d1(1))
qed

lemma queue_item_indexed:
  assumes ok: "items_ok d" and ix: "index_queue_item E ev d = Ok d'" and s: "lifecycle_queue_status ev = Ok s"
    and x: "required_runtime_id ev ''queue_item_id'' = Ok x" and t: "required_payload_string ev ''target_agent'' True = Ok t"
  shows "\<exists>r \<in> set (db_queue_items d'). qi_id r = x \<and> qi_target_agent r = t \<and> qi_status r = queue_status_display s"
proof -
  obtain d1 j r s' where r: "required_runtime_id ev ''queue_item_id'' = Ok (qi_id r)"
    "required_payload_string ev ''target_agent'' True = Ok (qi_target_agent r)" "lifecycle_queue_status ev = Ok s'"
    "qi_status r = queue_status_display s'" "qi_attempt_count r = 0"
    and del: "(if qi_id r \<noteq> pending_queue_item_id (qi_event_id r)
      then delete_queue_items ''close pending route barrier''
        (\<lambda>x. qi_id x = pending_queue_item_id (qi_event_id r) \<and> qi_target_agent x = []) d
      else Ok d) = Ok d1" and up: "upsert_queue_item j r d1 = Ok d'"
    by (rule index_queue_item_split [OF ix])
  have "items_ok d1" by (rule barrier_closed(1) [OF del ok])
  from upsert_queue_item_ok(4) [OF this up r(4,5)] show ?thesis using r s x t by auto
qed

lemma claimed_item_cannot_be_claimed:
  assumes ok: "items_ok d" and row: "r \<in> set (db_queue_items d)" "qi_target_agent r \<noteq> []" "qi_status r = ''claimed''"
    and ev: "lifecycle_queue_status ev = Ok QClaimed" "required_runtime_id ev ''queue_item_id'' = Ok (qi_id r)"
  shows "index_queue_item E ev d \<noteq> Ok d'"
proof
  assume ix: "index_queue_item E ev d = Ok d'"
  obtain d1 j n s where n: "required_runtime_id ev ''queue_item_id'' = Ok (qi_id n)" "lifecycle_queue_status ev = Ok s"
    and del: "(if qi_id n \<noteq> pending_queue_item_id (qi_event_id n)
      then delete_queue_items ''close pending route barrier''
        (\<lambda>x. qi_id x = pending_queue_item_id (qi_event_id n) \<and> qi_target_agent x = []) d
      else Ok d) = Ok d1" and up: "upsert_queue_item j n d1 = Ok d'"
    and prev: "previous_queue_status ev (qi_id n) (qi_event_id n) (qi_target_agent n) d1 \<noteq> Ok None \<longrightarrow>
       (\<exists>p. previous_queue_status ev (qi_id n) (qi_event_id n) (qi_target_agent n) d1 = Ok (Some p)
          \<and> queue_transition_ok (qi_id n) (pending_queue_item_id (qi_event_id n)) (qi_target_agent n) (Some p) s d1 = Ok ())"
    by (rule index_queue_item_split [OF ix])
  have "items_ok d1" "r \<in> set (db_queue_items d1)"
    using barrier_closed [OF del ok] row by blast+
  moreover have n: "qi_id n = qi_id r" "s = QClaimed" using n ev by simp_all
  ultimately have "find (\<lambda>y. qi_id y = qi_id n) (db_queue_items d1) = Some r"
    using find_key [of qi_id "db_queue_items d1" "qi_id r" _ r]
    by (cases "find (\<lambda>y. qi_id y = qi_id n) (db_queue_items d1)") (auto simp: find_None_iff items_ok_def)
  then show False
    using prev row(3) n(2)
    by (auto simp: previous_queue_status_def queue_transition_ok_def queue_validate_transition_def queue_status_from_str_def Let_def
        result_simps split: if_splits)
qed

lemma index_attempt_keeps_items:
  assumes "index_attempt E ev d = Ok d'" "r \<in> set (db_queue_items d)"
  shows "\<exists>r' \<in> set (db_queue_items d'). qi_id r' = qi_id r \<and> qi_target_agent r' = qi_target_agent r \<and> qi_status r' = qi_status r"
proof -
  have up: "db_queue_items d2 = db_queue_items d1" if "upsert_attempt a d1 = Ok d2" for a d1 d2
    using that by (auto simp: upsert_attempt_def Let_def split: option.splits if_splits)
  define counted where "counted f d1 = (if af_status f = ARunning
           then d1\<lparr>db_queue_items := sql_update (\<lambda>r. qi_id r = af_queue_item_id f)
              (\<lambda>r. r\<lparr>qi_attempt_count := max (qi_attempt_count r) (int (af_number f))\<rparr>) (db_queue_items d1)\<rparr>
           else d1)" for f :: attempt_fields and d1 :: db
  from assms(1) obtain f a d1 where a: "upsert_attempt a d = Ok d1" and d': "d' = counted f d1"
    unfolding index_attempt_def counted_def [symmetric] by (auto elim!: and_then_OkE)
  have keep: "\<exists>r' \<in> set (sql_update P (\<lambda>r. r\<lparr>qi_attempt_count := g r\<rparr>) rows). qi_id r' = qi_id r
      \<and> qi_target_agent r' = qi_target_agent r \<and> qi_status r' = qi_status r" if "r \<in> set rows" for P g rows
    using that by (intro bexI [of _ "if P r then r\<lparr>qi_attempt_count := g r\<rparr> else r"]) (auto simp: sql_update_def)
  show ?thesis
    unfolding d' counted_def using keep assms(2) up [OF a] by auto
qed

section \<open>Replays\<close>

lemma drop_projections_ok: "tables_ok (drop_projections d)"
  by (simp add: tables_ok_def items_ok_def attempts_ok_def waits_ok_def deferred_ok_def effects_ok_def drop_projections_def db_empty_def)

lemma index_all_ok: "tables_ok d \<Longrightarrow> index_all E T es d = Ok d' \<Longrightarrow> tables_ok d'"
  by (induction es arbitrary: d) (auto elim!: and_then_OkE dest: index_event_ok)

text \<open>An entry that claims an item for an agent.\<close>

definition claims_item :: "string \<Rightarrow> event \<Rightarrow> bool" where
  "claims_item item ev \<longleftrightarrow> ev_event_type ev = ''runtime.queue_item.claimed''
     \<and> map_get (ev_payload ev) ''queue_item_id'' = Some (JString item) \<and> item \<noteq> []
     \<and> map_get (ev_payload ev) ''status'' = Some (JString ''claimed'')
     \<and> (\<exists>t. t \<noteq> [] \<and> map_get (ev_payload ev) ''target_agent'' = Some (JString t))"

lemma claims_item_fields:
  assumes "claims_item item ev"
  shows "index_event E T ev d = index_queue_item E ev d" "lifecycle_queue_status ev = Ok QClaimed"
    "required_runtime_id ev ''queue_item_id'' = Ok item" "\<exists>t. t \<noteq> [] \<and> required_payload_string ev ''target_agent'' True = Ok t"
  using assms
  by (auto simp: claims_item_def index_event_def lifecycle_queue_status_def type_suffix_def queue_status_from_str_def
      required_runtime_id_def required_payload_string_def)

lemma second_claim_stops_replay:
  assumes "tables_ok d" "claims_item item (je_event c1)" "ev_event_type (je_event a) = ''runtime.attempt.started''"
    "claims_item item (je_event c2)"
  shows "index_all E T (es @ c1 # a # c2 # rest) d \<noteq> Ok d'"
proof
  assume "index_all E T (es @ c1 # a # c2 # rest) d = Ok d'"
  then obtain d0 d1 d2 d3 where d0: "index_all E T es d = Ok d0" and d1: "index_event E T (je_event c1) d0 = Ok d1"
    and d2: "index_event E T (je_event a) d1 = Ok d2" and d3: "index_event E T (je_event c2) d2 = Ok d3"
    by (auto simp: index_all_append elim!: and_then_OkE)
  have ok: "tables_ok d0" "tables_ok d1" "tables_ok d2"
    using index_all_ok [OF assms(1) d0] index_event_ok d1 d2 by blast+
  obtain t where t: "t \<noteq> []" "required_payload_string (je_event c1) ''target_agent'' True = Ok t"
    using claims_item_fields(4) [OF assms(2)] by blast
  have "index_queue_item E (je_event c1) d0 = Ok d1" using d1 claims_item_fields(1) [OF assms(2)] by simp
  from queue_item_indexed [OF _ this claims_item_fields(2,3) [OF assms(2)] t(2)] ok(1) obtain r where
    r: "r \<in> set (db_queue_items d1)" "qi_id r = item" "qi_target_agent r = t" "qi_status r = ''claimed''"
    by (auto simp: tables_ok_def)
  have "index_attempt E (je_event a) d1 = Ok d2" using d2 assms(3) by (simp add: index_event_def)
  from index_attempt_keeps_items [OF this r(1)] obtain r' where
    r': "r' \<in> set (db_queue_items d2)" "qi_id r' = item" "qi_target_agent r' \<noteq> []" "qi_status r' = ''claimed''"
    using r t(1) by auto
  have "index_queue_item E (je_event c2) d2 \<noteq> Ok d3"
    by (rule claimed_item_cannot_be_claimed [OF _ r'(1,3,4)])
      (use ok(3) r'(2) claims_item_fields(2,3) [OF assms(4)] in \<open>simp_all add: tables_ok_def\<close>)
  then show False using d3 claims_item_fields(1) [OF assms(4)] by simp
qed

section \<open>What a start journals\<close>

lemma append_runtime_stored:
  assumes inv: "sql_inv E d" and reads: "reads_same E (out_event out)" and ok: "append_runtime_event E T ev d = Ok (d', out)"
  shows "db_journal d' = db_journal d
    \<or> (\<exists>e. sql_inv E d' \<and> sql_entries E d' = sql_entries E d @ [e] \<and> same_lifecycle_intention ev (je_event e)
        \<and> length (db_journal d') = Suc (length (db_journal d)))"
proof -
  from ok obtain d1 where d1: "append_in_transaction E ev d = Ok (d1, out)"
    and d': "if out_inserted out then index_event E T (out_event out) d1 = Ok d' else d' = d1"
    by (auto simp: append_runtime_event_def result_simps append_lifecycle_Ok split: if_splits)
  show ?thesis
  proof (cases "out_inserted out")
    case False
    then show ?thesis using append_in_transaction_rows [OF d1] d' by auto
  next
    case True
    then have ev: "reads_same E ev" using append_in_transaction_out(1) [OF inv d1] reads reads_same_cong by metis
    from inv reads_same_readable [OF ev] d1 show ?thesis
    proof (cases rule: append_cases)
      case (inserted e rows)
      from append_in_transaction_rows [OF d1] True obtain row where row: "d1 = grow [row] d" by auto
      have ix: "index_event E T (out_event out) d1 = Ok d'" using d' True by simp
      note same = sql_inv_frame [OF index_event_journal [OF ix], of E]
      have "same_lifecycle_intention ev (je_event e)"
        by (rule stored_same_intention [OF inserted(2), where c = "je_cursor e"]) (use inserted ev in \<open>auto\<close>)
      then show ?thesis using inserted(2,3) same index_event_journal [OF ix] row by auto
    qed (use True in simp)
  qed
qed

lemma same_intention_string:
  assumes "same_lifecycle_intention ev s" "map_get (ev_payload ev) k = Some (JString v)"
  shows "map_get (ev_payload s) k = Some (JString v)"
proof -
  have "(k, JString v) \<in> set (ev_payload ev)" using assms(2) by (rule map_of_SomeD)
  then show ?thesis using assms(1) by (force simp: same_lifecycle_intention_def list_all_iff split: option.splits)
qed

lemma with_fields_get: "map_get (with_fields m kvs) k = (case map_of (rev kvs) k of Some v \<Rightarrow> Some v | None \<Rightarrow> map_get m k)"
  unfolding with_fields_def
  by (induction kvs arbitrary: m) (auto simp: update_conv map_add_def split: option.splits)

lemma load_claimed_item_id:
  assumes "load_claimed_item E claim d = Ok item"
  shows "q_id item = cl_queue_item_id claim" "cl_queue_item_id claim \<noteq> []"
proof -
  obtain r where r: "find (\<lambda>r. qi_id r = cl_queue_item_id claim) (db_queue_items d) = Some r"
    "queue_item_into_model E (join_claim d r) r = Ok item"
    using assms by (auto simp: load_claimed_item_def load_queue_item_def ok_or_def elim!: and_then_OkE split: option.splits)
  have "qi_id r = cl_queue_item_id claim" using find_SomeD [OF r(1)] by simp
  moreover have "q_id item = qi_id r \<and> qi_id r \<noteq> []"
    using r(2) by (auto simp: queue_item_into_model_def parse_runtime_id_def elim!: and_then_OkE split: if_splits)
  ultimately show "q_id item = cl_queue_item_id claim" "cl_queue_item_id claim \<noteq> []" by simp_all
qed

lemma claimed_event_claims:
  assumes "same_lifecycle_intention (claimed_queue_event E i input item n run_id) s" "q_target_agent item \<noteq> []" "q_id item \<noteq> []"
  shows "claims_item (q_id item) s"
proof -
  let ?ev = "claimed_queue_event E i input item n run_id"
  have get: "map_get (ev_payload ?ev) ''queue_item_id'' = Some (JString (q_id item))"
    "map_get (ev_payload ?ev) ''status'' = Some (JString ''claimed'')"
    "map_get (ev_payload ?ev) ''target_agent'' = Some (JString (q_target_agent item))"
    by (simp_all add: claimed_queue_event_def runtime_event_def with_fields_get queue_item_payload_def object_of_get opt_field_def
        split: option.split)
  have "ev_event_type s = ev_event_type ?ev" using assms(1) by (simp add: same_lifecycle_intention_def del: json_same.simps)
  then show ?thesis
    using same_intention_string [OF assms(1) get(1)] same_intention_string [OF assms(1) get(2)] same_intention_string [OF assms(1) get(3)]
      assms(2,3) by (simp add: claims_item_def claimed_queue_event_def runtime_event_def)
qed

lemma start_journals:
  assumes inv: "sql_inv E d" and ok: "start_claimed_attempt E T claim now_ms i j started_at r d = Ok (d1, s)"
    and reads: "list_all (reads_same E) (sa_events s)" and two: "length (db_journal d1) = length (db_journal d) + 2"
  obtains c a where "sql_inv E d1" "sql_entries E d1 = sql_entries E d @ [c, a]" "claims_item (cl_queue_item_id claim) (je_event c)"
    "ev_event_type (je_event a) = ''runtime.attempt.started''"
proof -
  have restart: "db_journal d1 = db_journal d" if "restart_attempt E claim i j started_at r input item a d = Ok (d1, s)" for input item a
    using that by (auto simp: restart_attempt_def elim!: and_then_OkE split: if_splits option.splits)
  obtain item input where item: "load_claimed_item E claim d = Ok item" "q_target_agent item \<noteq> []"
    and started: "begin_attempt E T claim now_ms i j started_at r input item d = Ok (d1, s)"
    using ok two restart unfolding start_claimed_attempt_def by (auto elim!: and_then_OkE split: if_splits option.splits)
  obtain n run f d2 oc d3 oa where c: "append_runtime_event E T (claimed_queue_event E i input item n run) d = Ok (d2, oc)"
    and a: "append_runtime_event E T (started_attempt_event E j input item f) d2 = Ok (d3, oa)"
    and d1: "db_journal d1 = db_journal d3" and s: "sa_events s = [out_event oc, out_event oa]"
    using started by (auto simp: begin_attempt_def start_events_def Let_def fence_attempt_def elim!: and_then_OkE split: if_splits)
  have r: "reads_same E (out_event oc)" "reads_same E (out_event oa)" using reads s by simp_all
  have "length (db_journal d3) \<le> Suc (length (db_journal d2))" "length (db_journal d2) \<le> Suc (length (db_journal d))"
    using append_runtime_cases [OF a] append_runtime_cases [OF c] index_event_journal by (metis grow_sel(1) le_Suc_eq length_append_singleton le_refl)+
  then have len: "length (db_journal d2) = Suc (length (db_journal d))" "length (db_journal d3) = Suc (length (db_journal d2))"
    using two d1 by simp_all
  obtain ec where ec: "sql_inv E d2" "sql_entries E d2 = sql_entries E d @ [ec]"
    "same_lifecycle_intention (claimed_queue_event E i input item n run) (je_event ec)"
    using append_runtime_stored [OF inv r(1) c] len(1) by auto
  obtain ea where ea: "sql_inv E d3" "sql_entries E d3 = sql_entries E d2 @ [ea]"
    "same_lifecycle_intention (started_attempt_event E j input item f) (je_event ea)"
    using append_runtime_stored [OF ec(1) r(2) a] len(2) by auto
  note frame = sql_inv_frame [OF d1, of E]
  have "claims_item (cl_queue_item_id claim) (je_event ec)"
    using claimed_event_claims [OF ec(3) item(2)] load_claimed_item_id [OF item(1)] by simp
  moreover have "ev_event_type (je_event ea) = ''runtime.attempt.started''"
    using ea(3) by (simp add: same_lifecycle_intention_def started_attempt_event_def runtime_event_def del: json_same.simps)
  ultimately show thesis using that [of ec ea] frame ec(2) ea(1,2) by simp
qed

section \<open>An item claimed twice\<close>

definition routed_row :: "string \<Rightarrow> int \<Rightarrow> queue_item_row" where
  "routed_row status attempts = \<lparr>qi_id = ''qi_e1'', qi_event_id = ''e1'', qi_target_agent = ''a'', qi_project_revision = None,
     qi_session_id = Some ''agent/a'', qi_lock_keys_json = ''[]'', qi_input_cursor = 1, qi_status = status, qi_available_at = Some 7,
     qi_cancel_requested_event_id = None, qi_cancel_requested_at = None, qi_cancel_reason = None, qi_attempt_count = attempts,
     qi_last_error = None, qi_updated_at = 8\<rparr>"

lemma reading_list: "parse_string_list reading_env ''[]'' = Some []"
proof -
  have "json_parse reading_env ''[]'' = Some (JArray [])" using read_json_printed [of "JArray []"] by (simp add: reading_env_def)
  then show ?thesis by (simp add: parse_string_list_def)
qed

definition routed_item :: "int \<Rightarrow> nat \<Rightarrow> queue_item" where
  "routed_item until k = \<lparr>q_id = ''qi_e1'', q_event_id = ''e1'', q_target_agent = ''a'', q_project_revision = None,
     q_session_id = Some ''agent/a'', q_lock_keys = [], q_input_cursor = 1, q_status = QClaimed, q_available_at = Some 7,
     q_claimed_by = Some ''w'', q_claimed_until = Some until, q_cancellation_requested_event_id = None, q_cancellation_requested_at = None,
     q_cancellation_reason = None, q_attempt_count = k, q_last_error = None, q_updated_at = 8\<rparr>"

definition routed_run :: "nat \<Rightarrow> run_id" where
  "routed_run k = run_id_for_attempt None (attempt_id ''qi_e1'' (Suc k))"

definition claimed_key :: "nat \<Rightarrow> string" where
  "claimed_key k = queue_item_attempt_idempotency_key ''e1'' ''a'' QClaimed (Suc k)"

definition started_key :: "nat \<Rightarrow> string" where
  "started_key k = ''attempt:qi_e1:'' @ show_nat (Suc k) @ '':started''"

definition routed_start :: "nat \<Rightarrow> attempt_start_fields" where
  "routed_start k = \<lparr>as_attempt_id = attempt_id ''qi_e1'' (Suc k), as_attempt_number = Suc k, as_run_id = routed_run k,
     as_worker_name = ''w'', as_started_at = ''s''\<rparr>"

definition routed_attempt :: "string \<Rightarrow> nat \<Rightarrow> attempt_row" where
  "routed_attempt token k = \<lparr>at_id = attempt_id ''qi_e1'' (Suc k), at_queue_item_id = ''qi_e1'', at_event_id = ''e1'',
     at_number = int (Suc k), at_target_agent = ''a'', at_worker_name = Some ''w'', at_claim_token = Some token, at_status = ''running'',
     at_started_at = ''s'', at_heartbeat_at = Some 8, at_finished_at = None, at_error = None,
     at_session_id = Some ''agent/a'', at_run_id = Some (routed_run k), at_project_revision = None\<rparr>"

lemma keys_differ: "claimed_key k \<noteq> started_key k"
  by (simp add: claimed_key_def started_key_def queue_item_attempt_idempotency_key_def queue_item_idempotency_key_def)

lemma routed_names: "attempt_id ''qi_e1'' (Suc k) \<noteq> []" "hd (attempt_id ''qi_e1'' (Suc k)) \<noteq> CHR 0x00" "routed_run k \<noteq> []"
  by (simp_all add: attempt_id_def routed_run_def run_id_for_attempt_def derived_run_id_def)

lemma reading_int: "encodable reading_env (JNumber (Number (show_int x)))" "literals_ok (JNumber (Number (show_int x)))"
  using number_literal_show_int [of x] by (simp_all add: reading_env_def sample_env_def python_number_def)

lemma routed_loads:
  assumes "sql_inv reading_env d" "db_queue_items d = [routed_row ''available'' (int k)]" "k < 100"
    "db_queue_claims d = [\<lparr>qc_queue_item_id = ''qi_e1'', qc_worker_name = ''w'', qc_claim_token = tok, qc_claimed_at = t0,
      qc_claimed_until = t1\<rparr>]"
    "find (\<lambda>x. ev_id (je_event x) = ''e1'') (sql_entries reading_env d) = Some e"
    "\<forall>a \<in> set (db_attempts d). at_claim_token a \<noteq> Some tok"
  shows "load_claimed_item reading_env (sample_claim ''qi_e1'' tok t1) d = Ok (routed_item t1 k)"
    "load_input reading_env ''queue_items'' ''event_id'' ''e1'' d = Ok (je_event e)"
    "load_running_attempt_for_claim (sample_claim ''qi_e1'' tok t1) d = Ok None"
proof -
  show "load_claimed_item reading_env (sample_claim ''qi_e1'' tok t1) d = Ok (routed_item t1 k)"
    using assms(2-4) by (simp add: load_claimed_item_def load_queue_item_def routed_row_def queue_item_into_model_def join_claim_def
        parse_runtime_id_def reading_list queue_status_from_str_def positive_u64_projection_def nonnegative_u32_projection_def ok_or_def
        routed_item_def sample_claim_def)
  show "load_input reading_env ''queue_items'' ''event_id'' ''e1'' d = Ok (je_event e)"
    by (simp add: load_input_def entry_by_id [OF assms(1)] assms(5) ok_or_def)
  have "filter (\<lambda>a. at_queue_item_id a = ''qi_e1'' \<and> at_worker_name a = Some ''w'' \<and> at_claim_token a = Some tok \<and> at_status a = ''running'')
      (db_attempts d) = []" using assms(6) by (simp add: filter_empty_conv)
  then show "load_running_attempt_for_claim (sample_claim ''qi_e1'' tok t1) d = Ok None"
    by (simp add: load_running_attempt_for_claim_def newest_attempt_def sample_claim_def)
qed

lemma append_claimed:
  fixes k :: nat
  assumes inv: "sql_inv reading_env d" and items: "db_queue_items d = [routed_row ''available'' (int k)]"
    and row: "find (\<lambda>s. se_event_id s = ''e1'') (db_journal d) = Some row" "se_cursor row = 1"
    and ids: "sql_nonempty i" "i \<notin> set (je_ids (sql_entries reading_env d))" "claimed_key k \<notin> set (je_keys (sql_entries reading_env d))"
    and n: "length (db_journal d) = n" "n < 100"
    and c: "c = claimed_queue_event reading_env \<lparr>ri_id = i, ri_timestamp_ms = 8\<rparr> input (routed_item t1 k) (Suc k) (routed_run k)"
  obtains d1 row1 where "append_runtime_event reading_env T c d = Ok (d1, \<lparr>out_event = c\<lparr>ev_cursor := Some (Suc n)\<rparr>, out_inserted = True\<rparr>)"
    "sql_inv reading_env d1" "length (db_journal d1) = Suc n" "reads_same reading_env (c\<lparr>ev_cursor := Some (Suc n)\<rparr>)"
    "set (je_ids (sql_entries reading_env d1)) = insert i (set (je_ids (sql_entries reading_env d)))"
    "set (je_keys (sql_entries reading_env d1)) = insert (claimed_key k) (set (je_keys (sql_entries reading_env d)))"
    "d1 = (grow [row1] d)\<lparr>db_queue_items := [routed_row ''claimed'' (int k)]\<rparr>"
proof -
  have cp: "ev_payload c = [(''queue_item_id'', JString ''qi_e1''), (''event_id'', JString ''e1''), (''target_agent'', JString ''a''),
      (''status'', JString ''claimed''), (''session_id'', JString ''agent/a''), (''attempt_number'', JNumber (Number (show_int (int (Suc k)))))]"
    by (simp add: c claimed_queue_event_def runtime_event_def routed_item_def with_fields_def queue_item_payload_def object_of_def opt_field_def
        reading_env_def sample_env_def)
  have cf: "ev_id c = i" "ev_idempotency_key c = Some (claimed_key k)" "ev_event_type c = ''runtime.queue_item.claimed''"
    "ev_session_id c = Some ''agent/a''" "ev_timestamp_ms c = 8" "ev_source c = ''zeta''"
    by (simp_all add: c claimed_queue_event_def runtime_event_def routed_item_def claimed_key_def)
  have old: "journal_has d ''e1''" using find_SomeD [OF row(1)] by (auto simp: journal_has_def list_ex_iff)
  have ixc: "index_event reading_env T (c\<lparr>ev_cursor := Some (Suc n)\<rparr>) (grow [r] d)
      = Ok ((grow [r] d)\<lparr>db_queue_items := [routed_row ''claimed'' (int k)]\<rparr>)" for r
    using old by (simp add: cf cp index_event_def coalesce_def index_queue_item_def required_runtime_id_def
        required_payload_string_def lifecycle_queue_status_def type_suffix_def queue_status_from_str_def Let_def
        pending_queue_item_id_def previous_queue_status_def items routed_row_def queue_transition_ok_def
        queue_validate_transition_def queue_row_of_event_def input_event_cursor_def find_append row optional_payload_string_def
        validate_optional_runtime_id_def optional_payload_string_array_def queue_last_error_def
        upsert_queue_item_def merge_queue_item_def queue_item_fits_def sql_nonempty_def journal_has_def sql_update_def)
  have reads: "reads_same reading_env (c\<lparr>ev_cursor := Some (Suc n)\<rparr>)" using reading_int by (simp add: reading_env_reads_same cp)
  show thesis
  proof (rule reading_runtime_append [OF inv, of c "claimed_key k" n T])
    show "appendable c" using ids(1) by (simp add: appendable_def cf sql_nonempty_def is_i64_def)
    show "encodable reading_env (JObject (ev_payload c))" using reading_int by (simp add: cp)
    fix d1 row1
    assume app: "append_runtime_event reading_env T c d = Ok (d1, \<lparr>out_event = c\<lparr>ev_cursor := Some (Suc n)\<rparr>, out_inserted = True\<rparr>)"
      "sql_inv reading_env d1" "length (db_journal d1) = Suc n"
      and step: "index_event reading_env T (c\<lparr>ev_cursor := Some (Suc n)\<rparr>) (grow [row1] d) = Ok d1"
      and new: "set (je_ids (sql_entries reading_env d1)) = insert (ev_id c) (set (je_ids (sql_entries reading_env d)))"
      "set (je_keys (sql_entries reading_env d1)) = insert (claimed_key k) (set (je_keys (sql_entries reading_env d)))"
    have "d1 = (grow [row1] d)\<lparr>db_queue_items := [routed_row ''claimed'' (int k)]\<rparr>" using trans [OF step [symmetric] ixc [of row1]] by (simp only: sum.inject)
    then show thesis by (intro that [OF app(1-3) reads new [unfolded cf(1)]])
  qed (use ids n cf ixc in \<open>simp_all\<close>)
qed

lemma append_started:
  fixes k :: nat
  assumes inv: "sql_inv reading_env d" and items: "db_queue_items d = [routed_row ''claimed'' (int k)]"
    and claims: "db_queue_claims d = [\<lparr>qc_queue_item_id = ''qi_e1'', qc_worker_name = ''w'', qc_claim_token = tok, qc_claimed_at = t0,
      qc_claimed_until = t1\<rparr>]"
    and old: "journal_has d ''e1''"
    and attempts: "\<forall>a \<in> set (db_attempts d). at_id a \<noteq> attempt_id ''qi_e1'' (Suc k) \<and> at_number a \<noteq> int (Suc k)"
    and ids: "sql_nonempty j" "j \<notin> set (je_ids (sql_entries reading_env d))" "started_key k \<notin> set (je_keys (sql_entries reading_env d))"
    and n: "length (db_journal d) = n" "n < 200" "k < 100"
    and a: "a = started_attempt_event reading_env \<lparr>ri_id = j, ri_timestamp_ms = 8\<rparr> input (routed_item t1 k) (routed_start k)"
  obtains d1 row1 where "append_runtime_event reading_env T a d = Ok (d1, \<lparr>out_event = a\<lparr>ev_cursor := Some (Suc n)\<rparr>, out_inserted = True\<rparr>)"
    "sql_inv reading_env d1" "length (db_journal d1) = Suc n" "reads_same reading_env (a\<lparr>ev_cursor := Some (Suc n)\<rparr>)"
    "set (je_ids (sql_entries reading_env d1)) = insert j (set (je_ids (sql_entries reading_env d)))"
    "set (je_keys (sql_entries reading_env d1)) = insert (started_key k) (set (je_keys (sql_entries reading_env d)))"
    "d1 = (grow [row1] d)\<lparr>db_attempts := db_attempts d @ [routed_attempt tok k], db_queue_items := [routed_row ''claimed'' (int (Suc k))]\<rparr>"
proof -
  have ap: "ev_payload a = [(''attempt_id'', JString (attempt_id ''qi_e1'' (Suc k))), (''queue_item_id'', JString ''qi_e1''), (''event_id'', JString ''e1''),
      (''attempt_number'', JNumber (Number (show_int (int (Suc k))))), (''target_agent'', JString ''a''), (''status'', JString ''running''),
      (''started_at'', JString ''s''), (''finished_at'', JNull), (''error'', JNull), (''session_id'', JString ''agent/a''),
      (''run_id'', JString (routed_run k)), (''worker_name'', JString ''w'')]"
    by (simp add: a started_attempt_event_def runtime_event_def routed_item_def routed_start_def object_of_def opt_field_def or_null_def
        reading_env_def sample_env_def)
  have af: "ev_id a = j" "ev_idempotency_key a = Some (started_key k)" "ev_event_type a = ''runtime.attempt.started''"
    "ev_session_id a = Some ''agent/a''" "ev_timestamp_ms a = 8" "ev_source a = ''zeta''" "ev_run_id a = Some (routed_run k)"
    by (simp_all add: a started_attempt_event_def runtime_event_def routed_item_def routed_start_def started_key_def)
  have fresh: "find (\<lambda>x. at_id x = attempt_id ''qi_e1'' (Suc k)) (db_attempts d) = None"
    "list_all (\<lambda>x. at_queue_item_id x = ''qi_e1'' \<longrightarrow> at_number x \<noteq> int (Suc k)) (filter (\<lambda>x. at_id x \<noteq> attempt_id ''qi_e1'' (Suc k)) (db_attempts d))"
    using attempts by (auto simp: find_None_iff list_all_iff)
  have wanted: "attempt_fields_of_event reading_env (a\<lparr>ev_cursor := Some (Suc n)\<rparr>) = Ok
     \<lparr>af_attempt_id = attempt_id ''qi_e1'' (Suc k), af_queue_item_id = ''qi_e1'', af_event_id = ''e1'',
           af_number = Suc k, af_target_agent = ''a'', af_status = ARunning,
           af_started_at = Some ''s'', af_session_id = Some ''agent/a'', af_run_id = Some (routed_run k), af_project_revision = None\<rparr>"
    using n(3) routed_names [of k]
    by (simp add: attempt_fields_of_event_def af ap required_runtime_id_def required_payload_string_def required_positive_u32_def
        lifecycle_attempt_status_def type_suffix_def attempt_status_from_str_def optional_payload_string_def coalesce_def Let_def
        validate_optional_runtime_id_def reading_env_def sample_env_def) linarith
  have ixa: "index_event reading_env T (a\<lparr>ev_cursor := Some (Suc n)\<rparr>) (grow [r] d)
      = Ok ((grow [r] d)\<lparr>db_attempts := db_attempts d @ [routed_attempt tok k], db_queue_items := [routed_row ''claimed'' (int (Suc k))]\<rparr>)" for r
    using old fresh routed_names [of k] n(3)
    by (simp add: index_event_def index_attempt_def wanted af ap attempt_transition_def attempt_validate_transition_def
       optional_payload_string_def resolve_attempt_claim_def claims items upsert_attempt_def Let_def attempt_fits_def
       sql_nonempty_def routed_row_def journal_has_def sql_update_def routed_attempt_def max_def)
  have reads: "reads_same reading_env (a\<lparr>ev_cursor := Some (Suc n)\<rparr>)" using reading_int by (simp add: reading_env_reads_same ap)
  show thesis
  proof (rule reading_runtime_append [OF inv, of a "started_key k" n T])
    show "appendable a" using ids(1) by (simp add: appendable_def af sql_nonempty_def is_i64_def)
    show "encodable reading_env (JObject (ev_payload a))" using reading_int by (simp add: ap)
    fix d1 row1
    assume app: "append_runtime_event reading_env T a d = Ok (d1, \<lparr>out_event = a\<lparr>ev_cursor := Some (Suc n)\<rparr>, out_inserted = True\<rparr>)"
      "sql_inv reading_env d1" "length (db_journal d1) = Suc n"
      and step: "index_event reading_env T (a\<lparr>ev_cursor := Some (Suc n)\<rparr>) (grow [row1] d) = Ok d1"
      and new: "set (je_ids (sql_entries reading_env d1)) = insert (ev_id a) (set (je_ids (sql_entries reading_env d)))"
      "set (je_keys (sql_entries reading_env d1)) = insert (started_key k) (set (je_keys (sql_entries reading_env d)))"
    have "d1 = (grow [row1] d)\<lparr>db_attempts := db_attempts d @ [routed_attempt tok k], db_queue_items := [routed_row ''claimed'' (int (Suc k))]\<rparr>" using trans [OF step [symmetric] ixa [of row1]] by (simp only: sum.inject)
    then show thesis by (intro that [OF app(1-3) reads new [unfolded af(1)]])
  qed (use ids n af ixa in \<open>simp_all\<close>)
qed

lemma sample_start:
  fixes k :: nat
  assumes inv: "sql_inv reading_env d" and items: "db_queue_items d = [routed_row ''available'' (int k)]"
    and claims: "db_queue_claims d = [\<lparr>qc_queue_item_id = ''qi_e1'', qc_worker_name = ''w'', qc_claim_token = tok, qc_claimed_at = t0,
      qc_claimed_until = t1\<rparr>]" "now_ms < t1"
    and row: "find (\<lambda>s. se_event_id s = ''e1'') (db_journal d) = Some row" "se_cursor row = 1"
    and entry: "find (\<lambda>x. ev_id (je_event x) = ''e1'') (sql_entries reading_env d) = Some e"
    and attempts: "\<forall>a \<in> set (db_attempts d). at_claim_token a \<noteq> Some tok \<and> at_id a \<noteq> attempt_id ''qi_e1'' (Suc k) \<and> at_number a \<noteq> int (Suc k)"
    and ids: "i \<noteq> j" "sql_nonempty i" "sql_nonempty j" "i \<notin> set (je_ids (sql_entries reading_env d))" "j \<notin> set (je_ids (sql_entries reading_env d))"
    and keys: "claimed_key k \<notin> set (je_keys (sql_entries reading_env d))" "started_key k \<notin> set (je_keys (sql_entries reading_env d))"
    and k: "k < 100" and n: "length (db_journal d) < 100"
  obtains d' s where
    "start_claimed_attempt reading_env T (sample_claim ''qi_e1'' tok t1)
       now_ms \<lparr>ri_id = i, ri_timestamp_ms = 8\<rparr> \<lparr>ri_id = j, ri_timestamp_ms = 8\<rparr> ''s'' None d = Ok (d', s)"
    "sql_inv reading_env d'" "length (db_journal d') = length (db_journal d) + 2" "list_all (reads_same reading_env) (sa_events s)"
    "db_queue_items d' = [routed_row ''claimed'' (int (Suc k))]" "db_queue_claims d' = db_queue_claims d" "db_locks d' = db_locks d"
    "set (je_ids (sql_entries reading_env d')) = {i, j} \<union> set (je_ids (sql_entries reading_env d))"
    "set (je_keys (sql_entries reading_env d')) = {claimed_key k, started_key k} \<union> set (je_keys (sql_entries reading_env d))"
    "db_attempts d' = db_attempts d @ [(routed_attempt tok k)\<lparr>at_heartbeat_at := Some now_ms\<rparr>]"
    "\<exists>rows. db_journal d' = db_journal d @ rows"
proof -
  let ?n = "length (db_journal d)" and ?claim = "sample_claim ''qi_e1'' tok t1"
  define c where "c = claimed_queue_event reading_env \<lparr>ri_id = i, ri_timestamp_ms = 8\<rparr> (je_event e) (routed_item t1 k) (Suc k) (routed_run k)"
  define a where "a = started_attempt_event reading_env \<lparr>ri_id = j, ri_timestamp_ms = 8\<rparr> (je_event e) (routed_item t1 k) (routed_start k)"
  obtain d1 row1 where c1: "append_runtime_event reading_env T c d = Ok (d1, \<lparr>out_event = c\<lparr>ev_cursor := Some (Suc ?n)\<rparr>, out_inserted = True\<rparr>)"
    "sql_inv reading_env d1" "length (db_journal d1) = Suc ?n" "reads_same reading_env (c\<lparr>ev_cursor := Some (Suc ?n)\<rparr>)"
    "set (je_ids (sql_entries reading_env d1)) = insert i (set (je_ids (sql_entries reading_env d)))"
    "set (je_keys (sql_entries reading_env d1)) = insert (claimed_key k) (set (je_keys (sql_entries reading_env d)))"
    "d1 = (grow [row1] d)\<lparr>db_queue_items := [routed_row ''claimed'' (int k)]\<rparr>"
    by (rule append_claimed [OF inv items row ids(2,4) keys(1) refl n c_def])
  have old: "journal_has d1 ''e1''" using find_SomeD [OF row(1)] c1(7) by (auto simp: journal_has_def list_ex_iff)
  have next1: "db_queue_items d1 = [routed_row ''claimed'' (int k)]"
    "db_queue_claims d1 = [\<lparr>qc_queue_item_id = ''qi_e1'', qc_worker_name = ''w'', qc_claim_token = tok, qc_claimed_at = t0, qc_claimed_until = t1\<rparr>]"
    "\<forall>a \<in> set (db_attempts d1). at_id a \<noteq> attempt_id ''qi_e1'' (Suc k) \<and> at_number a \<noteq> int (Suc k)"
    "j \<notin> set (je_ids (sql_entries reading_env d1))" "started_key k \<notin> set (je_keys (sql_entries reading_env d1))"
    using claims attempts ids(1,5) keys(2) keys_differ [of k] by (simp_all only: c1(5,6)) (auto simp: c1(7))
  obtain d2 row2 where a1: "append_runtime_event reading_env T a d1 = Ok (d2, \<lparr>out_event = a\<lparr>ev_cursor := Some (Suc (Suc ?n))\<rparr>, out_inserted = True\<rparr>)"
    "sql_inv reading_env d2" "length (db_journal d2) = Suc (Suc ?n)" "reads_same reading_env (a\<lparr>ev_cursor := Some (Suc (Suc ?n))\<rparr>)"
    "set (je_ids (sql_entries reading_env d2)) = insert j (set (je_ids (sql_entries reading_env d1)))"
    "set (je_keys (sql_entries reading_env d2)) = insert (started_key k) (set (je_keys (sql_entries reading_env d1)))"
    "d2 = (grow [row2] d1)\<lparr>db_attempts := db_attempts d1 @ [routed_attempt tok k], db_queue_items := [routed_row ''claimed'' (int (Suc k))]\<rparr>"
    by (rule append_started [OF c1(2) next1(1,2) old next1(3) ids(3) next1(4,5) c1(3) _ k a_def]) (use n in simp)
  let ?d' = "fence_attempt ?claim now_ms (attempt_id ''qi_e1'' (Suc k)) d2"
  let ?s = "\<lparr>sa_attempt = \<lparr>a_id = attempt_id ''qi_e1'' (Suc k), a_queue_item_id = ''qi_e1'', a_event_id = ''e1'', a_attempt_number = Suc k,
     a_target_agent = ''a'', a_worker_name = Some ''w'', a_status = ARunning, a_started_at = ''s'', a_finished_at = None,
     a_error = None, a_session_id = Some ''agent/a'', a_run_id = Some (routed_run k), a_project_revision = None\<rparr>,
     sa_events = [c\<lparr>ev_cursor := Some (Suc ?n)\<rparr>, a\<lparr>ev_cursor := Some (Suc (Suc ?n))\<rparr>]\<rparr>"
  have item: "q_attempt_count (routed_item t1 k) = k" "q_target_agent (routed_item t1 k) = ''a''" "q_event_id (routed_item t1 k) = ''e1''"
    "q_id (routed_item t1 k) = ''qi_e1''" "q_session_id (routed_item t1 k) = Some ''agent/a''" "q_project_revision (routed_item t1 k) = None"
    by (simp_all add: routed_item_def)
  have claim: "cl_queue_item_id ?claim = ''qi_e1''" "cl_worker_name ?claim = ''w''" "claim_is_current ?claim now_ms d"
    using claims by (simp_all add: sample_claim_def claim_is_current_def owns_def)
  have loads: "load_claimed_item reading_env ?claim d = Ok (routed_item t1 k)"
    "load_input reading_env ''queue_items'' ''event_id'' ''e1'' d = Ok (je_event e)" "load_running_attempt_for_claim ?claim d = Ok None"
    using routed_loads [OF inv items k claims(1) entry] attempts by simp_all
  have events: "append_runtime_events reading_env T (start_events reading_env \<lparr>ri_id = i, ri_timestamp_ms = 8\<rparr> \<lparr>ri_id = j, ri_timestamp_ms = 8\<rparr>
      (je_event e) (routed_item t1 k) (routed_start k)) d = Ok (d2, sa_events ?s)"
    using c1(1) a1(1) by (simp add: start_events_def routed_start_def c_def [symmetric] a_def [symmetric, unfolded routed_start_def])
  have start: "start_claimed_attempt reading_env T ?claim now_ms \<lparr>ri_id = i, ri_timestamp_ms = 8\<rparr> \<lparr>ri_id = j, ri_timestamp_ms = 8\<rparr> ''s'' None d = Ok (?d', ?s)"
    using ids(1) k events
    by (simp add: start_claimed_attempt_def loads item claim begin_attempt_def Let_def routed_start_def routed_run_def)
  note frame = sql_inv_frame [of ?d' d2 reading_env]
  have "sql_update (\<lambda>x. at_id x = attempt_id ''qi_e1'' (Suc k)) f (db_attempts d) = db_attempts d" for f
    using attempts by (auto simp: sql_update_def intro: map_idI)
  then have "db_attempts ?d' = db_attempts d @ [(routed_attempt tok k)\<lparr>at_heartbeat_at := Some now_ms\<rparr>]"
    using c1(7) by (simp add: fence_attempt_def a1(7) routed_attempt_def sample_claim_def) (simp add: sql_update_def)
  then show thesis
    by (rule that [OF start, rotated 8]) (use a1 c1 frame in \<open>simp_all add: fence_attempt_def insert_commute\<close>)
qed

lemma routed_claim:
  assumes "db_queue_items d = [routed_row status n]" "status = ''available'' \<and> db_queue_claims d = []
      \<or> status = ''claimed'' \<and> (\<exists>c. db_queue_claims d = [c] \<and> qc_queue_item_id c = ''qi_e1'' \<and> qc_claimed_until c \<le> now_ms)"
    "db_locks d = []" "0 < lease_ms" "lease_ms < 1000" "7 \<le> now_ms" "now_ms < 1000" "sql_nonempty token"
  shows "claim_next_queue_item reading_env ''w'' token lease_ms now_ms d = Ok
    (d\<lparr>db_queue_items := [routed_row ''available'' n], db_queue_claims := [\<lparr>qc_queue_item_id = ''qi_e1'', qc_worker_name = ''w'',
        qc_claim_token = token, qc_claimed_at = now_ms, qc_claimed_until = now_ms + int lease_ms\<rparr>]\<rparr>,
     Some (sample_claim ''qi_e1'' token (now_ms + int lease_ms)))"
proof -
  have parse: "read_candidate reading_env (routed_row ''available'' n) = Ok \<lparr>cc_queue_item_id = ''qi_e1'', cc_lock_keys = []\<rparr>"
    by (simp add: read_candidate_def routed_row_def parse_runtime_id_def reading_list ok_or_def)
  have lease: "lease_deadline now_ms lease_ms = Ok (now_ms + int lease_ms)"
    using assms(4-7) by (auto simp: lease_deadline_def is_i64_def)
  define d1 where "d1 = d\<lparr>db_queue_items := [routed_row ''available'' n], db_queue_claims := []\<rparr>"
  have "fst (reconcile_expired_in_transaction now_ms d) = d1"
    using assms(2)
  proof (elim disjE exE conjE)
    assume "status = ''available''" "db_queue_claims d = []"
    then show ?thesis
      using assms(1,3) by (cases d) (simp add: reconcile_expired_in_transaction_def delete_queue_claims_def Let_def sql_update_def d1_def routed_row_def)
  next
    fix c assume "status = ''claimed''" "db_queue_claims d = [c]" "qc_queue_item_id c = ''qi_e1''" "qc_claimed_until c \<le> now_ms"
    then show ?thesis
      using assms(1,3) by (cases d) (simp add: reconcile_expired_in_transaction_def delete_queue_claims_def Let_def sql_update_def d1_def routed_row_def)
  qed
  moreover have "claim_candidates reading_env d1 now_ms = Ok [\<lparr>cc_queue_item_id = ''qi_e1'', cc_lock_keys = []\<rparr>]"
  proof -
    have "claimable d1 now_ms (routed_row ''available'' n)"
      using assms(6) by (simp add: claimable_def d1_def routed_row_def)
    then show ?thesis using parse by (simp add: claim_candidates_def candidate_rows_def d1_def)
  qed
  ultimately show ?thesis
    using lease assms(4,8) by (simp add: claim_next_queue_item_def split_beta claim_token_exists_def d1_def locks_are_available_def
      insert_queue_claim_def sql_insert_def sql_nonempty_def routed_row_def sample_claim_def Let_def)
qed

lemma restarted_sample:
  obtains d d1 s1 d2 d3 s2 where "sql_inv reading_env d"
    "start_claimed_attempt reading_env no_time (sample_claim ''qi_e1'' ''t1'' 15)
       11 \<lparr>ri_id = ''r1'', ri_timestamp_ms = 8\<rparr> \<lparr>ri_id = ''r2'', ri_timestamp_ms = 8\<rparr> ''s'' None d = Ok (d1, s1)"
    "length (db_journal d1) = length (db_journal d) + 2"
    "claim_next_queue_item reading_env ''w'' ''t2'' 50 20 d1 = Ok (d2,
       Some (sample_claim ''qi_e1'' ''t2'' 70))"
    "db_journal d2 = db_journal d1"
    "start_claimed_attempt reading_env no_time (sample_claim ''qi_e1'' ''t2'' 70)
       21 \<lparr>ri_id = ''r3'', ri_timestamp_ms = 8\<rparr> \<lparr>ri_id = ''r4'', ri_timestamp_ms = 8\<rparr> ''s'' None d2 = Ok (d3, s2)"
    "length (db_journal d3) = length (db_journal d2) + 2"
    "list_all (reads_same reading_env) (sa_events s1 @ sa_events s2)"
proof -
  obtain d0 row e where d0: "d0 = db_empty\<lparr>db_journal := [row], db_queue_items := [sample_pending]\<rparr>" "se_event_id row = ''e1''" "se_cursor row = 1"
    and inv0: "sql_inv reading_env d0" and es0: "sql_entries reading_env d0 = [e]"
    and e: "je_event e = sample_event\<lparr>ev_cursor := Some 1\<rparr>"
    by (rule sample_db)
  have eid: "ev_id (je_event e) = ''e1''" "ev_idempotency_key (je_event e) = None" by (simp_all add: e sample_event_def)
  define d where "d = d0\<lparr>db_queue_items := [routed_row ''available'' 0], db_queue_claims := [\<lparr>qc_queue_item_id = ''qi_e1'',
     qc_worker_name = ''w'', qc_claim_token = ''t1'', qc_claimed_at = 10, qc_claimed_until = 15\<rparr>]\<rparr>"
  have inv: "sql_inv reading_env d" and es: "sql_entries reading_env d = [e]"
    using sql_inv_frame [of d d0 reading_env] inv0 es0 by (simp_all add: d_def)
  have ds: "db_journal d = [row]" "db_queue_items d = [routed_row ''available'' 0]" "db_attempts d = []" "db_locks d = []"
    "db_queue_claims d = [\<lparr>qc_queue_item_id = ''qi_e1'', qc_worker_name = ''w'', qc_claim_token = ''t1'', qc_claimed_at = 10, qc_claimed_until = 15\<rparr>]"
    by (simp_all add: d_def d0(1) db_empty_def)
  have names: "set (je_ids [e]) = {''e1''}" "set (je_keys [e]) = {}" by (simp_all add: je_ids_def je_keys_def eid List.map_filter_def)
  obtain d1 s1 where one: "start_claimed_attempt reading_env no_time (sample_claim ''qi_e1'' ''t1'' 15)
       11 \<lparr>ri_id = ''r1'', ri_timestamp_ms = 8\<rparr> \<lparr>ri_id = ''r2'', ri_timestamp_ms = 8\<rparr> ''s'' None d = Ok (d1, s1)"
    and inv1: "sql_inv reading_env d1" and n1: "length (db_journal d1) = length (db_journal d) + 2" and reads1: "list_all (reads_same reading_env) (sa_events s1)"
    and d1: "db_queue_items d1 = [routed_row ''claimed'' (int (Suc 0))]" "db_queue_claims d1 = db_queue_claims d" "db_locks d1 = db_locks d"
    and set1: "set (je_ids (sql_entries reading_env d1)) = {''r1'', ''r2''} \<union> set (je_ids (sql_entries reading_env d))"
      "set (je_keys (sql_entries reading_env d1)) = {claimed_key 0, started_key 0} \<union> set (je_keys (sql_entries reading_env d))"
    and at1: "db_attempts d1 = db_attempts d @ [(routed_attempt ''t1'' 0)\<lparr>at_heartbeat_at := Some 11\<rparr>]"
    and rows1: "\<exists>rows. db_journal d1 = db_journal d @ rows"
    by (rule sample_start [OF inv, of 0 "''t1''" 10 15 11 row e "''r1''" "''r2''" no_time])
      (simp_all add: ds d0(2,3) es eid names sql_nonempty_def)
  define d2 where "d2 = d1\<lparr>db_queue_items := [routed_row ''available'' 1], db_queue_claims := [\<lparr>qc_queue_item_id = ''qi_e1'',
     qc_worker_name = ''w'', qc_claim_token = ''t2'', qc_claimed_at = 20, qc_claimed_until = 70\<rparr>]\<rparr>"
  have claim: "claim_next_queue_item reading_env ''w'' ''t2'' 50 20 d1 = Ok (d2,
       Some (sample_claim ''qi_e1'' ''t2'' 70))"
    using routed_claim [of d1 "''claimed''" 1 20 50 "''t2''"] d1 ds by (simp add: d2_def sql_nonempty_def)
  have gap: "db_journal d2 = db_journal d1" by (simp add: d2_def)
  note frame = sql_inv_frame [OF gap, of reading_env]
  obtain c a where ca: "sql_entries reading_env d1 = sql_entries reading_env d @ [c, a]"
    by (rule start_journals [OF inv one reads1 n1])
  obtain d3 s2 where two: "start_claimed_attempt reading_env no_time (sample_claim ''qi_e1'' ''t2'' 70)
       21 \<lparr>ri_id = ''r3'', ri_timestamp_ms = 8\<rparr> \<lparr>ri_id = ''r4'', ri_timestamp_ms = 8\<rparr> ''s'' None d2 = Ok (d3, s2)"
    and n2: "length (db_journal d3) = length (db_journal d2) + 2" and reads2: "list_all (reads_same reading_env) (sa_events s2)"
  proof (rule sample_start [of d2 1 "''t2''" 20 70 21 row e "''r3''" "''r4''" no_time])
    show "sql_inv reading_env d2" using frame inv1 by simp
    show "find (\<lambda>s. se_event_id s = ''e1'') (db_journal d2) = Some row" using rows1 gap d0(2) ds by auto
    show "find (\<lambda>x. ev_id (je_event x) = ''e1'') (sql_entries reading_env d2) = Some e" using frame ca es eid by simp
    show "\<forall>a \<in> set (db_attempts d2). at_claim_token a \<noteq> Some ''t2'' \<and> at_id a \<noteq> attempt_id ''qi_e1'' (Suc 1) \<and> at_number a \<noteq> int (Suc 1)"
      using at1 ds by (auto simp: d2_def attempt_id_def routed_attempt_def)
    show "length (db_journal d2) < 100" using gap n1 ds by simp
    show "claimed_key 1 \<notin> set (je_keys (sql_entries reading_env d2))"
      "started_key 1 \<notin> set (je_keys (sql_entries reading_env d2))"
      using frame set1(2) es names
      by (simp_all add: claimed_key_def started_key_def queue_item_attempt_idempotency_key_def queue_item_idempotency_key_def)
  qed (use frame set1(1) es names d0(3) in \<open>simp_all add: d2_def sql_nonempty_def\<close>)
  show thesis by (rule that [OF inv one n1 claim gap two n2]) (use reads1 reads2 in simp)
qed

section \<open>Properties\<close>

text \<open>C16: an item that is started twice without a lifecycle event in between (its lease ran out, and it was claimed again)
  leaves a journal from which the projections can no longer be rebuilt.\<close>

theorem restarted_item_breaks_rebuild:
  assumes inv: "sql_inv E d"
    and first: "start_claimed_attempt E T claim now_ms i j started_at r d = Ok (d1, s1)" "length (db_journal d1) = length (db_journal d) + 2"
    and gap: "db_journal d2 = db_journal d1"
    and second: "start_claimed_attempt E T claim' now_ms' i' j' started_at' r' d2 = Ok (d3, s2)" "length (db_journal d3) = length (db_journal d2) + 2"
    and same: "cl_queue_item_id claim' = cl_queue_item_id claim"
    and reads: "list_all (reads_same E) (sa_events s1 @ sa_events s2)"
  shows "\<exists>e. rebuild_projections_in_transaction E T d3 = Err e"
proof -
  obtain c a where ca: "sql_inv E d1" "sql_entries E d1 = sql_entries E d @ [c, a]" "claims_item (cl_queue_item_id claim) (je_event c)"
    "ev_event_type (je_event a) = ''runtime.attempt.started''"
    using start_journals [OF inv first(1) _ first(2)] reads by auto
  note frame = sql_inv_frame [OF gap, of E]
  obtain c' a' where ca': "sql_inv E d3" "sql_entries E d3 = sql_entries E d2 @ [c', a']" "claims_item (cl_queue_item_id claim) (je_event c')"
    by (rule start_journals [OF _ second(1) _ second(2)]) (use frame ca(1) reads same in simp_all)
  have "sql_entries E d3 = sql_entries E d @ c # a # c' # [a']" using ca(2) ca'(2) frame(2) by simp
  then have "index_all E T (sql_entries E d3) (drop_projections d3) \<noteq> Ok x" for x
    using second_claim_stops_replay [OF drop_projections_ok ca(3,4) ca'(3)] by simp
  moreover have "load_entries E False d3 = Ok (sql_entries E d3)" by (rule sql_invD(3) [OF ca'(1)])
  ultimately show ?thesis
    unfolding rebuild_projections_in_transaction_def
    by (cases "map_err Verification (verify E (sql_entries E d3) Unanchored)"; cases "index_all E T (sql_entries E d3) (drop_projections d3)")
      auto
qed

theorem restarted_item_breaks_rebuild_witness:
  "\<exists>d d1 s1 d2 d3 s2 e. start_claimed_attempt reading_env no_time (sample_claim ''qi_e1'' ''t1'' 15)
       11 \<lparr>ri_id = ''r1'', ri_timestamp_ms = 8\<rparr> \<lparr>ri_id = ''r2'', ri_timestamp_ms = 8\<rparr> ''s'' None d = Ok (d1, s1)
     \<and> claim_next_queue_item reading_env ''w'' ''t2'' 50 20 d1 = Ok (d2,
       Some (sample_claim ''qi_e1'' ''t2'' 70))
     \<and> start_claimed_attempt reading_env no_time (sample_claim ''qi_e1'' ''t2'' 70)
       21 \<lparr>ri_id = ''r3'', ri_timestamp_ms = 8\<rparr> \<lparr>ri_id = ''r4'', ri_timestamp_ms = 8\<rparr> ''s'' None d2 = Ok (d3, s2)
     \<and> rebuild_projections_in_transaction reading_env no_time d3 = Err e"
proof -
  obtain d d1 s1 d2 d3 s2 where s: "sql_inv reading_env d"
    "start_claimed_attempt reading_env no_time (sample_claim ''qi_e1'' ''t1'' 15)
       11 \<lparr>ri_id = ''r1'', ri_timestamp_ms = 8\<rparr> \<lparr>ri_id = ''r2'', ri_timestamp_ms = 8\<rparr> ''s'' None d = Ok (d1, s1)"
    "length (db_journal d1) = length (db_journal d) + 2"
    "claim_next_queue_item reading_env ''w'' ''t2'' 50 20 d1 = Ok (d2,
       Some (sample_claim ''qi_e1'' ''t2'' 70))"
    "db_journal d2 = db_journal d1"
    "start_claimed_attempt reading_env no_time (sample_claim ''qi_e1'' ''t2'' 70)
       21 \<lparr>ri_id = ''r3'', ri_timestamp_ms = 8\<rparr> \<lparr>ri_id = ''r4'', ri_timestamp_ms = 8\<rparr> ''s'' None d2 = Ok (d3, s2)"
    "length (db_journal d3) = length (db_journal d2) + 2"
    "list_all (reads_same reading_env) (sa_events s1 @ sa_events s2)"
    by (rule restarted_sample)
  obtain e where "rebuild_projections_in_transaction reading_env no_time d3 = Err e"
    using restarted_item_breaks_rebuild [OF s(1-3,5-7) _ s(8)] by (auto simp: sample_claim_def)
  then show ?thesis using s(2,4,6) by blast
qed

end
