(* ===== verification/Attempt_Samples.thy ===== *)
theory Attempt_Samples
  imports Reclaim
begin

text \<open>
  A small database with one running attempt, failed in one example and completed in another: the examples that the
  properties of attempts are applied to.
\<close>

section \<open>A running attempt\<close>

definition running_model :: attempt where
  "running_model = \<lparr>a_id = attempt_id ''qi_e1'' 1, a_queue_item_id = ''qi_e1'', a_event_id = ''e1'', a_attempt_number = 1,
     a_target_agent = ''a'', a_worker_name = Some ''w'', a_status = ARunning, a_started_at = ''s'', a_finished_at = None, a_error = None,
     a_session_id = Some ''agent/a'', a_run_id = Some (routed_run 0), a_project_revision = None\<rparr>"

definition running_db :: "stored_entry \<Rightarrow> db" where
  "running_db row = db_empty\<lparr>db_journal := [row], db_queue_items := [routed_row ''claimed'' 1],
     db_queue_claims := [\<lparr>qc_queue_item_id = ''qi_e1'', qc_worker_name = ''w'', qc_claim_token = ''t1'', qc_claimed_at = 10, qc_claimed_until = 15\<rparr>],
     db_attempts := [routed_attempt ''t1'' 0]\<rparr>"

lemma running_db_sel [simp]: "db_journal (running_db row) = [row]" "db_queue_items (running_db row) = [routed_row ''claimed'' 1]"
  "db_attempts (running_db row) = [routed_attempt ''t1'' 0]"
  by (simp_all add: running_db_def)

lemma running_sample:
  obtains row e where "se_event_id row = ''e1''" "se_cursor row = 1" "sql_inv reading_env (running_db row)" "tables_ok (running_db row)"
    "sql_entries reading_env (running_db row) = [e]" "je_event e = sample_event\<lparr>ev_cursor := Some 1\<rparr>"
    "load_claimed_attempt reading_env (sample_claim ''qi_e1'' ''t1'' 15) 11 (running_db row) = Ok (running_model, routed_item 15 1, je_event e)"
proof -
  obtain d0 row e where d0: "d0 = db_empty\<lparr>db_journal := [row], db_queue_items := [sample_pending]\<rparr>" "se_event_id row = ''e1''" "se_cursor row = 1"
    and inv0: "sql_inv reading_env d0" and es0: "sql_entries reading_env d0 = [e]"
    and e: "je_event e = sample_event\<lparr>ev_cursor := Some 1\<rparr>"
    by (rule sample_db)
  let ?d = "running_db row" and ?claim = "sample_claim ''qi_e1'' ''t1'' 15"
  have inv: "sql_inv reading_env ?d" and es: "sql_entries reading_env ?d = [e]"
    using sql_inv_frame [of ?d d0 reading_env] inv0 es0 by (simp_all add: running_db_def d0(1))
  have "\<exists>s. ''claimed'' = queue_status_display s" by (rule exI [of _ QClaimed]) simp
  moreover have "\<exists>s. ''running'' = attempt_status_display s" by (rule exI [of _ ARunning]) simp
  ultimately have ok: "tables_ok ?d"
    by (simp add: tables_ok_def items_ok_def attempts_ok_def waits_ok_def deferred_ok_def effects_ok_def running_db_def db_empty_def
        routed_row_def routed_attempt_def journal_has_def d0(2,3) sql_nonempty_def routed_names)
  have item: "load_claimed_item reading_env ?claim ?d = Ok (routed_item 15 1)"
    by (simp add: load_claimed_item_def load_queue_item_def running_db_def routed_row_def queue_item_into_model_def join_claim_def
        parse_runtime_id_def reading_list queue_status_from_str_def positive_u64_projection_def nonnegative_u32_projection_def ok_or_def
        routed_item_def sample_claim_def)
  have input: "load_input reading_env ''attempts'' ''event_id'' ''e1'' ?d = Ok (je_event e)"
    by (simp add: load_input_def entry_by_id [OF inv] es e sample_event_def ok_or_def)
  have running: "load_running_attempt_for_claim ?claim ?d = Ok (Some running_model)"
    using routed_names [of 0]
    by (simp add: load_running_attempt_for_claim_def newest_attempt_def running_db_def routed_attempt_def sample_claim_def attempt_into_model_def
        parse_runtime_id_def nonnegative_u32_projection_def attempt_status_from_str_def parse_optional_id_def running_model_def)
  have "load_claimed_attempt reading_env ?claim 11 ?d = Ok (running_model, routed_item 15 1, je_event e)"
    using item input running by (simp add: load_claimed_attempt_def ok_or_def running_model_def claim_is_current_def running_db_def sample_claim_def owns_def)
  then show thesis using that [of row e] d0(2,3) inv ok es e by simp
qed


text \<open>Closing the running attempt, and then its item, with events whose payloads are known.\<close>

definition closed_row :: "attempt_status \<Rightarrow> string \<Rightarrow> string option \<Rightarrow> attempt_row" where
  "closed_row s finished_at error = (routed_attempt ''t1'' 0)\<lparr>at_claim_token := None, at_status := attempt_status_display s,
     at_heartbeat_at := None, at_finished_at := Some finished_at, at_error := error\<rparr>"

definition running_fields :: "attempt_status \<Rightarrow> json_map" where
  "running_fields s = [(''attempt_id'', JString (attempt_id ''qi_e1'' 1)), (''queue_item_id'', JString ''qi_e1''), (''event_id'', JString ''e1''),
     (''attempt_number'', JNumber (Number (show_int 1))), (''target_agent'', JString ''a''), (''status'', JString (attempt_status_display s)),
     (''started_at'', JString ''s'')]"

lemma running_payload: "attempt_payload reading_env running_model s = running_fields s @
    [(''finished_at'', JNull), (''error'', JNull), (''session_id'', JString ''agent/a''), (''run_id'', JString (routed_run 0)), (''worker_name'', JString ''w'')]"
  by (simp add: attempt_payload_def running_model_def running_fields_def object_of_def opt_field_def or_null_def reading_env_def sample_env_def)

lemma append_closed_attempt:
  assumes inv: "sql_inv reading_env d" and items: "list_ex (\<lambda>r. qi_id r = ''qi_e1'') (db_queue_items d)" and attempts: "db_attempts d = [routed_attempt ''t1'' 0]"
    and old: "journal_has d ''e1''" and n: "length (db_journal d) = n" "n < 100"
    and ids: "sql_nonempty (ev_id ev)" "ev_id ev \<notin> set (je_ids (sql_entries reading_env d))"
      "ev_idempotency_key ev = Some key" "key \<notin> set (je_keys (sql_entries reading_env d))"
    and ev: "ev_event_type ev = ''runtime.attempt.'' @ attempt_status_display s" "s \<in> {AFailed, ACompleted, ACancelled}" "ev_source ev = ''zeta''"
      "ev_session_id ev = Some ''agent/a''" "ev_run_id ev = Some (routed_run 0)" "ev_timestamp_ms ev = 8"
    and p: "ev_payload ev = running_fields s @ [(''finished_at'', JString finished_at), (''error'', or_null err),
       (''session_id'', JString ''agent/a''), (''run_id'', JString (routed_run 0)), (''worker_name'', JString ''w'')] @ extra"
      "encodable reading_env (JObject extra)" "map_get extra ''project_revision'' = None"
  obtains d1 row1 where "append_runtime_event reading_env T ev d = Ok (d1, \<lparr>out_event = ev\<lparr>ev_cursor := Some (Suc n)\<rparr>, out_inserted = True\<rparr>)"
    "sql_inv reading_env d1" "length (db_journal d1) = Suc n"
    "set (je_ids (sql_entries reading_env d1)) = insert (ev_id ev) (set (je_ids (sql_entries reading_env d)))"
    "set (je_keys (sql_entries reading_env d1)) = insert key (set (je_keys (sql_entries reading_env d)))"
    "d1 = (grow [row1] d)\<lparr>db_attempts := [closed_row s finished_at err]\<rparr>"
proof -
  have get: "map_get (ev_payload ev) ''attempt_id'' = Some (JString (attempt_id ''qi_e1'' 1))" "map_get (ev_payload ev) ''queue_item_id'' = Some (JString ''qi_e1'')"
    "map_get (ev_payload ev) ''event_id'' = Some (JString ''e1'')" "map_get (ev_payload ev) ''attempt_number'' = Some (JNumber (Number (show_int 1)))"
    "map_get (ev_payload ev) ''target_agent'' = Some (JString ''a'')" "map_get (ev_payload ev) ''status'' = Some (JString (attempt_status_display s))"
    "map_get (ev_payload ev) ''started_at'' = Some (JString ''s'')" "map_get (ev_payload ev) ''session_id'' = Some (JString ''agent/a'')"
    "map_get (ev_payload ev) ''run_id'' = Some (JString (routed_run 0))" "map_get (ev_payload ev) ''worker_name'' = Some (JString ''w'')"
    "map_get (ev_payload ev) ''finished_at'' = Some (JString finished_at)" "map_get (ev_payload ev) ''error'' = Some (or_null err)"
    "map_get (ev_payload ev) ''project_revision'' = None"
    using p(3) by (simp_all add: p(1) running_fields_def)
  have wanted: "attempt_fields_of_event reading_env (ev\<lparr>ev_cursor := Some (Suc n)\<rparr>) = Ok
     \<lparr>af_attempt_id = attempt_id ''qi_e1'' 1, af_queue_item_id = ''qi_e1'', af_event_id = ''e1'',
           af_number = 1, af_target_agent = ''a'', af_status = s,
           af_started_at = Some ''s'', af_session_id = Some ''agent/a'', af_run_id = Some (routed_run 0), af_project_revision = None\<rparr>"
    using ev routed_names [of 0]
    by (auto simp add: attempt_fields_of_event_def get required_runtime_id_def required_payload_string_def required_positive_u32_def
        lifecycle_attempt_status_def type_suffix_def attempt_status_from_str_def optional_payload_string_def coalesce_def Let_def
        validate_optional_runtime_id_def reading_env_def sample_env_def)
  have ix: "index_event reading_env T (ev\<lparr>ev_cursor := Some (Suc n)\<rparr>) (grow [r] d) = Ok ((grow [r] d)\<lparr>db_attempts := [closed_row s finished_at err]\<rparr>)" for r
  proof -
    have kind: "index_event reading_env T (ev\<lparr>ev_cursor := Some (Suc n)\<rparr>) (grow [r] d) = index_attempt reading_env (ev\<lparr>ev_cursor := Some (Suc n)\<rparr>) (grow [r] d)"
      using ev(1) by (simp add: index_event_def)
    have texts: "optional_payload_string (ev\<lparr>ev_cursor := Some (Suc n)\<rparr>) ''worker_name'' = Ok (Some ''w'')"
      "optional_payload_string (ev\<lparr>ev_cursor := Some (Suc n)\<rparr>) ''finished_at'' = Ok (Some finished_at)"
      "optional_payload_string (ev\<lparr>ev_cursor := Some (Suc n)\<rparr>) ''error'' = Ok err"
      by (simp_all add: optional_payload_string_def get or_null_def split: option.split)
    show ?thesis
      unfolding kind using ev(2) old routed_names [of 0]
      by (auto simp: index_attempt_def wanted texts attempt_transition_def attempts items routed_attempt_def differs_def attempt_status_from_str_def
          attempt_validate_transition_def resolve_attempt_claim_def upsert_attempt_def Let_def attempt_fits_def sql_nonempty_def routed_row_def
          journal_has_def sql_update_def merge_attempt_def closed_row_def coalesce_def)
  qed
  show thesis
  proof (rule reading_runtime_append [OF inv, of ev key n T])
    show "appendable ev" using ids(1) ev by (auto simp: appendable_def sql_nonempty_def is_i64_def)
    show "encodable reading_env (JObject (ev_payload ev))"
      using p(2) reading_int [of 1] by (auto simp: p(1) running_fields_def or_null_def split: option.split)
    fix d1 row1
    assume app: "append_runtime_event reading_env T ev d = Ok (d1, \<lparr>out_event = ev\<lparr>ev_cursor := Some (Suc n)\<rparr>, out_inserted = True\<rparr>)"
      "sql_inv reading_env d1" "length (db_journal d1) = Suc n"
      and step: "index_event reading_env T (ev\<lparr>ev_cursor := Some (Suc n)\<rparr>) (grow [row1] d) = Ok d1"
      and new: "set (je_ids (sql_entries reading_env d1)) = insert (ev_id ev) (set (je_ids (sql_entries reading_env d)))"
      "set (je_keys (sql_entries reading_env d1)) = insert key (set (je_keys (sql_entries reading_env d)))"
    have "d1 = (grow [row1] d)\<lparr>db_attempts := [closed_row s finished_at err]\<rparr>"
      using trans [OF step [symmetric] ix [of row1]] by (simp only: sum.inject)
    then show thesis by (intro that [OF app new])
  qed (use ids n ix in \<open>simp_all\<close>)
qed


text \<open>The row of the item, with or without a cancellation request.\<close>

definition marked_row :: "string \<Rightarrow> string option \<Rightarrow> int option \<Rightarrow> string option \<Rightarrow> queue_item_row" where
  "marked_row status c t why = (routed_row status 1)\<lparr>qi_cancel_requested_event_id := c, qi_cancel_requested_at := t, qi_cancel_reason := why\<rparr>"

lemma marked_none: "marked_row status None None None = routed_row status 1"
  by (simp add: marked_row_def routed_row_def)

lemma append_closed_item:
  assumes inv: "sql_inv reading_env d" and items: "db_queue_items d = [marked_row ''claimed'' c t why]"
    and row: "find (\<lambda>s. se_event_id s = ''e1'') (db_journal d) = Some row" "se_cursor row = 1" and n: "length (db_journal d) = n" "n < 100"
    and ids: "sql_nonempty (ev_id ev)" "ev_id ev \<notin> set (je_ids (sql_entries reading_env d))"
      "ev_idempotency_key ev = Some key" "key \<notin> set (je_keys (sql_entries reading_env d))"
    and ev: "ev_event_type ev = ''runtime.queue_item.'' @ queue_status_display s" "s \<in> {QDeadLettered, QCompleted, QCancelled}" "ev_source ev = ''zeta''"
      "ev_session_id ev = Some ''agent/a''" "ev_timestamp_ms ev = 8"
    and p: "ev_payload ev = [(''queue_item_id'', JString ''qi_e1''), (''event_id'', JString ''e1''), (''target_agent'', JString ''a''),
        (''status'', JString (queue_status_display s)), (''session_id'', JString ''agent/a'')] @ extra"
      "encodable reading_env (JObject extra)" "map_get extra ''project_revision'' = None" "map_get extra ''lock_keys'' = None"
      "queue_last_error (ev\<lparr>ev_cursor := Some (Suc n)\<rparr>) = Ok err"
  obtains d1 row1 where "append_runtime_event reading_env T ev d = Ok (d1, \<lparr>out_event = ev\<lparr>ev_cursor := Some (Suc n)\<rparr>, out_inserted = True\<rparr>)"
    "sql_inv reading_env d1" "length (db_journal d1) = Suc n"
    "d1 = (grow [row1] d)\<lparr>db_queue_items := [(marked_row (queue_status_display s) c t why)\<lparr>qi_last_error := err\<rparr>]\<rparr>"
proof -
  have old: "journal_has d ''e1''" using find_SomeD [OF row(1)] by (auto simp: journal_has_def list_ex_iff)
  have get: "map_get (ev_payload ev) ''queue_item_id'' = Some (JString ''qi_e1'')" "map_get (ev_payload ev) ''event_id'' = Some (JString ''e1'')"
    "map_get (ev_payload ev) ''target_agent'' = Some (JString ''a'')" "map_get (ev_payload ev) ''status'' = Some (JString (queue_status_display s))"
    "map_get (ev_payload ev) ''session_id'' = Some (JString ''agent/a'')" "map_get (ev_payload ev) ''project_revision'' = None"
    "map_get (ev_payload ev) ''lock_keys'' = None"
    using p(3,4) by (simp_all add: p(1))
  have ix: "index_event reading_env T (ev\<lparr>ev_cursor := Some (Suc n)\<rparr>) (grow [r] d)
      = Ok ((grow [r] d)\<lparr>db_queue_items := [(marked_row (queue_status_display s) c t why)\<lparr>qi_last_error := err\<rparr>]\<rparr>)" for r
  proof -
    have kind: "index_event reading_env T (ev\<lparr>ev_cursor := Some (Suc n)\<rparr>) (grow [r] d) = index_queue_item reading_env (ev\<lparr>ev_cursor := Some (Suc n)\<rparr>) (grow [r] d)"
      using ev(1,2) by (auto simp: index_event_def)
    show ?thesis
      unfolding kind using ev old p(5)
      by (auto simp: get coalesce_def index_queue_item_def required_runtime_id_def required_payload_string_def lifecycle_queue_status_def type_suffix_def
        queue_status_from_str_def Let_def pending_queue_item_id_def previous_queue_status_def items marked_row_def routed_row_def queue_transition_ok_def
        queue_validate_transition_def queue_row_of_event_def input_event_cursor_def find_append row optional_payload_string_def
        validate_optional_runtime_id_def optional_payload_string_array_def upsert_queue_item_def merge_queue_item_def queue_item_fits_def
        sql_nonempty_def journal_has_def sql_update_def)
  qed
  show thesis
  proof (rule reading_runtime_append [OF inv, of ev key n T])
    show "appendable ev" using ids(1) ev by (auto simp: appendable_def sql_nonempty_def is_i64_def)
    show "encodable reading_env (JObject (ev_payload ev))" using p(2) by (auto simp: p(1))
    fix d1 row1
    assume app: "append_runtime_event reading_env T ev d = Ok (d1, \<lparr>out_event = ev\<lparr>ev_cursor := Some (Suc n)\<rparr>, out_inserted = True\<rparr>)"
      "sql_inv reading_env d1" "length (db_journal d1) = Suc n"
      and step: "index_event reading_env T (ev\<lparr>ev_cursor := Some (Suc n)\<rparr>) (grow [row1] d) = Ok d1"
    have "d1 = (grow [row1] d)\<lparr>db_queue_items := [(marked_row (queue_status_display s) c t why)\<lparr>qi_last_error := err\<rparr>]\<rparr>"
      using trans [OF step [symmetric] ix [of row1]] by (simp only: sum.inject)
    then show thesis by (intro that [OF app])
  qed (use ids n ix in \<open>simp_all\<close>)
qed


lemma few_entries: "(1 :: nat) < 100" "Suc 1 < 100" "Suc (Suc 1) < 100"
  by arith+

text \<open>A published event that starts no work of its own.\<close>

lemma append_note:
  assumes inv: "sql_inv reading_env d" and n: "length (db_journal d) = n" "n < 100"
    and ids: "sql_nonempty (ev_id ev)" "ev_id ev \<notin> set (je_ids (sql_entries reading_env d))"
      "ev_idempotency_key ev = Some key" "key \<notin> set (je_keys (sql_entries reading_env d))"
    and ev: "ev_event_type ev = ''zeta.note''" "ev_source ev = ''agent:a''" "ev_payload ev = []" "ev_timestamp_ms ev = 8"
  obtains row1 where "append_runtime_event reading_env T ev d = Ok (grow [row1] d, \<lparr>out_event = ev\<lparr>ev_cursor := Some (Suc n)\<rparr>, out_inserted = True\<rparr>)"
    "sql_inv reading_env (grow [row1] d)"
    "set (je_ids (sql_entries reading_env (grow [row1] d))) = insert (ev_id ev) (set (je_ids (sql_entries reading_env d)))"
    "set (je_keys (sql_entries reading_env (grow [row1] d))) = insert key (set (je_keys (sql_entries reading_env d)))"
proof -
  have ix: "index_event reading_env T (ev\<lparr>ev_cursor := Some (Suc n)\<rparr>) x = Ok x" for x
    by (simp add: index_event_def ev is_queueable_event_def)
  show thesis
  proof (rule reading_runtime_append [OF inv, of ev key n T])
    show "appendable ev" using ids(1) by (simp add: appendable_def ev sql_nonempty_def is_i64_def)
    show "encodable reading_env (JObject (ev_payload ev))" by (simp add: ev)
    show "\<exists>d'. index_event reading_env T (ev\<lparr>ev_cursor := Some (Suc n)\<rparr>) (grow [r] d) = Ok d'" for r using ix by blast
    fix d1 row1
    assume app: "append_runtime_event reading_env T ev d = Ok (d1, \<lparr>out_event = ev\<lparr>ev_cursor := Some (Suc n)\<rparr>, out_inserted = True\<rparr>)"
      "sql_inv reading_env d1"
      and step: "index_event reading_env T (ev\<lparr>ev_cursor := Some (Suc n)\<rparr>) (grow [row1] d) = Ok d1"
      and new: "set (je_ids (sql_entries reading_env d1)) = insert (ev_id ev) (set (je_ids (sql_entries reading_env d)))"
      "set (je_keys (sql_entries reading_env d1)) = insert key (set (je_keys (sql_entries reading_env d)))"
    have "d1 = grow [row1] d" using trans [OF step [symmetric] ix] by (simp only: sum.inject)
    then show thesis using that [of row1] app new by (simp only:)
  qed (use ids n in simp_all)
qed

definition sample_failure :: attempt_failure where
  "sample_failure = \<lparr>af_finished_at = ''f'', af_error = ''x'', af_error_code = AgentSpecInvalid, af_retry_policy = retry_policy_default\<rparr>"

lemma failed_sample:
  obtains d d' events input where "tables_ok d"
    "load_claimed_attempt reading_env (sample_claim ''qi_e1'' ''t1'' 15) 11 d = Ok (running_model, routed_item 15 1, input)"
    "fail_claimed_attempt (\<lambda>x _. x) reading_env no_time (sample_claim ''qi_e1'' ''t1'' 15) 11 \<lparr>ri_id = ''r1'', ri_timestamp_ms = 8\<rparr>
       \<lparr>ri_id = ''r2'', ri_timestamp_ms = 8\<rparr> sample_failure d = Ok (d', events)"
    "length (db_journal d') = length (db_journal d) + 2"
proof -
  obtain row e where row: "se_event_id row = ''e1''" "se_cursor row = 1" and inv: "sql_inv reading_env (running_db row)" and ok: "tables_ok (running_db row)"
    and es: "sql_entries reading_env (running_db row) = [e]" and e: "je_event e = sample_event\<lparr>ev_cursor := Some 1\<rparr>"
    and load: "load_claimed_attempt reading_env (sample_claim ''qi_e1'' ''t1'' 15) 11 (running_db row) = Ok (running_model, routed_item 15 1, je_event e)"
    by (rule running_sample)
  let ?claim = "sample_claim ''qi_e1'' ''t1'' 15" and ?i = "\<lparr>ri_id = ''r1'', ri_timestamp_ms = 8\<rparr>" and ?j = "\<lparr>ri_id = ''r2'', ri_timestamp_ms = 8\<rparr>"
  have eid: "ev_id (je_event e) = ''e1''" "ev_idempotency_key (je_event e) = None" by (simp_all add: e sample_event_def)
  define a where "a = failed_attempt_event reading_env ?i (je_event e) running_model sample_failure"
  have af: "ev_id a = ''r1''" "ev_idempotency_key a = Some (attempt_idempotency_key ''qi_e1'' 1 AFailed)" "ev_event_type a = ''runtime.attempt.'' @ attempt_status_display AFailed"
    "ev_source a = ''zeta''" "ev_session_id a = Some ''agent/a''" "ev_run_id a = Some (routed_run 0)" "ev_timestamp_ms a = 8"
    by (simp_all add: a_def failed_attempt_event_def attempt_terminal_event_def runtime_event_def running_model_def)
  have ap: "ev_payload a = running_fields AFailed @ [(''finished_at'', JString ''f''), (''error'', or_null (Some ''x'')),
       (''session_id'', JString ''agent/a''), (''run_id'', JString (routed_run 0)), (''worker_name'', JString ''w'')] @ [(''error_code'', JString ''agent_spec_invalid'')]"
    by (simp add: a_def failed_attempt_event_def attempt_terminal_event_def runtime_event_def with_fields_def running_payload sample_failure_def
      running_fields_def or_null_def)
  obtain d1 row1 where a1: "append_runtime_event reading_env no_time a (running_db row) = Ok (d1, \<lparr>out_event = a\<lparr>ev_cursor := Some (Suc 1)\<rparr>, out_inserted = True\<rparr>)"
    "sql_inv reading_env d1" "length (db_journal d1) = Suc 1"
    "set (je_ids (sql_entries reading_env d1)) = insert (ev_id a) (set (je_ids (sql_entries reading_env (running_db row))))"
    "set (je_keys (sql_entries reading_env d1)) = insert (attempt_idempotency_key ''qi_e1'' 1 AFailed) (set (je_keys (sql_entries reading_env (running_db row))))"
    "d1 = (grow [row1] (running_db row))\<lparr>db_attempts := [closed_row AFailed ''f'' (Some ''x'')]\<rparr>"
    by (rule append_closed_attempt [OF inv _ _ _ _ few_entries(1) _ _ af(2) _ af(3) _ af(4-7) ap])
      (simp_all add: journal_has_def row es eid af(1) sql_nonempty_def routed_row_def)
  obtain q where q: "failed_queue_disposition_event (\<lambda>x _. x) reading_env ?j (je_event e) (routed_item 15 1) running_model sample_failure 11 = Ok q"
    and qf: "ev_id q = ''r2''" "ev_idempotency_key q = Some (queue_item_attempt_idempotency_key ''e1'' ''a'' QDeadLettered 1)"
      "ev_event_type q = ''runtime.queue_item.'' @ queue_status_display QDeadLettered" "ev_source q = ''zeta''" "ev_session_id q = Some ''agent/a''" "ev_timestamp_ms q = 8"
    and qp: "ev_payload q = [(''queue_item_id'', JString ''qi_e1''), (''event_id'', JString ''e1''), (''target_agent'', JString ''a''),
        (''status'', JString (queue_status_display QDeadLettered)), (''session_id'', JString ''agent/a'')]
        @ [(''reason'', JString ''permanent''), (''attempt_count'', JNumber (Number (show_int 1))), (''last_attempt_id'', JString (attempt_id ''qi_e1'' 1)),
           (''dead_lettered_at'', JString ''f''), (''last_error'', JObject [(''code'', JString ''agent_spec_invalid''), (''message'', JString ''x'')])]"
    by (simp add: failed_queue_disposition_event_def sample_failure_def queue_disposition_event_def runtime_event_def routed_item_def running_model_def
       with_fields_def queue_item_payload_def object_of_def opt_field_def json_object_def reading_env_def sample_env_def)
  obtain d2 row2 where q1: "append_runtime_event reading_env no_time q d1 = Ok (d2, \<lparr>out_event = q\<lparr>ev_cursor := Some (Suc (Suc 1))\<rparr>, out_inserted = True\<rparr>)"
    "length (db_journal d2) = Suc (Suc 1)" "d2 = (grow [row2] d1)\<lparr>db_queue_items := [(routed_row (queue_status_display QDeadLettered) 1)\<lparr>qi_last_error := Some ''x''\<rparr>]\<rparr>"
  proof (rule append_closed_item [where c = None and t = None and why = None, unfolded marked_none, OF a1(2) _ _ row(2) a1(3) few_entries(2) _ _ qf(2) _ qf(3) _ qf(4-6) qp])
    show "queue_last_error (q\<lparr>ev_cursor := Some (Suc (Suc 1))\<rparr>) = Ok (Some ''x'')" by (simp add: queue_last_error_def optional_payload_string_def qp)
  qed (use a1(4-6) row reading_int [of 1] in \<open>simp_all add: es eid af(1) qf(1) sql_nonempty_def
        queue_item_attempt_idempotency_key_def queue_item_idempotency_key_def attempt_idempotency_key_def\<close>)
  have guards: "af_finished_at sample_failure = ''f''" "af_error sample_failure = ''x''" "q_cancellation_requested_event_id (routed_item 15 1) = None"
    by (simp_all add: sample_failure_def routed_item_def)
  have release: "release_claim_in_transaction ?claim operation d2 = Ok (delete_queue_claims (owns ?claim) d2)" for operation
    by (simp add: release_claim_in_transaction_def sql_count_def q1(3) a1(6) running_db_def owns_def sample_claim_def)
  have "fail_claimed_attempt (\<lambda>x _. x) reading_env no_time ?claim 11 ?i ?j sample_failure (running_db row)
     = Ok (delete_queue_claims (owns ?claim) d2, [a\<lparr>ev_cursor := Some (Suc 1)\<rparr>, q\<lparr>ev_cursor := Some (Suc (Suc 1))\<rparr>])"
    using a1(1) q1(1) q by (simp add: fail_claimed_attempt_def load guards [simplified] close_attempt_def a_def [symmetric] release)
  then show thesis by (rule that [OF ok load]) (simp add: q1(2))
qed


definition parsing_clock :: time_lib where
  "parsing_clock = no_time\<lparr>rfc3339_parse := \<lambda>_. Some 0\<rparr>"

definition sample_completion :: attempt_completion where
  "sample_completion = \<lparr>ac_finished_at = ''f'', ac_disposition = DispositionSucceeded, ac_metadata = [],
     ac_controls = [ControlPublish ''pub_1'' ''zeta.note'' [] None 3]\<rparr>"

definition sample_result :: json_map where
  "sample_result = [(''publish_event_requests'', JArray [JObject [(''handle'', JString ''pub_1''), (''event_type'', JString ''zeta.note''),
     (''payload'', JObject []), (''at'', JNull), (''position'', JNumber (Number (show_int 3)))]])]"

lemma sample_result: "completion_controls parsing_clock sample_completion = Ok (0, ac_controls sample_completion)"
  "completion_result reading_env sample_completion (ac_controls sample_completion) = Ok sample_result"
  "encodable reading_env (JObject [(''result'', JObject sample_result)])"
  using reading_int [of 3]
  by (simp_all add: completion_controls_def sample_completion_def parse_completion_timestamp_def parsing_clock_def ok_or_def
      validate_optional_completion_string_def validate_optional_completion_array_def validate_completion_control_string_def
      validate_completion_moment_def completion_result_def reserved_result_fields_def with_fields_def nonempty_array_def json_object_def
      object_of_def or_null_def sample_result_def reading_env_def sample_env_def)

definition sample_completed :: "event \<Rightarrow> event" where
  "sample_completed input = completed_attempt_event reading_env \<lparr>ri_id = ''r1'', ri_timestamp_ms = 8\<rparr> input running_model sample_completion sample_result"

definition sample_note_key :: string where
  "sample_note_key = ''agent.publish:qi_e1:'' @ show_nat 3"

definition sample_note :: "event \<Rightarrow> event \<Rightarrow> event" where
  "sample_note input completed = control_event \<lparr>ri_id = ''r2'', ri_timestamp_ms = 8\<rparr> ''zeta.note'' ''agent:a'' [] sample_note_key input running_model completed"

definition sample_closing :: "event \<Rightarrow> event" where
  "sample_closing input = completed_queue_event \<lparr>ri_id = ''r3'', ri_timestamp_ms = 8\<rparr> input (routed_item 15 1) running_model sample_result"

lemma sample_completed:
  "ev_id (sample_completed input) = ''r1''" "ev_idempotency_key (sample_completed input) = Some (attempt_idempotency_key ''qi_e1'' 1 ACompleted)"
  "ev_event_type (sample_completed input) = ''runtime.attempt.'' @ attempt_status_display ACompleted"
  "ev_source (sample_completed input) = ''zeta''" "ev_session_id (sample_completed input) = Some ''agent/a''"
  "ev_run_id (sample_completed input) = Some (routed_run 0)" "ev_timestamp_ms (sample_completed input) = 8"
  "ev_payload (sample_completed input) = running_fields ACompleted @ [(''finished_at'', JString ''f''), (''error'', or_null None),
     (''session_id'', JString ''agent/a''), (''run_id'', JString (routed_run 0)), (''worker_name'', JString ''w'')] @ [(''result'', JObject sample_result)]"
proof -
  have "completion_summary sample_result = []" "copied_field sample_result ''tool_calls'' = []" "copied_field sample_result ''usage'' = []"
    by (simp_all add: completion_summary_def copied_field_def sample_result_def)
  then show "ev_payload (sample_completed input) = running_fields ACompleted @ [(''finished_at'', JString ''f''), (''error'', or_null None),
     (''session_id'', JString ''agent/a''), (''run_id'', JString (routed_run 0)), (''worker_name'', JString ''w'')] @ [(''result'', JObject sample_result)]"
    by (simp add: sample_completed_def completed_attempt_event_def attempt_terminal_event_def runtime_event_def with_fields_def running_payload
      running_fields_def or_null_def sample_completion_def)
qed (simp_all add: sample_completed_def completed_attempt_event_def attempt_terminal_event_def runtime_event_def running_model_def)

lemma sample_note:
  "ev_id (sample_note input completed) = ''r2''" "ev_idempotency_key (sample_note input completed) = Some sample_note_key"
  "ev_event_type (sample_note input completed) = ''zeta.note''" "ev_source (sample_note input completed) = ''agent:a''"
  "ev_payload (sample_note input completed) = []" "ev_timestamp_ms (sample_note input completed) = 8"
  by (simp_all add: sample_note_def control_event_def)

lemma sample_closing:
  "ev_id (sample_closing input) = ''r3''" "ev_idempotency_key (sample_closing input) = Some (queue_item_idempotency_key ''e1'' ''a'' QCompleted)"
  "ev_event_type (sample_closing input) = ''runtime.queue_item.'' @ queue_status_display QCompleted" "ev_source (sample_closing input) = ''zeta''"
  "ev_session_id (sample_closing input) = Some ''agent/a''" "ev_timestamp_ms (sample_closing input) = 8"
  "ev_payload (sample_closing input) = [(''queue_item_id'', JString ''qi_e1''), (''event_id'', JString ''e1''), (''target_agent'', JString ''a''),
     (''status'', JString (queue_status_display QCompleted)), (''session_id'', JString ''agent/a'')] @ [(''result'', JObject sample_result)]"
  by (simp_all add: sample_closing_def completed_queue_event_def runtime_event_def routed_item_def with_fields_def queue_item_payload_def object_of_def
      opt_field_def)

lemma sample_keys:
  "sample_note_key \<noteq> attempt_idempotency_key ''qi_e1'' 1 ACompleted"
  "queue_item_idempotency_key ''e1'' ''a'' QCompleted \<notin> {sample_note_key, attempt_idempotency_key ''qi_e1'' 1 ACompleted}"
  by (simp_all add: sample_note_key_def attempt_idempotency_key_def queue_item_idempotency_key_def)

lemma completed_appends:
  fixes input :: event
  assumes row: "se_event_id row = ''e1''" "se_cursor row = 1" and inv: "sql_inv reading_env (running_db row)"
    and es: "sql_entries reading_env (running_db row) = [e]" and eid: "ev_id (je_event e) = ''e1''" "ev_idempotency_key (je_event e) = None"
  defines "c \<equiv> sample_completed input\<lparr>ev_cursor := Some (Suc 1)\<rparr>"
  obtains d1 d2 d3 n q where
    "append_runtime_event reading_env parsing_clock (sample_completed input) (running_db row) = Ok (d1, \<lparr>out_event = c, out_inserted = True\<rparr>)"
    "append_runtime_event reading_env parsing_clock (sample_note input c) d1 = Ok (d2, n)"
    "append_runtime_event reading_env parsing_clock (sample_closing input) d2 = Ok (d3, q)"
    "db_queue_claims d3 = db_queue_claims (running_db row)"
proof -
  obtain d1 row1 where a1: "append_runtime_event reading_env parsing_clock (sample_completed input) (running_db row) = Ok (d1, \<lparr>out_event = c, out_inserted = True\<rparr>)"
    "sql_inv reading_env d1" "length (db_journal d1) = Suc 1"
    "set (je_ids (sql_entries reading_env d1)) = insert (ev_id (sample_completed input)) (set (je_ids (sql_entries reading_env (running_db row))))"
    "set (je_keys (sql_entries reading_env d1)) = insert (attempt_idempotency_key ''qi_e1'' 1 ACompleted) (set (je_keys (sql_entries reading_env (running_db row))))"
    "d1 = (grow [row1] (running_db row))\<lparr>db_attempts := [closed_row ACompleted ''f'' None]\<rparr>"
    unfolding c_def
    by (rule append_closed_attempt [OF inv _ _ _ _ few_entries(1) _ _ sample_completed(2) _ sample_completed(3) _ sample_completed(4-8) sample_result(3)])
      (simp_all add: journal_has_def row es eid sample_completed(1) sql_nonempty_def routed_row_def)
  have fresh2: "''r2'' \<notin> set (je_ids (sql_entries reading_env d1))" "sample_note_key \<notin> set (je_keys (sql_entries reading_env d1))"
    unfolding a1(4,5) using sample_keys(1) by (simp_all add: es eid sample_completed(1))
  obtain row2 where n1: "append_runtime_event reading_env parsing_clock (sample_note input c) d1
      = Ok (grow [row2] d1, \<lparr>out_event = sample_note input c\<lparr>ev_cursor := Some (Suc (Suc 1))\<rparr>, out_inserted = True\<rparr>)"
    "sql_inv reading_env (grow [row2] d1)"
    "set (je_ids (sql_entries reading_env (grow [row2] d1))) = insert (ev_id (sample_note input c)) (set (je_ids (sql_entries reading_env d1)))"
    "set (je_keys (sql_entries reading_env (grow [row2] d1))) = insert sample_note_key (set (je_keys (sql_entries reading_env d1)))"
    by (rule append_note [OF a1(2,3) few_entries(2) _ _ sample_note(2) fresh2(2) sample_note(3-6)])
      (use fresh2(1) in \<open>simp_all add: sample_note(1) sql_nonempty_def\<close>)
  have fresh: "''r3'' \<notin> set (je_ids (sql_entries reading_env (grow [row2] d1)))"
    "queue_item_idempotency_key ''e1'' ''a'' QCompleted \<notin> set (je_keys (sql_entries reading_env (grow [row2] d1)))"
    unfolding n1(3,4) a1(4,5) using sample_keys(2) by (simp_all add: es eid sample_completed(1) sample_note(1))
  have n2: "length (db_journal (grow [row2] d1)) = Suc (Suc 1)" using a1(3) by simp
  obtain d3 row3 where q1: "append_runtime_event reading_env parsing_clock (sample_closing input) (grow [row2] d1)
      = Ok (d3, \<lparr>out_event = sample_closing input\<lparr>ev_cursor := Some (Suc (Suc (Suc 1)))\<rparr>, out_inserted = True\<rparr>)"
    "d3 = (grow [row3] (grow [row2] d1))\<lparr>db_queue_items := [(routed_row (queue_status_display QCompleted) 1)\<lparr>qi_last_error := None\<rparr>]\<rparr>"
  proof (rule append_closed_item [where c = None and t = None and why = None, unfolded marked_none, OF n1(2) _ _ row(2) n2 few_entries(3) _ _ sample_closing(2) fresh(2) sample_closing(3) _ sample_closing(4-7) sample_result(3)])
    show "queue_last_error (sample_closing input\<lparr>ev_cursor := Some (Suc (Suc (Suc 1)))\<rparr>) = Ok None"
      by (simp add: queue_last_error_def optional_payload_string_def sample_closing(7))
  qed (use row fresh(1) in \<open>simp_all add: a1(6) sample_closing(1) sql_nonempty_def\<close>)
  show thesis by (rule that [OF a1(1) n1(1) q1(1)]) (simp add: q1(2) a1(6))
qed

lemma completed_sample:
  obtains d input d' events where
    "load_claimed_attempt reading_env (sample_claim ''qi_e1'' ''t1'' 15) 11 d = Ok (running_model, routed_item 15 1, input)"
    "complete_claimed_attempt reading_env parsing_clock (sample_claim ''qi_e1'' ''t1'' 15) 11 [\<lparr>ri_id = ''r1'', ri_timestamp_ms = 8\<rparr>,
       \<lparr>ri_id = ''r2'', ri_timestamp_ms = 8\<rparr>, \<lparr>ri_id = ''r3'', ri_timestamp_ms = 8\<rparr>] sample_completion d = Ok (d', events)"
    "length events = 3"
proof -
  obtain row e where row: "se_event_id row = ''e1''" "se_cursor row = 1" and inv: "sql_inv reading_env (running_db row)"
    and es: "sql_entries reading_env (running_db row) = [e]" and e: "je_event e = sample_event\<lparr>ev_cursor := Some 1\<rparr>"
    and load: "load_claimed_attempt reading_env (sample_claim ''qi_e1'' ''t1'' 15) 11 (running_db row) = Ok (running_model, routed_item 15 1, je_event e)"
    by (rule running_sample)
  have eid: "ev_id (je_event e) = ''e1''" "ev_idempotency_key (je_event e) = None" by (simp_all add: e sample_event_def)
  let ?claim = "sample_claim ''qi_e1'' ''t1'' 15" and ?in = "je_event e"
    and ?ids = "[\<lparr>ri_id = ''r1'', ri_timestamp_ms = 8\<rparr>, \<lparr>ri_id = ''r2'', ri_timestamp_ms = 8\<rparr>, \<lparr>ri_id = ''r3'', ri_timestamp_ms = 8\<rparr>]"
  define c where "c = sample_completed ?in\<lparr>ev_cursor := Some (Suc 1)\<rparr>"
  obtain d1 d2 d3 n q where s: "append_runtime_event reading_env parsing_clock (sample_completed ?in) (running_db row) = Ok (d1, \<lparr>out_event = c, out_inserted = True\<rparr>)"
    "append_runtime_event reading_env parsing_clock (sample_note ?in c) d1 = Ok (d2, n)"
    "append_runtime_event reading_env parsing_clock (sample_closing ?in) d2 = Ok (d3, q)"
    "db_queue_claims d3 = db_queue_claims (running_db row)"
    unfolding c_def by (rule completed_appends [OF row inv es eid, of ?in])
  have release: "release_claim_in_transaction ?claim operation d3 = Ok (delete_queue_claims (owns ?claim) d3)" for operation
    by (simp add: release_claim_in_transaction_def sql_count_def s(4) running_db_def owns_def sample_claim_def)
  have control: "apply_controls reading_env parsing_clock 0 ?in (routed_item 15 1) running_model c
      (zip (ac_controls sample_completion) (butlast (tl ?ids))) d1 = Ok (d2, [out_event n])"
    using s(2) by (simp add: sample_completion_def apply_control_def sample_note_def sample_note_key_def running_model_def routed_item_def)
  have commit: "commit_completion reading_env parsing_clock ?claim ?ids sample_completion 0 (ac_controls sample_completion) sample_result
      running_model (routed_item 15 1) ?in (running_db row) = Ok (delete_queue_claims (owns ?claim) d3, [c, out_event n, out_event q])"
    using s(1,3) control release unfolding sample_completed_def sample_closing_def commit_completion_def by simp
  have "validate_distinct_runtime_identities ?ids = Ok ()" by (simp add: validate_distinct_runtime_identities_def)
  then have "complete_claimed_attempt reading_env parsing_clock ?claim 11 ?ids sample_completion (running_db row)
    = Ok (delete_queue_claims (owns ?claim) d3, [c, out_event n, out_event q])"
    using load commit by (simp add: complete_claimed_attempt_def sample_result) (simp add: sample_completion_def routed_item_def)
  then show thesis by (rule that [OF load]) simp
qed

end
