(* ===== verification/Attempt_Outcomes.thy ===== *)
theory Attempt_Outcomes
  imports Attempt_Samples
begin

text \<open>
  What the operations on a claimed attempt leave behind: which events they append and in which order, the rows of the
  item and of the attempt, and a claim that no operation accepts any more.
\<close>

section \<open>Appended events\<close>

lemma append_runtime_type:
  assumes "append_runtime_event E T ev d = Ok (d', out)"
  shows "ev_event_type (out_event out) = ev_event_type ev" "ev_idempotency_key (out_event out) = ev_idempotency_key ev"
    "ev_source (out_event out) = ev_source ev" "ev_caused_by (out_event out) = ev_caused_by ev"
  using assms by (cases rule: append_runtime_cases; simp add: same_lifecycle_intention_def del: json_same.simps)+

lemma append_runtime_events_types:
  "append_runtime_events E T evs d = Ok (d', events) \<Longrightarrow> map ev_event_type events = map ev_event_type evs"
  by (induction evs arbitrary: d events) (auto elim!: and_then_OkE dest: append_runtime_type)

section \<open>Released claims\<close>

lemma released:
  assumes "release_claim_in_transaction claim operation d = Ok d'"
  shows "\<not> claim_is_current claim now_ms d'" "d' = delete_queue_claims (owns claim) d"
    "\<not> list_ex (\<lambda>l. lk_owner l = cl_token claim) (db_locks d')"
proof -
  have d': "d' = delete_queue_claims (owns claim) d" and n: "sql_count (owns claim) (db_queue_claims d) = 1"
    using assms by (auto simp: release_claim_in_transaction_def Let_def split: if_splits)
  show "\<not> claim_is_current claim now_ms d'" by (auto simp: d' claim_is_current_def delete_queue_claims_def Let_def list_ex_iff)
  show "d' = delete_queue_claims (owns claim) d" by (rule d')
  obtain c where "c \<in> set (db_queue_claims d)" "owns claim c"
    using n by (metis sql_count_def filter_empty_conv list.size(3) zero_neq_one)
  then show "\<not> list_ex (\<lambda>l. lk_owner l = cl_token claim) (db_locks d')"
    by (auto simp: d' delete_queue_claims_def Let_def list_ex_iff owns_def)
qed

lemma close_attempt_split:
  assumes "close_attempt E T claim operation evs d = Ok (d', events)"
  obtains d1 where "append_runtime_events E T evs d = Ok (d1, events)" "release_claim_in_transaction claim operation d1 = Ok d'"
  using assms by (auto simp: close_attempt_def elim!: and_then_OkE)

lemma cancelled_types:
  assumes "close_attempt E T claim operation (live_cancelled_events E i j input item a finished_at result) d = Ok (d', events)"
  shows "map ev_event_type events = [''runtime.attempt.cancelled'', ''runtime.queue_item.cancelled'']"
proof -
  obtain d1 where "append_runtime_events E T (live_cancelled_events E i j input item a finished_at result) d = Ok (d1, events)"
    by (rule close_attempt_split [OF assms])
  from append_runtime_events_types [OF this] show ?thesis
    by (simp only: live_cancelled_events_def Let_def list.map attempt_terminal_event_def queue_disposition_event_def runtime_event_def event.simps
        attempt_status_display.simps append.simps)
qed

text \<open>Both ways of closing an attempt end with the release of its claim.\<close>

lemma fail_closes:
  assumes "fail_claimed_attempt powf E T claim now_ms i j failure d = Ok (d', events)"
  obtains a item input evs operation where "load_claimed_attempt E claim now_ms d = Ok (a, item, input)"
    "close_attempt E T claim operation evs d = Ok (d', events)"
    "if q_cancellation_requested_event_id item \<noteq> None
     then evs = live_cancelled_events E i j input item a (af_finished_at failure) None
     else \<exists>disposition. failed_queue_disposition_event powf E j input item a failure now_ms = Ok disposition
       \<and> evs = [failed_attempt_event E i input a failure, disposition]"
  using assms unfolding fail_claimed_attempt_def
  by (auto elim!: and_then_OkE split: if_splits intro: that)

lemma complete_closes:
  assumes "complete_claimed_attempt E T claim now_ms identities completion d = Ok (d', events)"
  obtains (cancelled) a item input result where "load_claimed_attempt E claim now_ms d = Ok (a, item, input)"
    "ac_disposition completion = DispositionCancelled \<or> q_cancellation_requested_event_id item \<noteq> None"
    "close_attempt E T claim ''release completed cancellation''
       (live_cancelled_events E (hd identities) (last identities) input item a (ac_finished_at completion) (Some result)) d = Ok (d', events)"
  | (succeeded) a item input completed_at controls result where "load_claimed_attempt E claim now_ms d = Ok (a, item, input)"
    "ac_disposition completion = DispositionSucceeded" "q_cancellation_requested_event_id item = None"
    "completion_controls T completion = Ok (completed_at, controls)" "length identities = length controls + 2"
    "commit_completion E T claim identities completion completed_at controls result a item input d = Ok (d', events)"
  using assms unfolding complete_claimed_attempt_def Let_def
  by (auto elim!: and_then_OkE split: if_splits attempt_completion_disposition.splits intro: cancelled succeeded)

lemma closed_claim:
  assumes "fail_claimed_attempt powf E T claim now_ms i j failure d = Ok (d', events)
    \<or> complete_claimed_attempt E T claim now_ms identities completion d = Ok (d', events)"
  obtains operation d1 where "release_claim_in_transaction claim operation d1 = Ok d'"
  using assms
proof
  assume "fail_claimed_attempt powf E T claim now_ms i j failure d = Ok (d', events)"
  then show thesis by (elim fail_closes close_attempt_split) (rule that)
next
  assume "complete_claimed_attempt E T claim now_ms identities completion d = Ok (d', events)"
  then show thesis
  proof (cases rule: complete_closes)
    case (cancelled a item input result)
    from cancelled(3) show thesis by (elim close_attempt_split) (rule that)
  next
    case (succeeded a item input completed_at controls result)
    from succeeded(6) show thesis by (auto simp: commit_completion_def elim!: and_then_OkE intro: that)
  qed
qed

section \<open>Rows\<close>

lemma attempt_fields_read:
  assumes "attempt_fields_of_event E ev = Ok f" "map_get (ev_payload ev) ''attempt_id'' = Some (JString x)"
    "map_get (ev_payload ev) ''status'' = Some (JString (attempt_status_display s))"
  shows "af_attempt_id f = x" "af_status f = s"
proof -
  from assms(1) have "required_runtime_id ev ''attempt_id'' = Ok (af_attempt_id f)" "lifecycle_attempt_status ev = Ok (af_status f)"
    unfolding attempt_fields_of_event_def Let_def by (auto elim!: and_then_OkE)
  then show "af_attempt_id f = x" "af_status f = s"
    using assms(2,3)
    by (auto simp: lifecycle_attempt_status_def Let_def required_runtime_id_def required_payload_string_def attempt_status_text.parse_display
        elim!: and_then_OkE split: if_splits)
qed

lemma upserted_attempt:
  assumes "upsert_attempt a d = Ok d'"
  shows "\<exists>row \<in> set (db_attempts d'). at_id row = at_id a" "\<forall>row \<in> set (db_attempts d'). at_id row = at_id a \<longrightarrow> at_status row = at_status a"
proof -
  have merged: "at_id (merge_attempt a x) = at_id x" "at_status (merge_attempt a x) = at_status a" for x by (simp_all add: merge_attempt_def)
  have "(\<exists>row \<in> set (db_attempts d'). at_id row = at_id a) \<and> (\<forall>row \<in> set (db_attempts d'). at_id row = at_id a \<longrightarrow> at_status row = at_status a)"
  proof (cases "find (\<lambda>x. at_id x = at_id a) (db_attempts d)")
    case None
    then have "d' = d\<lparr>db_attempts := db_attempts d @ [a]\<rparr>" using assms by (simp add: upsert_attempt_def Let_def split: if_splits)
    then show ?thesis using None by (auto simp: find_None_iff)
  next
    case (Some old)
    then have d': "d' = d\<lparr>db_attempts := sql_update (\<lambda>x. at_id x = at_id a) (merge_attempt a) (db_attempts d)\<rparr>"
      using assms by (simp add: upsert_attempt_def Let_def split: if_splits)
    have "old \<in> set (db_attempts d)" "at_id old = at_id a" using find_SomeD [OF Some] by simp_all
    then have "merge_attempt a old \<in> set (db_attempts d')" by (force simp: d' sql_update_def)
    then have "\<exists>row \<in> set (db_attempts d'). at_id row = at_id a" using merged \<open>at_id old = at_id a\<close> by metis
    moreover have "\<forall>row \<in> set (db_attempts d'). at_id row = at_id a \<longrightarrow> at_status row = at_status a"
      by (auto simp: d' sql_update_def merged)
    ultimately show ?thesis ..
  qed
  then show "\<exists>row \<in> set (db_attempts d'). at_id row = at_id a"
    "\<forall>row \<in> set (db_attempts d'). at_id row = at_id a \<longrightarrow> at_status row = at_status a" by simp_all
qed

lemma attempt_indexed:
  assumes "index_attempt E ev d = Ok d'" "map_get (ev_payload ev) ''attempt_id'' = Some (JString x)"
    "map_get (ev_payload ev) ''status'' = Some (JString (attempt_status_display s))"
  shows "\<exists>row \<in> set (db_attempts d'). at_id row = x" "\<forall>row \<in> set (db_attempts d'). at_id row = x \<longrightarrow> at_status row = attempt_status_display s"
proof -
  from assms(1) obtain f a d1 where f: "attempt_fields_of_event E ev = Ok f" and up: "upsert_attempt a d = Ok d1"
    and a: "at_id a = af_attempt_id f" "at_status a = attempt_status_display (af_status f)" and d': "db_attempts d' = db_attempts d1"
    unfolding index_attempt_def by (auto elim!: and_then_OkE)
  show "\<exists>row \<in> set (db_attempts d'). at_id row = x"
    "\<forall>row \<in> set (db_attempts d'). at_id row = x \<longrightarrow> at_status row = attempt_status_display s"
    using upserted_attempt [OF up] a attempt_fields_read [OF f assms(2,3)] by (simp_all add: d')
qed


text \<open>What one closing event leaves of the attempt, and what the other leaves of the item.\<close>

lemma index_closed_attempt:
  assumes "index_event E T (attempt_terminal_event i input a s payload\<lparr>ev_cursor := c\<rparr>) d = Ok d'"
    "map_get payload ''attempt_id'' = Some (JString (a_id a))" "map_get payload ''status'' = Some (JString (attempt_status_display s))"
  shows "\<exists>row \<in> set (db_attempts d'). at_id row = a_id a"
    "\<forall>row \<in> set (db_attempts d'). at_id row = a_id a \<longrightarrow> at_status row = attempt_status_display s"
proof -
  let ?ev = "attempt_terminal_event i input a s payload\<lparr>ev_cursor := c\<rparr>"
  have p: "ev_payload ?ev = payload" by (simp add: attempt_terminal_event_def runtime_event_def)
  have "index_event E T ?ev d = index_attempt E ?ev d"
    by (simp add: index_event_def attempt_terminal_event_def runtime_event_def)
  then show "\<exists>row \<in> set (db_attempts d'). at_id row = a_id a"
    "\<forall>row \<in> set (db_attempts d'). at_id row = a_id a \<longrightarrow> at_status row = attempt_status_display s"
    using attempt_indexed [of E ?ev d d' "a_id a" s] assms by (simp_all add: p)
qed

lemma index_closed_item:
  assumes "items_ok d" "index_event E T ev d = Ok d'" "ev_event_type ev = ''runtime.queue_item.'' @ queue_status_display s"
    "map_get (ev_payload ev) ''queue_item_id'' = Some (JString x)"
    "map_get (ev_payload ev) ''status'' = Some (JString (queue_status_display s))"
  shows "\<exists>r \<in> set (db_queue_items d'). qi_id r = x \<and> qi_status r = queue_status_display s" "db_attempts d' = db_attempts d"
proof -
  have ix: "index_queue_item E ev d = Ok d'"
    using assms(2,3) by (cases s) (simp_all add: index_event_def)
  obtain s' x' t where *: "lifecycle_queue_status ev = Ok s'" "required_runtime_id ev ''queue_item_id'' = Ok x'"
    "required_payload_string ev ''target_agent'' True = Ok t"
    by (rule index_queue_item_split [OF ix]) blast
  have "s' = s" "x' = x"
    using *(1,2) assms(4,5)
    by (auto simp: lifecycle_queue_status_def required_runtime_id_def required_payload_string_def queue_status_text.parse_display
        elim!: and_then_OkE split: if_splits)
  then show "\<exists>r \<in> set (db_queue_items d'). qi_id r = x \<and> qi_status r = queue_status_display s"
    using queue_item_indexed [OF assms(1) ix *] by auto
  show "db_attempts d' = db_attempts d" using index_queue_item_frame [OF ix] by (simp add: apart_from_queue_def)
qed


lemma close_appends_two:
  assumes "close_attempt E T claim operation [e1, e2] d = Ok (d', events)" "length (db_journal d') = length (db_journal d) + 2"
  obtains row1 c1 d1 row2 c2 d2 where "index_event E T (e1\<lparr>ev_cursor := c1\<rparr>) (grow [row1] d) = Ok d1"
    "index_event E T (e2\<lparr>ev_cursor := c2\<rparr>) (grow [row2] d1) = Ok d2" "d' = delete_queue_claims (owns claim) d2"
proof -
  obtain d2 where ev: "append_runtime_events E T [e1, e2] d = Ok (d2, events)" and rel: "release_claim_in_transaction claim operation d2 = Ok d'"
    by (rule close_attempt_split [OF assms(1)])
  from ev obtain d1 o1 o2 where a1: "append_runtime_event E T e1 d = Ok (d1, o1)" and a2: "append_runtime_event E T e2 d1 = Ok (d2, o2)"
    by (auto elim!: and_then_OkE)
  have d': "d' = delete_queue_claims (owns claim) d2" by (rule released(2) [OF rel])
  have n: "length (db_journal d2) = length (db_journal d) + 2" using assms(2) by (simp add: d')
  have grew: "length (db_journal y) \<le> Suc (length (db_journal x))" if "append_runtime_event E T ev x = Ok (y, o3)" for ev x y o3
    using append_runtime_cases [OF that] index_event_journal by (metis grow_sel(1) le_Suc_eq length_append_singleton le_refl)
  from a1 show thesis
  proof (cases rule: append_runtime_cases)
    case known
    then show thesis using grew [OF a2] n by simp
  next
    case (fresh row1 c1)
    note first = this
    from a2 show thesis
    proof (cases rule: append_runtime_cases)
      case known
      then show thesis using grew [OF a1] n by simp
    next
      case (fresh row2 c2)
      from that [OF first(1) fresh(1) d'] show thesis .
    qed
  qed
qed

lemma disposition_event:
  assumes "failed_queue_disposition_event powf E j input item a failure now_ms = Ok ev"
  defines "s \<equiv> (if classify_attempt_failure_code (af_error_code failure) = ClassRetryable
      \<and> permits_retry_after (af_retry_policy failure) (a_attempt_number a) then QAvailable else QDeadLettered)"
  shows "ev_event_type ev = ''runtime.queue_item.'' @ queue_status_display s"
    "map_get (ev_payload ev) ''queue_item_id'' = Some (JString (q_id item))"
    "map_get (ev_payload ev) ''status'' = Some (JString (queue_status_display s))"
  using assms
  by (auto simp: failed_queue_disposition_event_def queue_disposition_event_def runtime_event_def Let_def with_fields_get
      queue_item_payload_def object_of_get opt_field_def elim!: and_then_OkE split: if_splits option.splits)

lemma attempt_payload_get:
  "map_get (attempt_payload E a s) ''attempt_id'' = Some (JString (a_id a))"
  "map_get (attempt_payload E a s) ''status'' = Some (JString (attempt_status_display s))"
  by (simp_all add: attempt_payload_def object_of_get opt_field_def split: option.split)

text \<open>The two events of a failure, whichever way it goes.\<close>

lemma failure_events:
  assumes "if cancelled then evs = live_cancelled_events E i j input item a finished_at None
     else \<exists>disposition. failed_queue_disposition_event powf E j input item a failure now_ms = Ok disposition
       \<and> evs = [failed_attempt_event E i input a failure, disposition]"
  defines "s \<equiv> (if cancelled then QCancelled else if classify_attempt_failure_code (af_error_code failure) = ClassRetryable
      \<and> permits_retry_after (af_retry_policy failure) (a_attempt_number a) then QAvailable else QDeadLettered)"
    and "s' \<equiv> (if cancelled then ACancelled else AFailed)"
  obtains payload e2 where "evs = [attempt_terminal_event i input a s' payload, e2]"
    "map_get payload ''attempt_id'' = Some (JString (a_id a))" "map_get payload ''status'' = Some (JString (attempt_status_display s'))"
    "ev_event_type e2 = ''runtime.queue_item.'' @ queue_status_display s"
    "map_get (ev_payload e2) ''queue_item_id'' = Some (JString (q_id item))"
    "map_get (ev_payload e2) ''status'' = Some (JString (queue_status_display s))"
proof (cases cancelled)
  case True
  then have s: "s = QCancelled" "s' = ACancelled" by (simp_all add: s_def s'_def)
  from True assms(1) have evs: "evs = live_cancelled_events E i j input item a finished_at None" by simp
  show thesis
    by (rule that [unfolded s, OF evs [unfolded live_cancelled_events_def Let_def]])
      (simp_all add: with_fields_get attempt_payload_get queue_disposition_event_def runtime_event_def queue_item_payload_def
        object_of_get opt_field_def split: option.split)
next
  case False
  then obtain disposition where d: "failed_queue_disposition_event powf E j input item a failure now_ms = Ok disposition"
    and evs: "evs = [failed_attempt_event E i input a failure, disposition]" using assms(1) by auto
  from False have s: "s' = AFailed" by (simp add: s'_def)
  show thesis
    by (rule that [unfolded s, OF evs [unfolded failed_attempt_event_def]])
      (use disposition_event [OF d] False in \<open>simp_all add: with_fields_get attempt_payload_get s_def\<close>)
qed

section \<open>Order of a completion\<close>

lemma checked_positions:
  "check_controls T seen controls = Ok () \<Longrightarrow> distinct (map control_position controls) \<and> set (map control_position controls) \<inter> set seen = {}"
proof (induction controls arbitrary: seen)
  case (Cons control controls)
  then have "control_position control \<notin> set seen" and "check_controls T (control_position control # seen) controls = Ok ()"
    by (auto elim!: and_then_OkE split: if_splits)
  from this(1) Cons.IH [OF this(2)] show ?case by auto
qed simp

lemma ordered_controls:
  assumes "completion_controls T completion = Ok (completed_at, controls)"
  shows "mset controls = mset (ac_controls completion)" "sorted_wrt (\<lambda>c c'. control_position c < control_position c') controls"
proof -
  have c: "controls = sort_key control_position (ac_controls completion)" and ok: "check_controls T [] (ac_controls completion) = Ok ()"
    using assms by (auto simp: completion_controls_def elim!: and_then_OkE split: if_splits)
  show "mset controls = mset (ac_controls completion)" by (simp add: c)
  have "distinct (map control_position controls)"
    using checked_positions [OF ok] by (simp add: c distinct_map)
  moreover have "sorted (map control_position controls)" by (simp add: c)
  ultimately have "sorted_wrt (<) (map control_position controls)" by (simp add: strict_sorted_iff)
  then show "sorted_wrt (\<lambda>c c'. control_position c < control_position c') controls" by (simp add: sorted_wrt_map)
qed

text \<open>The events that a control may leave: one with the key of its item and position, or for a
  cancellation none when the resource was closed already and else the one that closes it.\<close>

definition control_events :: "queue_item \<Rightarrow> attempt_control \<Rightarrow> event list \<Rightarrow> bool" where
  "control_events item control events = (case control of
     ControlPublish _ event_type _ _ position \<Rightarrow> map ev_idempotency_key events = [Some (''agent.publish:'' @ q_id item @ '':'' @ show_nat position)]
         \<and> map ev_event_type events = [event_type]
       \<or> map ev_idempotency_key events = [Some (''agent.defer:'' @ q_id item @ '':'' @ show_nat position)]
         \<and> map ev_event_type events = [''runtime.deferred_publication.created'']
   | ControlWait _ _ _ _ position \<Rightarrow> map ev_idempotency_key events = [Some (''agent.wait:'' @ q_id item @ '':'' @ show_nat position)]
         \<and> map ev_event_type events = [''runtime.wait.created'']
   | ControlCancel handle _ _ _ _ \<Rightarrow> events = []
       \<or> prefix ''wait_'' handle \<and> map ev_idempotency_key events = [Some (''wait.cancelled:'' @ handle)]
         \<and> map ev_event_type events = [''runtime.wait.cancelled'']
       \<or> prefix ''pub_'' handle \<and> map ev_idempotency_key events = [Some (''deferred_publication.cancelled:'' @ handle)]
         \<and> map ev_event_type events = [''runtime.deferred_publication.cancelled''])"

lemma control_events_like:
  assumes "ev_idempotency_key ev' = ev_idempotency_key ev" "ev_event_type ev' = ev_event_type ev"
  shows "control_events item control [ev'] = control_events item control [ev]"
  by (cases control) (simp_all only: control_events_def attempt_control.case list.map assms list.distinct)

lemma completion_control_events:
  assumes "completion_control_event E T identity control completed_at input item a completed = Ok ev"
  shows "control_events item control [ev]"
proof (cases control)
  case (ControlPublish handle event_type payload moment position)
  with assms obtain immediate where "(if immediate
     then Ok (control_event identity event_type (''agent:'' @ a_target_agent a) payload
            (''agent.publish:'' @ q_id item @ '':'' @ show_nat position) input a completed)
     else Ok (control_event identity ''runtime.deferred_publication.created'' ''zeta''
            (object_of [(''handle'', JString handle), (''event_type'', JString event_type), (''payload'', JObject payload),
               (''publish_at'', or_null moment), (''source_agent_id'', JString (a_target_agent a)),
               (''source_session_id'', or_null (a_session_id a)), (''source_queue_item_id'', JString (q_id item)),
               (''position'', JNumber (num_from_int E (int position)))])
            (''agent.defer:'' @ q_id item @ '':'' @ show_nat position) input a completed)) = (Ok ev :: (dispatch_error, event) result)"
    by (auto elim!: and_then_OkE)
  then show ?thesis
    by (cases immediate) (auto simp only: control_events_def ControlPublish attempt_control.case list.map control_event_def event.simps if_True if_False sum.inject)
next
  case (ControlWait handle event_type wanted deadline position)
  then show ?thesis using assms by (auto simp: control_events_def control_event_def)
qed (use assms in simp)

lemma loaded_wait_handle: "load_wait E handle d = Ok (Some w) \<Longrightarrow> w_handle w = handle"
  by (cases "filter (\<lambda>w. wt_handle w = handle) (db_waits d)")
    (auto simp: load_wait_def read_head_def wait_into_model_def filter_eq_Cons_iff elim!: and_then_OkE)

lemma loaded_deferred_handle: "load_deferred_publication E handle d = Ok (Some p) \<Longrightarrow> p_handle p = handle"
  by (cases "filter (\<lambda>p. dp_handle p = handle) (db_deferred d)")
    (auto simp: load_deferred_publication_def read_head_def deferred_into_model_def Let_def filter_eq_Cons_iff
      elim!: and_then_OkE split: if_splits)

lemma resource_cancellation_event:
  assumes "append_resource_cancellation E T handle kind table ev d = Ok (d', outcome)"
  obtains ev' where "rc_event outcome = Some ev'" "ev_event_type ev' = ev_event_type ev" "ev_idempotency_key ev' = ev_idempotency_key ev"
proof -
  from assms obtain out where out: "append_runtime_event E T ev d = Ok (d', out)" "rc_event outcome = Some (out_event out)"
    by (auto simp: append_resource_cancellation_def elim!: and_then_OkE split: if_splits)
  show thesis by (rule that [OF out(2) append_runtime_type(1,2) [OF out(1)]])
qed

lemma wait_cancellation_events:
  assumes "cancel_wait E T handle reason a s identity d = Ok (d', outcome)" "prefix ''wait_'' handle"
  shows "control_events item (ControlCancel handle r sa ss p) (case rc_event outcome of Some ev \<Rightarrow> [ev] | None \<Rightarrow> [])"
proof (cases "rc_event outcome")
  case (Some ev)
  from assms(1) obtain w where w: "load_wait E handle d = Ok (Some w)"
    and step: "(case w_status w of
         WaitActive \<Rightarrow> append_resource_cancellation E T handle ResourceWait ''waits'' (wait_cancelled_event identity w reason a s) d
       | WaitMatched \<Rightarrow> Ok (d, terminal_resource_cancellation handle ResourceWait ResourceMatched)
       | WaitTimedOut \<Rightarrow> Ok (d, terminal_resource_cancellation handle ResourceWait ResourceTimedOut)
       | WaitCancelled \<Rightarrow> Ok (d, terminal_resource_cancellation handle ResourceWait ResourceCancelled)) = Ok (d', outcome)"
    by (auto simp: cancel_wait_def ok_or_def elim!: and_then_OkE split: option.splits)
  have "w_status w = WaitActive"
    using step Some by (cases "w_status w") (auto simp: terminal_resource_cancellation_def)
  with step have app: "append_resource_cancellation E T handle ResourceWait ''waits'' (wait_cancelled_event identity w reason a s) d = Ok (d', outcome)"
    by simp
  have names: "ev_event_type (wait_cancelled_event identity w reason a s) = ''runtime.wait.cancelled''"
    "ev_idempotency_key (wait_cancelled_event identity w reason a s) = Some (''wait.cancelled:'' @ handle)"
    using loaded_wait_handle [OF w] by (simp_all add: wait_cancelled_event_def runtime_event_def)
  obtain ev' where ev': "rc_event outcome = Some ev'" "ev_event_type ev' = ''runtime.wait.cancelled''"
    "ev_idempotency_key ev' = Some (''wait.cancelled:'' @ handle)"
    by (rule resource_cancellation_event [OF app, unfolded names])
  show ?thesis
    unfolding control_events_def attempt_control.case ev'(1) option.case list.map ev'(2,3) using assms(2) by blast
qed (simp add: control_events_def)

lemma deferred_cancellation_events:
  assumes "cancel_deferred_publication E T handle reason a s identity d = Ok (d', outcome)" "prefix ''pub_'' handle"
  shows "control_events item (ControlCancel handle r sa ss p) (case rc_event outcome of Some ev \<Rightarrow> [ev] | None \<Rightarrow> [])"
proof (cases "rc_event outcome")
  case (Some ev)
  from assms(1) obtain q where q: "load_deferred_publication E handle d = Ok (Some q)"
    and step: "(case p_status q of
         PublicationPending \<Rightarrow> append_resource_cancellation E T handle ResourceDeferredPublication ''deferred_publications''
           (deferred_publication_cancelled_event E identity q reason a s) d
       | PublicationPublished \<Rightarrow> Ok (d, terminal_resource_cancellation handle ResourceDeferredPublication ResourcePublished)
       | PublicationCancelled \<Rightarrow> Ok (d, terminal_resource_cancellation handle ResourceDeferredPublication ResourceCancelled)
       | PublicationClaimed \<Rightarrow> Err (corrupt_projection ''deferred_publications'' ''status'')) = Ok (d', outcome)"
    by (auto simp: cancel_deferred_publication_def ok_or_def elim!: and_then_OkE split: option.splits)
  have "p_status q = PublicationPending"
    using step Some by (cases "p_status q") (auto simp: terminal_resource_cancellation_def)
  with step have app: "append_resource_cancellation E T handle ResourceDeferredPublication ''deferred_publications''
      (deferred_publication_cancelled_event E identity q reason a s) d = Ok (d', outcome)"
    by simp
  have names: "ev_event_type (deferred_publication_cancelled_event E identity q reason a s) = ''runtime.deferred_publication.cancelled''"
    "ev_idempotency_key (deferred_publication_cancelled_event E identity q reason a s) = Some (''deferred_publication.cancelled:'' @ handle)"
    using loaded_deferred_handle [OF q] by (simp_all add: deferred_publication_cancelled_event_def runtime_event_def)
  obtain ev' where ev': "rc_event outcome = Some ev'" "ev_event_type ev' = ''runtime.deferred_publication.cancelled''"
    "ev_idempotency_key ev' = Some (''deferred_publication.cancelled:'' @ handle)"
    by (rule resource_cancellation_event [OF app, unfolded names])
  show ?thesis
    unfolding control_events_def attempt_control.case ev'(1) option.case list.map ev'(2,3) using assms(2) by blast
qed (simp add: control_events_def)

lemma cancellation_events:
  assumes "resource_kind_for_handle handle = Ok kind"
    "cancel_resource_in_transaction E T handle reason a s identity kind d = Ok (d', outcome)"
  shows "control_events item (ControlCancel handle r sa ss p) (case rc_event outcome of Some ev \<Rightarrow> [ev] | None \<Rightarrow> [])"
proof (cases kind)
  case ResourceWait
  then have "prefix ''wait_'' handle" using assms(1) by (auto simp: resource_kind_for_handle_def split: if_splits)
  then show ?thesis
    using assms(2) ResourceWait wait_cancellation_events by (simp add: cancel_resource_in_transaction_def)
next
  case ResourceDeferredPublication
  then have "prefix ''pub_'' handle" using assms(1) by (auto simp: resource_kind_for_handle_def split: if_splits)
  then show ?thesis
    using assms(2) ResourceDeferredPublication deferred_cancellation_events by (simp add: cancel_resource_in_transaction_def)
qed

lemma apply_control_events:
  assumes "apply_control E T completed_at input item a completed control identity d = Ok (d', events)"
  shows "control_events item control events"
proof (cases "\<exists>h r sa ss p. control = ControlCancel h r sa ss p")
  case True
  then obtain h r sa ss p where control: "control = ControlCancel h r sa ss p" by blast
  with assms obtain kind outcome where "resource_kind_for_handle h = Ok kind"
    "cancel_resource_in_transaction E T h r (Some sa) (Some ss) identity kind d = Ok (d', outcome)"
    "events = (case rc_event outcome of Some ev \<Rightarrow> [ev] | None \<Rightarrow> [])"
    by (auto simp: apply_control_def elim!: and_then_OkE split: if_splits)
  then show ?thesis using cancellation_events control by simp
next
  case False
  then obtain ev out where ev: "completion_control_event E T identity control completed_at input item a completed = Ok ev"
    and out: "append_runtime_event E T ev d = Ok (d', out)" and events: "events = [out_event out]"
    using assms by (cases control) (auto simp: apply_control_def simp del: completion_control_event.simps elim!: and_then_OkE)
  show ?thesis
    unfolding events control_events_like [OF append_runtime_type(2,1) [OF out]] by (rule completion_control_events [OF ev])
qed

lemma apply_controls_events:
  assumes "apply_controls E T completed_at input item a completed pairs d = Ok (d', events)"
  shows "\<exists>parts. events = concat parts \<and> list_all2 (control_events item) (map fst pairs) parts"
  using assms
proof (induction pairs arbitrary: d events)
  case (Cons p pairs)
  obtain control identity where p: "p = (control, identity)" by fastforce
  from Cons.prems obtain d1 here rest where here: "apply_control E T completed_at input item a completed control identity d = Ok (d1, here)"
    and rest: "apply_controls E T completed_at input item a completed pairs d1 = Ok (d', rest)" and events: "events = here @ rest"
    by (auto simp: p elim!: and_then_OkE)
  from Cons.IH [OF rest] obtain parts where "rest = concat parts" "list_all2 (control_events item) (map fst pairs) parts" by blast
  then show ?case using apply_control_events [OF here] events p by (intro exI [of _ "here # parts"]) simp
qed simp

section \<open>Properties\<close>

text \<open>C20: once an attempt was failed or completed under a claim, that claim starts, fails and completes nothing any more,
  and every lock it held is free.\<close>

theorem closed_attempt_spends_its_claim:
  assumes "fail_claimed_attempt powf E T claim now_ms i j failure d = Ok (d', events)
    \<or> complete_claimed_attempt E T claim now_ms identities completion d = Ok (d', events)"
  shows "load_claimed_attempt E claim t d' = Err (ClaimNotCurrent (cl_queue_item_id claim))
    \<and> \<not> is_ok (start_claimed_attempt E T claim t q r started_at run_id d')
    \<and> \<not> is_ok (fail_claimed_attempt powf E T claim t q r failure' d')
    \<and> \<not> is_ok (complete_claimed_attempt E T claim t identities' completion' d')
    \<and> \<not> list_ex (\<lambda>l. lk_owner l = cl_token claim) (db_locks d')"
proof -
  obtain operation d1 where rel: "release_claim_in_transaction claim operation d1 = Ok d'" by (rule closed_claim [OF assms])
  have stale: "\<not> claim_is_current claim t d'" by (rule released(1) [OF rel])
  have load: "load_claimed_attempt E claim t d' = Err (ClaimNotCurrent (cl_queue_item_id claim))"
    using stale by (simp add: load_claimed_attempt_def)
  have start: "\<not> is_ok (start_claimed_attempt E T claim t q r started_at run_id d')"
    using stale by (simp add: start_claimed_attempt_def)
  have "fail_claimed_attempt powf E T claim t q r failure' d' \<noteq> Ok x" for x
    using load by (cases x) (auto elim!: fail_closes)
  moreover have "complete_claimed_attempt E T claim t identities' completion' d' \<noteq> Ok x" for x
    using load by (cases x) (auto elim!: complete_closes)
  moreover have "\<not> list_ex (\<lambda>l. lk_owner l = cl_token claim) (db_locks d')"
    by (rule released(3) [OF rel])
  ultimately show ?thesis using load start by (auto simp: is_ok_def split: sum.splits)
qed

theorem closed_attempt_spends_its_claim_witness:
  "\<exists>d d' events. fail_claimed_attempt (\<lambda>x _. x) reading_env no_time (sample_claim ''qi_e1'' ''t1'' 15) 11 \<lparr>ri_id = ''r1'', ri_timestamp_ms = 8\<rparr>
       \<lparr>ri_id = ''r2'', ri_timestamp_ms = 8\<rparr> sample_failure d = Ok (d', events)
     \<and> load_claimed_attempt reading_env (sample_claim ''qi_e1'' ''t1'' 15) 12 d' = Err (ClaimNotCurrent ''qi_e1'')"
proof -
  obtain d d' events where f: "fail_claimed_attempt (\<lambda>x _. x) reading_env no_time (sample_claim ''qi_e1'' ''t1'' 15) 11
      \<lparr>ri_id = ''r1'', ri_timestamp_ms = 8\<rparr> \<lparr>ri_id = ''r2'', ri_timestamp_ms = 8\<rparr> sample_failure d = Ok (d', events)"
    by (rule failed_sample)
  have "load_claimed_attempt reading_env (sample_claim ''qi_e1'' ''t1'' 15) 12 d' = Err (ClaimNotCurrent (cl_queue_item_id (sample_claim ''qi_e1'' ''t1'' 15)))"
    using closed_attempt_spends_its_claim [OF disjI1 [OF f]] by blast
  then have "load_claimed_attempt reading_env (sample_claim ''qi_e1'' ''t1'' 15) 12 d' = Err (ClaimNotCurrent ''qi_e1'')"
    by (simp add: sample_claim_def)
  with f show ?thesis by blast
qed

text \<open>C17: failing an attempt settles it.  A requested cancellation wins; otherwise the item is available again exactly when
  the failure is retryable and attempts are left, and dead-lettered else.  The attempt is closed, its item has the
  status the last event names, and both are the two events that were appended.\<close>

theorem failed_attempt_settles:
  assumes ok: "tables_ok d" and fail: "fail_claimed_attempt powf E T claim now_ms i j failure d = Ok (d', events)"
    and two: "length (db_journal d') = length (db_journal d) + 2"
    and load: "load_claimed_attempt E claim now_ms d = Ok (a, item, input)"
  defines "cancelled \<equiv> q_cancellation_requested_event_id item \<noteq> None"
    and "retry \<equiv> classify_attempt_failure_code (af_error_code failure) = ClassRetryable
      \<and> a_attempt_number a < rp_max_attempts (af_retry_policy failure)"
  shows "map ev_event_type events = (if cancelled then [''runtime.attempt.cancelled'', ''runtime.queue_item.cancelled'']
      else [''runtime.attempt.failed'', if retry then ''runtime.queue_item.available'' else ''runtime.queue_item.dead_lettered''])
    \<and> (\<exists>r \<in> set (db_queue_items d'). qi_id r = q_id item
        \<and> qi_status r = (if cancelled then ''cancelled'' else if retry then ''available'' else ''dead_lettered''))
    \<and> (\<exists>row \<in> set (db_attempts d'). at_id row = a_id a)
    \<and> (\<forall>row \<in> set (db_attempts d'). at_id row = a_id a \<longrightarrow> at_status row = (if cancelled then ''cancelled'' else ''failed''))"
proof -
  obtain evs operation where close: "close_attempt E T claim operation evs d = Ok (d', events)"
    and evs: "if cancelled then evs = live_cancelled_events E i j input item a (af_finished_at failure) None
       else \<exists>disposition. failed_queue_disposition_event powf E j input item a failure now_ms = Ok disposition
         \<and> evs = [failed_attempt_event E i input a failure, disposition]"
    using fail by (rule fail_closes) (use load in \<open>auto simp: cancelled_def\<close>)
  define s where "s = (if cancelled then QCancelled else if retry then QAvailable else QDeadLettered)"
  define s' where "s' = (if cancelled then ACancelled else AFailed)"
  obtain payload e2 where e: "evs = [attempt_terminal_event i input a s' payload, e2]"
    and p: "map_get payload ''attempt_id'' = Some (JString (a_id a))" "map_get payload ''status'' = Some (JString (attempt_status_display s'))"
    and e2: "ev_event_type e2 = ''runtime.queue_item.'' @ queue_status_display s"
      "map_get (ev_payload e2) ''queue_item_id'' = Some (JString (q_id item))"
      "map_get (ev_payload e2) ''status'' = Some (JString (queue_status_display s))"
    by (rule failure_events [OF evs]) (simp_all add: s_def s'_def retry_def permits_retry_after_def)
  obtain row1 c1 d1 row2 c2 d2 where
    ix1: "index_event E T (attempt_terminal_event i input a s' payload\<lparr>ev_cursor := c1\<rparr>) (grow [row1] d) = Ok d1"
    and ix2: "index_event E T (e2\<lparr>ev_cursor := c2\<rparr>) (grow [row2] d1) = Ok d2" and d': "d' = delete_queue_claims (owns claim) d2"
    using close_appends_two [OF close [unfolded e] two] .
  have ok1: "items_ok (grow [row2] d1)"
    using index_event_ok [OF tables_ok_grow [OF ok] ix1] tables_ok_grow by (auto simp: tables_ok_def)
  have "map ev_event_type events = map ev_event_type evs"
    by (rule close_attempt_split [OF close]) (rule append_runtime_events_types)
  moreover note index_closed_attempt [OF ix1 p] index_closed_item [OF ok1 ix2, of s "q_id item"]
  ultimately show ?thesis
    using e e2 by (auto simp: d' s_def s'_def attempt_terminal_event_def runtime_event_def)
qed

theorem failed_attempt_settles_witness:
  "\<exists>d d' events. fail_claimed_attempt (\<lambda>x _. x) reading_env no_time (sample_claim ''qi_e1'' ''t1'' 15) 11 \<lparr>ri_id = ''r1'', ri_timestamp_ms = 8\<rparr>
       \<lparr>ri_id = ''r2'', ri_timestamp_ms = 8\<rparr> sample_failure d = Ok (d', events)
     \<and> map ev_event_type events = [''runtime.attempt.failed'', ''runtime.queue_item.dead_lettered'']
     \<and> (\<exists>r \<in> set (db_queue_items d'). qi_id r = ''qi_e1'' \<and> qi_status r = ''dead_lettered'')"
proof -
  obtain d d' events input where s: "tables_ok d"
    "load_claimed_attempt reading_env (sample_claim ''qi_e1'' ''t1'' 15) 11 d = Ok (running_model, routed_item 15 1, input)"
    "fail_claimed_attempt (\<lambda>x _. x) reading_env no_time (sample_claim ''qi_e1'' ''t1'' 15) 11 \<lparr>ri_id = ''r1'', ri_timestamp_ms = 8\<rparr>
       \<lparr>ri_id = ''r2'', ri_timestamp_ms = 8\<rparr> sample_failure d = Ok (d', events)"
    "length (db_journal d') = length (db_journal d) + 2"
    by (rule failed_sample)
  have "q_cancellation_requested_event_id (routed_item 15 1) = None" "q_id (routed_item 15 1) = ''qi_e1''"
    "classify_attempt_failure_code (af_error_code sample_failure) \<noteq> ClassRetryable"
    by (simp_all add: routed_item_def sample_failure_def)
  with failed_attempt_settles [OF s(1,3,4,2)]
  have "map ev_event_type events = [''runtime.attempt.failed'', ''runtime.queue_item.dead_lettered'']"
    "\<exists>r \<in> set (db_queue_items d'). qi_id r = ''qi_e1'' \<and> qi_status r = ''dead_lettered''"
    by simp_all
  with s(3) show ?thesis by (intro exI conjI)
qed

text \<open>C19: completing an attempt appends its events in order.  When the attempt is cancelled, or its cancellation was requested
  before, the two cancellation events are the only ones.  Otherwise the event of the attempt comes first and the event
  of the item last, and between them are the events of the controls in ascending order of position, whatever order
  they were proposed in.\<close>

theorem completion_events_in_order:
  assumes complete: "complete_claimed_attempt E T claim now_ms identities completion d = Ok (d', events)"
    and load: "load_claimed_attempt E claim now_ms d = Ok (a, item, input)"
  shows "if ac_disposition completion = DispositionCancelled \<or> q_cancellation_requested_event_id item \<noteq> None
    then map ev_event_type events = [''runtime.attempt.cancelled'', ''runtime.queue_item.cancelled'']
    else \<exists>completed controls parts closed. events = completed # concat parts @ [closed]
      \<and> ev_event_type completed = ''runtime.attempt.completed'' \<and> ev_event_type closed = ''runtime.queue_item.completed''
      \<and> mset controls = mset (ac_controls completion)
      \<and> sorted_wrt (\<lambda>c c'. control_position c < control_position c') controls
      \<and> list_all2 (control_events item) controls parts"
  using complete
proof (cases rule: complete_closes)
  case (cancelled a' item' input' result)
  show ?thesis using cancelled_types [OF cancelled(3)] cancelled(1,2) load by simp
next
  case (succeeded a' item' input' completed_at controls result)
  then have same: "a' = a" "item' = item" "input' = input" using load by simp_all
  from succeeded(6) obtain d1 completed d2 mid d3 closed where
    first: "append_runtime_event E T (completed_attempt_event E (hd identities) input a completion result) d = Ok (d1, completed)"
    and mid: "apply_controls E T completed_at input item a (out_event completed) (zip controls (butlast (tl identities))) d1 = Ok (d2, mid)"
    and last: "append_runtime_event E T (completed_queue_event (last identities) input item a result) d2 = Ok (d3, closed)"
    and events: "events = out_event completed # mid @ [out_event closed]"
    unfolding commit_completion_def same by (auto elim!: and_then_OkE)
  have "map fst (zip controls (butlast (tl identities))) = controls" using succeeded(5) by simp
  then obtain parts where "mid = concat parts" "list_all2 (control_events item) controls parts" using apply_controls_events [OF mid] by auto
  moreover have "ev_event_type (out_event completed) = ''runtime.attempt.completed''" "ev_event_type (out_event closed) = ''runtime.queue_item.completed''"
    using append_runtime_type(1) [OF first] append_runtime_type(1) [OF last]
    by (simp_all add: completed_attempt_event_def attempt_terminal_event_def completed_queue_event_def runtime_event_def)
  ultimately show ?thesis
    using succeeded(2,3) ordered_controls [OF succeeded(4)] events same by auto
qed

theorem completion_events_in_order_witness:
  "\<exists>d d' events. complete_claimed_attempt reading_env parsing_clock (sample_claim ''qi_e1'' ''t1'' 15) 11 [\<lparr>ri_id = ''r1'', ri_timestamp_ms = 8\<rparr>,
       \<lparr>ri_id = ''r2'', ri_timestamp_ms = 8\<rparr>, \<lparr>ri_id = ''r3'', ri_timestamp_ms = 8\<rparr>] sample_completion d = Ok (d', events) \<and> length events = 3
     \<and> ev_event_type (hd events) = ''runtime.attempt.completed'' \<and> ev_event_type (last events) = ''runtime.queue_item.completed''"
proof -
  obtain d input d' events where s:
    "load_claimed_attempt reading_env (sample_claim ''qi_e1'' ''t1'' 15) 11 d = Ok (running_model, routed_item 15 1, input)"
    "complete_claimed_attempt reading_env parsing_clock (sample_claim ''qi_e1'' ''t1'' 15) 11 [\<lparr>ri_id = ''r1'', ri_timestamp_ms = 8\<rparr>,
       \<lparr>ri_id = ''r2'', ri_timestamp_ms = 8\<rparr>, \<lparr>ri_id = ''r3'', ri_timestamp_ms = 8\<rparr>] sample_completion d = Ok (d', events)"
    "length events = 3"
    by (rule completed_sample)
  have "q_cancellation_requested_event_id (routed_item 15 1) = None" "ac_disposition sample_completion = DispositionSucceeded"
    by (simp_all add: routed_item_def sample_completion_def)
  with completion_events_in_order [OF s(2,1)]
  have "ev_event_type (hd events) = ''runtime.attempt.completed''" "ev_event_type (last events) = ''runtime.queue_item.completed''"
    by auto
  with s(2,3) show ?thesis by blast
qed

end
