(* ===== verification/Cancellation_Order.thy ===== *)
theory Cancellation_Order
  imports Attempt_Outcomes
begin

text \<open>
  What a cancellation means for the worker that holds the item: once the intent is in the table, no outcome that the
  worker reports afterwards is anything but cancelled.
\<close>

section \<open>Recorded intents\<close>

definition requests :: "queue_item_row list \<Rightarrow> (queue_item_id \<times> string option) list" where
  "requests rows = map (\<lambda>r. (qi_id r, qi_cancel_requested_event_id r)) rows"

lemma requests_of: "map_of (requests rows) x = map_option qi_cancel_requested_event_id (find (\<lambda>r. qi_id r = x) rows)"
  by (induction rows) (simp_all add: requests_def)

lemma requests_status: "requests (sql_update P (\<lambda>r. r\<lparr>qi_status := s\<rparr>) rows) = requests rows"
  by (simp add: requests_def sql_update_def)

lemma coord_step_requests: "coord_step E d d' \<Longrightarrow> requests (db_queue_items d') = requests (db_queue_items d)"
proof (induction rule: coord_step.induct)
  case (step_claim w token lease_ms now_ms d d' res)
  have "requests (db_queue_items (fst (reconcile_expired_in_transaction now_ms d))) = requests (db_queue_items d)"
    by (simp add: reconcile_expired_in_transaction_def Let_def requests_status)
  moreover have "db_queue_items d' = db_queue_items (fst (reconcile_expired_in_transaction now_ms d))"
    using step_claim
  proof (rule claim_next_Ok)
    fix until cands
    assume "claim_loop w token until now_ms (fst (reconcile_expired_in_transaction now_ms d)) cands = Ok (d', res)"
    then show "db_queue_items d' = db_queue_items (fst (reconcile_expired_in_transaction now_ms d))"
      by (cases rule: claim_loop_cases) (simp_all add: claimed_db_def)
  qed
  ultimately show ?case by simp
next
  case (step_renew claim lease_ms now_ms d d' renewed)
  then show ?case by (auto simp: renew_claim_def Let_def elim!: and_then_OkE split: if_splits)
next
  case (step_release claim now_ms d d' released)
  then show ?case by (auto simp: release_claim_def Let_def requests_status split: if_splits)
next
  case (step_reconcile now_ms d d' n)
  then show ?case by (auto simp: reconcile_expired_claims_def reconcile_expired_in_transaction_def Let_def requests_status)
qed

lemma coord_run_requests: "(coord_step E)\<^sup>*\<^sup>* d d' \<Longrightarrow> requests (db_queue_items d') = requests (db_queue_items d)"
  by (induction rule: rtranclp_induct) (simp_all add: coord_step_requests)

lemma loaded_request:
  assumes "load_queue_item E x d = Ok (Some item)"
  shows "map_of (requests (db_queue_items d)) x = Some (q_cancellation_requested_event_id item)" "q_id item = x"
proof -
  from assms obtain r where r: "find (\<lambda>r. qi_id r = x) (db_queue_items d) = Some r" "queue_item_into_model E (join_claim d r) r = Ok item"
    by (auto simp: load_queue_item_def elim!: and_then_OkE split: option.splits)
  from r(2) have "q_cancellation_requested_event_id item = qi_cancel_requested_event_id r" "q_id item = qi_id r"
    by (auto simp: queue_item_into_model_def parse_runtime_id_def elim!: and_then_OkE split: if_splits)
  then show "map_of (requests (db_queue_items d)) x = Some (q_cancellation_requested_event_id item)" "q_id item = x"
    using r(1) find_SomeD [OF r(1)] by (simp_all add: requests_of)
qed

lemma loaded_claimed_request:
  assumes "load_claimed_attempt E claim now_ms d = Ok (a, item, input)"
  shows "map_of (requests (db_queue_items d)) (cl_queue_item_id claim) = Some (q_cancellation_requested_event_id item)"
proof -
  have "load_queue_item E (cl_queue_item_id claim) d = Ok (Some item)"
    using assms by (auto simp: load_claimed_attempt_def load_claimed_item_def ok_or_def elim!: and_then_OkE split: if_splits option.splits)
  then show ?thesis by (rule loaded_request)
qed

lemma cancel_requested_split:
  assumes "index_queue_item_cancel_requested ev d = Ok d'"
  obtains item_id named why where "required_runtime_id ev ''queue_item_id'' = Ok item_id"
    "sql_count named (db_queue_items d) = 1" "\<And>r. named r \<Longrightarrow> qi_id r = item_id"
    "db_queue_items d' = sql_update named (\<lambda>r. r\<lparr>
       qi_cancel_requested_event_id := coalesce (qi_cancel_requested_event_id r) (Some (ev_id ev)),
       qi_cancel_requested_at := coalesce (qi_cancel_requested_at r) (Some (ev_timestamp_ms ev)),
       qi_cancel_reason := coalesce (qi_cancel_reason r) why\<rparr>) (db_queue_items d)"
proof -
  from assms obtain item_id e t why where id: "required_runtime_id ev ''queue_item_id'' = Ok item_id"
    and one: "sql_count (\<lambda>r. qi_id r = item_id \<and> qi_event_id r = e \<and> qi_target_agent r = t) (db_queue_items d) = 1"
    and d': "d' = d\<lparr>db_queue_items := sql_update (\<lambda>r. qi_id r = item_id \<and> qi_event_id r = e \<and> qi_target_agent r = t) (\<lambda>r. r\<lparr>
       qi_cancel_requested_event_id := coalesce (qi_cancel_requested_event_id r) (Some (ev_id ev)),
       qi_cancel_requested_at := coalesce (qi_cancel_requested_at r) (Some (ev_timestamp_ms ev)),
       qi_cancel_reason := coalesce (qi_cancel_reason r) why\<rparr>) (db_queue_items d)\<rparr>"
    unfolding index_queue_item_cancel_requested_def Let_def by (auto elim!: and_then_OkE split: if_splits)
  show thesis by (rule that [OF id one]) (simp_all add: d')
qed

text \<open>An intent that was inserted is in the row of its item.\<close>

lemma request_recorded:
  assumes app: "append_runtime_event E T (cancellation_requested_event i input item s reason run_id) d = Ok (d', out)" "out_inserted out"
    and ok: "items_ok d"
  shows "\<exists>c. map_of (requests (db_queue_items d')) (q_id item) = Some (Some c)"
  using app(1)
proof (cases rule: append_runtime_cases)
  case known
  then show ?thesis using app(2) by simp
next
  case (fresh row c)
  let ?ev = "cancellation_requested_event i input item s reason run_id\<lparr>ev_cursor := Some c\<rparr>"
  have kind: "index_event E T ?ev (grow [row] d) = index_queue_item_cancel_requested ?ev (grow [row] d)"
    by (simp add: index_event_def cancellation_requested_event_def runtime_event_def)
  have get: "map_get (ev_payload ?ev) ''queue_item_id'' = Some (JString (q_id item))"
    by (simp add: cancellation_requested_event_def runtime_event_def with_fields_get queue_item_payload_def object_of_get opt_field_def
        split: option.split)
  from fresh(1) [unfolded kind] obtain item_id named why where id: "required_runtime_id ?ev ''queue_item_id'' = Ok item_id"
    and one: "sql_count named (db_queue_items d) = 1" and named: "\<And>r. named r \<Longrightarrow> qi_id r = item_id"
    and rows: "db_queue_items d' = sql_update named (\<lambda>r. r\<lparr>
             qi_cancel_requested_event_id := coalesce (qi_cancel_requested_event_id r) (Some (ev_id ?ev)),
             qi_cancel_requested_at := coalesce (qi_cancel_requested_at r) (Some (ev_timestamp_ms ?ev)),
             qi_cancel_reason := coalesce (qi_cancel_reason r) why\<rparr>) (db_queue_items d)"
    by (rule cancel_requested_split) simp
  have item_id: "item_id = q_id item" using id get by (simp add: required_runtime_id_def required_payload_string_def split: if_splits)
  obtain r0 where r0: "r0 \<in> set (db_queue_items d)" "named r0"
    using one by (metis sql_count_def filter_empty_conv list.size(3) zero_neq_one)
  have "map qi_id (db_queue_items d') = map qi_id (db_queue_items d)" by (simp add: rows sql_update_def)
  moreover have "q_id item \<in> set (map qi_id (db_queue_items d))" using imageI [OF r0(1), of qi_id] named [OF r0(2)] item_id by simp
  ultimately have "\<exists>r' \<in> set (db_queue_items d'). qi_id r' = q_id item" by (metis (mono_tags, lifting) imageE list.set_map)
  then obtain r' where r': "find (\<lambda>r. qi_id r = q_id item) (db_queue_items d') = Some r'"
    by (metis (mono_tags, lifting) find_None_iff not_None_eq)
  then obtain r where r: "r \<in> set (db_queue_items d)" "qi_id r = q_id item"
    "r' = (if named r then r\<lparr>qi_cancel_requested_event_id := coalesce (qi_cancel_requested_event_id r) (Some (ev_id ?ev)),
             qi_cancel_requested_at := coalesce (qi_cancel_requested_at r) (Some (ev_timestamp_ms ?ev)),
             qi_cancel_reason := coalesce (qi_cancel_reason r) why\<rparr> else r)"
    using find_SomeD [OF r'] by (auto simp: rows sql_update_def split: if_splits)
  have "r = r0"
    by (rule distinct_map_eq [of qi_id "db_queue_items d"]) (use ok r r0 named [OF r0(2)] item_id in \<open>simp_all add: items_ok_def\<close>)
  then show ?thesis using r' r(3) r0(2) by (auto simp: requests_of coalesce_def split: option.splits)
qed


lemma cancelling_recorded:
  assumes cancel: "cancel_queue_item E T x session reason identities d = Ok (d', outcome)" and status: "co_status outcome = CancellationCancelling"
    and load: "load_queue_item E x d = Ok (Some item)" and new: "co_changed outcome \<or> q_cancellation_requested_event_id item \<noteq> None"
    and ok: "items_ok d"
  shows "\<exists>c. map_of (requests (db_queue_items d')) x = Some (Some c)"
proof -
  from cancel load status have "cancel_open_item E T reason identities item d = Ok (d', outcome)"
    by (auto simp: cancel_queue_item_def unknown_cancellation_def elim!: and_then_OkE split: if_splits)
  with status obtain input item' requested where
    req: "request_cancellation E T (ci_requested identities) reason item input (queue_run_id item input d) d = Ok (d', item', requested, co_changed outcome)"
    by (auto simp: cancel_open_item_def Let_def elim!: and_then_OkE split: if_splits)
  show ?thesis
  proof (cases "q_cancellation_requested_event_id item")
    case None
    with req new obtain out where
      "append_runtime_event E T (cancellation_requested_event (ci_requested identities) input item (q_status item) reason (queue_run_id item input d)) d = Ok (d', out)"
      "out_inserted out"
      by (auto simp: request_cancellation_def elim!: and_then_OkE)
    from request_recorded [OF this ok] show ?thesis using loaded_request(2) [OF load] by simp
  next
    case (Some c)
    then have "d' = d" using req by (auto simp: request_cancellation_def elim!: and_then_OkE)
    then show ?thesis using loaded_request(1) [OF load] Some by simp
  qed
qed

section \<open>A cancelled worker\<close>

definition cancelled_item :: queue_item where
  "cancelled_item = (routed_item 15 1)\<lparr>q_cancellation_requested_event_id := Some ''r1'', q_cancellation_requested_at := Some 8\<rparr>"

definition sample_request :: "event \<Rightarrow> event" where
  "sample_request input = cancellation_requested_event \<lparr>ri_id = ''r1'', ri_timestamp_ms = 8\<rparr> input (routed_item 15 1) QClaimed None (Some (routed_run 0))"

definition request_key :: string where
  "request_key = ''queue_item:e1:a:cancel_requested''"

lemma sample_request:
  "ev_id (sample_request input) = ''r1''" "ev_idempotency_key (sample_request input) = Some request_key"
  "ev_event_type (sample_request input) = ''runtime.queue_item.cancel_requested''" "ev_source (sample_request input) = ''zeta''"
  "ev_session_id (sample_request input) = Some ''agent/a''" "ev_timestamp_ms (sample_request input) = 8"
  "ev_payload (sample_request input) = [(''queue_item_id'', JString ''qi_e1''), (''event_id'', JString ''e1''), (''target_agent'', JString ''a''),
     (''status'', JString ''claimed''), (''session_id'', JString ''agent/a'')]"
  by (simp_all add: sample_request_def request_key_def cancellation_requested_event_def runtime_event_def routed_item_def with_fields_def
      queue_item_payload_def object_of_def opt_field_def)

lemma append_request:
  assumes inv: "sql_inv reading_env (running_db row)" and es: "sql_entries reading_env (running_db row) = [e]"
    and eid: "ev_id (je_event e) = ''e1''" "ev_idempotency_key (je_event e) = None"
  obtains d1 row1 e1 where "append_runtime_event reading_env T (sample_request input) (running_db row)
      = Ok (d1, \<lparr>out_event = sample_request input\<lparr>ev_cursor := Some (Suc 1)\<rparr>, out_inserted = True\<rparr>)"
    "sql_inv reading_env d1" "length (db_journal d1) = Suc 1" "sql_entries reading_env d1 = [e, e1]"
    "set (je_ids (sql_entries reading_env d1)) = {''r1'', ''e1''}" "set (je_keys (sql_entries reading_env d1)) = {request_key}"
    "d1 = (grow [row1] (running_db row))\<lparr>db_queue_items := [marked_row ''claimed'' (Some ''r1'') (Some 8) None]\<rparr>"
proof -
  have ix: "index_event reading_env T (sample_request input\<lparr>ev_cursor := Some (Suc 1)\<rparr>) (grow [r] (running_db row))
      = Ok ((grow [r] (running_db row))\<lparr>db_queue_items := [marked_row ''claimed'' (Some ''r1'') (Some 8) None]\<rparr>)" for r
    by (simp add: index_event_def sample_request index_queue_item_cancel_requested_def required_runtime_id_def required_payload_string_def
        queue_status_from_str_def optional_payload_string_def sql_count_def sql_update_def routed_row_def marked_row_def coalesce_def Let_def)
  have reads: "reads_same reading_env (sample_request input\<lparr>ev_cursor := Some (Suc 1)\<rparr>)" by (simp add: reading_env_reads_same sample_request)
  show thesis
  proof (rule reading_runtime_append [OF inv, of "sample_request input" request_key 1 T])
    show "appendable (sample_request input)" by (simp add: appendable_def sample_request sql_nonempty_def is_i64_def)
    show "encodable reading_env (JObject (ev_payload (sample_request input)))" by (simp add: sample_request)
    show "\<exists>d'. index_event reading_env T (sample_request input\<lparr>ev_cursor := Some (Suc 1)\<rparr>) (grow [r] (running_db row)) = Ok d'" for r
      using ix by blast
    fix d1 row1
    assume app: "append_runtime_event reading_env T (sample_request input) (running_db row)
        = Ok (d1, \<lparr>out_event = sample_request input\<lparr>ev_cursor := Some (Suc 1)\<rparr>, out_inserted = True\<rparr>)"
      and inv1: "sql_inv reading_env d1" and n: "length (db_journal d1) = Suc 1"
      and step: "index_event reading_env T (sample_request input\<lparr>ev_cursor := Some (Suc 1)\<rparr>) (grow [row1] (running_db row)) = Ok d1"
      and sets: "set (je_ids (sql_entries reading_env d1)) = insert (ev_id (sample_request input)) (set (je_ids (sql_entries reading_env (running_db row))))"
      "set (je_keys (sql_entries reading_env d1)) = insert request_key (set (je_keys (sql_entries reading_env (running_db row))))"
    have d1: "d1 = (grow [row1] (running_db row))\<lparr>db_queue_items := [marked_row ''claimed'' (Some ''r1'') (Some 8) None]\<rparr>"
      using trans [OF step [symmetric] ix [of row1]] by (simp only: sum.inject)
    obtain e1 where "sql_entries reading_env d1 = [e] @ [e1]"
      using append_runtime_stored [OF inv _ app] reads n es by auto
    then show thesis
      by (intro that [OF app inv1 n _ _ _ d1]) (use sets es eid in \<open>simp_all add: sample_request(1)\<close>)
  qed (use es eid in \<open>simp_all add: sample_request(1,2)\<close>)
qed


lemma cancelled_load:
  assumes inv: "sql_inv reading_env d" and items: "db_queue_items d = [marked_row ''claimed'' (Some ''r1'') (Some 8) None]"
    and claims: "db_queue_claims d = db_queue_claims (running_db row)" and attempts: "db_attempts d = [routed_attempt ''t1'' 0]"
    and entry: "find (\<lambda>x. ev_id (je_event x) = ''e1'') (sql_entries reading_env d) = Some e"
  shows "load_claimed_attempt reading_env (sample_claim ''qi_e1'' ''t1'' 15) 11 d = Ok (running_model, cancelled_item, je_event e)"
proof -
  let ?claim = "sample_claim ''qi_e1'' ''t1'' 15"
  have item: "load_claimed_item reading_env ?claim d = Ok cancelled_item"
    by (simp add: load_claimed_item_def load_queue_item_def items claims running_db_def marked_row_def routed_row_def queue_item_into_model_def
        join_claim_def parse_runtime_id_def reading_list queue_status_from_str_def positive_u64_projection_def nonnegative_u32_projection_def ok_or_def
        cancelled_item_def routed_item_def sample_claim_def)
  have input: "load_input reading_env ''attempts'' ''event_id'' ''e1'' d = Ok (je_event e)"
    by (simp add: load_input_def entry_by_id [OF inv] entry ok_or_def)
  have running: "load_running_attempt_for_claim ?claim d = Ok (Some running_model)"
    using routed_names [of 0]
    by (simp add: load_running_attempt_for_claim_def newest_attempt_def attempts routed_attempt_def sample_claim_def attempt_into_model_def
        parse_runtime_id_def nonnegative_u32_projection_def attempt_status_from_str_def parse_optional_id_def running_model_def)
  show ?thesis
    using item input running
    by (simp add: load_claimed_attempt_def ok_or_def running_model_def claim_is_current_def claims running_db_def sample_claim_def owns_def)
qed

definition stopped_result :: json_map where
  "stopped_result = [(''outcome'', JString ''cancelled''), (''stop_reason'', JString ''aborted'')]"

definition sample_stopped :: "event \<Rightarrow> event" where
  "sample_stopped input = attempt_terminal_event \<lparr>ri_id = ''r3'', ri_timestamp_ms = 8\<rparr> input running_model ACancelled
     (with_fields (attempt_payload reading_env running_model ACancelled) [(''finished_at'', JString ''f''), (''result'', JObject stopped_result)])"

definition sample_stopped_item :: "event \<Rightarrow> event" where
  "sample_stopped_item input = queue_disposition_event \<lparr>ri_id = ''r4'', ri_timestamp_ms = 8\<rparr> ''runtime.queue_item.cancelled''
     (queue_item_idempotency_key (q_event_id cancelled_item) (q_target_agent cancelled_item) QCancelled)
     (with_fields (queue_item_payload cancelled_item QCancelled) [(''result'', JObject stopped_result)]) input cancelled_item running_model"

lemma sample_stopped:
  "ev_id (sample_stopped input) = ''r3''" "ev_idempotency_key (sample_stopped input) = Some (attempt_idempotency_key ''qi_e1'' 1 ACancelled)"
  "ev_event_type (sample_stopped input) = ''runtime.attempt.'' @ attempt_status_display ACancelled"
  "ev_source (sample_stopped input) = ''zeta''" "ev_session_id (sample_stopped input) = Some ''agent/a''"
  "ev_run_id (sample_stopped input) = Some (routed_run 0)" "ev_timestamp_ms (sample_stopped input) = 8"
  "ev_payload (sample_stopped input) = running_fields ACancelled @ [(''finished_at'', JString ''f''), (''error'', or_null None),
     (''session_id'', JString ''agent/a''), (''run_id'', JString (routed_run 0)), (''worker_name'', JString ''w'')] @ [(''result'', JObject stopped_result)]"
  by (simp_all add: sample_stopped_def attempt_terminal_event_def runtime_event_def with_fields_def running_payload running_fields_def or_null_def)
    (simp_all add: running_model_def)

lemma sample_stopped_item:
  "ev_id (sample_stopped_item input) = ''r4''" "ev_idempotency_key (sample_stopped_item input) = Some (queue_item_idempotency_key ''e1'' ''a'' QCancelled)"
  "ev_event_type (sample_stopped_item input) = ''runtime.queue_item.'' @ queue_status_display QCancelled" "ev_source (sample_stopped_item input) = ''zeta''"
  "ev_session_id (sample_stopped_item input) = Some ''agent/a''" "ev_timestamp_ms (sample_stopped_item input) = 8"
  "ev_payload (sample_stopped_item input) = [(''queue_item_id'', JString ''qi_e1''), (''event_id'', JString ''e1''), (''target_agent'', JString ''a''),
     (''status'', JString (queue_status_display QCancelled)), (''session_id'', JString ''agent/a'')] @ [(''result'', JObject stopped_result)]"
  by (simp_all add: sample_stopped_item_def queue_disposition_event_def runtime_event_def cancelled_item_def routed_item_def with_fields_def
      queue_item_payload_def object_of_def opt_field_def)

lemma cancelled_fails:
  assumes inv: "sql_inv reading_env d" and items: "db_queue_items d = [marked_row ''claimed'' (Some ''r1'') (Some 8) None]"
    and attempts: "db_attempts d = [routed_attempt ''t1'' 0]" and claims: "db_queue_claims d = db_queue_claims (running_db row)"
    and row: "find (\<lambda>s. se_event_id s = ''e1'') (db_journal d) = Some row" "se_cursor row = 1" and n: "length (db_journal d) = Suc 1"
    and names: "set (je_ids (sql_entries reading_env d)) = {''r1'', ''e1''}" "set (je_keys (sql_entries reading_env d)) = {request_key}"
    and load: "load_claimed_attempt reading_env (sample_claim ''qi_e1'' ''t1'' 15) 11 d = Ok (running_model, cancelled_item, input)"
  obtains d' events where "fail_claimed_attempt (\<lambda>x _. x) reading_env no_time (sample_claim ''qi_e1'' ''t1'' 15) 11 \<lparr>ri_id = ''r3'', ri_timestamp_ms = 8\<rparr>
       \<lparr>ri_id = ''r4'', ri_timestamp_ms = 8\<rparr> sample_failure d = Ok (d', events)"
proof -
  let ?claim = "sample_claim ''qi_e1'' ''t1'' 15" and ?i = "\<lparr>ri_id = ''r3'', ri_timestamp_ms = 8\<rparr>" and ?j = "\<lparr>ri_id = ''r4'', ri_timestamp_ms = 8\<rparr>"
  define a where "a = sample_stopped input"
  define q where "q = sample_stopped_item input"
  have live: "live_cancelled_events reading_env ?i ?j input cancelled_item running_model ''f'' None = [a, q]"
    by (simp add: live_cancelled_events_def Let_def a_def q_def sample_stopped_def sample_stopped_item_def stopped_result_def with_fields_def)
  note af = sample_stopped [of input, folded a_def] and qf = sample_stopped_item [of input, folded q_def]
  note ap = af(8) and qp = qf(7)
  have new: "attempt_idempotency_key ''qi_e1'' 1 ACancelled \<noteq> request_key" "queue_item_idempotency_key ''e1'' ''a'' QCancelled \<noteq> request_key"
    "queue_item_idempotency_key ''e1'' ''a'' QCancelled \<noteq> attempt_idempotency_key ''qi_e1'' 1 ACancelled"
    by (simp_all add: attempt_idempotency_key_def queue_item_idempotency_key_def request_key_def)
  have old: "journal_has d ''e1''" using find_SomeD [OF row(1)] by (auto simp: journal_has_def list_ex_iff)
  obtain d1 row1 where a1: "append_runtime_event reading_env no_time a d = Ok (d1, \<lparr>out_event = a\<lparr>ev_cursor := Some (Suc (Suc 1))\<rparr>, out_inserted = True\<rparr>)"
    "sql_inv reading_env d1" "length (db_journal d1) = Suc (Suc 1)"
    "set (je_ids (sql_entries reading_env d1)) = insert (ev_id a) (set (je_ids (sql_entries reading_env d)))"
    "set (je_keys (sql_entries reading_env d1)) = insert (attempt_idempotency_key ''qi_e1'' 1 ACancelled) (set (je_keys (sql_entries reading_env d)))"
    "d1 = (grow [row1] d)\<lparr>db_attempts := [closed_row ACancelled ''f'' None]\<rparr>"
    by (rule append_closed_attempt [OF inv _ attempts old n few_entries(2) _ _ af(2) _ af(3) _ af(4-7) ap])
      (use new in \<open>simp_all add: stopped_result_def items marked_row_def routed_row_def names af(1) sql_nonempty_def\<close>)
  have items1: "db_queue_items d1 = [marked_row ''claimed'' (Some ''r1'') (Some 8) None]" by (simp add: a1(6) items)
  have row1: "find (\<lambda>s. se_event_id s = ''e1'') (db_journal d1) = Some row" by (simp add: a1(6) find_append row)
  have fresh: "ev_id q \<notin> set (je_ids (sql_entries reading_env d1))"
    "queue_item_idempotency_key ''e1'' ''a'' QCancelled \<notin> set (je_keys (sql_entries reading_env d1))"
    unfolding a1(4,5) names using new by (simp_all add: af(1) qf(1))
  have err: "queue_last_error (q\<lparr>ev_cursor := Some (Suc (Suc (Suc 1)))\<rparr>) = Ok None" by (simp add: queue_last_error_def optional_payload_string_def qp)
  obtain d2 row2 where q1: "append_runtime_event reading_env no_time q d1 = Ok (d2, \<lparr>out_event = q\<lparr>ev_cursor := Some (Suc (Suc (Suc 1)))\<rparr>, out_inserted = True\<rparr>)"
    "d2 = (grow [row2] d1)\<lparr>db_queue_items := [(marked_row (queue_status_display QCancelled) (Some ''r1'') (Some 8) None)\<lparr>qi_last_error := None\<rparr>]\<rparr>"
    by (rule append_closed_item [OF a1(2) items1 row1 row(2) a1(3) few_entries(3) _ fresh(1) qf(2) fresh(2) qf(3) _ qf(4-6) qp _ _ _ err])
      (simp_all add: qf(1) sql_nonempty_def stopped_result_def)
  have "db_queue_claims d2 = db_queue_claims (running_db row)" by (simp add: q1(2) a1(6) claims)
  then have release: "release_claim_in_transaction ?claim operation d2 = Ok (delete_queue_claims (owns ?claim) d2)" for operation
    by (simp add: release_claim_in_transaction_def sql_count_def running_db_def owns_def sample_claim_def)
  have guards: "af_finished_at sample_failure = ''f''" "af_error sample_failure = ''x''" "q_cancellation_requested_event_id cancelled_item = Some ''r1''"
    by (simp_all add: sample_failure_def cancelled_item_def)
  show thesis
    by (rule that) (simp add: fail_claimed_attempt_def load guards close_attempt_def live a1(1) q1(1) release)
qed

lemma cancelled_sample:
  obtains d d1 d2 outcome events where "tables_ok d" "load_queue_item reading_env ''qi_e1'' d = Ok (Some (routed_item 15 1))"
    "cancel_queue_item reading_env no_time ''qi_e1'' None None \<lparr>ci_requested = \<lparr>ri_id = ''r1'', ri_timestamp_ms = 8\<rparr>,
       ci_cancelled = \<lparr>ri_id = ''r2'', ri_timestamp_ms = 8\<rparr>\<rparr> d = Ok (d1, outcome)"
    "co_status outcome = CancellationCancelling" "co_changed outcome"
    "fail_claimed_attempt (\<lambda>x _. x) reading_env no_time (sample_claim ''qi_e1'' ''t1'' 15) 11 \<lparr>ri_id = ''r3'', ri_timestamp_ms = 8\<rparr>
       \<lparr>ri_id = ''r4'', ri_timestamp_ms = 8\<rparr> sample_failure d1 = Ok (d2, events)"
proof -
  obtain row e where row: "se_event_id row = ''e1''" "se_cursor row = 1" and inv: "sql_inv reading_env (running_db row)" and ok: "tables_ok (running_db row)"
    and es: "sql_entries reading_env (running_db row) = [e]" and e: "je_event e = sample_event\<lparr>ev_cursor := Some 1\<rparr>"
    by (rule running_sample)
  have eid: "ev_id (je_event e) = ''e1''" "ev_idempotency_key (je_event e) = None" "ev_run_id (je_event e) = None" by (simp_all add: e sample_event_def)
  obtain d1 row1 e1 where r: "append_runtime_event reading_env no_time (sample_request (je_event e)) (running_db row)
      = Ok (d1, \<lparr>out_event = sample_request (je_event e)\<lparr>ev_cursor := Some (Suc 1)\<rparr>, out_inserted = True\<rparr>)"
    "sql_inv reading_env d1" "length (db_journal d1) = Suc 1" "sql_entries reading_env d1 = [e, e1]"
    "set (je_ids (sql_entries reading_env d1)) = {''r1'', ''e1''}" "set (je_keys (sql_entries reading_env d1)) = {request_key}"
    "d1 = (grow [row1] (running_db row))\<lparr>db_queue_items := [marked_row ''claimed'' (Some ''r1'') (Some 8) None]\<rparr>"
    by (rule append_request [OF inv es eid(1,2)])
  have item: "load_queue_item reading_env ''qi_e1'' (running_db row) = Ok (Some (routed_item 15 1))"
    by (simp add: load_queue_item_def running_db_def routed_row_def queue_item_into_model_def join_claim_def
        parse_runtime_id_def reading_list queue_status_from_str_def positive_u64_projection_def nonnegative_u32_projection_def ok_or_def routed_item_def)
  have input: "load_input reading_env ''queue_items'' ''event_id'' ''e1'' (running_db row) = Ok (je_event e)"
    by (simp add: load_input_def entry_by_id [OF inv] es eid ok_or_def)
  have run: "queue_run_id (routed_item 15 1) (je_event e) (running_db row) = Some (routed_run 0)"
    by (simp add: queue_run_id_def eid(3) routed_item_def routed_attempt_def)
  have fields: "q_cancellation_requested_event_id (routed_item 15 1) = None" "q_status (routed_item 15 1) = QClaimed" "q_event_id (routed_item 15 1) = ''e1''"
    by (simp_all add: routed_item_def)
  have cancel: "\<exists>outcome. cancel_queue_item reading_env no_time ''qi_e1'' None None \<lparr>ci_requested = \<lparr>ri_id = ''r1'', ri_timestamp_ms = 8\<rparr>,
       ci_cancelled = \<lparr>ri_id = ''r2'', ri_timestamp_ms = 8\<rparr>\<rparr> (running_db row) = Ok (d1, outcome)
     \<and> co_status outcome = CancellationCancelling \<and> co_changed outcome"
    using r(1) by (simp add: cancel_queue_item_def item [simplified] cancel_open_item_def input request_cancellation_def run [simplified] fields [simplified]
        sample_request_def)
  have entry: "find (\<lambda>x. ev_id (je_event x) = ''e1'') (sql_entries reading_env d1) = Some e" using r(4) eid by simp
  have load: "load_claimed_attempt reading_env (sample_claim ''qi_e1'' ''t1'' 15) 11 d1 = Ok (running_model, cancelled_item, je_event e)"
    by (rule cancelled_load [OF r(2), of row]) (simp_all only: entry, simp_all add: r(7))
  have here: "db_queue_items d1 = [marked_row ''claimed'' (Some ''r1'') (Some 8) None]" "db_attempts d1 = [routed_attempt ''t1'' 0]"
    "db_queue_claims d1 = db_queue_claims (running_db row)" "find (\<lambda>s. se_event_id s = ''e1'') (db_journal d1) = Some row"
    using row by (simp_all add: r(7))
  obtain d2 events where "fail_claimed_attempt (\<lambda>x _. x) reading_env no_time (sample_claim ''qi_e1'' ''t1'' 15) 11 \<lparr>ri_id = ''r3'', ri_timestamp_ms = 8\<rparr>
       \<lparr>ri_id = ''r4'', ri_timestamp_ms = 8\<rparr> sample_failure d1 = Ok (d2, events)"
    by (rule cancelled_fails [OF r(2) here row(2) r(3,5,6) load])
  with cancel show thesis using that [OF ok item] by blast
qed

section \<open>Properties\<close>

text \<open>C18: a cancellation that was accepted for a claimed item beats whatever the worker reports later.  However claims are taken,
  renewed, released and expired in between, an attempt on that item that is completed or failed afterwards ends as
  cancelled, and so does its item.\<close>

theorem cancellation_beats_outcome:
  assumes ok: "tables_ok d" and load: "load_queue_item E x d = Ok (Some item)"
    and cancel: "cancel_queue_item E T x session reason identities d = Ok (d1, outcome)" "co_status outcome = CancellationCancelling"
    and new: "co_changed outcome \<or> q_cancellation_requested_event_id item \<noteq> None"
    and run: "(coord_step E)\<^sup>*\<^sup>* d1 d2" and claim: "cl_queue_item_id claim = x"
    and close: "complete_claimed_attempt E T claim now_ms ids completion d2 = Ok (d3, events)
      \<or> fail_claimed_attempt powf E T claim now_ms i j failure d2 = Ok (d3, events)"
  shows "map ev_event_type events = [''runtime.attempt.cancelled'', ''runtime.queue_item.cancelled'']"
proof -
  have "\<exists>c. map_of (requests (db_queue_items d1)) x = Some (Some c)"
    by (rule cancelling_recorded [OF cancel load new]) (use ok in \<open>simp add: tables_ok_def\<close>)
  then have asked: "q_cancellation_requested_event_id item' \<noteq> None" if "load_claimed_attempt E claim now_ms d2 = Ok (a, item', input)" for a item' input
    using loaded_claimed_request [OF that] coord_run_requests [OF run] claim by auto
  have types: ?thesis if "close_attempt E T claim operation (live_cancelled_events E p q input item' a f r) d2 = Ok (d3, events)"
    for operation p q input item' a f r
    by (rule cancelled_types [OF that])
  from close show ?thesis
  proof
    assume "complete_claimed_attempt E T claim now_ms ids completion d2 = Ok (d3, events)"
    then show ?thesis by (cases rule: complete_closes) (use types asked in blast)+
  next
    assume "fail_claimed_attempt powf E T claim now_ms i j failure d2 = Ok (d3, events)"
    then show ?thesis by (rule fail_closes) (use types asked in auto)
  qed
qed

theorem cancellation_beats_outcome_witness:
  "\<exists>d d1 d2 outcome events. cancel_queue_item reading_env no_time ''qi_e1'' None None \<lparr>ci_requested = \<lparr>ri_id = ''r1'', ri_timestamp_ms = 8\<rparr>,
       ci_cancelled = \<lparr>ri_id = ''r2'', ri_timestamp_ms = 8\<rparr>\<rparr> d = Ok (d1, outcome)
     \<and> fail_claimed_attempt (\<lambda>x _. x) reading_env no_time (sample_claim ''qi_e1'' ''t1'' 15) 11 \<lparr>ri_id = ''r3'', ri_timestamp_ms = 8\<rparr>
       \<lparr>ri_id = ''r4'', ri_timestamp_ms = 8\<rparr> sample_failure d1 = Ok (d2, events)
     \<and> map ev_event_type events = [''runtime.attempt.cancelled'', ''runtime.queue_item.cancelled'']"
proof -
  obtain d d1 d2 outcome events where s: "tables_ok d" "load_queue_item reading_env ''qi_e1'' d = Ok (Some (routed_item 15 1))"
    "cancel_queue_item reading_env no_time ''qi_e1'' None None \<lparr>ci_requested = \<lparr>ri_id = ''r1'', ri_timestamp_ms = 8\<rparr>,
       ci_cancelled = \<lparr>ri_id = ''r2'', ri_timestamp_ms = 8\<rparr>\<rparr> d = Ok (d1, outcome)"
    "co_status outcome = CancellationCancelling" "co_changed outcome"
    "fail_claimed_attempt (\<lambda>x _. x) reading_env no_time (sample_claim ''qi_e1'' ''t1'' 15) 11 \<lparr>ri_id = ''r3'', ri_timestamp_ms = 8\<rparr>
       \<lparr>ri_id = ''r4'', ri_timestamp_ms = 8\<rparr> sample_failure d1 = Ok (d2, events)"
    by (rule cancelled_sample)
  have "cl_queue_item_id (sample_claim ''qi_e1'' ''t1'' 15) = ''qi_e1''" by (simp add: sample_claim_def)
  from cancellation_beats_outcome [OF s(1-4) disjI1 [OF s(5)] rtranclp.rtrancl_refl this disjI2 [OF s(6)]]
  show ?thesis using s(3,6) by (intro exI conjI)
qed

end
