(* ===== verification/Egress.thy ===== *)
theory Egress
  imports Attempt_Events
begin

text \<open>
  The delivery of connector effects, from \<open>crates/zeta-dispatch/src/sqlite/effects.rs\<close>: a worker claims a ready effect,
  records that its delivery starts, and records how it ended; an expired claim is released for another worker.  Every
  operation is a function of the database and returns the next one, or an error that leaves it as it was.

  Whatever claims, starts, outcomes and appends follow each other, an effect that is unsafe to retry is not handed out
  again once its delivery has started, and only the holder of the current claim can record anything.
\<close>

section \<open>Claims\<close>

record egress_delivery_claim =
  ed_effect_key :: string
  ed_worker_name :: string
  ed_token :: claim_token
  ed_claimed_until :: int

definition egress_deadline :: "nat \<Rightarrow> int \<Rightarrow> (dispatch_error, int) result" where
  "egress_deadline lease_ms now_ms =
     (if 2 ^ 63 - 1 < lease_ms \<or> \<not> is_i64 (now_ms + int lease_ms) then Err (InvalidCoordinationInput ''egress_claim'')
      else Ok (now_ms + int lease_ms))"

text \<open>\<open>LIKE 'connector:%'\<close> compares ASCII letters without their case.\<close>

definition ascii_lower :: "char \<Rightarrow> char" where
  "ascii_lower c = (if 65 \<le> (of_char c :: nat) \<and> (of_char c :: nat) \<le> 90 then char_of (of_char c + 32 :: nat) else c)"

definition is_connector_operation :: "string \<Rightarrow> bool" where
  "is_connector_operation operation \<longleftrightarrow> prefix ''connector:'' (map ascii_lower operation)"

definition effect_claimed :: "db \<Rightarrow> string \<Rightarrow> bool" where
  "effect_claimed d key = list_ex (\<lambda>c. ec_effect_key c = key) (db_effect_claims d)"

definition egress_ready :: "int \<Rightarrow> db \<Rightarrow> effect_row \<Rightarrow> bool" where
  "egress_ready now_ms d r \<longleftrightarrow>
     \<not> effect_claimed d (ef_key r) \<and> is_connector_operation (ef_operation r)
     \<and> (ef_status r = ''planned''
        \<or> ef_status r = ''failed'' \<and> (case ef_available_at r of Some t \<Rightarrow> t \<le> now_ms | None \<Rightarrow> False)
        \<or> ef_status r = ''started'' \<and> ef_semantics r \<noteq> ''unsafe_to_retry'')"

definition effect_claim_fits :: "db \<Rightarrow> effect_claim_row \<Rightarrow> bool" where
  "effect_claim_fits d c \<longleftrightarrow>
     sql_nonempty (ec_effect_key c) \<and> sql_nonempty (ec_worker_name c) \<and> sql_nonempty (ec_claim_token c)
     \<and> list_all (\<lambda>x. ec_effect_key x \<noteq> ec_effect_key c \<and> ec_claim_token x \<noteq> ec_claim_token c) (db_effect_claims d)
     \<and> ec_claimed_at c < ec_claimed_until c \<and> list_ex (\<lambda>r. ef_key r = ec_effect_key c) (db_effects d)"

definition claim_next_egress_delivery ::
  "env \<Rightarrow> string \<Rightarrow> claim_token \<Rightarrow> nat \<Rightarrow> int \<Rightarrow> db \<Rightarrow>
    (dispatch_error, db \<times> (egress_delivery_claim \<times> effect) option) result" where
  "claim_next_egress_delivery E worker_name token lease_ms now_ms d =
     (if worker_name = [] \<or> lease_ms = 0 then Err (InvalidCoordinationInput ''egress_claim'')
      else and_then (egress_deadline lease_ms now_ms) (\<lambda>claimed_until.
        case effects_by_planning (egress_ready now_ms d) d of
          [] \<Rightarrow> Ok (d, None)
        | stored # _ \<Rightarrow>
            and_then (effect_into_model E stored) (\<lambda>e.
            let c = \<lparr>ec_effect_key = e_key e, ec_worker_name = worker_name, ec_claim_token = token,
                     ec_claimed_at = now_ms, ec_claimed_until = claimed_until\<rparr>
            in and_then (sql_insert ''create egress delivery claim'' (effect_claim_fits d c) c (db_effect_claims d)) (\<lambda>rows.
              Ok (d\<lparr>db_effect_claims := rows\<rparr>,
                Some (\<lparr>ed_effect_key = e_key e, ed_worker_name = worker_name, ed_token = token,
                       ed_claimed_until = claimed_until\<rparr>, e))))))"

definition reconcile_expired_egress_delivery_claims :: "int \<Rightarrow> db \<Rightarrow> db \<times> nat" where
  "reconcile_expired_egress_delivery_claims now_ms d =
     (d\<lparr>db_effect_claims := filter (\<lambda>c. \<not> ec_claimed_until c < now_ms) (db_effect_claims d)\<rparr>,
      sql_count (\<lambda>c. ec_claimed_until c < now_ms) (db_effect_claims d))"

definition next_egress_deadline_ms :: "int \<Rightarrow> db \<Rightarrow> int option" where
  "next_egress_deadline_ms now_ms d =
     (let ready = sql_min (filter (\<lambda>t. now_ms < t) (List.map_filter ef_available_at
            (filter (\<lambda>r. \<not> effect_claimed d (ef_key r) \<and> is_connector_operation (ef_operation r) \<and> ef_status r = ''failed'')
              (db_effects d))));
          claim = sql_min (map ec_claimed_until (db_effect_claims d))
      in sql_min (case_option [] (\<lambda>t. [t]) ready @ case_option [] (\<lambda>t. [t]) claim))"

definition is_current_claim :: "egress_delivery_claim \<Rightarrow> int \<Rightarrow> effect_claim_row \<Rightarrow> bool" where
  "is_current_claim claim now_ms c \<longleftrightarrow>
     ec_effect_key c = ed_effect_key claim \<and> ec_claim_token c = ed_token claim \<and> now_ms \<le> ec_claimed_until c"

definition claimed_effect :: "env \<Rightarrow> egress_delivery_claim \<Rightarrow> int \<Rightarrow> db \<Rightarrow> (dispatch_error, effect) result" where
  "claimed_effect E claim now_ms d =
     (if \<not> list_ex (is_current_claim claim now_ms) (db_effect_claims d)
      then Err (InvalidCoordinationInput ''egress_claim'')
      else and_then (load_effect E (ed_effect_key claim) d) (\<lambda>e.
        ok_or (CorruptProjection ''effects'' ''effect_key'') e))"

definition renew_egress_delivery_claim ::
  "egress_delivery_claim \<Rightarrow> nat \<Rightarrow> int \<Rightarrow> db \<Rightarrow> (dispatch_error, db \<times> bool) result" where
  "renew_egress_delivery_claim claim lease_ms now_ms d =
     and_then (egress_deadline lease_ms now_ms) (\<lambda>claimed_until.
       if list_ex (\<lambda>c. is_current_claim claim now_ms c \<and> claimed_until \<le> ec_claimed_at c) (db_effect_claims d)
       then Err (Database ''renew egress delivery claim'')
       else Ok (d\<lparr>db_effect_claims := sql_update (is_current_claim claim now_ms)
              (\<lambda>c. c\<lparr>ec_claimed_until := claimed_until\<rparr>) (db_effect_claims d)\<rparr>,
            0 < sql_count (is_current_claim claim now_ms) (db_effect_claims d)))"

section \<open>Start and outcome\<close>

definition effect_event ::
  "env \<Rightarrow> effect \<Rightarrow> effect_status \<Rightarrow> runtime_event_identity \<Rightarrow> nat \<Rightarrow> json_map option \<Rightarrow> int option \<Rightarrow> event" where
  "effect_event E e status identity delivery_attempt res retry_at =
     runtime_event identity (''runtime.effect.'' @ effect_status_str status)
       (object_of ([(''effect_key'', JString (e_key e)), (''operation'', JString (e_operation e)),
          (''semantics'', JString (effect_semantics_str (e_semantics e))), (''scope'', JString (e_scope e)),
          (''queue_item_id'', or_null (e_queue_item_id e)), (''params'', JObject (e_params e)),
          (''status'', JString (effect_status_str status)),
          (''delivery_attempt'', JNumber (num_from_int E (int delivery_attempt)))]
          @ (case res of Some m \<Rightarrow> [(''result'', JObject m)] | None \<Rightarrow> [])
          @ (case retry_at of Some t \<Rightarrow> [(''retry_at'', JNumber (num_from_int E t))] | None \<Rightarrow> [])))
       (effect_idempotency_key status (e_key e) (Some delivery_attempt)) (e_scope e) None None None"

definition start_claimed_egress_delivery ::
  "env \<Rightarrow> time_lib \<Rightarrow> egress_delivery_claim \<Rightarrow> int \<Rightarrow> runtime_event_identity \<Rightarrow> db \<Rightarrow> (dispatch_error, db \<times> effect) result" where
  "start_claimed_egress_delivery E T claim now_ms identity d =
     and_then (claimed_effect E claim now_ms d) (\<lambda>e.
     if e_status e = EffectStarted then Ok (d, e)
     else if e_delivery_attempts e = 2 ^ 32 - 1 then Err (InvalidCoordinationInput ''delivery_attempt'')
     else
     and_then (append_runtime_event E T
         (effect_event E e EffectStarted identity (e_delivery_attempts e + 1) None None) d) (\<lambda>(d, _).
     and_then (load_effect E (e_key e) d) (\<lambda>updated.
     and_then (ok_or (CorruptProjection ''effects'' ''effect_key'') updated) (\<lambda>updated. Ok (d, updated)))))"

definition finish_claimed_egress_delivery ::
  "env \<Rightarrow> time_lib \<Rightarrow> egress_delivery_claim \<Rightarrow> int \<Rightarrow> runtime_event_identity \<Rightarrow> effect_status \<Rightarrow> json_map \<Rightarrow> int option \<Rightarrow>
    db \<Rightarrow> (dispatch_error, db) result" where
  "finish_claimed_egress_delivery E T claim now_ms identity status res retry_at d =
     and_then (claimed_effect E claim now_ms d) (\<lambda>e.
     if e_status e \<noteq> EffectStarted then Err (InvalidCoordinationInput ''egress_effect_status'')
     else if status = EffectFailed \<and> e_semantics e = UnsafeToRetry
     then Err (InvalidCoordinationInput ''egress_effect_status'')
     else
     and_then (append_runtime_event E T
         (effect_event E e status identity (e_delivery_attempts e) (Some res) retry_at) d) (\<lambda>(d, _).
       Ok (d\<lparr>db_effect_claims := filter (\<lambda>c. \<not> (ec_effect_key c = ed_effect_key claim \<and> ec_claim_token c = ed_token claim))
         (db_effect_claims d)\<rparr>)))"

definition complete_claimed_egress_delivery ::
  "env \<Rightarrow> time_lib \<Rightarrow> egress_delivery_claim \<Rightarrow> int \<Rightarrow> runtime_event_identity \<Rightarrow> json_map \<Rightarrow> db \<Rightarrow> (dispatch_error, db) result" where
  "complete_claimed_egress_delivery E T claim now_ms identity res d =
     finish_claimed_egress_delivery E T claim now_ms identity EffectCompleted res None d"

definition fail_claimed_egress_delivery ::
  "env \<Rightarrow> time_lib \<Rightarrow> egress_delivery_claim \<Rightarrow> int \<Rightarrow> runtime_event_identity \<Rightarrow> json_map \<Rightarrow> int option \<Rightarrow> db \<Rightarrow>
    (dispatch_error, db) result" where
  "fail_claimed_egress_delivery E T claim now_ms identity res retry_at d =
     finish_claimed_egress_delivery E T claim now_ms identity EffectFailed res retry_at d"

definition mark_claimed_egress_delivery_ambiguous ::
  "env \<Rightarrow> time_lib \<Rightarrow> egress_delivery_claim \<Rightarrow> int \<Rightarrow> runtime_event_identity \<Rightarrow> json_map \<Rightarrow> db \<Rightarrow> (dispatch_error, db) result" where
  "mark_claimed_egress_delivery_ambiguous E T claim now_ms identity res d =
     finish_claimed_egress_delivery E T claim now_ms identity EffectAmbiguous res None d"

section \<open>Runs\<close>

text \<open>One call on the database, and the keys of the effects that a run hands out for delivery.\<close>

datatype egress_call =
    EgressAppend event
  | EgressClaim string claim_token nat int
  | EgressReconcile int
  | EgressRenew egress_delivery_claim nat int
  | EgressStart egress_delivery_claim int runtime_event_identity
  | EgressComplete egress_delivery_claim int runtime_event_identity json_map
  | EgressFail egress_delivery_claim int runtime_event_identity json_map "int option"
  | EgressAmbiguous egress_delivery_claim int runtime_event_identity json_map

definition or_rollback :: "db \<Rightarrow> (dispatch_error, db) result \<Rightarrow> db" where
  "or_rollback d r = (case r of Inl _ \<Rightarrow> d | Inr d' \<Rightarrow> d')"

fun egress_do :: "env \<Rightarrow> time_lib \<Rightarrow> db \<Rightarrow> egress_call \<Rightarrow> db \<times> string list" where
  "egress_do E T d (EgressAppend ev) = (fst (dispatch_append E T d ev), [])"
| "egress_do E T d (EgressClaim w t l n) =
     (case claim_next_egress_delivery E w t l n d of
        Inr (d', Some (claim, e)) \<Rightarrow> (d', [ed_effect_key claim])
      | _ \<Rightarrow> (d, []))"
| "egress_do E T d (EgressReconcile n) = (fst (reconcile_expired_egress_delivery_claims n d), [])"
| "egress_do E T d (EgressRenew c l n) =
     (or_rollback d (and_then (renew_egress_delivery_claim c l n d) (\<lambda>(d, _). Ok d)), [])"
| "egress_do E T d (EgressStart c n i) =
     (or_rollback d (and_then (start_claimed_egress_delivery E T c n i d) (\<lambda>(d, _). Ok d)), [])"
| "egress_do E T d (EgressComplete c n i res) = (or_rollback d (complete_claimed_egress_delivery E T c n i res d), [])"
| "egress_do E T d (EgressFail c n i res retry_at) =
     (or_rollback d (fail_claimed_egress_delivery E T c n i res retry_at d), [])"
| "egress_do E T d (EgressAmbiguous c n i res) =
     (or_rollback d (mark_claimed_egress_delivery_ambiguous E T c n i res d), [])"

primrec egress_run :: "env \<Rightarrow> time_lib \<Rightarrow> db \<Rightarrow> egress_call list \<Rightarrow> db \<times> string list" where
  "egress_run E T d [] = (d, [])"
| "egress_run E T d (c # cs) =
     (let (d, keys) = egress_do E T d c; (d, more) = egress_run E T d cs in (d, keys @ more))"

lemma append_runtime_effect_rows:
  assumes "append_runtime_event E T ev d = Ok (d', out)" "distinct (map ef_key (db_effects d))"
  shows "distinct (map ef_key (db_effects d'))"
    and "r \<in> set (db_effects d) \<Longrightarrow> \<exists>r' \<in> set (db_effects d'). ef_key r' = ef_key r \<and> effect_step\<^sup>=\<^sup>= r r'"
proof -
  obtain d1 where d1: "append_in_transaction E ev d = Ok (d1, out)"
    and d': "if out_inserted out then index_event E T (out_event out) d1 = Ok d' else d' = d1"
    using assms(1) by (auto simp: append_runtime_event_def result_simps append_lifecycle_Ok split: if_splits)
  have same: "db_effects d1 = db_effects d" using append_in_transaction_rows [OF d1] by auto
  show "distinct (map ef_key (db_effects d'))"
    using d' same assms(2) index_event_effect_rows(1) [of E T "out_event out" d1 d'] by (auto split: if_splits)
  show "\<exists>r' \<in> set (db_effects d'). ef_key r' = ef_key r \<and> effect_step\<^sup>=\<^sup>= r r'" if "r \<in> set (db_effects d)"
    using d' same assms(2) that index_event_effect_rows(2) [of E T "out_event out" d1 d' r] by (auto split: if_splits)
qed

text \<open>\<open>moves d d'\<close>: every effect is still there, and has made at most one permitted step.\<close>

definition moves :: "db \<Rightarrow> db \<Rightarrow> bool" where
  "moves d d' \<longleftrightarrow> distinct (map ef_key (db_effects d')) \<and>
     (\<forall>r \<in> set (db_effects d). \<exists>r' \<in> set (db_effects d'). ef_key r' = ef_key r \<and> effect_step\<^sup>=\<^sup>= r r')"

lemma moves_same: "distinct (map ef_key (db_effects d)) \<Longrightarrow> db_effects d' = db_effects d \<Longrightarrow> moves d d'"
  by (auto simp: moves_def)

lemma moves_start:
  assumes "distinct (map ef_key (db_effects d))" "start_claimed_egress_delivery E T claim now_ms identity d = Ok (d', e)"
  shows "moves d d'"
proof -
  from assms(2) consider "d' = d" | ev out where "append_runtime_event E T ev d = Ok (d', out)"
    by (auto simp: start_claimed_egress_delivery_def result_simps split: if_splits)
  then show ?thesis
    by cases (use assms(1) append_runtime_effect_rows in \<open>auto simp: moves_def\<close>)
qed

lemma moves_finish:
  assumes "distinct (map ef_key (db_effects d))"
    "finish_claimed_egress_delivery E T claim now_ms identity status res retry_at d = Ok d'"
  shows "moves d d'"
proof -
  from assms(2) obtain ev d1 out where "append_runtime_event E T ev d = Ok (d1, out)" "db_effects d' = db_effects d1"
    by (auto simp: finish_claimed_egress_delivery_def result_simps split: if_splits)
  then show ?thesis using append_runtime_effect_rows [OF _ assms(1)] by (simp add: moves_def)
qed

lemma moves_finished:
  assumes "distinct (map ef_key (db_effects d))"
  shows "moves d (or_rollback d (finish_claimed_egress_delivery E T claim now_ms identity status res retry_at d))"
  by (cases "finish_claimed_egress_delivery E T claim now_ms identity status res retry_at d")
    (simp_all add: or_rollback_def moves_same [OF assms] moves_finish [OF assms])

lemma moves_call:
  assumes keys: "distinct (map ef_key (db_effects d))"
  shows "moves d (fst (egress_do E T d c))"
proof (cases c)
  case (EgressAppend ev)
  then show ?thesis using append_effect_rows [OF keys] by (simp add: moves_def)
next
  case (EgressClaim w t l n)
  have "db_effects d' = db_effects d" if "claim_next_egress_delivery E w t l n d = Ok (d', handed)" for d' handed
    using that
    by (cases "effects_by_planning (egress_ready n d) d")
      (auto simp: claim_next_egress_delivery_def result_simps Let_def split: if_splits)
  then show ?thesis using keys EgressClaim by (auto intro: moves_same split: sum.split prod.split option.split)
next
  case (EgressReconcile n)
  then show ?thesis using keys by (auto intro: moves_same simp: reconcile_expired_egress_delivery_claims_def)
next
  case (EgressRenew claim l n)
  then show ?thesis
    using keys
    by (auto intro!: moves_same simp: renew_egress_delivery_claim_def or_rollback_def and_then_def split: sum.split)
next
  case (EgressStart claim n i)
  then show ?thesis
    using keys moves_start [OF keys] moves_same [OF keys]
    by (cases "start_claimed_egress_delivery E T claim n i d") (auto simp: or_rollback_def)
qed (simp_all add: moves_finished [OF keys] complete_claimed_egress_delivery_def fail_claimed_egress_delivery_def
    mark_claimed_egress_delivery_ambiguous_def)

text \<open>What a claim hands out is the row of a ready effect.\<close>

lemma handed_out_ready:
  assumes "key \<in> set (snd (egress_do E T d c))"
  obtains r now_ms where "r \<in> set (db_effects d)" "ef_key r = key" "egress_ready now_ms d r"
proof -
  obtain w t l n d' claim e where c: "claim_next_egress_delivery E w t l n d = Ok (d', Some (claim, e))" "key = ed_effect_key claim"
    using assms by (cases c) (auto split: sum.splits prod.splits option.splits)
  then obtain r rows where r: "effects_by_planning (egress_ready n d) d = r # rows" "effect_into_model E r = Ok e"
    "ed_effect_key claim = e_key e"
    by (cases "effects_by_planning (egress_ready n d) d")
      (auto simp: claim_next_egress_delivery_def result_simps Let_def split: if_splits)
  have "r \<in> set (effects_by_planning (egress_ready n d) d)" using r(1) by simp
  then have "r \<in> set (db_effects d)" "egress_ready n d r" by (simp_all add: effects_by_planning_def)
  moreover have "e_key e = ef_key r" using r(2) by (auto simp: effect_into_model_def result_simps Let_def split: if_splits)
  ultimately show thesis using that c(2) r(3) by simp
qed

definition past_barrier :: "effect_row \<Rightarrow> bool" where
  "past_barrier r \<longleftrightarrow> ef_semantics r = ''unsafe_to_retry'' \<and> ef_status r \<notin> {''planned'', ''failed''}"

lemma past_barrier_not_handed_out:
  assumes "distinct (map ef_key (db_effects d))" "r \<in> set (db_effects d)" "past_barrier r"
  shows "ef_key r \<notin> set (snd (egress_do E T d c))"
proof
  assume "ef_key r \<in> set (snd (egress_do E T d c))"
  then obtain s now_ms where "s \<in> set (db_effects d)" "ef_key s = ef_key r" "egress_ready now_ms d s" by (rule handed_out_ready)
  moreover from this have "s = r" using distinct_map_eq [OF assms(1) _ assms(2)] by blast
  ultimately show False using assms(3) by (auto simp: egress_ready_def past_barrier_def)
qed

lemma run_past_barrier:
  assumes "distinct (map ef_key (db_effects d))" "r \<in> set (db_effects d)" "past_barrier r"
  shows "(\<exists>r' \<in> set (db_effects (fst (egress_run E T d cs))). ef_key r' = ef_key r \<and> effect_step\<^sup>*\<^sup>* r r')
    \<and> ef_key r \<notin> set (snd (egress_run E T d cs))"
  using assms
proof (induction cs arbitrary: d r)
  case (Cons c cs)
  obtain d1 keys where c: "egress_do E T d c = (d1, keys)" by fastforce
  have m: "moves d d1" using moves_call [OF Cons.prems(1), of E T c] c by simp
  then obtain r1 where r1: "r1 \<in> set (db_effects d1)" "ef_key r1 = ef_key r" "effect_step\<^sup>=\<^sup>= r r1"
    using Cons.prems(2) by (auto simp: moves_def)
  have "past_barrier r1"
    using unsafe_no_restart [of r r1] r1(3) Cons.prems(3) by (auto simp: past_barrier_def)
  with Cons.IH [OF _ r1(1)] m have "(\<exists>r' \<in> set (db_effects (fst (egress_run E T d1 cs))). ef_key r' = ef_key r1 \<and> effect_step\<^sup>*\<^sup>* r1 r')
    \<and> ef_key r1 \<notin> set (snd (egress_run E T d1 cs))" by (simp add: moves_def)
  moreover have "effect_step\<^sup>*\<^sup>* r r1" using r1(3) by auto
  moreover have "ef_key r \<notin> set keys" using past_barrier_not_handed_out [OF Cons.prems, of E T c] c by simp
  ultimately show ?case using r1(2) c by (auto simp: Let_def split: prod.split intro: rtranclp_trans)
qed auto

text \<open>Only a current claim can record a start or an outcome, and an outcome ends it.\<close>

lemma stale_claim_refused:
  assumes "\<not> list_ex (is_current_claim claim now_ms) (db_effect_claims d)"
  shows "start_claimed_egress_delivery E T claim now_ms identity d = Err (InvalidCoordinationInput ''egress_claim'')"
    "finish_claimed_egress_delivery E T claim now_ms identity status res retry_at d = Err (InvalidCoordinationInput ''egress_claim'')"
  using assms by (simp_all add: start_claimed_egress_delivery_def finish_claimed_egress_delivery_def claimed_effect_def)

lemma finished_claim_is_spent:
  assumes "finish_claimed_egress_delivery E T claim now_ms identity status res retry_at d = Ok d'"
  shows "start_claimed_egress_delivery E T claim t identity' d' = Err (InvalidCoordinationInput ''egress_claim'')"
    "finish_claimed_egress_delivery E T claim t identity' status' res' retry_at' d' = Err (InvalidCoordinationInput ''egress_claim'')"
proof -
  have "\<not> list_ex (is_current_claim claim t) (db_effect_claims d')"
    using assms
    by (auto simp: finish_claimed_egress_delivery_def result_simps list_ex_iff is_current_claim_def split: if_splits)
  then show "start_claimed_egress_delivery E T claim t identity' d' = Err (InvalidCoordinationInput ''egress_claim'')"
    "finish_claimed_egress_delivery E T claim t identity' status' res' retry_at' d' = Err (InvalidCoordinationInput ''egress_claim'')"
    by (rule stale_claim_refused)+
qed

section \<open>Property\<close>

text \<open>C15: an effect that is unsafe to retry is delivered once.  After its delivery has started, no sequence of appended
  events, claims, renewals, releases of expired claims, starts and outcomes makes it planned, failed or started again or
  changes its count of deliveries, and none hands it to a worker again.\<close>

theorem unsafe_effect_delivered_once:
  assumes "distinct (map ef_key (db_effects d))" "r \<in> set (db_effects d)"
    and "ef_semantics r = ''unsafe_to_retry''" "ef_status r \<notin> {''planned'', ''failed''}"
    and "egress_run E T d calls = (d', handed_out)"
  shows "(\<exists>r' \<in> set (db_effects d'). ef_key r' = ef_key r
      \<and> ef_status r' \<notin> {''planned'', ''failed''} \<and> ef_delivery_attempts r' = ef_delivery_attempts r
      \<and> (ef_status r' = ''started'' \<longrightarrow> ef_status r = ''started''))
    \<and> ef_key r \<notin> set handed_out"
proof -
  have "past_barrier r" using assms(3,4) by (simp add: past_barrier_def)
  from run_past_barrier [OF assms(1,2) this, of E T calls] assms(5)
  obtain r' where r': "r' \<in> set (db_effects d')" "ef_key r' = ef_key r" "effect_step\<^sup>*\<^sup>* r r'" and out: "ef_key r \<notin> set handed_out"
    by auto
  from unsafe_no_restart [OF r'(3) assms(3,4)] r'(1,2) out show ?thesis by blast
qed

theorem unsafe_effect_delivered_once_witness:
  "\<exists>d' handed_out. egress_run journal_env no_time (db_empty\<lparr>db_effects := [sample_effect]\<rparr>)
       [EgressAppend sample_event, EgressClaim ''w'' ''t'' 5 10, EgressReconcile 20] = (d', handed_out)
     \<and> (\<exists>r' \<in> set (db_effects d'). ef_key r' = ''k'' \<and> ef_delivery_attempts r' = 1) \<and> ''k'' \<notin> set handed_out"
proof -
  obtain d' handed_out where run: "egress_run journal_env no_time (db_empty\<lparr>db_effects := [sample_effect]\<rparr>)
       [EgressAppend sample_event, EgressClaim ''w'' ''t'' 5 10, EgressReconcile 20] = (d', handed_out)"
    using prod.exhaust by blast
  have "ef_key sample_effect = ''k''" "ef_delivery_attempts sample_effect = 1"
    "ef_semantics sample_effect = ''unsafe_to_retry''" "ef_status sample_effect \<notin> {''planned'', ''failed''}"
    by (simp_all add: sample_effect_def)
  with unsafe_effect_delivered_once [OF _ _ _ _ run, of sample_effect]
  have out: "(\<exists>r' \<in> set (db_effects d'). ef_key r' = ''k'' \<and> ef_delivery_attempts r' = 1) \<and> ''k'' \<notin> set handed_out"
    by auto
  show ?thesis by (rule exI [of _ d'], rule exI [of _ handed_out], rule conjI [OF run out])
qed

end
