(* ===== verification/Spec2Isabelle.thy ===== *)
theory Spec2Isabelle
  imports Objects Store Ipc_Frame Ipc_Link Cancellation_Order Egress
begin

text \<open>
  \<^bold>\<open>Verification of the Zeta runtime.\<close>

  \<^bold>\<open>The program.\<close>  Zeta runs agents on events.  \<open>zeta-substrate\<close> gives values an address: canonical JSON, tagged hashes, a
  blob store.  \<open>zeta-journal\<close> keeps events in an append-only log whose entries are chained by hash.  \<open>zeta-dispatch\<close> stores
  that log in SQLite together with projections (queue items, attempts, waits, deferred publications, effects) and
  coordinates the workers that act on them.  \<open>zeta-ipc\<close> is the protocol between the runtime and its clients: framing, message
  shapes, validation, and the state of a session.  The substrate is used by the journal, the journal by Dispatch, and
  the runtime exposes Dispatch over the protocol.

  \<^bold>\<open>Conventions.\<close>  \<open>Prelude\<close> holds the result type (\<open>Ok\<close>, \<open>Err\<close>, \<open>and_then\<close>: the \<open>?\<close> of the source), the interface
  locales \<open>round_trip\<close> and \<open>spelling\<close>, and the shared list lemmas.  A text is a list of characters, read as bytes where the
  source reads bytes.  A JSON object is an association list.  A struct is a record whose fields carry a prefix, an enum
  is a datatype.  Every early return is a branch.  Third-party code is a parameter: \<open>env\<close> (the BLAKE3 hash, plain and in
  its key derivation mode, number printing and reading, the JSON parser), \<open>ipc_serde\<close>, \<open>format_lib\<close>, \<open>time_lib\<close>, and the
  power function of the retry delay.  What a property needs of them is a named hypothesis (\<open>digest_law\<close>,
  \<open>integer_printing\<close>, \<open>readable\<close>, \<open>payload_kept\<close>, \<open>reads_same\<close>), and \<open>Json_Reader\<close> builds an environment that satisfies them.

  \<^bold>\<open>Substrate.\<close>  \<open>Json\<close> and \<open>Float64\<close> model values and numbers, \<open>Canonical\<close> the canonical text of \<open>objects.rs\<close> (two values
  have one text exactly when they are equal up to the order of members and the spelling of numbers, which is that of
  \<open>python_number\<close>), \<open>Objects\<close> objects, derivations and refs, \<open>Hashing\<close> the tagged digests of \<open>hash.rs\<close> and \<open>domain.rs\<close>,
  \<open>Store\<close> the blob store of \<open>store.rs\<close> as a file system in which a write can stop at every step: a put that is cut off
  leaves either nothing or the whole blob.  The model has what other processes see, not what a power loss keeps.

  \<^bold>\<open>Journal.\<close>  \<open>Event\<close> and \<open>Chain\<close> model events, entries and the verifier of \<open>chain.rs\<close>: it accepts exactly the
  well-formed chains, reports the first divergence, and a verified head fixes the whole history.  \<open>Memory_Journal\<close> is
  \<open>memory.rs\<close>: every reachable journal verifies, it refines a list of events, a retry changes nothing, and the queries are
  filters and ancestry walks of that list.

  \<^bold>\<open>Protocol.\<close>  \<open>Ipc_Frame\<close>: one frame is read per line, however the transport cuts the input, and what is written
  arrives; only the preview of a line that is too long depends on the cuts.  \<open>Ipc_Message\<close> and \<open>Ipc_Validate\<close>: messages
  survive printing and parsing, and the validators accept exactly their shapes.  \<open>Ipc_Session\<close> is the state machine of
  \<open>session.rs\<close>: the handshake, the bound on requests in flight, heartbeats, and closing.  \<open>Ipc_Link\<close> runs it: over any
  sequence of calls each request is answered once, and two sessions connected by ordered channels accept every message
  of each other, because both apply the same rules to roles, methods, limits and ids.  These are the rules of the code;
  that it lets a client publish, which the written specification does not, is recorded as a finding.

  \<^bold>\<open>Dispatch.\<close>  \<open>Dispatch_State\<close>, \<open>Dispatch_Identity\<close>, \<open>Glob\<close> and \<open>Routes\<close> are \<open>state.rs\<close>, \<open>identity.rs\<close> and
  \<open>routing.rs\<close>.  \<open>Database\<close> holds the tables of \<open>sqlite.rs\<close>: a table is a list of rows, a statement has its documented
  meaning, a violated constraint is an error, and an error rolls the transaction back.  One connection is modelled: the
  operations of several workers interleave as whole transactions, and reads that an operation makes before its
  transaction are not separated from it.  \<open>Coordination\<close> is claims, leases and locks: live claims never share an item or a
  lock, the oldest unlocked item is taken, a lost claim can do nothing.  \<open>Sql_Journal\<close> shows that the stored journal
  answers like the one in memory.  \<open>Queue_Projection\<close>, \<open>Attempt_Projection\<close>, \<open>Resource_Projection\<close> and
  \<open>Effect_Projection\<close> index events into their tables, \<open>Projection\<close> and \<open>Replay\<close> put them together: replaying the journal
  rebuilds the tables, and the database is a durable log (the locale \<open>durable_log\<close>).  \<open>Table_Invariants\<close> is the
  well-formedness of all tables.  \<open>Route_Commit\<close> is the commit of a route plan.  \<open>Resources\<close> and \<open>Maintenance\<close> are waits
  and deferred publications: a bounded advance finishes what is due.

  \<^bold>\<open>Work on queue items and effects.\<close>  \<open>Attempt_Events\<close>, \<open>Attempts\<close> and \<open>Queue_Cancellation\<close> are the operations of
  \<open>attempts.rs\<close> and \<open>cancellation.rs\<close>: starting, failing and completing a claimed attempt, the controls of a completion,
  and the cancellation of items and runs.  \<open>Attempt_Outcomes\<close> shows how an attempt settles its item, in which order a
  completion appends its events, and that closing an attempt spends its claim; \<open>Cancellation_Order\<close> that an accepted
  cancellation wins over a later outcome; \<open>Reclaim\<close> that an item started twice after an expired lease leaves a journal
  that cannot be replayed, which contradicts the documentation and is recorded as a finding.  \<open>Egress\<close> is the delivery of
  connector effects in \<open>effects.rs\<close>: an effect that is unsafe to retry is never handed out again after its delivery
  started.  \<open>Samples\<close>, \<open>Attempt_Samples\<close> and \<open>Json_Reader\<close> provide the databases and the environments of the witnesses.

  \<^bold>\<open>Bounds.\<close>  No definition uses fuel.  Loops recur on the list or the limit that the source iterates over.  Cursors are
  natural numbers with the two limits of the source written out: the largest unsigned number in memory, the largest
  signed one in SQLite.  Timestamps are integers; the places where the source checks a range check it here.

  \<^bold>\<open>Not modelled.\<close>  Asynchronous I/O, sockets, child processes and the file system beyond the blob store; the agent loop
  and its model transports, whose behaviour is that of a language model and of remote services; the terminal client; the
  manifest parsers, which are thin layers over third-party TOML and YAML parsers; the opening and migration of the
  database file; the Python packages beside the native crates.  Of Dispatch, \<open>sessions.rs\<close> is left out, that is the
  reports on sessions and \<open>submit_session_message\<close>, which cancels the wait of a session and appends a message and its
  queue item, and \<open>trace.rs\<close>, which stores objects and derivations in two tables of their own and reads them back.
\<close>

end
